(* ===== verification/Prelude.thy ===== *)
theory Prelude
  imports Main "HOL-Library.List_Lexorder" "HOL-Library.Char_ord"
begin

text \<open>
  What every component shares: the exceptions the C++ code throws, the computations that may
  throw and that change a state, and the proof rules for them.

  A C++ function that reads and writes a component's state and may throw is a value of type
  \<open>('w, 'a) comp\<close>: it takes the state and returns either the exception (\<open>Inl\<close>) or the result
  (\<open>Inr\<close>), together with the state as it is then. The state is returned in both cases, since a
  C++ exception does not undo what was done before it. A pure function that may throw has type
  \<open>exn + 'a\<close>.
\<close>

section \<open>Exceptions and computations\<close>

text \<open>
  The exception classes of the program, each with its \<open>what()\<close> text. All of them derive from
  \<open>std::exception\<close>.
\<close>

datatype exn =
    MySqlException (ex_what: string)
  | RedisException (ex_what: string)
  | JwtException (ex_what: string)
  | ConfigException (ex_what: string)
  | StdException (ex_what: string)

type_synonym ('w, 'a) comp = "'w \<Rightarrow> (exn + 'a) \<times> 'w"

definition mret :: "'a \<Rightarrow> ('w, 'a) comp" where
  "mret x = (\<lambda>w. (Inr x, w))"

definition mthrow :: "exn \<Rightarrow> ('w, 'a) comp" where
  "mthrow e = (\<lambda>w. (Inl e, w))"

definition mbind :: "('w, 'a) comp \<Rightarrow> ('a \<Rightarrow> ('w, 'b) comp) \<Rightarrow> ('w, 'b) comp" where
  "mbind m f = (\<lambda>w. case m w of (Inl e, w') \<Rightarrow> (Inl e, w') | (Inr x, w') \<Rightarrow> f x w')"

text \<open>\<open>try { m } catch (const std::exception& e) { h e }\<close>.\<close>

definition mcatch :: "('w, 'a) comp \<Rightarrow> (exn \<Rightarrow> ('w, 'a) comp) \<Rightarrow> ('w, 'a) comp" where
  "mcatch m h = (\<lambda>w. case m w of (Inl e, w') \<Rightarrow> h e w' | (Inr x, w') \<Rightarrow> (Inr x, w'))"

text \<open>A destructor that runs on every way out of the scope, thrown exception or not.\<close>

definition mfinally :: "('w, 'a) comp \<Rightarrow> ('w \<Rightarrow> 'w) \<Rightarrow> ('w, 'a) comp" where
  "mfinally m d = (\<lambda>w. case m w of (r, w') \<Rightarrow> (r, d w'))"

definition mread :: "('w \<Rightarrow> 'a) \<Rightarrow> ('w, 'a) comp" where
  "mread f = (\<lambda>w. (Inr (f w), w))"

definition mmodify :: "('w \<Rightarrow> 'w) \<Rightarrow> ('w, unit) comp" where
  "mmodify f = (\<lambda>w. (Inr (), f w))"

text \<open>A pure step that may throw, inside a computation.\<close>

definition mlift :: "exn + 'a \<Rightarrow> ('w, 'a) comp" where
  "mlift r = (\<lambda>w. (r, w))"

text \<open>A computation on a part of a larger state.\<close>

definition mzoom :: "('w \<Rightarrow> 's) \<Rightarrow> ('s \<Rightarrow> 'w \<Rightarrow> 'w) \<Rightarrow> ('s, 'a) comp \<Rightarrow> ('w, 'a) comp" where
  "mzoom gt pt m = (\<lambda>w. case m (gt w) of (r, s) \<Rightarrow> (r, pt s w))"

text \<open>Pure sequencing: the C++ statement order of calls that may throw.\<close>

definition ebind :: "exn + 'a \<Rightarrow> ('a \<Rightarrow> exn + 'b) \<Rightarrow> exn + 'b" where
  "ebind m f = (case m of Inl e \<Rightarrow> Inl e | Inr x \<Rightarrow> f x)"

named_theorems run_simps \<open>how each computation runs on a state\<close>
named_theorems run_iff \<open>when a computation returns a result\<close>

lemma mret_run [run_simps]: "mret x w = (Inr x, w)"
  by (simp add: mret_def)

lemma mthrow_run [run_simps]: "mthrow e w = (Inl e, w)"
  by (simp add: mthrow_def)

lemma mread_run [run_simps]: "mread f w = (Inr (f w), w)"
  by (simp add: mread_def)

lemma mmodify_run [run_simps]: "mmodify f w = (Inr (), f w)"
  by (simp add: mmodify_def)

lemma mlift_run [run_simps]: "mlift r w = (r, w)"
  by (simp add: mlift_def)

lemma mbind_run [run_simps]:
  "mbind m f w = (case m w of (Inl e, w') \<Rightarrow> (Inl e, w') | (Inr x, w') \<Rightarrow> f x w')"
  by (simp add: mbind_def)

lemma mcatch_run [run_simps]:
  "mcatch m h w = (case m w of (Inl e, w') \<Rightarrow> h e w' | (Inr x, w') \<Rightarrow> (Inr x, w'))"
  by (simp add: mcatch_def)

lemma mfinally_run [run_simps]: "mfinally m d w = (case m w of (r, w') \<Rightarrow> (r, d w'))"
  by (simp add: mfinally_def)

lemma mzoom_run [run_simps]: "mzoom gt pt m w = (case m (gt w) of (r, s) \<Rightarrow> (r, pt s w))"
  by (simp add: mzoom_def)

lemma ebind_simps [simp]: "ebind (Inl e) f = Inl e" "ebind (Inr x) f = f x"
  by (simp_all add: ebind_def)

lemma ebind_Inr_iff [run_iff]: "ebind m f = Inr y \<longleftrightarrow> (\<exists>x. m = Inr x \<and> f x = Inr y)"
  by (cases m) auto

text \<open>Elimination rules: which run can have returned this result.\<close>

lemma mbind_InrE:
  assumes "mbind m f w = (Inr y, w')"
  obtains x w1 where "m w = (Inr x, w1)" and "f x w1 = (Inr y, w')"
  using assms by (auto simp: mbind_def split: prod.splits sum.splits)

lemma mbind_Inr_iff [run_iff]:
  "mbind m f w = (Inr y, w') \<longleftrightarrow> (\<exists>x w1. m w = (Inr x, w1) \<and> f x w1 = (Inr y, w'))"
  by (auto simp: mbind_def split: prod.splits sum.splits)

lemma mcatch_Inr_iff [run_iff]:
  "mcatch m h w = (Inr y, w') \<longleftrightarrow>
     m w = (Inr y, w') \<or> (\<exists>e w1. m w = (Inl e, w1) \<and> h e w1 = (Inr y, w'))"
  by (auto simp: mcatch_def split: prod.splits sum.splits)

lemma mret_iff [run_iff]: "mret x w = (Inr y, w') \<longleftrightarrow> y = x \<and> w' = w"
  by (auto simp: mret_def)

lemma mthrow_iff [run_iff]: "mthrow e w = (Inr y, w') \<longleftrightarrow> False"
  by (simp add: mthrow_def)

lemma mread_iff [run_iff]: "mread f w = (Inr y, w') \<longleftrightarrow> y = f w \<and> w' = w"
  by (auto simp: mread_def)

lemma mmodify_iff [run_iff]: "mmodify f w = (Inr y, w') \<longleftrightarrow> w' = f w"
  by (auto simp: mmodify_def)

lemma mlift_iff [run_iff]: "mlift r w = (Inr y, w') \<longleftrightarrow> r = Inr y \<and> w' = w"
  by (auto simp: mlift_def)

lemma mzoom_iff [run_iff]:
  "mzoom gt pt m w = (Inr y, w') \<longleftrightarrow> (\<exists>s. m (gt w) = (Inr y, s) \<and> w' = pt s w)"
  by (auto simp: mzoom_def split: prod.splits)

section \<open>What a computation keeps\<close>

text \<open>
  \<open>keeps R m\<close>: from every state, the state after \<open>m\<close> (returned or thrown) is related by \<open>R\<close> to the
  one before. For a reflexive and transitive \<open>R\<close> the property passes through every combinator, so
  that a property of a handler follows from the properties of the operations it calls. The locale
  proves the rules once; each component interprets it on the relations it needs.
\<close>

definition keeps :: "('w \<Rightarrow> 'w \<Rightarrow> bool) \<Rightarrow> ('w, 'a) comp \<Rightarrow> bool" where
  "keeps R m \<longleftrightarrow> (\<forall>w. R w (snd (m w)))"

lemma keepsI: "(\<And>w r w'. m w = (r, w') \<Longrightarrow> R w w') \<Longrightarrow> keeps R m"
  unfolding keeps_def by (metis prod.collapse)

lemma keepsD: "keeps R m \<Longrightarrow> m w = (r, w') \<Longrightarrow> R w w'"
  unfolding keeps_def by (metis snd_conv)

locale frame =
  fixes R :: "'w \<Rightarrow> 'w \<Rightarrow> bool"
  assumes frame_refl: "R w w"
    and frame_trans: "R u v \<Longrightarrow> R v w \<Longrightarrow> R u w"
begin

lemma keeps_mret: "keeps R (mret x)"
  by (simp add: keeps_def mret_def frame_refl)

lemma keeps_mthrow: "keeps R (mthrow e)"
  by (simp add: keeps_def mthrow_def frame_refl)

lemma keeps_mread: "keeps R (mread f)"
  by (simp add: keeps_def mread_def frame_refl)

lemma keeps_mlift: "keeps R (mlift r)"
  by (simp add: keeps_def mlift_def frame_refl)

lemma keeps_mmodify: "(\<And>w. R w (f w)) \<Longrightarrow> keeps R (mmodify f)"
  by (simp add: keeps_def mmodify_def)

lemma keeps_mbind: "keeps R m \<Longrightarrow> (\<And>x. keeps R (f x)) \<Longrightarrow> keeps R (mbind m f)"
  unfolding keeps_def mbind_def
  by (auto split: prod.splits sum.splits) (metis frame_trans snd_conv)+

lemma keeps_mcatch: "keeps R m \<Longrightarrow> (\<And>e. keeps R (h e)) \<Longrightarrow> keeps R (mcatch m h)"
  unfolding keeps_def mcatch_def
  by (auto split: prod.splits sum.splits) (metis frame_trans snd_conv)+

lemma keeps_if: "keeps R m \<Longrightarrow> keeps R n \<Longrightarrow> keeps R (if b then m else n)"
  by simp

lemma keeps_option:
  "keeps R m \<Longrightarrow> (\<And>x. keeps R (f x)) \<Longrightarrow> keeps R (case p of None \<Rightarrow> m | Some x \<Rightarrow> f x)"
  by (simp split: option.split)

lemma keeps_list:
  "keeps R m \<Longrightarrow> (\<And>x xs. keeps R (f x xs)) \<Longrightarrow> keeps R (case p of [] \<Rightarrow> m | x # xs \<Rightarrow> f x xs)"
  by (simp split: list.split)

lemma keeps_sum:
  "(\<And>x. keeps R (f x)) \<Longrightarrow> (\<And>x. keeps R (g x)) \<Longrightarrow> keeps R (case p of Inl x \<Rightarrow> f x | Inr x \<Rightarrow> g x)"
  by (simp split: sum.split)

lemma keeps_prod: "(\<And>x y. keeps R (f x y)) \<Longrightarrow> keeps R (case p of (x, y) \<Rightarrow> f x y)"
  by (simp split: prod.split)

lemma keeps_let: "(\<And>x. keeps R (f x)) \<Longrightarrow> keeps R (let x = t in f x)"
  by simp

lemmas keeps_rules = keeps_mret keeps_mthrow keeps_mread keeps_mlift keeps_mbind keeps_mcatch
  keeps_if keeps_option keeps_list keeps_sum keeps_prod keeps_let

end

section \<open>Lists used as tables\<close>

text \<open>
  A database table is the list of its rows. \<open>update_rows p f\<close> is an SQL \<open>UPDATE\<close>: it changes the rows
  that satisfy \<open>p\<close>. \<open>changed_rows\<close> counts the rows whose content really changed, which is what
  \<open>mysql_affected_rows\<close> reports for a connection opened without \<open>CLIENT_FOUND_ROWS\<close>.
\<close>

definition update_rows :: "('r \<Rightarrow> bool) \<Rightarrow> ('r \<Rightarrow> 'r) \<Rightarrow> 'r list \<Rightarrow> 'r list" where
  "update_rows p f rs = map (\<lambda>r. if p r then f r else r) rs"

definition changed_rows :: "('r \<Rightarrow> bool) \<Rightarrow> ('r \<Rightarrow> 'r) \<Rightarrow> 'r list \<Rightarrow> nat" where
  "changed_rows p f rs = length (filter (\<lambda>r. p r \<and> f r \<noteq> r) rs)"

lemma update_rows_simps [simp]:
  "update_rows p f [] = []"
  "update_rows p f (r # rs) = (if p r then f r else r) # update_rows p f rs"
  by (simp_all add: update_rows_def)

lemma changed_rows_simps [simp]:
  "changed_rows p f [] = 0"
  "changed_rows p f (r # rs) = (if p r \<and> f r \<noteq> r then Suc (changed_rows p f rs) else changed_rows p f rs)"
  by (simp_all add: changed_rows_def)

lemma length_update_rows [simp]: "length (update_rows p f rs) = length rs"
  by (simp add: update_rows_def)

lemma update_rows_unchanged: "\<forall>r\<in>set rs. \<not> p r \<Longrightarrow> update_rows p f rs = rs"
  by (induction rs) auto

lemma changed_rows_none: "\<forall>r\<in>set rs. \<not> p r \<Longrightarrow> changed_rows p f rs = 0"
  by (induction rs) auto

lemma in_update_rows: "r' \<in> set (update_rows p f rs) \<longleftrightarrow> (\<exists>r\<in>set rs. r' = (if p r then f r else r))"
  by (auto simp: update_rows_def)

end
