(* ===== verification/Text.thy ===== *)
theory Text
  imports Prelude
begin

text \<open>
  The \<open>std::string\<close> operations the program is written with. A \<open>std::string\<close> is a \<open>string\<close>: the list
  of its bytes. \<open>find\<close> followed by two \<open>substr\<close> calls is \<open>cut\<close> (a character) or \<open>cut_str\<close> (a text);
  loops that advance a position \<open>pos\<close> through a string are recursions on the rest
  \<open>substr(pos)\<close>. The character classes are those of the C locale, the only one the program uses.
  The helpers that several source files repeat word for word (\<open>trim\<close>, \<open>toLower\<close>, \<open>toHex\<close>) are
  defined here once.
\<close>

section \<open>Searching\<close>

text \<open>\<open>cut c s\<close>: the parts before and after the first \<open>c\<close>; \<open>None\<close> is \<open>npos\<close>.\<close>

fun cut :: "char \<Rightarrow> string \<Rightarrow> (string \<times> string) option" where
  "cut c [] = None"
| "cut c (x # xs) =
     (if x = c then Some ([], xs)
      else case cut c xs of None \<Rightarrow> None | Some (a, b) \<Rightarrow> Some (x # a, b))"

definition is_prefix :: "string \<Rightarrow> string \<Rightarrow> bool" where
  "is_prefix p s \<longleftrightarrow> take (length p) s = p"

fun cut_str :: "string \<Rightarrow> string \<Rightarrow> (string \<times> string) option" where
  "cut_str p [] = (if p = [] then Some ([], []) else None)"
| "cut_str p (x # xs) =
     (if is_prefix p (x # xs) then Some ([], drop (length p) (x # xs))
      else case cut_str p xs of None \<Rightarrow> None | Some (a, b) \<Rightarrow> Some (x # a, b))"

lemma cut_Some_iff: "cut c s = Some (a, b) \<longleftrightarrow> s = a @ c # b \<and> c \<notin> set a"
proof (induction s arbitrary: a)
  case Nil
  then show ?case by simp
next
  case (Cons x xs)
  show ?case
  proof (cases "x = c")
    case True
    then show ?thesis by (cases a) auto
  next
    case False
    then have "cut c (x # xs) = Some (a, b) \<longleftrightarrow> (\<exists>a'. cut c xs = Some (a', b) \<and> a = x # a')"
      by (auto split: option.splits)
    with False show ?thesis by (cases a) (auto simp: Cons.IH)
  qed
qed

lemma cut_None_iff: "cut c s = None \<longleftrightarrow> c \<notin> set s"
  by (induction s) (auto split: option.splits)

lemma cut_found [simp]: "c \<notin> set a \<Longrightarrow> cut c (a @ c # b) = Some (a, b)"
  by (simp add: cut_Some_iff)

lemma cut_absent [simp]: "c \<notin> set s \<Longrightarrow> cut c s = None"
  by (simp add: cut_None_iff)

lemma cut_length: "cut c s = Some (a, b) \<Longrightarrow> length a + length b < length s"
  by (simp add: cut_Some_iff)

lemma is_prefix_append [simp]: "is_prefix p (p @ s)"
  by (simp add: is_prefix_def)

lemma is_prefix_iff: "is_prefix p s \<longleftrightarrow> (\<exists>r. s = p @ r)"
  by (metis append_eq_conv_conj append_take_drop_id is_prefix_def)

lemma cut_str_Some: "cut_str p s = Some (a, b) \<Longrightarrow> s = a @ p @ b"
proof (induction p s arbitrary: a rule: cut_str.induct)
  case (1 p)
  then show ?case by (simp split: if_splits)
next
  case (2 p x xs)
  show ?case
  proof (cases "is_prefix p (x # xs)")
    case True
    with "2.prems" show ?thesis
      by (auto simp: is_prefix_def) (metis append_take_drop_id)
  next
    case False
    with 2 show ?thesis by (auto split: option.splits prod.splits)
  qed
qed

section \<open>Character classes and case\<close>

definition code :: "char \<Rightarrow> nat" where
  "code c = of_char c"

definition is_space :: "char \<Rightarrow> bool" where
  "is_space c \<longleftrightarrow> code c = 32 \<or> (9 \<le> code c \<and> code c \<le> 13)"

definition is_digit :: "char \<Rightarrow> bool" where
  "is_digit c \<longleftrightarrow> 48 \<le> code c \<and> code c \<le> 57"

definition tolower :: "char \<Rightarrow> char" where
  "tolower c = (if 65 \<le> code c \<and> code c \<le> 90 then char_of (code c + 32) else c)"

definition toupper :: "char \<Rightarrow> char" where
  "toupper c = (if 97 \<le> code c \<and> code c \<le> 122 then char_of (code c - 32) else c)"

definition toLower :: "string \<Rightarrow> string" where
  "toLower value = map tolower value"

lemma code_char_of [simp]: "n < 256 \<Longrightarrow> code (char_of n) = n"
  by (simp add: code_def)

lemma code_less [simp]: "code c < 256"
  using range_nat_of_char by (auto simp: code_def)

lemma code_inject: "code a = code b \<longleftrightarrow> a = b"
  by (simp add: code_def)

lemma tolower_idem [simp]: "tolower (tolower c) = tolower c"
  by (simp add: tolower_def)

lemma toupper_idem [simp]: "toupper (toupper c) = toupper c"
proof (cases "97 \<le> code c \<and> code c \<le> 122")
  case True
  then have "code (char_of (code c - 32)) = code c - 32" by (intro code_char_of) auto
  with True show ?thesis by (auto simp: toupper_def)
next
  case False
  then show ?thesis by (auto simp: toupper_def)
qed

lemma toLower_idem [simp]: "toLower (toLower s) = toLower s"
  by (simp add: toLower_def)

section \<open>Trimming\<close>

text \<open>The characters of \<open>" \t\r\n"\<close>.\<close>

definition is_blank :: "char \<Rightarrow> bool" where
  "is_blank c \<longleftrightarrow> code c \<in> {32, 9, 13, 10}"

text \<open>\<open>start\<close> is the first character that is not blank, \<open>end\<close> the last one.\<close>

definition trim :: "string \<Rightarrow> string" where
  "trim input = rev (dropWhile is_blank (rev (dropWhile is_blank input)))"

lemma dropWhile_id: "(s \<noteq> [] \<Longrightarrow> \<not> P (hd s)) \<Longrightarrow> dropWhile P s = s"
  by (cases s) auto

lemma trim_id: "(s \<noteq> [] \<Longrightarrow> \<not> is_blank (hd s) \<and> \<not> is_blank (last s)) \<Longrightarrow> trim s = s"
  by (cases "s = []") (simp_all add: trim_def dropWhile_id hd_rev)

lemma trim_hd: "trim s \<noteq> [] \<Longrightarrow> \<not> is_blank (hd (trim s))"
proof -
  let ?t = "dropWhile is_blank s"
  assume ne: "trim s \<noteq> []"
  obtain u where u: "rev ?t = u @ dropWhile is_blank (rev ?t)"
    by (metis takeWhile_dropWhile_id)
  then have t: "?t = trim s @ rev u"
    by (metis rev_append rev_rev_ident trim_def)
  with ne have "hd ?t = hd (trim s)" and "?t \<noteq> []" by auto
  then show ?thesis by (metis hd_dropWhile)
qed

lemma trim_last: "trim s \<noteq> [] \<Longrightarrow> \<not> is_blank (last (trim s))"
  unfolding trim_def by (metis hd_dropWhile last_rev rev_is_Nil_conv)

lemma trim_idem [simp]: "trim (trim s) = trim s"
  by (rule trim_id) (simp add: trim_hd trim_last)

lemma trim_blank_left: "is_blank c \<Longrightarrow> trim (c # s) = trim s"
  by (simp add: trim_def)

section \<open>Splitting\<close>

text \<open>\<open>JwtService::split\<close>: \<open>cur\<close> collects the characters since the last delimiter.\<close>

fun split_loop :: "char \<Rightarrow> string \<Rightarrow> string \<Rightarrow> string list" where
  "split_loop d cur [] = [cur]"
| "split_loop d cur (c # cs) =
     (if c = d then cur # split_loop d [] cs else split_loop d (cur @ [c]) cs)"

definition split :: "string \<Rightarrow> char \<Rightarrow> string list" where
  "split s delimiter = split_loop delimiter [] s"

fun join :: "char \<Rightarrow> string list \<Rightarrow> string" where
  "join d [] = []"
| "join d [p] = p"
| "join d (p # q # ps) = p @ d # join d (q # ps)"

lemma split_loop_ne [simp]: "split_loop d cur s \<noteq> []"
  by (induction s arbitrary: cur) auto

lemma join_split_loop: "join d (split_loop d cur s) = cur @ s"
proof (induction s arbitrary: cur)
  case Nil
  then show ?case by simp
next
  case (Cons c s)
  have step: "join d (x # ys) = x @ d # join d ys" if "ys \<noteq> []" for x ys
    using that by (cases ys) auto
  from Cons show ?case by (simp add: step)
qed

lemma split_loop_parts: "d \<notin> set cur \<Longrightarrow> p \<in> set (split_loop d cur s) \<Longrightarrow> d \<notin> set p"
proof (induction s arbitrary: cur)
  case Nil
  then show ?case by simp
next
  case (Cons c s)
  then show ?case
    using Cons.IH [of "[]"] Cons.IH [of "cur @ [c]"] by (auto split: if_splits)
qed

lemma join_split: "join d (split s d) = s"
  by (simp add: split_def join_split_loop)

lemma split_parts: "p \<in> set (split s d) \<Longrightarrow> d \<notin> set p"
  unfolding split_def by (rule split_loop_parts) auto

lemma split_loop_part: "d \<notin> set p \<Longrightarrow> split_loop d cur (p @ d # s) = (cur @ p) # split_loop d [] s"
  by (induction p arbitrary: cur) auto

lemma split_loop_last: "d \<notin> set p \<Longrightarrow> split_loop d cur p = [cur @ p]"
  by (induction p arbitrary: cur) auto

lemma split_three:
  "d \<notin> set a \<Longrightarrow> d \<notin> set b \<Longrightarrow> d \<notin> set c \<Longrightarrow> split (a @ d # b @ d # c) d = [a, b, c]"
  by (simp add: split_def split_loop_part split_loop_last)

section \<open>Lines\<close>

text \<open>
  The lines \<open>std::getline\<close> yields: what lies between line feeds, and no line after a final line
  feed.
\<close>

fun getlines :: "string \<Rightarrow> string list" where
  "getlines [] = []"
| "getlines (c # cs) =
     (if c = CHR 0x0A then [] # getlines cs
      else case getlines cs of [] \<Rightarrow> [[c]]
           | l # ls \<Rightarrow> (c # l) # ls)"

text \<open>A line feed ends a line and nothing else does.\<close>

lemma getlines_line: "CHR 0x0A \<notin> set l \<Longrightarrow> getlines (l @ CHR 0x0A # s) = l # getlines s"
  by (induction l) auto

lemma getlines_last: "CHR 0x0A \<notin> set l \<Longrightarrow> l \<noteq> [] \<Longrightarrow> getlines l = [l]"
proof (induction l)
  case Nil
  then show ?case by simp
next
  case (Cons c l)
  then show ?case by (cases l) auto
qed

text \<open>
  A line of an HTTP head ends in carriage return and line feed; the code takes the carriage return
  off what \<open>getline\<close> yields.
\<close>

definition crlf :: string where
  "crlf = [CHR 0x0D, CHR 0x0A]"

definition drop_cr :: "string \<Rightarrow> string" where
  "drop_cr line = (if line \<noteq> [] \<and> last line = CHR 0x0D then butlast line else line)"

lemma drop_cr_cr [simp]: "drop_cr (l @ [CHR 0x0D]) = l"
  by (simp add: drop_cr_def)

lemma drop_cr_id: "(l \<noteq> [] \<Longrightarrow> last l \<noteq> CHR 0x0D) \<Longrightarrow> drop_cr l = l"
  by (auto simp: drop_cr_def)

section \<open>Words\<close>

text \<open>\<open>stream >> word\<close>: skip white space, take what is not white space.\<close>

definition read_word :: "string \<Rightarrow> string \<times> string" where
  "read_word s = (let t = dropWhile is_space s
     in (takeWhile (\<lambda>c. \<not> is_space c) t, dropWhile (\<lambda>c. \<not> is_space c) t))"

text \<open>A word is what \<open>>>\<close> can yield.\<close>

definition is_word :: "string \<Rightarrow> bool" where
  "is_word w \<longleftrightarrow> w \<noteq> [] \<and> (\<forall>c\<in>set w. \<not> is_space c)"

lemma read_word_is_word: "read_word s = (w, r) \<Longrightarrow> w \<noteq> [] \<Longrightarrow> is_word w"
  by (auto simp: read_word_def is_word_def Let_def dest: set_takeWhileD)

lemma read_word_word:
  assumes "is_word w" and "r \<noteq> [] \<Longrightarrow> is_space (hd r)"
  shows "read_word (w @ r) = (w, r)"
proof -
  have "dropWhile is_space (w @ r) = w @ r" using assms(1) by (cases w) (auto simp: is_word_def)
  moreover have "takeWhile (\<lambda>c. \<not> is_space c) (w @ r) = w" "dropWhile (\<lambda>c. \<not> is_space c) (w @ r) = r"
    using assms by (cases r; simp add: is_word_def takeWhile_append2 dropWhile_append2)+
  ultimately show ?thesis by (simp add: read_word_def)
qed

lemma read_word_blank: "is_space c \<Longrightarrow> read_word (c # s) = read_word s"
  by (simp add: read_word_def)

section \<open>C strings\<close>

text \<open>\<open>c_str()\<close> as a C function reads it, which is a \<open>%s\<close> of \<open>redisCommand\<close> or the text of \<open>mysql_query\<close>:
  it ends at the first zero byte.\<close>

definition c_str :: "string \<Rightarrow> string" where
  "c_str s = takeWhile (\<lambda>c. c \<noteq> CHR 0x00) s"

lemma c_str_id [simp]: "CHR 0x00 \<notin> set s \<Longrightarrow> c_str s = s"
  by (auto simp: c_str_def takeWhile_eq_all_conv)

end
