(* ===== verification/Messages.thy ===== *)
theory Messages
  imports Text
begin

text \<open>
  The text literals of the program that are not ASCII, as their UTF-8 bytes. The comment behind each
  definition is its English translation. No proof looks into them, except that a few are not empty.
\<close>

definition utf8 :: "nat list \<Rightarrow> string" where
  "utf8 bs = map char_of bs"

lemma utf8_Nil_iff [simp]: "utf8 bs = [] \<longleftrightarrow> bs = []"
  by (simp add: utf8_def)

text \<open>random number generation failed\<close>

definition M_rand_failed :: string where
  "M_rand_failed = utf8 [231, 148, 159, 230, 136, 144, 233, 154, 143, 230, 156, 186, 230, 149, 176, 229, 164, 177, 232, 180,
     165]"

text \<open>the request body is not valid JSON\<close>

definition M_body_not_json :: string where
  "M_body_not_json = utf8 [232, 175, 183, 230, 177, 130, 228, 189, 147, 228, 184, 141, 230, 152, 175, 229, 144, 136, 230, 179,
     149, 32, 74, 83, 79, 78]"

text \<open>username or password must not be empty\<close>

definition M_login_empty :: string where
  "M_login_empty = utf8 [117, 115, 101, 114, 110, 97, 109, 101, 32, 230, 136, 150, 32, 112, 97, 115, 115, 119, 111, 114,
     100, 32, 228, 184, 141, 232, 131, 189, 228, 184, 186, 231, 169, 186]"

text \<open>user invalid\<close>

definition M_user_gone :: string where
  "M_user_gone = utf8 [231, 148, 168, 230, 136, 183, 229, 164, 177, 230, 149, 136]"

text \<open>wrong password\<close>

definition M_password_wrong :: string where
  "M_password_wrong = utf8 [229, 175, 134, 231, 160, 129, 233, 148, 153, 232, 175, 175]"

text \<open>could not create the login session\<close>

definition M_login_session_failed :: string where
  "M_login_session_failed = utf8 [229, 136, 155, 229, 187, 186, 231, 153, 187, 229, 189, 149, 228, 188, 154, 232, 175, 157, 229, 164,
     177, 232, 180, 165]"

text \<open>X-User-Id missing\<close>

definition M_missing_user_id :: string where
  "M_missing_user_id = utf8 [231, 188, 186, 229, 176, 145, 32, 88, 45, 85, 115, 101, 114, 45, 73, 100]"

text \<open>no such order\<close>

definition M_order_missing :: string where
  "M_order_missing = utf8 [232, 174, 162, 229, 141, 149, 228, 184, 141, 229, 173, 152, 229, 156, 168]"

text \<open>no such account\<close>

definition M_account_missing :: string where
  "M_account_missing = utf8 [232, 180, 166, 229, 143, 183, 228, 184, 141, 229, 173, 152, 229, 156, 168]"

text \<open>request body JSON illegal\<close>

definition M_json_illegal :: string where
  "M_json_illegal = utf8 [232, 175, 183, 230, 177, 130, 228, 189, 147, 32, 74, 83, 79, 78, 32, 233, 157, 158, 230, 179,
     149]"

text \<open>parameters incomplete or agreement not checked\<close>

definition M_confirm_params :: string where
  "M_confirm_params = utf8 [229, 143, 130, 230, 149, 176, 228, 184, 141, 229, 174, 140, 230, 149, 180, 230, 136, 150, 230, 156,
     170, 229, 139, 190, 233, 128, 137, 229, 141, 143, 232, 174, 174]"

text \<open>user state abnormal\<close>

definition M_user_abnormal :: string where
  "M_user_abnormal = utf8 [231, 148, 168, 230, 136, 183, 231, 138, 182, 230, 128, 129, 229, 188, 130, 229, 184, 184]"

text \<open>user has not completed e-mail or id card\<close>

definition M_real_auth_missing :: string where
  "M_real_auth_missing = utf8 [231, 148, 168, 230, 136, 183, 230, 156, 170, 232, 161, 165, 229, 133, 168, 233, 130, 174, 231, 174,
     177, 229, 143, 183, 230, 136, 150, 232, 186, 171, 228, 187, 189, 232, 175, 129, 229, 143, 183]"

text \<open>no such order or not the buyer's\<close>

definition M_order_not_owned :: string where
  "M_order_not_owned = utf8 [232, 174, 162, 229, 141, 149, 228, 184, 141, 229, 173, 152, 229, 156, 168, 230, 136, 150, 229, 189,
     146, 229, 177, 158, 228, 184, 141, 229, 140, 185, 233, 133, 141]"

text \<open>order not payable\<close>

definition M_order_unpayable :: string where
  "M_order_unpayable = utf8 [232, 174, 162, 229, 141, 149, 228, 184, 141, 229, 143, 175, 230, 148, 175, 228, 187, 152]"

text \<open>account not tradable\<close>

definition M_account_untradable :: string where
  "M_account_untradable = utf8 [232, 180, 166, 229, 143, 183, 228, 184, 141, 229, 143, 175, 228, 186, 164, 230, 152, 147]"

text \<open>parameters incomplete\<close>

definition M_params_incomplete :: string where
  "M_params_incomplete = utf8 [229, 143, 130, 230, 149, 176, 228, 184, 141, 229, 174, 140, 230, 149, 180]"

text \<open>could not update the real-name data\<close>

definition M_real_auth_failed :: string where
  "M_real_auth_failed = utf8 [230, 155, 180, 230, 150, 176, 229, 174, 158, 229, 144, 141, 228, 191, 161, 230, 129, 175, 229, 164,
     177, 232, 180, 165]"

text \<open>token missing\<close>

definition M_missing_token :: string where
  "M_missing_token = utf8 [231, 188, 186, 229, 176, 145, 32, 116, 111, 107, 101, 110]"

text \<open>payment session invalid\<close>

definition M_session_invalid :: string where
  "M_session_invalid = utf8 [230, 148, 175, 228, 187, 152, 228, 188, 154, 232, 175, 157, 230, 151, 160, 230, 149, 136]"

text \<open>qr_token missing\<close>

definition M_missing_qr_token :: string where
  "M_missing_qr_token = utf8 [231, 188, 186, 229, 176, 145, 32, 113, 114, 95, 116, 111, 107, 101, 110]"

text \<open>no such payment attempt\<close>

definition M_attempt_missing :: string where
  "M_attempt_missing = utf8 [230, 148, 175, 228, 187, 152, 229, 176, 157, 232, 175, 149, 228, 184, 141, 229, 173, 152, 229, 156,
     168]"

text \<open>payment already failed\<close>

definition M_pay_failed :: string where
  "M_pay_failed = utf8 [230, 148, 175, 228, 187, 152, 229, 183, 178, 229, 164, 177, 232, 180, 165]"

text \<open>payment session mismatch\<close>

definition M_session_mismatch :: string where
  "M_session_mismatch = utf8 [230, 148, 175, 228, 187, 152, 228, 188, 154, 232, 175, 157, 228, 184, 141, 229, 140, 185, 233, 133,
     141]"

text \<open>wrong payment password\<close>

definition M_pay_password_wrong :: string where
  "M_pay_password_wrong = utf8 [230, 148, 175, 228, 187, 152, 229, 175, 134, 231, 160, 129, 233, 148, 153, 232, 175, 175]"

text \<open>payment transaction failed\<close>

definition M_pay_txn_failed :: string where
  "M_pay_txn_failed = utf8 [230, 148, 175, 228, 187, 152, 228, 186, 139, 229, 138, 161, 229, 164, 177, 232, 180, 165]"

text \<open>no such endpoint\<close>

definition M_no_route :: string where
  "M_no_route = utf8 [230, 156, 170, 230, 137, 190, 229, 136, 176, 230, 142, 165, 229, 143, 163]"

text \<open>internal server error\<close>

definition M_server_error :: string where
  "M_server_error = utf8 [230, 156, 141, 229, 138, 161, 229, 153, 168, 229, 134, 133, 233, 131, 168, 233, 148, 153, 232, 175,
     175]"

text \<open>e-mail format error\<close>

definition M_email_format :: string where
  "M_email_format = utf8 [233, 130, 174, 231, 174, 177, 230, 160, 188, 229, 188, 143, 233, 148, 153, 232, 175, 175]"

text \<open>id card format error\<close>

definition M_id_card_format :: string where
  "M_id_card_format = utf8 [232, 186, 171, 228, 187, 189, 232, 175, 129, 229, 143, 183, 230, 160, 188, 229, 188, 143, 233, 148,
     153, 232, 175, 175]"

text \<open>JWT_SECRET must not be empty\<close>

definition M_jwt_secret_empty :: string where
  "M_jwt_secret_empty = utf8 [74, 87, 84, 95, 83, 69, 67, 82, 69, 84, 32, 228, 184, 141, 232, 131, 189, 228, 184, 186,
     231, 169, 186]"

text \<open>unsupported JWT algorithm\<close>

definition M_jwt_alg_unsupported :: string where
  "M_jwt_alg_unsupported = utf8 [228, 184, 141, 230, 148, 175, 230, 140, 129, 231, 154, 132, 32, 74, 87, 84, 32, 231, 174, 151,
     230, 179, 149, 58, 32]"

text \<open>QR token lifetime must be positive\<close>

definition M_jwt_ttl_positive :: string where
  "M_jwt_ttl_positive = utf8 [74, 87, 84, 32, 228, 186, 140, 231, 187, 180, 231, 160, 129, 32, 84, 111, 107, 101, 110, 32,
     230, 156, 137, 230, 149, 136, 230, 156, 159, 229, 191, 133, 233, 161, 187, 228, 184, 186, 230, 173,
     163, 230, 149, 176]"

text \<open>QR token expired\<close>

definition M_qr_expired :: string where
  "M_qr_expired = utf8 [230, 148, 175, 228, 187, 152, 228, 186, 140, 231, 187, 180, 231, 160, 129, 32, 84, 111, 107, 101,
     110, 32, 229, 183, 178, 232, 191, 135, 230, 156, 159]"

text \<open>JWT malformed\<close>

definition M_jwt_format :: string where
  "M_jwt_format = utf8 [74, 87, 84, 32, 84, 111, 107, 101, 110, 32, 230, 160, 188, 229, 188, 143, 233, 157, 158, 230,
     179, 149]"

text \<open>JWT header is not an object\<close>

definition M_jwt_header_object :: string where
  "M_jwt_header_object = utf8 [74, 87, 84, 32, 72, 101, 97, 100, 101, 114, 32, 228, 184, 141, 230, 152, 175, 32, 74, 83,
     79, 78, 32, 229, 175, 185, 232, 177, 161]"

text \<open>JWT type mismatch\<close>

definition M_jwt_type :: string where
  "M_jwt_type = utf8 [74, 87, 84, 32, 231, 177, 187, 229, 158, 139, 228, 184, 141, 229, 140, 185, 233, 133, 141]"

text \<open>JWT algorithm mismatch\<close>

definition M_jwt_alg :: string where
  "M_jwt_alg = utf8 [74, 87, 84, 32, 231, 174, 151, 230, 179, 149, 228, 184, 141, 229, 140, 185, 233, 133, 141]"

text \<open>JWT signature illegal\<close>

definition M_jwt_signature :: string where
  "M_jwt_signature = utf8 [74, 87, 84, 32, 84, 111, 107, 101, 110, 32, 231, 173, 190, 229, 144, 141, 233, 157, 158, 230,
     179, 149]"

text \<open>JWT payload empty\<close>

definition M_jwt_payload_empty :: string where
  "M_jwt_payload_empty = utf8 [74, 87, 84, 32, 80, 97, 121, 108, 111, 97, 100, 32, 228, 184, 186, 231, 169, 186]"

text \<open>payment_session_id must not be empty\<close>

definition M_psid_empty :: string where
  "M_psid_empty = utf8 [112, 97, 121, 109, 101, 110, 116, 95, 115, 101, 115, 115, 105, 111, 110, 95, 105, 100, 32, 228,
     184, 141, 232, 131, 189, 228, 184, 186, 231, 169, 186]"

text \<open>HMAC failed\<close>

definition M_jwt_hmac_failed :: string where
  "M_jwt_hmac_failed = utf8 [74, 87, 84, 32, 72, 77, 65, 67, 32, 231, 173, 190, 229, 144, 141, 232, 174, 161, 231, 174,
     151, 229, 164, 177, 232, 180, 165]"

text \<open>RAND_bytes failed for the nonce\<close>

definition M_nonce_failed :: string where
  "M_nonce_failed = utf8 [231, 148, 159, 230, 136, 144, 32, 110, 111, 110, 99, 101, 32, 230, 151, 182, 32, 82, 65, 78,
     68, 95, 98, 121, 116, 101, 115, 32, 232, 176, 131, 231, 148, 168, 229, 164, 177, 232, 180, 165]"

text \<open>base64url decoding failed\<close>

definition M_b64_failed :: string where
  "M_b64_failed = utf8 [98, 97, 115, 101, 54, 52, 117, 114, 108, 32, 232, 167, 163, 231, 160, 129, 229, 164, 177, 232,
     180, 165]"

text \<open>JWT payload is not an object\<close>

definition M_jwt_payload_object :: string where
  "M_jwt_payload_object = utf8 [74, 87, 84, 32, 80, 97, 121, 108, 111, 97, 100, 32, 228, 184, 141, 230, 152, 175, 32, 74,
     83, 79, 78, 32, 229, 175, 185, 232, 177, 161]"

text \<open>nonce must not be empty\<close>

definition M_nonce_empty :: string where
  "M_nonce_empty = utf8 [110, 111, 110, 99, 101, 32, 228, 184, 141, 232, 131, 189, 228, 184, 186, 231, 169, 186]"

text \<open>JWT time fields illegal\<close>

definition M_jwt_times :: string where
  "M_jwt_times = utf8 [74, 87, 84, 32, 80, 97, 121, 108, 111, 97, 100, 32, 230, 151, 182, 233, 151, 180, 229, 173,
     151, 230, 174, 181, 233, 157, 158, 230, 179, 149]"

text \<open>QR payload parse failed\<close>

definition M_jwt_payload_parse :: string where
  "M_jwt_payload_parse = utf8 [230, 148, 175, 228, 187, 152, 228, 186, 140, 231, 187, 180, 231, 160, 129, 32, 74, 87, 84, 32,
     80, 97, 121, 108, 111, 97, 100, 32, 232, 167, 163, 230, 158, 144, 229, 164, 177, 232, 180, 165,
     58, 32]"

text \<open>mysql pool not initialised\<close>

definition M_mysql_uninit :: string where
  "M_mysql_uninit = utf8 [109, 121, 115, 113, 108, 32, 232, 191, 158, 230, 142, 165, 230, 177, 160, 229, 176, 154, 230, 156,
     170, 229, 136, 157, 229, 167, 139, 229, 140, 150]"

text \<open>mysql connection timeout\<close>

definition M_mysql_timeout :: string where
  "M_mysql_timeout = utf8 [232, 142, 183, 229, 143, 150, 32, 109, 121, 115, 113, 108, 32, 232, 191, 158, 230, 142, 165, 232,
     182, 133, 230, 151, 182]"

text \<open>payment session ttl must be positive\<close>

definition M_session_ttl :: string where
  "M_session_ttl = utf8 [230, 148, 175, 228, 187, 152, 228, 188, 154, 232, 175, 157, 32, 116, 116, 108, 32, 229, 191, 133,
     233, 161, 187, 228, 184, 186, 230, 173, 163, 230, 149, 176]"

text \<open>mysql_init failed\<close>

definition M_mysql_init_failed :: string where
  "M_mysql_init_failed = utf8 [109, 121, 115, 113, 108, 95, 105, 110, 105, 116, 32, 230, 137, 167, 232, 161, 140, 229, 164, 177,
     232, 180, 165]"

text \<open>mysql_real_connect failed\<close>

definition M_mysql_connect_failed :: string where
  "M_mysql_connect_failed = utf8 [109, 121, 115, 113, 108, 95, 114, 101, 97, 108, 95, 99, 111, 110, 110, 101, 99, 116, 32, 230,
     137, 167, 232, 161, 140, 229, 164, 177, 232, 180, 165, 58, 32]"

text \<open>mysql statement failed\<close>

definition M_mysql_exec_failed :: string where
  "M_mysql_exec_failed = utf8 [109, 121, 115, 113, 108, 32, 230, 137, 167, 232, 161, 140, 229, 164, 177, 232, 180, 165, 58, 32]"

text \<open>mysql query failed\<close>

definition M_mysql_query_failed :: string where
  "M_mysql_query_failed = utf8 [109, 121, 115, 113, 108, 32, 230, 159, 165, 232, 175, 162, 229, 164, 177, 232, 180, 165, 58, 32]"

text \<open>mysql_store_result failed\<close>

definition M_mysql_store_failed :: string where
  "M_mysql_store_failed = utf8 [109, 121, 115, 113, 108, 95, 115, 116, 111, 114, 101, 95, 114, 101, 115, 117, 108, 116, 32, 230,
     137, 167, 232, 161, 140, 229, 164, 177, 232, 180, 165, 58, 32]"

text \<open>redis pool not initialised\<close>

definition M_redis_uninit :: string where
  "M_redis_uninit = utf8 [114, 101, 100, 105, 115, 32, 232, 191, 158, 230, 142, 165, 230, 177, 160, 229, 176, 154, 230, 156,
     170, 229, 136, 157, 229, 167, 139, 229, 140, 150]"

text \<open>redis connection timeout\<close>

definition M_redis_timeout :: string where
  "M_redis_timeout = utf8 [232, 142, 183, 229, 143, 150, 32, 114, 101, 100, 105, 115, 32, 232, 191, 158, 230, 142, 165, 232,
     182, 133, 230, 151, 182]"

text \<open>redis ttl must be positive\<close>

definition M_redis_ttl :: string where
  "M_redis_ttl = utf8 [114, 101, 100, 105, 115, 32, 83, 69, 84, 32, 69, 88, 32, 116, 116, 108, 32, 229, 191, 133,
     233, 161, 187, 228, 184, 186, 230, 173, 163, 230, 149, 176]"

text \<open>redis GET failed\<close>

definition M_redis_get_failed :: string where
  "M_redis_get_failed = utf8 [114, 101, 100, 105, 115, 32, 71, 69, 84, 32, 230, 137, 167, 232, 161, 140, 229, 164, 177, 232,
     180, 165, 58, 32]"

text \<open>redis GET reply type\<close>

definition M_redis_get_type :: string where
  "M_redis_get_type = utf8 [114, 101, 100, 105, 115, 32, 71, 69, 84, 32, 232, 191, 148, 229, 155, 158, 231, 177, 187, 229,
     158, 139, 229, 188, 130, 229, 184, 184]"

text \<open>connection is null\<close>

definition M_conn_null :: string where
  "M_conn_null = utf8 [232, 191, 158, 230, 142, 165, 228, 184, 186, 231, 169, 186]"

text \<open>unknown error\<close>

definition M_unknown_error :: string where
  "M_unknown_error = utf8 [230, 156, 170, 231, 159, 165, 233, 148, 153, 232, 175, 175]"

text \<open>cannot allocate a redis connection\<close>

definition M_redis_connect_alloc :: string where
  "M_redis_connect_alloc = utf8 [114, 101, 100, 105, 115, 67, 111, 110, 110, 101, 99, 116, 87, 105, 116, 104, 84, 105, 109, 101,
     111, 117, 116, 32, 230, 137, 167, 232, 161, 140, 229, 164, 177, 232, 180, 165, 58, 32, 230, 151,
     160, 230, 179, 149, 229, 136, 134, 233, 133, 141, 232, 191, 158, 230, 142, 165]"

text \<open>redis connect failed\<close>

definition M_redis_connect_failed :: string where
  "M_redis_connect_failed = utf8 [114, 101, 100, 105, 115, 32, 232, 191, 158, 230, 142, 165, 229, 164, 177, 232, 180, 165, 58, 32]"

text \<open>redis set timeout failed\<close>

definition M_redis_settimeout_failed :: string where
  "M_redis_settimeout_failed = utf8 [114, 101, 100, 105, 115, 32, 232, 174, 190, 231, 189, 174, 229, 145, 189, 228, 187, 164, 232, 182,
     133, 230, 151, 182, 229, 164, 177, 232, 180, 165, 58, 32]"

text \<open>redis AUTH failed\<close>

definition M_redis_auth_failed :: string where
  "M_redis_auth_failed = utf8 [114, 101, 100, 105, 115, 32, 65, 85, 84, 72, 32, 229, 164, 177, 232, 180, 165]"

text \<open>redis SELECT failed\<close>

definition M_redis_select_failed :: string where
  "M_redis_select_failed = utf8 [114, 101, 100, 105, 115, 32, 83, 69, 76, 69, 67, 84, 32, 229, 164, 177, 232, 180, 165]"

text \<open>failed\<close>

definition M_redis_op_failed :: string where
  "M_redis_op_failed = utf8 [32, 230, 137, 167, 232, 161, 140, 229, 164, 177, 232, 180, 165, 58, 32]"

text \<open>unexpected reply\<close>

definition M_redis_op_reply :: string where
  "M_redis_op_reply = utf8 [32, 232, 191, 148, 229, 155, 158, 229, 188, 130, 229, 184, 184, 229, 147, 141, 229, 186, 148]"

text \<open>unexpected reply type\<close>

definition M_redis_op_type :: string where
  "M_redis_op_type = utf8 [32, 232, 191, 148, 229, 155, 158, 231, 177, 187, 229, 158, 139, 229, 188, 130, 229, 184, 184]"

text \<open>worker pool not initialised\<close>

definition M_worker_uninit :: string where
  "M_worker_uninit = utf8 [112, 97, 121, 109, 101, 110, 116, 95, 104, 116, 116, 112, 58, 58, 87, 111, 114, 107, 101, 114,
     80, 111, 111, 108, 32, 230, 156, 170, 229, 136, 157, 229, 167, 139, 229, 140, 150]"

text \<open>cannot open the configuration file\<close>

definition M_cfg_open :: string where
  "M_cfg_open = utf8 [230, 151, 160, 230, 179, 149, 230, 137, 147, 229, 188, 128, 233, 133, 141, 231, 189, 174, 230, 150,
     135, 228, 187, 182, 58, 32]"

text \<open>invalid entry\<close>

definition M_cfg_invalid :: string where
  "M_cfg_invalid = utf8 [230, 151, 160, 230, 149, 136, 231, 154, 132, 233, 133, 141, 231, 189, 174, 233, 161, 185, 58, 32]"

text \<open>duplicate entry\<close>

definition M_cfg_duplicate :: string where
  "M_cfg_duplicate = utf8 [233, 135, 141, 229, 164, 141, 231, 154, 132, 233, 133, 141, 231, 189, 174, 233, 161, 185, 58, 32]"

text \<open>must be >= 0\<close>

definition M_cfg_nonneg :: string where
  "M_cfg_nonneg = utf8 [32, 229, 191, 133, 233, 161, 187, 32, 62, 61, 32, 48]"

text \<open>PAYMENT_SCAN_PAGE_PATH must start with /\<close>

definition M_cfg_slash :: string where
  "M_cfg_slash = utf8 [80, 65, 89, 77, 69, 78, 84, 95, 83, 67, 65, 78, 95, 80, 65, 71, 69, 95, 80, 65,
     84, 72, 32, 229, 191, 133, 233, 161, 187, 228, 187, 165, 32, 47, 32, 229, 188, 128, 229, 164,
     180]"

text \<open>required entry missing\<close>

definition M_cfg_missing :: string where
  "M_cfg_missing = utf8 [231, 188, 186, 229, 176, 145, 229, 191, 133, 233, 156, 128, 233, 133, 141, 231, 189, 174, 233, 161,
     185, 58, 32]"

text \<open>invalid integer entry\<close>

definition M_cfg_bad_int :: string where
  "M_cfg_bad_int = utf8 [230, 151, 160, 230, 149, 136, 231, 154, 132, 230, 149, 180, 230, 149, 176, 233, 133, 141, 231, 189,
     174, 233, 161, 185, 58, 32]"

text \<open>invalid boolean entry\<close>

definition M_cfg_bad_bool :: string where
  "M_cfg_bad_bool = utf8 [230, 151, 160, 230, 149, 136, 231, 154, 132, 229, 184, 131, 229, 176, 148, 233, 133, 141, 231, 189,
     174, 233, 161, 185, 58, 32]"

text \<open>must be positive\<close>

definition M_cfg_positive :: string where
  "M_cfg_positive = utf8 [32, 229, 191, 133, 233, 161, 187, 228, 184, 186, 230, 173, 163, 230, 149, 176]"

text \<open>unsupported JWT_ALGORITHM\<close>

definition M_cfg_jwt_alg :: string where
  "M_cfg_jwt_alg = utf8 [228, 184, 141, 230, 148, 175, 230, 140, 129, 231, 154, 132, 32, 74, 87, 84, 95, 65, 76, 71,
     79, 82, 73, 84, 72, 77, 58, 32]"

text \<open>trailing characters\<close>

definition M_cfg_trailing :: string where
  "M_cfg_trailing = utf8 [229, 173, 152, 229, 156, 168, 229, 164, 154, 228, 189, 153, 229, 173, 151, 231, 172, 166]"

text \<open>only the backend may call this\<close>

definition M_only_backend :: string where
  "M_only_backend = utf8 [228, 187, 133, 229, 133, 129, 232, 174, 184, 229, 144, 142, 231, 171, 175, 232, 176, 131, 231, 148,
     168]"

text \<open>WebSocket push failed\<close>

definition M_ws_push_failed :: string where
  "M_ws_push_failed = utf8 [87, 101, 98, 83, 111, 99, 107, 101, 116, 32, 230, 142, 168, 233, 128, 129, 229, 164, 177, 232,
     180, 165]"

text \<open>illegal origin\<close>

definition M_bad_origin :: string where
  "M_bad_origin = utf8 [232, 176, 131, 231, 148, 168, 230, 157, 165, 230, 186, 144, 233, 157, 158, 230, 179, 149]"

text \<open>no such endpoint\<close>

definition M_no_api :: string where
  "M_no_api = utf8 [230, 142, 165, 229, 143, 163, 228, 184, 141, 229, 173, 152, 229, 156, 168]"

text \<open>login state invalid\<close>

definition M_login_invalid :: string where
  "M_login_invalid = utf8 [231, 153, 187, 229, 189, 149, 230, 128, 129, 230, 151, 160, 230, 149, 136]"

text \<open>login service unavailable\<close>

definition M_login_unavailable :: string where
  "M_login_unavailable = utf8 [231, 153, 187, 229, 189, 149, 230, 128, 129, 230, 156, 141, 229, 138, 161, 230, 154, 130, 228, 184,
     141, 229, 143, 175, 231, 148, 168]"

text \<open>Redis GET failed\<close>

definition M_gw_redis_get_failed :: string where
  "M_gw_redis_get_failed = utf8 [82, 101, 100, 105, 115, 32, 71, 69, 84, 32, 230, 137, 167, 232, 161, 140, 229, 164, 177, 232,
     180, 165, 58, 32]"

text \<open>Redis GET reply type\<close>

definition M_gw_redis_get_type :: string where
  "M_gw_redis_get_type = utf8 [82, 101, 100, 105, 115, 32, 71, 69, 84, 32, 232, 191, 148, 229, 155, 158, 231, 177, 187, 229,
     158, 139, 229, 188, 130, 229, 184, 184]"

text \<open>gateway Redis pool not initialised\<close>

definition M_gw_redis_uninit :: string where
  "M_gw_redis_uninit = utf8 [231, 189, 145, 229, 133, 179, 32, 82, 101, 100, 105, 115, 32, 232, 191, 158, 230, 142, 165, 230,
     177, 160, 229, 176, 154, 230, 156, 170, 229, 136, 157, 229, 167, 139, 229, 140, 150]"

text \<open>gateway Redis connection timeout\<close>

definition M_gw_redis_timeout :: string where
  "M_gw_redis_timeout = utf8 [232, 142, 183, 229, 143, 150, 231, 189, 145, 229, 133, 179, 32, 82, 101, 100, 105, 115, 32, 232,
     191, 158, 230, 142, 165, 232, 182, 133, 230, 151, 182]"

text \<open>Redis connect failed: no memory\<close>

definition M_gw_redis_alloc :: string where
  "M_gw_redis_alloc = utf8 [82, 101, 100, 105, 115, 32, 232, 191, 158, 230, 142, 165, 229, 164, 177, 232, 180, 165, 58, 32,
     230, 151, 160, 230, 179, 149, 229, 136, 134, 233, 133, 141, 232, 191, 158, 230, 142, 165]"

text \<open>Redis connect failed\<close>

definition M_gw_redis_connect :: string where
  "M_gw_redis_connect = utf8 [82, 101, 100, 105, 115, 32, 232, 191, 158, 230, 142, 165, 229, 164, 177, 232, 180, 165, 58, 32]"

text \<open>Redis set timeout failed\<close>

definition M_gw_redis_settimeout :: string where
  "M_gw_redis_settimeout = utf8 [82, 101, 100, 105, 115, 32, 232, 174, 190, 231, 189, 174, 229, 145, 189, 228, 187, 164, 232, 182,
     133, 230, 151, 182, 229, 164, 177, 232, 180, 165, 58, 32]"

text \<open>gateway Redis AUTH failed\<close>

definition M_gw_redis_auth :: string where
  "M_gw_redis_auth = utf8 [231, 189, 145, 229, 133, 179, 32, 82, 101, 100, 105, 115, 32, 65, 85, 84, 72, 32, 229, 164,
     177, 232, 180, 165]"

text \<open>gateway Redis SELECT failed\<close>

definition M_gw_redis_select :: string where
  "M_gw_redis_select = utf8 [231, 189, 145, 229, 133, 179, 32, 82, 101, 100, 105, 115, 32, 83, 69, 76, 69, 67, 84, 32,
     229, 164, 177, 232, 180, 165]"

text \<open>backend unreachable\<close>

definition M_backend_unreachable :: string where
  "M_backend_unreachable = utf8 [229, 144, 142, 231, 171, 175, 228, 184, 141, 229, 143, 175, 232, 190, 190]"

text \<open>backend reply broken\<close>

definition M_backend_reply :: string where
  "M_backend_reply = utf8 [229, 144, 142, 231, 171, 175, 229, 147, 141, 229, 186, 148, 229, 188, 130, 229, 184, 184]"

text \<open>payment succeeded\<close>

definition M_pay_success :: string where
  "M_pay_success = utf8 [230, 148, 175, 228, 187, 152, 230, 136, 144, 229, 138, 159]"

text \<open>could not create a socket\<close>

definition M_socket_failed :: string where
  "M_socket_failed = utf8 [229, 136, 155, 229, 187, 186, 32, 115, 111, 99, 107, 101, 116, 32, 229, 164, 177, 232, 180, 165]"

text \<open>bind failed\<close>

definition M_bind_failed :: string where
  "M_bind_failed = utf8 [98, 105, 110, 100, 32, 229, 164, 177, 232, 180, 165, 58, 32]"

text \<open>listen failed\<close>

definition M_listen_failed :: string where
  "M_listen_failed = utf8 [108, 105, 115, 116, 101, 110, 32, 229, 164, 177, 232, 180, 165]"

text \<open>epoll_create1 failed\<close>

definition M_epoll_create_failed :: string where
  "M_epoll_create_failed = utf8 [101, 112, 111, 108, 108, 95, 99, 114, 101, 97, 116, 101, 49, 32, 229, 164, 177, 232, 180, 165,
     58, 32]"

text \<open>epoll_ctl failed\<close>

definition M_epoll_ctl_failed :: string where
  "M_epoll_ctl_failed = utf8 [101, 112, 111, 108, 108, 95, 99, 116, 108, 32, 229, 164, 177, 232, 180, 165, 58, 32]"

text \<open>no environment file given\<close>

definition M_env_path_missing :: string where
  "M_env_path_missing = utf8 [230, 156, 170, 230, 140, 135, 229, 174, 154, 231, 142, 175, 229, 162, 131, 229, 143, 152, 233, 135,
     143, 230, 150, 135, 228, 187, 182, 232, 183, 175, 229, 190, 132]"

text \<open>the path of the environment file is empty\<close>

definition M_env_path_empty :: string where
  "M_env_path_empty = utf8 [231, 142, 175, 229, 162, 131, 229, 143, 152, 233, 135, 143, 230, 150, 135, 228, 187, 182, 232, 183,
     175, 229, 190, 132, 228, 184, 186, 231, 169, 186]"

text \<open>could not install the signal handlers\<close>

definition M_signal_failed :: string where
  "M_signal_failed = utf8 [230, 179, 168, 229, 134, 140, 233, 128, 128, 229, 135, 186, 228, 191, 161, 229, 143, 183, 229, 164,
     132, 231, 144, 134, 229, 164, 177, 232, 180, 165, 58, 32]"

lemma message_ne [simp]: "M_pay_failed \<noteq> []" "M_server_error \<noteq> []" "M_qr_expired \<noteq> []"
  by (simp_all add: M_pay_failed_def M_server_error_def M_qr_expired_def)

end
