(* ===== verification/Numbers.thy ===== *)
theory Numbers
  imports Text
begin

text \<open>
  Numbers as text: \<open>std::to_string\<close>, the conversions \<open>std::stoi\<close>, \<open>std::stoll\<close> and \<open>std::stoul\<close> of
  the standard library with the exceptions they throw, and the two-digit hexadecimal output of the
  \<open>toHex\<close> helpers. Widths are those of the program's platform: 32-bit \<open>int\<close>, 64-bit \<open>long\<close>,
  \<open>long long\<close> and \<open>size_t\<close>. A value is an unbounded \<open>int\<close> or \<open>nat\<close>; the range checks and the
  wrap-around are written out.
\<close>

section \<open>Decimal output\<close>

definition digit_char :: "nat \<Rightarrow> char" where
  "digit_char d = char_of (48 + d)"

fun nat_to_string :: "nat \<Rightarrow> string" where
  "nat_to_string n =
     (if n < 10 then [digit_char n] else nat_to_string (n div 10) @ [digit_char (n mod 10)])"

declare nat_to_string.simps [simp del]

text \<open>\<open>std::to_string\<close>, and \<open>operator<<\<close> on an integer.\<close>

definition to_string :: "int \<Rightarrow> string" where
  "to_string i = (if i < 0 then CHR ''-'' # nat_to_string (nat (- i)) else nat_to_string (nat i))"

section \<open>Decimal input\<close>

definition digit_val :: "char \<Rightarrow> nat" where
  "digit_val c = code c - 48"

definition digits_val :: "string \<Rightarrow> nat" where
  "digits_val ds = foldl (\<lambda>n c. 10 * n + digit_val c) 0 ds"

text \<open>
  What \<open>strtol\<close> and its kin read in base 10: blanks, an optional sign, and as many digits as
  follow. The result is the sign, the magnitude and the number of characters consumed; \<open>None\<close> when
  there is no digit (the conversion functions then throw \<open>std::invalid_argument\<close>).
\<close>

definition scan_sign :: "string \<Rightarrow> bool \<times> string" where
  "scan_sign s = (case s of
      [] \<Rightarrow> (False, [])
    | c # r \<Rightarrow> if c = CHR ''-'' then (True, r) else if c = CHR ''+'' then (False, r) else (False, s))"

definition scan_number :: "string \<Rightarrow> (bool \<times> nat \<times> nat) option" where
  "scan_number s =
     (case scan_sign (dropWhile is_space s) of (neg, t) \<Rightarrow>
        let ds = takeWhile is_digit t
        in if ds = [] then None
           else Some (neg, digits_val ds, length s - length t + length ds))"

definition signed_val :: "bool \<Rightarrow> nat \<Rightarrow> int" where
  "signed_val neg m = (if neg then - int m else int m)"

definition invalid_argument :: "string \<Rightarrow> exn" where
  "invalid_argument f = StdException f"

definition out_of_range :: "string \<Rightarrow> exn" where
  "out_of_range f = StdException f"

definition INT_MIN :: int where "INT_MIN = - (2 ^ 31)"

definition INT_MAX :: int where "INT_MAX = 2 ^ 31 - 1"

definition LLONG_MIN :: int where "LLONG_MIN = - (2 ^ 63)"

definition LLONG_MAX :: int where "LLONG_MAX = 2 ^ 63 - 1"

text \<open>\<open>std::stoi(s, &idx)\<close>: the value and \<open>idx\<close>.\<close>

definition stoi :: "string \<Rightarrow> exn + (int \<times> nat)" where
  "stoi s = (case scan_number s of
      None \<Rightarrow> Inl (invalid_argument ''stoi'')
    | Some (neg, m, idx) \<Rightarrow>
        let v = signed_val neg m
        in if v < INT_MIN \<or> INT_MAX < v then Inl (out_of_range ''stoi'') else Inr (v, idx))"

definition stoll :: "string \<Rightarrow> exn + int" where
  "stoll s = (case scan_number s of
      None \<Rightarrow> Inl (invalid_argument ''stoll'')
    | Some (neg, m, _) \<Rightarrow>
        let v = signed_val neg m
        in if v < LLONG_MIN \<or> LLONG_MAX < v then Inl (out_of_range ''stoll'') else Inr v)"

text \<open>\<open>std::stoul\<close> accepts a minus sign and then negates modulo \<open>2 ^ 64\<close>, as \<open>strtoul\<close> does.\<close>

definition stoul :: "string \<Rightarrow> exn + nat" where
  "stoul s = (case scan_number s of
      None \<Rightarrow> Inl (invalid_argument ''stoul'')
    | Some (neg, m, _) \<Rightarrow>
        if 2 ^ 64 \<le> m then Inl (out_of_range ''stoul'')
        else Inr (if neg then (2 ^ 64 - m) mod 2 ^ 64 else m))"

section \<open>Hexadecimal output\<close>

definition hex_digit :: "nat \<Rightarrow> char" where
  "hex_digit d = (if d < 10 then char_of (48 + d) else char_of (87 + d))"

text \<open>\<open>oss << std::hex << std::setw(2) << std::setfill('0') << byte\<close> for every byte.\<close>

fun toHex :: "string \<Rightarrow> string" where
  "toHex [] = []"
| "toHex (b # bs) = hex_digit (code b div 16) # hex_digit (code b mod 16) # toHex bs"

section \<open>Facts\<close>

lemma digit_char_props:
  assumes "d < 10"
  shows "is_digit (digit_char d)" and "digit_val (digit_char d) = d"
  using assms by (simp_all add: is_digit_def digit_char_def digit_val_def)

lemma digits_val_snoc: "digits_val (ds @ [c]) = 10 * digits_val ds + digit_val c"
  by (simp add: digits_val_def)

lemma nat_to_string_digits: "\<forall>c\<in>set (nat_to_string n). is_digit c"
proof (induction n rule: nat_to_string.induct)
  case (1 n)
  then show ?case
    by (subst nat_to_string.simps) (auto simp: digit_char_props)
qed

lemma nat_to_string_val: "digits_val (nat_to_string n) = n"
proof (induction n rule: nat_to_string.induct)
  case (1 n)
  show ?case
  proof (cases "n < 10")
    case True
    then show ?thesis
      by (subst nat_to_string.simps) (simp add: digits_val_def digit_char_props)
  next
    case False
    with "1.IH" have IH: "digits_val (nat_to_string (n div 10)) = n div 10" by simp
    have "digits_val (nat_to_string n) = 10 * (n div 10) + n mod 10"
      using False by (subst nat_to_string.simps) (simp add: digits_val_snoc IH digit_char_props)
    then show ?thesis by simp
  qed
qed

lemma nat_to_string_ne [simp]: "nat_to_string n \<noteq> []"
  by (subst nat_to_string.simps) simp

lemma is_digit_not: "is_digit c \<Longrightarrow> \<not> is_space c \<and> c \<noteq> CHR ''-'' \<and> c \<noteq> CHR ''+''"
  by (auto simp: is_digit_def is_space_def code_def)

lemma scan_nat_to_string:
  "scan_number (nat_to_string n @ r) =
     Some (False, digits_val (nat_to_string n @ takeWhile is_digit r),
           length (nat_to_string n @ takeWhile is_digit r))"
proof -
  obtain c cs where s: "nat_to_string n = c # cs" by (meson list.exhaust nat_to_string_ne)
  have d: "\<forall>c\<in>set (nat_to_string n). is_digit c" by (rule nat_to_string_digits)
  with s have c: "is_digit c" by simp
  from d have "takeWhile is_digit (nat_to_string n @ r) = nat_to_string n @ takeWhile is_digit r"
    by (simp add: takeWhile_append2)
  with s c is_digit_not [OF c] show ?thesis
    by (simp add: scan_number_def scan_sign_def Let_def)
qed

lemma scan_to_string: "scan_number (to_string i) = Some (i < 0, nat \<bar>i\<bar>, length (to_string i))"
proof (cases "i < 0")
  case False
  then show ?thesis
    using scan_nat_to_string [of "nat i" "[]"] by (simp add: to_string_def nat_to_string_val)
next
  case True
  let ?t = "nat_to_string (nat (- i))"
  have t: "takeWhile is_digit ?t = ?t" using nat_to_string_digits by (simp add: takeWhile_eq_all_conv)
  have "\<not> is_space CHR ''-''" by (simp add: is_space_def code_def)
  with True show ?thesis
    by (simp add: to_string_def scan_number_def scan_sign_def Let_def nat_to_string_val t)
qed

lemma signed_val_abs [simp]: "signed_val (i < 0) (nat \<bar>i\<bar>) = i"
  by (simp add: signed_val_def)

lemma stoll_to_string: "LLONG_MIN \<le> i \<Longrightarrow> i \<le> LLONG_MAX \<Longrightarrow> stoll (to_string i) = Inr i"
  by (simp add: stoll_def scan_to_string)

lemma stoi_to_string:
  "INT_MIN \<le> i \<Longrightarrow> i \<le> INT_MAX \<Longrightarrow> stoi (to_string i) = Inr (i, length (to_string i))"
  by (simp add: stoi_def scan_to_string)

lemma stoul_to_string: "n < 2 ^ 64 \<Longrightarrow> stoul (to_string (int n)) = Inr n"
  by (simp add: stoul_def scan_to_string)

lemma to_string_ne [simp]: "to_string i \<noteq> []"
  by (simp add: to_string_def)

lemma stoi_range: "stoi s = Inr (v, idx) \<Longrightarrow> INT_MIN \<le> v \<and> v \<le> INT_MAX"
  by (auto simp: stoi_def Let_def split: option.splits if_splits)

lemma length_toHex [simp]: "length (toHex bs) = 2 * length bs"
  by (induction bs) auto

lemma hex_digit_inject:
  assumes "a < 16" "b < 16"
  shows "hex_digit a = hex_digit b \<longleftrightarrow> a = b"
proof
  assume "hex_digit a = hex_digit b"
  then have "code (hex_digit a) = code (hex_digit b)" by simp
  with assms show "a = b" by (auto simp: hex_digit_def split: if_splits)
qed simp

lemma byte_split: "code a div 16 = code b div 16 \<Longrightarrow> code a mod 16 = code b mod 16 \<Longrightarrow> a = b"
  by (metis code_inject div_mult_mod_eq)

lemma toHex_inject [simp]: "toHex a = toHex b \<longleftrightarrow> a = b"
proof (induction a arbitrary: b)
  case Nil
  then show ?case by (cases b) auto
next
  case (Cons x a)
  have lt: "code c div 16 < 16" for c using code_less [of c] by (simp add: less_mult_imp_div_less)
  show ?case
    by (cases b) (auto simp: Cons.IH hex_digit_inject lt dest: byte_split)
qed

end
