(* ===== verification/Library.thy ===== *)
theory Library
  imports Messages Numbers
begin

text \<open>
  The third-party code the program calls, as one record of functions: nlohmann::json, OpenSSL, and
  what MySQL itself computes (date formatting, the collation that compares text columns, the text of
  a duplicate-key error). The sources of these are not in the repository, so nothing is assumed
  about the functions here; a theorem that relies on documented behaviour names it as a hypothesis,
  one of the predicates of the last section. JSON values themselves are data, a datatype.
\<close>

section \<open>JSON values\<close>

text \<open>A number that is not an integer is kept as its text: the program never computes with one.\<close>

datatype json =
    JNull
  | JBool bool
  | JInt int
  | JFloat string
  | JString string
  | JArray "json list"
  | JObject "(string \<times> json) list"

datatype hash_alg = SHA256 | SHA384 | SHA512

section \<open>The functions\<close>

text \<open>
  \<^item> \<open>json_parse\<close>: \<open>json::parse\<close>, with the \<open>what()\<close> text of the exception on the left;
  \<^item> \<open>json_dump\<close>: \<open>dump()\<close>, which throws on text that is not UTF-8;
  \<^item> \<open>json_value_str\<close>, \<open>json_value_bool\<close>: \<open>value(key, default)\<close>; \<open>json_at_str\<close>, \<open>json_at_int\<close>:
    \<open>at(key).get<T>()\<close>; all four may throw;
  \<^item> \<open>hmac alg key data\<close>: OpenSSL's \<open>HMAC\<close>, \<open>None\<close> for a null result; \<open>uninit_digest\<close>: what the
    caller's uninitialised digest buffer holds;
  \<^item> \<open>CRYPTO_memcmp a b n\<close>, \<open>EVP_EncodeBlock\<close> (the text written), \<open>EVP_DecodeBlock\<close> (the bytes
    written, \<open>None\<close> for a negative result), \<open>SHA1\<close>;
  \<^item> \<open>date_format\<close>: MySQL's \<open>DATE_FORMAT\<close> on a time in seconds; \<open>sql_key\<close>: the collation weight of
    a text, so that \<open>column = 'text'\<close> holds if the weights are equal; \<open>dup_entry\<close> and \<open>range_error\<close>: the
    error texts of a violated unique key and of a number out of its column's range.
\<close>

record lib =
  json_parse :: "string \<Rightarrow> string + json"
  json_dump :: "json \<Rightarrow> exn + string"
  json_value_str :: "json \<Rightarrow> string \<Rightarrow> string \<Rightarrow> exn + string"
  json_value_bool :: "json \<Rightarrow> string \<Rightarrow> bool \<Rightarrow> exn + bool"
  json_at_str :: "json \<Rightarrow> string \<Rightarrow> exn + string"
  json_at_int :: "json \<Rightarrow> string \<Rightarrow> exn + int"
  hmac :: "hash_alg \<Rightarrow> string \<Rightarrow> string \<Rightarrow> string option"
  uninit_digest :: string
  CRYPTO_memcmp :: "string \<Rightarrow> string \<Rightarrow> nat \<Rightarrow> int"
  EVP_EncodeBlock :: "string \<Rightarrow> string"
  EVP_DecodeBlock :: "string \<Rightarrow> string option"
  SHA1 :: "string \<Rightarrow> string"
  date_format :: "int \<Rightarrow> string"
  sql_key :: "string \<Rightarrow> string"
  dup_entry :: string
  range_error :: string

fun is_object :: "json \<Rightarrow> bool" where
  "is_object (JObject _) = True"
| "is_object _ = False"

section \<open>Documented behaviour\<close>

text \<open>\<open>CRYPTO_memcmp\<close> is zero exactly when the first \<open>n\<close> bytes agree.\<close>

definition memcmp_documented :: "lib \<Rightarrow> bool" where
  "memcmp_documented L \<longleftrightarrow> (\<forall>a b. length a = length b \<longrightarrow> (CRYPTO_memcmp L a b (length a) = 0 \<longleftrightarrow> a = b))"

text \<open>HMAC-SHA256 yields 32 bytes and does not fail.\<close>

definition hmac_sha256_documented :: "lib \<Rightarrow> bool" where
  "hmac_sha256_documented L \<longleftrightarrow> (\<forall>k d. \<exists>t. hmac L SHA256 k d = Some t \<and> length t = 32)"

text \<open>A MAC is never the empty text.\<close>

definition hmac_nonempty :: "lib \<Rightarrow> bool" where
  "hmac_nonempty L \<longleftrightarrow> (\<forall>alg k d. hmac L alg k d \<noteq> Some [])"

text \<open>A JSON value that can be serialised is read back as it was.\<close>

definition json_roundtrips :: "lib \<Rightarrow> json \<Rightarrow> bool" where
  "json_roundtrips L j \<longleftrightarrow> (\<exists>s. json_dump L j = Inr s \<and> s \<noteq> [] \<and> json_parse L s = Inr j)"

text \<open>\<open>value\<close> and \<open>at\<close> on an object that holds the key with a value of the wanted type.\<close>

definition json_fields_documented :: "lib \<Rightarrow> bool" where
  "json_fields_documented L \<longleftrightarrow>
     (\<forall>kvs k v d. map_of kvs k = Some (JString v) \<longrightarrow>
        json_value_str L (JObject kvs) k d = Inr v \<and> json_at_str L (JObject kvs) k = Inr v) \<and>
     (\<forall>kvs k b d. map_of kvs k = Some (JBool b) \<longrightarrow> json_value_bool L (JObject kvs) k d = Inr b) \<and>
     (\<forall>kvs k i. map_of kvs k = Some (JInt i) \<longrightarrow> json_at_int L (JObject kvs) k = Inr i) \<and>
     (\<forall>kvs k d. map_of kvs k = None \<longrightarrow> json_value_str L (JObject kvs) k d = Inr d) \<and>
     (\<forall>kvs k d. map_of kvs k = None \<longrightarrow> json_value_bool L (JObject kvs) k d = Inr d)"

lemma json_fieldsD:
  assumes "json_fields_documented L"
  shows "map_of kvs k = Some (JString v) \<Longrightarrow> json_value_str L (JObject kvs) k d = Inr v"
    and "map_of kvs k = Some (JString v) \<Longrightarrow> json_at_str L (JObject kvs) k = Inr v"
    and "map_of kvs k = Some (JBool b) \<Longrightarrow> json_value_bool L (JObject kvs) k e = Inr b"
    and "map_of kvs k = Some (JInt i) \<Longrightarrow> json_at_int L (JObject kvs) k = Inr i"
  using assms by (simp_all add: json_fields_documented_def)

end
