(* ===== verification/HttpText.thy ===== *)
theory HttpText
  imports Library
begin

text \<open>
  The request and response structures of backend/payment_impl.hpp and its text helpers. The header
  map, a \<open>std::map\<close>, is the list of its entries in key order.
\<close>

record HttpRequest =
  req_method :: string
  req_path :: string
  req_query :: string
  req_headers :: "(string \<times> string) list"
  req_body :: string

record HttpResponse =
  http_status :: int
  envelope :: json
  extra_headers :: "(string \<times> string) list"

fun headerValue_loop :: "string \<Rightarrow> (string \<times> string) list \<Rightarrow> string" where
  "headerValue_loop key [] = []"
| "headerValue_loop key ((k, v) # items) = (if toLower k = key then v else headerValue_loop key items)"

definition headerValue :: "'a HttpRequest_scheme \<Rightarrow> string \<Rightarrow> string" where
  "headerValue req name = headerValue_loop (toLower name) (req_headers req)"

text \<open>Both loops remove the blanks in front of a text.\<close>

definition strip_spaces :: "string \<Rightarrow> string" where
  "strip_spaces s = dropWhile (\<lambda>c. c = CHR '' '') s"

text \<open>The part up to the next separator, and the rest after it; the rest is \<open>None\<close> at \<open>npos\<close>.\<close>

definition next_part :: "char \<Rightarrow> string \<Rightarrow> string \<times> string option" where
  "next_part sep s = (case cut sep s of None \<Rightarrow> (s, None) | Some (a, b) \<Rightarrow> (a, Some b))"

lemma next_part_shorter: "next_part sep s = (part, Some rest) \<Longrightarrow> length rest < length s"
  by (auto simp: next_part_def split: option.splits dest: cut_length)

function cookieValue :: "string \<Rightarrow> string \<Rightarrow> string" where
  "cookieValue cookie_header name =
     (if cookie_header = [] then []
      else case next_part CHR '';'' cookie_header of (part, remaining) \<Rightarrow>
        let found = (case cut CHR ''='' part of
              None \<Rightarrow> None
            | Some (k, v) \<Rightarrow> if strip_spaces k = name then Some (strip_spaces v) else None)
        in case found of
             Some value \<Rightarrow> value
           | None \<Rightarrow> (case remaining of None \<Rightarrow> [] | Some rest \<Rightarrow> cookieValue rest name))"
  by pat_completeness auto

termination
  by (relation "measure (\<lambda>(s, _). length s)") (auto dest: next_part_shorter [OF sym])

declare cookieValue.simps [simp del]

function queryParam :: "string \<Rightarrow> string \<Rightarrow> string" where
  "queryParam query key =
     (if query = [] then []
      else case next_part CHR ''&'' query of (pair, remaining) \<Rightarrow>
        let found = (case cut CHR ''='' pair of
              None \<Rightarrow> None
            | Some (k, v) \<Rightarrow> if k = key then Some v else None)
        in case found of
             Some value \<Rightarrow> value
           | None \<Rightarrow> (case remaining of None \<Rightarrow> [] | Some rest \<Rightarrow> queryParam rest key))"
  by pat_completeness auto

termination
  by (relation "measure (\<lambda>(s, _). length s)") (auto dest: next_part_shorter [OF sym])

declare queryParam.simps [simp del]

text \<open>The members of a JSON object are listed in key order.\<close>

definition makeOk :: "json \<Rightarrow> json" where
  "makeOk data = JObject [(''code'', JInt 0), (''data'', data), (''message'', JString [])]"

definition makeErr :: "int \<Rightarrow> string \<Rightarrow> json" where
  "makeErr biz message = JObject [(''code'', JInt biz), (''data'', JObject []), (''message'', JString message)]"

definition respond :: "int \<Rightarrow> json \<Rightarrow> HttpResponse" where
  "respond status env = \<lparr>http_status = status, envelope = env, extra_headers = []\<rparr>"

definition parseJsonBody :: "lib \<Rightarrow> HttpRequest \<Rightarrow> string + json" where
  "parseJsonBody L req = (if req_body req = [] then Inr (JObject []) else json_parse L (req_body req))"

section \<open>Facts\<close>

lemma cookieValue_first:
  assumes "CHR '';'' \<notin> set k" and "CHR '';'' \<notin> set v" and "CHR ''='' \<notin> set k"
    and "strip_spaces k = name" and "strip_spaces v = v"
  shows "cookieValue (k @ ''='' @ v) name = v"
    and "cookieValue (k @ ''='' @ v @ '';'' @ rest) name = v"
proof -
  have "cut CHR '';'' (k @ ''='' @ v) = None" using assms by (intro cut_absent) auto
  moreover have "cut CHR ''='' (k @ CHR ''='' # v) = Some (k, v)" using assms by (intro cut_found)
  ultimately show "cookieValue (k @ ''='' @ v) name = v"
    using assms by (subst cookieValue.simps) (simp add: next_part_def)
  have "cut CHR '';'' ((k @ ''='' @ v) @ CHR '';'' # rest) = Some (k @ ''='' @ v, rest)"
    using assms by (intro cut_found) auto
  with \<open>cut CHR ''='' (k @ CHR ''='' # v) = Some (k, v)\<close>
  show "cookieValue (k @ ''='' @ v @ '';'' @ rest) name = v"
    using assms by (subst cookieValue.simps) (simp add: next_part_def)
qed

lemma queryParam_first:
  assumes "CHR ''&'' \<notin> set k" and "CHR ''&'' \<notin> set v" and "CHR ''='' \<notin> set k"
  shows "queryParam (k @ ''='' @ v) k = v"
    and "queryParam (k @ ''='' @ v @ ''&'' @ rest) k = v"
proof -
  have "cut CHR ''&'' (k @ ''='' @ v) = None" using assms by (intro cut_absent) auto
  moreover have "cut CHR ''='' (k @ CHR ''='' # v) = Some (k, v)" using assms by (intro cut_found)
  ultimately show "queryParam (k @ ''='' @ v) k = v"
    by (subst queryParam.simps) (simp add: next_part_def)
  have "cut CHR ''&'' ((k @ ''='' @ v) @ CHR ''&'' # rest) = Some (k @ ''='' @ v, rest)"
    using assms by (intro cut_found) auto
  with \<open>cut CHR ''='' (k @ CHR ''='' # v) = Some (k, v)\<close>
  show "queryParam (k @ ''='' @ v @ ''&'' @ rest) k = v"
    by (subst queryParam.simps) (simp add: next_part_def)
qed

end
