(* ===== verification/Config.thy ===== *)
theory Config
  imports Library "HOL-Library.Word"
begin

text \<open>
  The backend's \<open>payment_config::Config\<close> (backend/common/config.hpp): reading the environment file
  and the typed views of it. The member \<open>values_\<close>, a \<open>std::map\<close> that is only searched and extended,
  is a map of type \<open>values\<close>.
\<close>

type_synonym "values" = "string \<Rightarrow> string option"

section \<open>Reading the file\<close>

definition stripInlineComment :: "string \<Rightarrow> string" where
  "stripInlineComment input = (case cut CHR ''#'' input of None \<Rightarrow> input | Some (a, _) \<Rightarrow> a)"

definition is_separator :: "char \<Rightarrow> bool" where
  "is_separator c \<longleftrightarrow> c = CHR ''='' \<or> c = CHR '':''"

text \<open>One turn of the loop of \<open>loadFromEnvFile\<close>.\<close>

definition load_line :: "string \<Rightarrow> (values, unit) comp" where
  "load_line raw =
     (let line = trim raw
      in if line = [] \<or> hd line = CHR ''#'' then mret ()
         else case dropWhile (\<lambda>c. \<not> is_separator c) line of
             [] \<Rightarrow> mthrow (ConfigException (M_cfg_invalid @ line))
           | _ # rest \<Rightarrow>
               let key = trim (takeWhile (\<lambda>c. \<not> is_separator c) line);
                   value = trim (stripInlineComment (trim rest))
               in if key \<noteq> []
                  then mbind (mread (\<lambda>vals. vals key)) (\<lambda>old.
                    if old = None then mmodify (\<lambda>vals. vals(key \<mapsto> value))
                    else mthrow (ConfigException (M_cfg_duplicate @ key)))
                  else mthrow (ConfigException (M_cfg_invalid @ line)))"

fun load_lines :: "string list \<Rightarrow> (values, unit) comp" where
  "load_lines [] = mret ()"
| "load_lines (l # ls) = mbind (load_line l) (\<lambda>_. load_lines ls)"

text \<open>\<open>file\<close> is \<open>None\<close> when the file at \<open>filepath\<close> cannot be opened, its content otherwise.\<close>

definition loadFromEnvFile :: "string \<Rightarrow> string option \<Rightarrow> (values, unit) comp" where
  "loadFromEnvFile filepath file = (case file of
      None \<Rightarrow> mthrow (ConfigException (M_cfg_open @ filepath))
    | Some content \<Rightarrow> load_lines (getlines content))"

section \<open>Typed access\<close>

definition findString :: "values \<Rightarrow> string \<Rightarrow> string option" where
  "findString vals key = vals key"

definition requireString :: "values \<Rightarrow> string \<Rightarrow> exn + string" where
  "requireString vals key = (case findString vals key of
      None \<Rightarrow> Inl (ConfigException (M_cfg_missing @ key))
    | Some value \<Rightarrow>
        if value = [] then Inl (ConfigException (M_cfg_missing @ key)) else Inr value)"

definition requireInt :: "values \<Rightarrow> string \<Rightarrow> exn + int" where
  "requireInt vals key = (case findString vals key of
      None \<Rightarrow> Inl (ConfigException (M_cfg_missing @ key))
    | Some value \<Rightarrow>
        if value = [] then Inl (ConfigException (M_cfg_missing @ key))
        else (case stoi value of
            Inl _ \<Rightarrow> Inl (ConfigException (M_cfg_bad_int @ key))
          | Inr (parsed, idx) \<Rightarrow>
              if idx \<noteq> length value then Inl (ConfigException (M_cfg_bad_int @ key))
              else Inr parsed))"

definition requireBool :: "values \<Rightarrow> string \<Rightarrow> exn + bool" where
  "requireBool vals key = (case findString vals key of
      None \<Rightarrow> Inl (ConfigException (M_cfg_missing @ key))
    | Some value \<Rightarrow>
        if value = [] then Inl (ConfigException (M_cfg_missing @ key))
        else let v = map tolower value
             in if v = ''true'' \<or> v = ''1'' \<or> v = ''yes'' \<or> v = ''on'' then Inr True
                else if v = ''false'' \<or> v = ''0'' \<or> v = ''no'' \<or> v = ''off'' then Inr False
                else Inl (ConfigException (M_cfg_bad_bool @ key)))"

definition requirePositive :: "string \<Rightarrow> int \<Rightarrow> exn + unit" where
  "requirePositive key v = (if v \<le> 0 then Inl (ConfigException (key @ M_cfg_positive)) else Inr ())"

definition validateJwtAlgorithm :: "string \<Rightarrow> exn + unit" where
  "validateJwtAlgorithm algorithm =
     (if algorithm \<noteq> ''HS256'' \<and> algorithm \<noteq> ''HS384'' \<and> algorithm \<noteq> ''HS512''
      then Inl (ConfigException (M_cfg_jwt_alg @ algorithm)) else Inr ())"

text \<open>\<open>findString(key).has_value() ? requireInt(key) : d\<close>.\<close>

definition intOr :: "values \<Rightarrow> string \<Rightarrow> int \<Rightarrow> exn + int" where
  "intOr vals key d = (if findString vals key \<noteq> None then requireInt vals key else Inr d)"

section \<open>The configuration records\<close>

record MySqlConfig =
  my_host :: string
  my_port :: int
  my_user :: string
  my_password :: string
  my_database :: string
  my_connect_timeout_seconds :: "32 word"
  my_read_timeout_seconds :: "32 word"
  my_write_timeout_seconds :: "32 word"
  my_pool_size :: int

record RedisConfig =
  rd_host :: string
  rd_port :: int
  rd_db :: int
  rd_username :: string
  rd_password :: string
  rd_connect_timeout_seconds :: "32 word"
  rd_command_timeout_seconds :: "32 word"
  rd_pool_size :: int

record JwtConfig =
  jwt_algorithm :: string
  jwt_secret :: string
  jwt_qr_token_ttl_seconds :: int
  jwt_clock_skew_seconds :: int

record HmacHashConfig =
  user_email_hash_secret :: string
  user_id_card_hash_secret :: string

record PasswordHashConfig =
  pw_secret :: string

record PaymentBackendConfig =
  be_ip :: string
  be_http_port :: int
  be_websocket_port :: int

record PaymentGatewayConfig =
  gw_public_host :: string
  gw_websocket_port :: int
  gw_http_port :: int

record PaymentNginxConfig =
  ng_public_host :: string
  ng_port :: int
  ng_scan_page_path :: string

record LoggerConfig =
  lg_file :: string
  lg_max_file_size :: "64 word"
  lg_max_files :: "64 word"
  lg_console_enabled :: bool

record HttpServerConfig =
  hs_worker_threads :: int
  hs_listen_backlog :: int
  hs_max_concurrent_connections :: int
  hs_read_timeout_seconds :: int

record PaymentRuntimeConfig =
  login_session_ttl_seconds :: int
  payment_session_ttl_seconds :: int
  payment_attempt_request_ttl_seconds :: int
  websocket_heartbeat_interval_seconds :: int
  websocket_idle_timeout_seconds :: int
  login_reauth_max_retry :: int

section \<open>The views\<close>

text \<open>An \<open>int\<close> stored in an \<open>unsigned int\<close> or a \<open>size_t\<close> wraps around: \<open>word_of_int\<close>.\<close>

definition mysql_cfg :: "values \<Rightarrow> exn + MySqlConfig" where
  "mysql_cfg v =
     ebind (requireString v ''MYSQL_HOST'') (\<lambda>host.
     ebind (requireInt v ''MYSQL_PORT'') (\<lambda>port.
     ebind (requireString v ''MYSQL_USER'') (\<lambda>user.
     ebind (requireString v ''MYSQL_PASSWORD'') (\<lambda>password.
     ebind (requireString v ''MYSQL_DATABASE'') (\<lambda>database.
     ebind (requireInt v ''MYSQL_CONNECT_TIMEOUT_SECONDS'') (\<lambda>ct.
     ebind (requireInt v ''MYSQL_READ_TIMEOUT_SECONDS'') (\<lambda>rt.
     ebind (requireInt v ''MYSQL_WRITE_TIMEOUT_SECONDS'') (\<lambda>wt.
     ebind (requireInt v ''MYSQL_POOL_SIZE'') (\<lambda>pool.
       Inr \<lparr>my_host = host, my_port = port, my_user = user, my_password = password,
            my_database = database, my_connect_timeout_seconds = word_of_int ct,
            my_read_timeout_seconds = word_of_int rt, my_write_timeout_seconds = word_of_int wt,
            my_pool_size = pool\<rparr>)))))))))"

definition logger_cfg :: "values \<Rightarrow> exn + LoggerConfig" where
  "logger_cfg v =
     ebind (requireString v ''LOG_FILE'') (\<lambda>file.
     ebind (requireInt v ''LOG_MAX_FILE_SIZE'') (\<lambda>size.
     ebind (requireInt v ''LOG_MAX_FILES'') (\<lambda>files.
     ebind (requireBool v ''LOG_CONSOLE_ENABLED'') (\<lambda>console.
       Inr \<lparr>lg_file = file, lg_max_file_size = word_of_int size, lg_max_files = word_of_int files,
            lg_console_enabled = console\<rparr>))))"

definition redis_cfg :: "values \<Rightarrow> exn + RedisConfig" where
  "redis_cfg v =
     ebind (requireString v ''REDIS_HOST'') (\<lambda>host.
     ebind (requireInt v ''REDIS_PORT'') (\<lambda>port.
     ebind (requireInt v ''REDIS_DB'') (\<lambda>db.
     ebind (requireString v ''REDIS_BACKEND_USERNAME'') (\<lambda>username.
     ebind (requireString v ''REDIS_BACKEND_PASSWORD'') (\<lambda>password.
     ebind (requireInt v ''REDIS_CONNECT_TIMEOUT_SECONDS'') (\<lambda>ct.
     ebind (requireInt v ''REDIS_COMMAND_TIMEOUT_SECONDS'') (\<lambda>cmd.
     ebind (requireInt v ''REDIS_POOL_SIZE'') (\<lambda>pool.
     ebind (requirePositive ''REDIS_PORT'' port) (\<lambda>_.
     ebind (requirePositive ''REDIS_POOL_SIZE'' pool) (\<lambda>_.
     if db < 0 then Inl (ConfigException (''REDIS_DB'' @ M_cfg_nonneg))
     else if (word_of_int ct :: 32 word) = 0
       then Inl (ConfigException (''REDIS_CONNECT_TIMEOUT_SECONDS'' @ M_cfg_positive))
     else if (word_of_int cmd :: 32 word) = 0
       then Inl (ConfigException (''REDIS_COMMAND_TIMEOUT_SECONDS'' @ M_cfg_positive))
     else
       Inr \<lparr>rd_host = host, rd_port = port, rd_db = db, rd_username = username,
            rd_password = password, rd_connect_timeout_seconds = word_of_int ct,
            rd_command_timeout_seconds = word_of_int cmd, rd_pool_size = pool\<rparr>))))))))))"

definition jwt_cfg :: "values \<Rightarrow> exn + JwtConfig" where
  "jwt_cfg v =
     ebind (requireString v ''JWT_ALGORITHM'') (\<lambda>algorithm.
     ebind (requireString v ''JWT_SECRET'') (\<lambda>secret.
     ebind (requireInt v ''JWT_QR_TOKEN_TTL_SECONDS'') (\<lambda>ttl.
     ebind (requireInt v ''JWT_CLOCK_SKEW_SECONDS'') (\<lambda>skew.
     ebind (validateJwtAlgorithm algorithm) (\<lambda>_.
     ebind (requirePositive ''JWT_QR_TOKEN_TTL_SECONDS'' ttl) (\<lambda>_.
     if skew < 0 then Inl (ConfigException (''JWT_CLOCK_SKEW_SECONDS'' @ M_cfg_nonneg))
     else
       Inr \<lparr>jwt_algorithm = algorithm, jwt_secret = secret, jwt_qr_token_ttl_seconds = ttl,
            jwt_clock_skew_seconds = skew\<rparr>))))))"

definition hash_cfg :: "values \<Rightarrow> exn + HmacHashConfig" where
  "hash_cfg v =
     ebind (requireString v ''USER_EMAIL_HASH_SECRET'') (\<lambda>email.
     ebind (requireString v ''USER_ID_CARD_HASH_SECRET'') (\<lambda>id_card.
       Inr \<lparr>user_email_hash_secret = email, user_id_card_hash_secret = id_card\<rparr>))"

definition passwordHash :: "values \<Rightarrow> exn + PasswordHashConfig" where
  "passwordHash v =
     ebind (requireString v ''PASSWORD_HASH_SECRET'') (\<lambda>secret. Inr \<lparr>pw_secret = secret\<rparr>)"

definition paymentBackend :: "values \<Rightarrow> exn + PaymentBackendConfig" where
  "paymentBackend v =
     ebind (requireString v ''PAYMENT_BACKEND_IP'') (\<lambda>ip.
     ebind (requireInt v ''PAYMENT_BACKEND_HTTP_PORT'') (\<lambda>http.
     ebind (requireInt v ''PAYMENT_BACKEND_WEBSOCKET_PORT'') (\<lambda>ws.
     ebind (requirePositive ''PAYMENT_BACKEND_HTTP_PORT'' http) (\<lambda>_.
     ebind (requirePositive ''PAYMENT_BACKEND_WEBSOCKET_PORT'' ws) (\<lambda>_.
       Inr \<lparr>be_ip = ip, be_http_port = http, be_websocket_port = ws\<rparr>)))))"

definition paymentGateway :: "values \<Rightarrow> exn + PaymentGatewayConfig" where
  "paymentGateway v =
     ebind (requireString v ''PAYMENT_GATEWAY_IP'') (\<lambda>host.
     ebind (requireInt v ''PAYMENT_GATEWAY_WEBSOCKET_PORT'') (\<lambda>ws.
     ebind (requireInt v ''PAYMENT_GATEWAY_HTTP_PORT'') (\<lambda>http.
     ebind (requirePositive ''PAYMENT_GATEWAY_WEBSOCKET_PORT'' ws) (\<lambda>_.
     ebind (requirePositive ''PAYMENT_GATEWAY_HTTP_PORT'' http) (\<lambda>_.
       Inr \<lparr>gw_public_host = host, gw_websocket_port = ws, gw_http_port = http\<rparr>)))))"

definition paymentNginx :: "values \<Rightarrow> exn + PaymentNginxConfig" where
  "paymentNginx v =
     ebind (requireString v ''PAYMENT_NGINX_IP'') (\<lambda>host.
     ebind (requireInt v ''PAYMENT_NGINX_PORT'') (\<lambda>port.
     ebind (requireString v ''PAYMENT_SCAN_PAGE_PATH'') (\<lambda>scan.
     ebind (requirePositive ''PAYMENT_NGINX_PORT'' port) (\<lambda>_.
     if scan = [] \<or> hd scan \<noteq> CHR ''/'' then Inl (ConfigException M_cfg_slash)
     else Inr \<lparr>ng_public_host = host, ng_port = port, ng_scan_page_path = scan\<rparr>))))"

definition runtime :: "values \<Rightarrow> exn + PaymentRuntimeConfig" where
  "runtime v =
     ebind (intOr v ''LOGIN_SESSION_TTL_SECONDS'' 86400) (\<lambda>login.
     ebind (requireInt v ''PAYMENT_SESSION_TTL_SECONDS'') (\<lambda>session.
     ebind (requireInt v ''PAYMENT_ATTEMPT_REQUEST_TTL_SECONDS'') (\<lambda>attempt.
     ebind (requireInt v ''WEBSOCKET_HEARTBEAT_INTERVAL_SECONDS'') (\<lambda>heartbeat.
     ebind (requireInt v ''WEBSOCKET_IDLE_TIMEOUT_SECONDS'') (\<lambda>idle.
     ebind (requireInt v ''LOGIN_REAUTH_MAX_RETRY'') (\<lambda>retry.
     ebind (requirePositive ''LOGIN_SESSION_TTL_SECONDS'' login) (\<lambda>_.
     ebind (requirePositive ''PAYMENT_SESSION_TTL_SECONDS'' session) (\<lambda>_.
     ebind (requirePositive ''PAYMENT_ATTEMPT_REQUEST_TTL_SECONDS'' attempt) (\<lambda>_.
     ebind (requirePositive ''WEBSOCKET_HEARTBEAT_INTERVAL_SECONDS'' heartbeat) (\<lambda>_.
     ebind (requirePositive ''WEBSOCKET_IDLE_TIMEOUT_SECONDS'' idle) (\<lambda>_.
     ebind (requirePositive ''LOGIN_REAUTH_MAX_RETRY'' retry) (\<lambda>_.
       Inr \<lparr>login_session_ttl_seconds = login, payment_session_ttl_seconds = session,
            payment_attempt_request_ttl_seconds = attempt,
            websocket_heartbeat_interval_seconds = heartbeat,
            websocket_idle_timeout_seconds = idle, login_reauth_max_retry = retry\<rparr>))))))))))))"

definition httpServer :: "values \<Rightarrow> exn + HttpServerConfig" where
  "httpServer v =
     ebind (intOr v ''HTTP_WORKER_THREADS'' 20) (\<lambda>workers.
     ebind (intOr v ''HTTP_LISTEN_BACKLOG'' 128) (\<lambda>backlog.
     ebind (intOr v ''HTTP_MAX_CONCURRENT_CONNECTIONS'' 256) (\<lambda>conns.
     ebind (intOr v ''HTTP_READ_TIMEOUT_SECONDS'' 10) (\<lambda>timeout.
     ebind (requirePositive ''HTTP_WORKER_THREADS'' workers) (\<lambda>_.
     ebind (requirePositive ''HTTP_LISTEN_BACKLOG'' backlog) (\<lambda>_.
     ebind (requirePositive ''HTTP_MAX_CONCURRENT_CONNECTIONS'' conns) (\<lambda>_.
     ebind (requirePositive ''HTTP_READ_TIMEOUT_SECONDS'' timeout) (\<lambda>_.
       Inr \<lparr>hs_worker_threads = workers, hs_listen_backlog = backlog,
            hs_max_concurrent_connections = conns, hs_read_timeout_seconds = timeout\<rparr>))))))))"

section \<open>Facts\<close>

named_theorems cfg_defs \<open>the accessors of the configuration\<close>

lemmas [cfg_defs] = requireString_def requireInt_def requireBool_def requirePositive_def
  validateJwtAlgorithm_def intOr_def findString_def

lemma requireString_iff [run_iff]: "requireString v k = Inr s \<longleftrightarrow> v k = Some s \<and> s \<noteq> []"
  by (auto simp: requireString_def findString_def split: option.splits)

lemma requirePositive_iff [run_iff]: "requirePositive k i = Inr u \<longleftrightarrow> 0 < i"
  by (auto simp: requirePositive_def)

lemma requireInt_range: "requireInt v k = Inr i \<Longrightarrow> INT_MIN \<le> i \<and> i \<le> INT_MAX"
  by (auto simp: requireInt_def findString_def split: option.splits if_splits sum.splits
      dest: stoi_range)

lemma intOr_range: "intOr v k d = Inr i \<Longrightarrow> i = d \<or> (INT_MIN \<le> i \<and> i \<le> INT_MAX)"
  by (auto simp: intOr_def split: if_splits dest: requireInt_range)

lemma requireInt_to_string:
  "v k = Some (to_string i) \<Longrightarrow> INT_MIN \<le> i \<Longrightarrow> i \<le> INT_MAX \<Longrightarrow> requireInt v k = Inr i"
  by (simp add: requireInt_def findString_def stoi_to_string)

lemma requireString_err: "requireString v k = Inl e \<Longrightarrow> e = ConfigException (M_cfg_missing @ k)"
  by (auto simp: requireString_def split: option.splits if_splits)

lemma load_lines_append:
  "load_lines (xs @ ys) = mbind (load_lines xs) (\<lambda>_. load_lines ys)"
  by (induction xs) (auto simp: fun_eq_iff run_simps split: sum.splits prod.splits)

end
