(* ===== verification/Password.thy ===== *)
theory Password
  imports Library
begin

text \<open>
  The login-password check, \<open>payment_security::PasswordVerifier\<close>
  (backend/common/password_verifier.hpp): the stored hash is the hexadecimal HMAC-SHA256 of the
  password under one secret.
\<close>

definition constantTimeEqual :: "lib \<Rightarrow> string \<Rightarrow> string \<Rightarrow> bool" where
  "constantTimeEqual L a b =
     (if length a \<noteq> length b then False else CRYPTO_memcmp L a b (length a) = 0)"

text \<open>
  The result of \<open>HMAC\<close> is not checked: when it fails, \<open>digest\<close> and \<open>len\<close> are what they were before
  the call.
\<close>

definition hmacSha256Hex :: "lib \<Rightarrow> string \<Rightarrow> string \<Rightarrow> string" where
  "hmacSha256Hex L data secret =
     toHex (case hmac L SHA256 secret data of None \<Rightarrow> uninit_digest L | Some digest \<Rightarrow> digest)"

definition hashLoginPassword :: "lib \<Rightarrow> string \<Rightarrow> string \<Rightarrow> string" where
  "hashLoginPassword L plain_password secret =
     (if plain_password = [] \<or> secret = [] then [] else hmacSha256Hex L plain_password secret)"

definition verifyLoginPasswordWithHash :: "lib \<Rightarrow> string \<Rightarrow> string \<Rightarrow> string \<Rightarrow> bool" where
  "verifyLoginPasswordWithHash L plain_password password_hash secret =
     (if plain_password = [] \<or> password_hash = [] then False
      else if secret = [] \<or> length password_hash \<noteq> 64 then False
      else constantTimeEqual L (hashLoginPassword L plain_password secret) password_hash)"

lemma constantTimeEqual_iff: "memcmp_documented L \<Longrightarrow> constantTimeEqual L a b \<longleftrightarrow> a = b"
  by (auto simp: constantTimeEqual_def memcmp_documented_def)

text \<open>
  C19: a password is accepted exactly when neither it nor the secret is empty and the stored text is
  the 64-digit hexadecimal HMAC-SHA256 of it; so no password matches an account whose stored hash is
  empty or of another length.
\<close>

theorem verify_password_iff:
  assumes "memcmp_documented L"
  shows "verifyLoginPasswordWithHash L pw stored secret \<longleftrightarrow>
    pw \<noteq> [] \<and> secret \<noteq> [] \<and> length stored = 64 \<and> stored = hmacSha256Hex L pw secret"
  using assms
  by (auto simp: verifyLoginPasswordWithHash_def hashLoginPassword_def constantTimeEqual_iff)

lemma verify_own_hash:
  assumes "memcmp_documented L" and "hmac_sha256_documented L" and "pw \<noteq> []" and "secret \<noteq> []"
  shows "verifyLoginPasswordWithHash L pw (hashLoginPassword L pw secret) secret"
proof -
  from assms(2) obtain t where "hmac L SHA256 secret pw = Some t" and "length t = 32"
    unfolding hmac_sha256_documented_def by blast
  then have "length (hmacSha256Hex L pw secret) = 64" by (simp add: hmacSha256Hex_def)
  then have ne: "hmacSha256Hex L pw secret \<noteq> []" by auto
  with assms \<open>length (hmacSha256Hex L pw secret) = 64\<close> show ?thesis
    by (simp add: verifyLoginPasswordWithHash_def hashLoginPassword_def constantTimeEqual_iff)
qed

text \<open>
  Two passwords are accepted against the same stored hash only if their HMAC tags are equal, and
  the password the hash was made from is accepted.
\<close>

lemma verify_password_tags:
  assumes "memcmp_documented L" and "hmac_sha256_documented L"
    and "pw \<noteq> []" and "secret \<noteq> []"
  shows "verifyLoginPasswordWithHash L pw (hashLoginPassword L pw secret) secret \<and>
    (verifyLoginPasswordWithHash L other (hashLoginPassword L pw secret) secret \<longleftrightarrow>
       other \<noteq> [] \<and> hmac L SHA256 secret other = hmac L SHA256 secret pw)"
proof -
  from assms(2) obtain t u where
    t: "hmac L SHA256 secret pw = Some t" "length t = 32" and
    u: "hmac L SHA256 secret other = Some u" "length u = 32"
    unfolding hmac_sha256_documented_def by meson
  have "toHex t \<noteq> []" using t by (cases t) auto
  then show ?thesis
    using assms verify_own_hash [OF assms] t u
    by (auto simp: verifyLoginPasswordWithHash_def hashLoginPassword_def constantTimeEqual_iff
        hmacSha256Hex_def)
qed

end
