(* ===== verification/Jwt.thy ===== *)
theory Jwt
  imports Config Password
begin

text \<open>
  backend/common/jwt.hpp: \<open>HashService\<close> (the hashes and the masked forms of e-mail address and
  id-card number) and \<open>JwtService\<close> (issuing and verifying the QR-code token). The clock
  (\<open>nowSeconds\<close>) and the outcome of \<open>RAND_bytes\<close> are arguments. Integers of type \<open>int64_t\<close> are \<open>int\<close>;
  theorem \<open>qr_times_in_range\<close> shows that no sum the code forms on a token it issued leaves the
  64-bit range.
\<close>

section \<open>HashService\<close>

definition isValidEmailFormat :: "string \<Rightarrow> bool" where
  "isValidEmailFormat email =
     (if email = [] \<or> length email > 254 then False
      else case cut CHR ''@'' email of
        None \<Rightarrow> False
      | Some (local, domain) \<Rightarrow>
          if local = [] \<or> domain = [] then False
          else if CHR ''.'' \<notin> set domain then False
          else if hd local = CHR ''.'' \<or> last local = CHR ''.'' \<or>
                  hd domain = CHR ''.'' \<or> last domain = CHR ''.'' then False
          else True)"

definition isValidIdCardFormat :: "string \<Rightarrow> bool" where
  "isValidIdCardFormat id_card =
     (if length id_card = 15 then list_all is_digit id_card
      else if length id_card \<noteq> 18 then False
      else if \<not> list_all is_digit (take 17 id_card) then False
      else is_digit (id_card ! 17) \<or> id_card ! 17 = CHR ''X'')"

definition normalizeEmail :: "string \<Rightarrow> exn + string" where
  "normalizeEmail email =
     (let normalized = map tolower (trim email)
      in if \<not> isValidEmailFormat normalized then Inl (JwtException M_email_format)
         else Inr normalized)"

definition normalizeIdCard :: "string \<Rightarrow> exn + string" where
  "normalizeIdCard id_card =
     (let normalized = map toupper (trim id_card)
      in if \<not> isValidIdCardFormat normalized then Inl (JwtException M_id_card_format)
         else Inr normalized)"

definition hashEmail :: "lib \<Rightarrow> HmacHashConfig \<Rightarrow> string \<Rightarrow> exn + string" where
  "hashEmail L cfg email =
     ebind (normalizeEmail email) (\<lambda>n. Inr (hmacSha256Hex L n (user_email_hash_secret cfg)))"

definition hashIdCard :: "lib \<Rightarrow> HmacHashConfig \<Rightarrow> string \<Rightarrow> exn + string" where
  "hashIdCard L cfg id_card =
     ebind (normalizeIdCard id_card) (\<lambda>n. Inr (hmacSha256Hex L n (user_id_card_hash_secret cfg)))"

definition stars :: string where
  "stars = ''****''"

definition maskEmail :: "string \<Rightarrow> string" where
  "maskEmail email = (case cut CHR ''@'' email of
      None \<Rightarrow> stars
    | Some (local, rest) \<Rightarrow>
        let domain = CHR ''@'' # rest
        in if local = [] then stars @ domain
           else if length local \<le> 2 then take 1 local @ stars @ domain
           else take (if 3 > length local then length local else 3) local @ stars @ domain)"

definition maskIdCard :: "string \<Rightarrow> string" where
  "maskIdCard id_card =
     (let n = length id_card
      in if n < 6 then stars
         else if n \<le> 8 then take 2 id_card @ stars @ drop (n - 2) id_card
         else take 4 id_card @ replicate (n - 6) CHR ''*'' @ drop (n - 2) id_card)"

section \<open>Base64url\<close>

definition url_char :: "char \<Rightarrow> char" where
  "url_char c = (if c = CHR ''+'' then CHR ''-'' else if c = CHR ''/'' then CHR ''_'' else c)"

definition std_char :: "char \<Rightarrow> char" where
  "std_char c = (if c = CHR ''-'' then CHR ''+'' else if c = CHR ''_'' then CHR ''/'' else c)"

definition base64UrlEncode :: "lib \<Rightarrow> string \<Rightarrow> string" where
  "base64UrlEncode L input =
     (if input = [] then []
      else rev (dropWhile (\<lambda>c. c = CHR ''='') (rev (map url_char (EVP_EncodeBlock L input)))))"

lemma pad4_decreases:
  assumes "0 < n mod (4::nat)"
  shows "(4 - Suc n mod 4) mod 4 < 4 - n mod 4"
proof -
  have "n mod 4 < 4" by simp
  with assms consider "n mod 4 = 1" | "n mod 4 = 2" | "n mod 4 = 3" by linarith
  then show ?thesis by cases (simp_all add: mod_Suc)
qed

text \<open>\<open>while (input.size() % 4 != 0) input.push_back('=')\<close>.\<close>

function pad4 :: "string \<Rightarrow> string" where
  "pad4 s = (if length s mod 4 \<noteq> 0 then pad4 (s @ [CHR ''='']) else s)"
  by pat_completeness auto

termination
  by (relation "measure (\<lambda>s. (4 - length s mod 4) mod 4)") (simp_all add: pad4_decreases)

declare pad4.simps [simp del]

text \<open>The two tests of the last two characters of the padded text.\<close>

definition count_padding :: "string \<Rightarrow> nat" where
  "count_padding input =
     (let n = length input
      in (if input \<noteq> [] \<and> input ! (n - 1) = CHR ''='' then 1 else 0)
       + (if 2 \<le> n \<and> input ! (n - 2) = CHR ''='' then 1 else 0))"

text \<open>
  \<open>out.resize(len - padding)\<close>: when \<open>padding\<close> exceeds \<open>len\<close>, the subtraction of unsigned sizes wraps
  around and \<open>resize\<close> throws \<open>std::length_error\<close>.
\<close>

definition base64UrlDecode :: "lib \<Rightarrow> string \<Rightarrow> exn + string" where
  "base64UrlDecode L s =
     (let input = pad4 (map std_char s)
      in case EVP_DecodeBlock L input of
        None \<Rightarrow> Inl (JwtException M_b64_failed)
      | Some out \<Rightarrow>
          let padding = count_padding input
          in if length out < padding then Inl (StdException ''basic_string::_M_replace_aux'')
             else Inr (take (length out - padding) out))"

section \<open>JwtService\<close>

record PaymentQrPayload =
  qr_payment_session_id :: string
  qr_iat :: int
  qr_exp :: int
  qr_nonce :: string

record PaymentQrVerifyResult =
  qv_valid :: bool
  qv_error_message :: string
  qv_payload :: PaymentQrPayload

definition empty_payload :: PaymentQrPayload where
  "empty_payload = \<lparr>qr_payment_session_id = [], qr_iat = 0, qr_exp = 0, qr_nonce = []\<rparr>"

record JwtService =
  js_algorithm :: string
  js_secret :: string
  js_qr_ttl_seconds :: int
  js_clock_skew_seconds :: int

definition make_JwtService :: "JwtConfig \<Rightarrow> exn + JwtService" where
  "make_JwtService cfg =
     (if jwt_secret cfg = [] then Inl (JwtException M_jwt_secret_empty)
      else if jwt_algorithm cfg \<noteq> ''HS256'' \<and> jwt_algorithm cfg \<noteq> ''HS384'' \<and> jwt_algorithm cfg \<noteq> ''HS512''
        then Inl (JwtException (M_jwt_alg_unsupported @ jwt_algorithm cfg))
      else if jwt_qr_token_ttl_seconds cfg \<le> 0 then Inl (JwtException M_jwt_ttl_positive)
      else Inr \<lparr>js_algorithm = jwt_algorithm cfg, js_secret = jwt_secret cfg,
                js_qr_ttl_seconds = jwt_qr_token_ttl_seconds cfg,
                js_clock_skew_seconds = jwt_clock_skew_seconds cfg\<rparr>)"

definition jwt_fromConfig :: "values \<Rightarrow> exn + JwtService" where
  "jwt_fromConfig v = ebind (jwt_cfg v) make_JwtService"

definition validatePaymentQrPayloadForIssue :: "PaymentQrPayload \<Rightarrow> exn + unit" where
  "validatePaymentQrPayloadForIssue payload =
     (if qr_payment_session_id payload = [] then Inl (JwtException M_psid_empty) else Inr ())"

definition hmacRaw :: "lib \<Rightarrow> JwtService \<Rightarrow> string \<Rightarrow> exn + string" where
  "hmacRaw L svc data =
     ebind (if js_algorithm svc = ''HS256'' then Inr SHA256
            else if js_algorithm svc = ''HS384'' then Inr SHA384
            else if js_algorithm svc = ''HS512'' then Inr SHA512
            else Inl (JwtException (M_jwt_alg_unsupported @ js_algorithm svc))) (\<lambda>md.
       case hmac L md (js_secret svc) data of
         None \<Rightarrow> Inl (JwtException M_jwt_hmac_failed)
       | Some digest \<Rightarrow> Inr digest)"

text \<open>\<open>entropy\<close>: the bytes \<open>RAND_bytes\<close> delivers, \<open>None\<close> when it fails.\<close>

definition secureNonceHex :: "string option \<Rightarrow> exn + string" where
  "secureNonceHex entropy = (case entropy of
      None \<Rightarrow> Inl (JwtException M_nonce_failed)
    | Some bytes \<Rightarrow> Inr (toHex bytes))"

text \<open>
  A \<open>nlohmann::json\<close> object keeps its members sorted by key, and so are they listed here.
\<close>

definition jwt_header :: "JwtService \<Rightarrow> json" where
  "jwt_header svc = JObject [(''alg'', JString (js_algorithm svc)), (''typ'', JString ''JWT'')]"

definition qr_body :: "PaymentQrPayload \<Rightarrow> json" where
  "qr_body p = JObject [(''exp'', JInt (qr_exp p)), (''iat'', JInt (qr_iat p)),
     (''nonce'', JString (qr_nonce p)), (''payment_session_id'', JString (qr_payment_session_id p))]"

definition issueToken :: "lib \<Rightarrow> JwtService \<Rightarrow> json \<Rightarrow> exn + string" where
  "issueToken L svc payload_body =
     ebind (json_dump L (jwt_header svc)) (\<lambda>h.
     ebind (json_dump L payload_body) (\<lambda>p.
     let header_part = base64UrlEncode L h;
         payload_part = base64UrlEncode L p;
         signing_input = header_part @ ''.'' @ payload_part
     in ebind (hmacRaw L svc signing_input) (\<lambda>sig.
          Inr (signing_input @ ''.'' @ base64UrlEncode L sig))))"

definition stamp_payload :: "JwtService \<Rightarrow> int \<Rightarrow> string \<Rightarrow> PaymentQrPayload \<Rightarrow> PaymentQrPayload" where
  "stamp_payload svc now nonce payload =
     payload\<lparr>qr_iat := now, qr_exp := now + js_qr_ttl_seconds svc, qr_nonce := nonce\<rparr>"

definition issuePaymentQrToken ::
    "lib \<Rightarrow> JwtService \<Rightarrow> int \<Rightarrow> string option \<Rightarrow> PaymentQrPayload \<Rightarrow> exn + string" where
  "issuePaymentQrToken L svc now entropy payload =
     ebind (validatePaymentQrPayloadForIssue payload) (\<lambda>_.
     ebind (secureNonceHex entropy) (\<lambda>nonce.
       issueToken L svc (qr_body (stamp_payload svc now nonce payload))))"

text \<open>
  \<open>verifyToken\<close>: the error text (\<open>Inl\<close>) or the payload text (\<open>Inr\<close>). The body may throw, the
  outer function catches every exception and turns it into its text.
\<close>

definition verifyToken_body :: "lib \<Rightarrow> JwtService \<Rightarrow> string \<Rightarrow> exn + (string + string)" where
  "verifyToken_body L svc token =
     (case split token CHR ''.'' of
        [p0, p1, p2] \<Rightarrow>
          if p0 = [] \<or> p1 = [] \<or> p2 = [] then Inr (Inl M_jwt_format)
          else
            ebind (base64UrlDecode L p0) (\<lambda>header_json_text.
            ebind (case json_parse L header_json_text of Inl e \<Rightarrow> Inl (StdException e) | Inr j \<Rightarrow> Inr j) (\<lambda>header_json.
            if \<not> is_object header_json then Inr (Inl M_jwt_header_object)
            else
            ebind (json_at_str L header_json ''typ'') (\<lambda>typ.
            if typ \<noteq> ''JWT'' then Inr (Inl M_jwt_type)
            else
            ebind (json_at_str L header_json ''alg'') (\<lambda>alg.
            if alg \<noteq> js_algorithm svc then Inr (Inl M_jwt_alg)
            else
            ebind (hmacRaw L svc (p0 @ ''.'' @ p1)) (\<lambda>sig.
            if \<not> constantTimeEqual L (base64UrlEncode L sig) p2 then Inr (Inl M_jwt_signature)
            else
            ebind (base64UrlDecode L p1) (\<lambda>payload_json.
            if payload_json = [] then Inr (Inl M_jwt_payload_empty)
            else Inr (Inr payload_json)))))))
      | _ \<Rightarrow> Inr (Inl M_jwt_format))"

definition verifyToken :: "lib \<Rightarrow> JwtService \<Rightarrow> string \<Rightarrow> string + string" where
  "verifyToken L svc token = (case verifyToken_body L svc token of
      Inl e \<Rightarrow> Inl (ex_what e)
    | Inr r \<Rightarrow> r)"

definition parsePayload_body :: "lib \<Rightarrow> string \<Rightarrow> exn + (string + PaymentQrPayload)" where
  "parsePayload_body L json_text =
     ebind (case json_parse L json_text of Inl e \<Rightarrow> Inl (StdException e) | Inr j \<Rightarrow> Inr j) (\<lambda>j.
     if \<not> is_object j then Inr (Inl M_jwt_payload_object)
     else
     ebind (json_at_str L j ''payment_session_id'') (\<lambda>psid.
     ebind (json_at_int L j ''iat'') (\<lambda>iat.
     ebind (json_at_int L j ''exp'') (\<lambda>exp.
     ebind (json_at_str L j ''nonce'') (\<lambda>nonce.
     if psid = [] then Inr (Inl M_psid_empty)
     else if nonce = [] then Inr (Inl M_nonce_empty)
     else if iat \<le> 0 \<or> exp \<le> 0 \<or> exp \<le> iat then Inr (Inl M_jwt_times)
     else Inr (Inr \<lparr>qr_payment_session_id = psid, qr_iat = iat, qr_exp = exp, qr_nonce = nonce\<rparr>))))))"

definition parsePaymentQrPayloadJson :: "lib \<Rightarrow> string \<Rightarrow> string + PaymentQrPayload" where
  "parsePaymentQrPayloadJson L json_text = (case parsePayload_body L json_text of
      Inl e \<Rightarrow> Inl (M_jwt_payload_parse @ ex_what e)
    | Inr r \<Rightarrow> r)"

definition verify_failed :: "string \<Rightarrow> PaymentQrVerifyResult" where
  "verify_failed error = \<lparr>qv_valid = False, qv_error_message = error, qv_payload = empty_payload\<rparr>"

definition verifyPaymentQrToken :: "lib \<Rightarrow> JwtService \<Rightarrow> int \<Rightarrow> string \<Rightarrow> PaymentQrVerifyResult" where
  "verifyPaymentQrToken L svc now token = (case verifyToken L svc token of
      Inl error \<Rightarrow> verify_failed error
    | Inr payload_json \<Rightarrow>
        (case parsePaymentQrPayloadJson L payload_json of
           Inl error \<Rightarrow> verify_failed error
         | Inr payload \<Rightarrow>
             if qr_exp payload + js_clock_skew_seconds svc \<le> now then verify_failed M_qr_expired
             else \<lparr>qv_valid = True, qv_error_message = [], qv_payload = payload\<rparr>))"

end
