(* ===== verification/Tables.thy ===== *)
theory Tables
  imports Library "HOL-Library.Word"
begin

text \<open>
  The data of backend/common/mysql_pool.hpp: the rows of the five tables as MySQL stores them
  (sql_create_and_add/setup_mysql_test_data.sh, a column that may be NULL is an \<open>option\<close>), the
  structures \<open>UserInfo\<close>, \<open>OrderInfo\<close>, \<open>AccountInfo\<close>, \<open>PaymentSessionInfo\<close> and
  \<open>PaymentAttemptInfo\<close>, the column lists of the SELECT statements, and the \<open>parse\<close> functions that
  read a result row, a list of texts, back into a structure. The lemmas of the last section show
  that parsing the selected columns of a row yields its values.
\<close>

section \<open>Status codes\<close>

datatype UserStatus = UserNormal | UserFrozen | UserCancelled | UserRiskLimited

datatype OrderStatus = PendingPay | OrderPaid | OrderCancelled | OrderExpired

datatype AccountStatus = OnSale | Trading | Sold | Removed

datatype PaymentSessionStatus = WaitingPay | SessionPaid | SessionInvalid | SessionExpired

datatype PaymentAttemptResult = AttemptProcessing | AttemptSuccess | AttemptFailed

fun user_code :: "UserStatus \<Rightarrow> int" where
  "user_code UserNormal = 0" | "user_code UserFrozen = 1"
| "user_code UserCancelled = 2" | "user_code UserRiskLimited = 3"

fun order_code :: "OrderStatus \<Rightarrow> int" where
  "order_code PendingPay = 0" | "order_code OrderPaid = 1"
| "order_code OrderCancelled = 2" | "order_code OrderExpired = 3"

fun account_code :: "AccountStatus \<Rightarrow> int" where
  "account_code OnSale = 0" | "account_code Trading = 1"
| "account_code Sold = 2" | "account_code Removed = 3"

fun session_code :: "PaymentSessionStatus \<Rightarrow> int" where
  "session_code WaitingPay = 0" | "session_code SessionPaid = 1"
| "session_code SessionInvalid = 2" | "session_code SessionExpired = 3"

fun attempt_code :: "PaymentAttemptResult \<Rightarrow> int" where
  "attempt_code AttemptProcessing = 0" | "attempt_code AttemptSuccess = 1"
| "attempt_code AttemptFailed = 2"

section \<open>Table rows\<close>

text \<open>DATETIME and TIMESTAMP columns are seconds.\<close>

record user_row =
  u_id :: int
  u_user_id :: string
  u_username :: string
  u_password_hash :: string
  u_email_hash :: "string option"
  u_email_masked :: "string option"
  u_id_card_hash :: "string option"
  u_id_card_masked :: "string option"
  u_real_auth_completed :: int
  u_user_type :: int
  u_status :: int
  u_last_login_at :: int
  u_created_at :: int

record account_row =
  a_id :: int
  a_account_id :: string
  a_seller_id :: string
  a_game_name :: string
  a_server_area :: string
  a_price :: int
  a_account_level :: int
  a_hero_count :: int
  a_skin_count :: int
  a_rare_items :: string
  a_status :: int
  a_version :: int
  a_created_at :: int
  a_updated_at :: int

record order_row =
  o_id :: int
  o_order_sn :: string
  o_account_id :: string
  o_buyer_id :: string
  o_price :: int
  o_buyer_email :: string
  o_buyer_id_card_hash :: string
  o_buyer_id_card_masked :: string
  o_status :: int
  o_create_time :: int
  o_paid_at :: "int option"
  o_update_time :: int

record session_row =
  s_id :: int
  s_payment_session_id :: string
  s_order_sn :: string
  s_account_id :: string
  s_buyer_id :: string
  s_buyer_email :: string
  s_status :: int
  s_expire_at :: int
  s_created_at :: int
  s_updated_at :: int

record attempt_row =
  t_id :: int
  t_request_id :: string
  t_payment_session_id :: string
  t_order_sn :: string
  t_account_id :: string
  t_buyer_id :: string
  t_result :: int
  t_fail_reason :: "string option"
  t_client_ip :: "string option"
  t_user_agent :: "string option"
  t_created_at :: int
  t_updated_at :: int

section \<open>The structures of the program\<close>

record UserInfo =
  ui_id :: int
  ui_user_id :: string
  ui_username :: string
  ui_password_hash :: string
  ui_email_hash :: string
  ui_email_masked :: string
  ui_id_card_hash :: string
  ui_id_card_masked :: string
  ui_real_auth_completed :: int
  ui_user_type :: int
  ui_status :: int
  ui_last_login_at :: string
  ui_created_at :: string

definition isNormal :: "UserInfo \<Rightarrow> bool" where
  "isNormal u \<longleftrightarrow> ui_status u = user_code UserNormal"

definition isRealAuthCompleted :: "UserInfo \<Rightarrow> bool" where
  "isRealAuthCompleted u \<longleftrightarrow>
     ui_real_auth_completed u = 1 \<and> ui_email_hash u \<noteq> [] \<and> ui_id_card_hash u \<noteq> []"

record OrderInfo =
  oi_id :: int
  oi_order_sn :: string
  oi_account_id :: string
  oi_buyer_id :: string
  oi_price :: int
  oi_buyer_email :: string
  oi_buyer_id_card_hash :: string
  oi_buyer_id_card_masked :: string
  oi_status :: int
  oi_create_time :: string
  oi_paid_at :: string
  oi_update_time :: string

record AccountInfo =
  ai_id :: int
  ai_account_id :: string
  ai_seller_id :: string
  ai_game_name :: string
  ai_server_area :: string
  ai_price :: int
  ai_account_level :: int
  ai_hero_count :: int
  ai_skin_count :: int
  ai_rare_items :: string
  ai_status :: int
  ai_version :: int
  ai_created_at :: string
  ai_updated_at :: string

record PaymentSessionInfo =
  si_id :: int
  si_payment_session_id :: string
  si_order_sn :: string
  si_account_id :: string
  si_buyer_id :: string
  si_buyer_email :: string
  si_status :: int
  si_expire_at :: string
  si_created_at :: string
  si_updated_at :: string

record PaymentAttemptInfo =
  ti_id :: int
  ti_request_id :: string
  ti_payment_session_id :: string
  ti_order_sn :: string
  ti_account_id :: string
  ti_buyer_id :: string
  ti_result :: int
  ti_fail_reason :: string
  ti_client_ip :: string
  ti_user_agent :: string
  ti_created_at :: string
  ti_updated_at :: string

section \<open>Result rows\<close>

text \<open>
  \<open>queryRows\<close> stores the empty text for a column that is NULL. \<open>get\<close> past the end of the row is
  empty; \<open>toInt64\<close> of an empty text is 0, of another text what \<open>std::stoll\<close> says.
\<close>

definition or_empty :: "string option \<Rightarrow> string" where
  "or_empty c = (case c of None \<Rightarrow> [] | Some s \<Rightarrow> s)"

definition row_get :: "string list \<Rightarrow> nat \<Rightarrow> string" where
  "row_get row idx = (if idx \<ge> length row then [] else row ! idx)"

definition toInt64 :: "string list \<Rightarrow> nat \<Rightarrow> exn + int" where
  "toInt64 row idx = (let v = row_get row idx in if v = [] then Inr 0 else stoll v)"

text \<open>\<open>static_cast<int>\<close> of an \<open>int64_t\<close>: the low 32 bits, as a signed number.\<close>

definition to_int :: "int \<Rightarrow> int" where
  "to_int i = sint (word_of_int i :: 32 word)"

definition userSelectColumns :: "lib \<Rightarrow> user_row \<Rightarrow> string list" where
  "userSelectColumns L r =
     [to_string (u_id r), u_user_id r, u_username r, u_password_hash r, or_empty (u_email_hash r),
      or_empty (u_email_masked r), or_empty (u_id_card_hash r), or_empty (u_id_card_masked r),
      to_string (u_real_auth_completed r), to_string (u_user_type r), to_string (u_status r),
      date_format L (u_last_login_at r), date_format L (u_created_at r)]"

definition orderSelectColumns :: "lib \<Rightarrow> order_row \<Rightarrow> string list" where
  "orderSelectColumns L r =
     [to_string (o_id r), o_order_sn r, o_account_id r, o_buyer_id r, to_string (o_price r),
      o_buyer_email r, o_buyer_id_card_hash r, o_buyer_id_card_masked r, to_string (o_status r),
      date_format L (o_create_time r), or_empty (map_option (date_format L) (o_paid_at r)),
      date_format L (o_update_time r)]"

definition accountSelectColumns :: "lib \<Rightarrow> account_row \<Rightarrow> string list" where
  "accountSelectColumns L r =
     [to_string (a_id r), a_account_id r, a_seller_id r, a_game_name r, a_server_area r,
      to_string (a_price r), to_string (a_account_level r), to_string (a_hero_count r),
      to_string (a_skin_count r), a_rare_items r, to_string (a_status r), to_string (a_version r),
      date_format L (a_created_at r), date_format L (a_updated_at r)]"

definition paymentSessionSelectColumns :: "lib \<Rightarrow> session_row \<Rightarrow> string list" where
  "paymentSessionSelectColumns L r =
     [to_string (s_id r), s_payment_session_id r, s_order_sn r, s_account_id r, s_buyer_id r,
      s_buyer_email r, to_string (s_status r), date_format L (s_expire_at r),
      date_format L (s_created_at r), date_format L (s_updated_at r)]"

definition paymentAttemptSelectColumns :: "lib \<Rightarrow> attempt_row \<Rightarrow> string list" where
  "paymentAttemptSelectColumns L r =
     [to_string (t_id r), t_request_id r, t_payment_session_id r, t_order_sn r, t_account_id r,
      t_buyer_id r, to_string (t_result r), or_empty (t_fail_reason r), or_empty (t_client_ip r),
      or_empty (t_user_agent r), date_format L (t_created_at r), date_format L (t_updated_at r)]"

definition parseUser :: "string list \<Rightarrow> exn + UserInfo" where
  "parseUser r =
     ebind (toInt64 r 0) (\<lambda>id.
     ebind (toInt64 r 8) (\<lambda>real_auth.
     ebind (toInt64 r 9) (\<lambda>user_type.
     ebind (toInt64 r 10) (\<lambda>status.
       Inr \<lparr>ui_id = id, ui_user_id = row_get r 1, ui_username = row_get r 2,
            ui_password_hash = row_get r 3, ui_email_hash = row_get r 4,
            ui_email_masked = row_get r 5, ui_id_card_hash = row_get r 6,
            ui_id_card_masked = row_get r 7, ui_real_auth_completed = to_int real_auth,
            ui_user_type = to_int user_type, ui_status = to_int status,
            ui_last_login_at = row_get r 11, ui_created_at = row_get r 12\<rparr>))))"

definition parseOrder :: "string list \<Rightarrow> exn + OrderInfo" where
  "parseOrder r =
     ebind (toInt64 r 0) (\<lambda>id.
     ebind (toInt64 r 4) (\<lambda>price.
     ebind (toInt64 r 8) (\<lambda>status.
       Inr \<lparr>oi_id = id, oi_order_sn = row_get r 1, oi_account_id = row_get r 2,
            oi_buyer_id = row_get r 3, oi_price = price, oi_buyer_email = row_get r 5,
            oi_buyer_id_card_hash = row_get r 6, oi_buyer_id_card_masked = row_get r 7,
            oi_status = to_int status, oi_create_time = row_get r 9, oi_paid_at = row_get r 10,
            oi_update_time = row_get r 11\<rparr>)))"

definition parseAccount :: "string list \<Rightarrow> exn + AccountInfo" where
  "parseAccount r =
     ebind (toInt64 r 0) (\<lambda>id.
     ebind (toInt64 r 5) (\<lambda>price.
     ebind (toInt64 r 6) (\<lambda>level.
     ebind (toInt64 r 7) (\<lambda>heroes.
     ebind (toInt64 r 8) (\<lambda>skins.
     ebind (toInt64 r 10) (\<lambda>status.
     ebind (toInt64 r 11) (\<lambda>version.
       Inr \<lparr>ai_id = id, ai_account_id = row_get r 1, ai_seller_id = row_get r 2,
            ai_game_name = row_get r 3, ai_server_area = row_get r 4, ai_price = price,
            ai_account_level = to_int level, ai_hero_count = to_int heroes,
            ai_skin_count = to_int skins, ai_rare_items = row_get r 9, ai_status = to_int status,
            ai_version = to_int version, ai_created_at = row_get r 12,
            ai_updated_at = row_get r 13\<rparr>)))))))"

definition parsePaymentSession :: "string list \<Rightarrow> exn + PaymentSessionInfo" where
  "parsePaymentSession r =
     ebind (toInt64 r 0) (\<lambda>id.
     ebind (toInt64 r 6) (\<lambda>status.
       Inr \<lparr>si_id = id, si_payment_session_id = row_get r 1, si_order_sn = row_get r 2,
            si_account_id = row_get r 3, si_buyer_id = row_get r 4, si_buyer_email = row_get r 5,
            si_status = to_int status, si_expire_at = row_get r 7, si_created_at = row_get r 8,
            si_updated_at = row_get r 9\<rparr>))"

definition parsePaymentAttempt :: "string list \<Rightarrow> exn + PaymentAttemptInfo" where
  "parsePaymentAttempt r =
     ebind (toInt64 r 0) (\<lambda>id.
     ebind (toInt64 r 6) (\<lambda>result.
       Inr \<lparr>ti_id = id, ti_request_id = row_get r 1, ti_payment_session_id = row_get r 2,
            ti_order_sn = row_get r 3, ti_account_id = row_get r 4, ti_buyer_id = row_get r 5,
            ti_result = to_int result, ti_fail_reason = row_get r 7, ti_client_ip = row_get r 8,
            ti_user_agent = row_get r 9, ti_created_at = row_get r 10,
            ti_updated_at = row_get r 11\<rparr>))"

section \<open>The values MySQL can store\<close>

text \<open>The ranges of TINYINT, INT and BIGINT columns.\<close>

definition tinyint :: "int \<Rightarrow> bool" where
  "tinyint i \<longleftrightarrow> - 128 \<le> i \<and> i \<le> 127"

definition sql_int :: "int \<Rightarrow> bool" where
  "sql_int i \<longleftrightarrow> INT_MIN \<le> i \<and> i \<le> INT_MAX"

definition bigint :: "int \<Rightarrow> bool" where
  "bigint i \<longleftrightarrow> LLONG_MIN \<le> i \<and> i \<le> LLONG_MAX"

definition user_row_ok :: "user_row \<Rightarrow> bool" where
  "user_row_ok r \<longleftrightarrow> bigint (u_id r) \<and> tinyint (u_real_auth_completed r) \<and> tinyint (u_user_type r) \<and>
     tinyint (u_status r)"

definition order_row_ok :: "order_row \<Rightarrow> bool" where
  "order_row_ok r \<longleftrightarrow> bigint (o_id r) \<and> sql_int (o_price r) \<and> tinyint (o_status r)"

definition account_row_ok :: "account_row \<Rightarrow> bool" where
  "account_row_ok r \<longleftrightarrow> bigint (a_id r) \<and> sql_int (a_price r) \<and> sql_int (a_account_level r) \<and>
     sql_int (a_hero_count r) \<and> sql_int (a_skin_count r) \<and> tinyint (a_status r) \<and> sql_int (a_version r)"

definition session_row_ok :: "session_row \<Rightarrow> bool" where
  "session_row_ok r \<longleftrightarrow> bigint (s_id r) \<and> tinyint (s_status r)"

definition attempt_row_ok :: "attempt_row \<Rightarrow> bool" where
  "attempt_row_ok r \<longleftrightarrow> bigint (t_id r) \<and> tinyint (t_result r)"

section \<open>Reading back what was selected\<close>

text \<open>What the \<open>parse\<close> functions yield on the columns of a row.\<close>

definition user_view :: "lib \<Rightarrow> user_row \<Rightarrow> UserInfo" where
  "user_view L r =
     \<lparr>ui_id = u_id r, ui_user_id = u_user_id r, ui_username = u_username r,
      ui_password_hash = u_password_hash r, ui_email_hash = or_empty (u_email_hash r),
      ui_email_masked = or_empty (u_email_masked r), ui_id_card_hash = or_empty (u_id_card_hash r),
      ui_id_card_masked = or_empty (u_id_card_masked r),
      ui_real_auth_completed = u_real_auth_completed r, ui_user_type = u_user_type r,
      ui_status = u_status r, ui_last_login_at = date_format L (u_last_login_at r),
      ui_created_at = date_format L (u_created_at r)\<rparr>"

definition order_view :: "lib \<Rightarrow> order_row \<Rightarrow> OrderInfo" where
  "order_view L r =
     \<lparr>oi_id = o_id r, oi_order_sn = o_order_sn r, oi_account_id = o_account_id r,
      oi_buyer_id = o_buyer_id r, oi_price = o_price r, oi_buyer_email = o_buyer_email r,
      oi_buyer_id_card_hash = o_buyer_id_card_hash r,
      oi_buyer_id_card_masked = o_buyer_id_card_masked r, oi_status = o_status r,
      oi_create_time = date_format L (o_create_time r),
      oi_paid_at = or_empty (map_option (date_format L) (o_paid_at r)),
      oi_update_time = date_format L (o_update_time r)\<rparr>"

definition account_view :: "lib \<Rightarrow> account_row \<Rightarrow> AccountInfo" where
  "account_view L r =
     \<lparr>ai_id = a_id r, ai_account_id = a_account_id r, ai_seller_id = a_seller_id r,
      ai_game_name = a_game_name r, ai_server_area = a_server_area r, ai_price = a_price r,
      ai_account_level = a_account_level r, ai_hero_count = a_hero_count r,
      ai_skin_count = a_skin_count r, ai_rare_items = a_rare_items r, ai_status = a_status r,
      ai_version = a_version r, ai_created_at = date_format L (a_created_at r),
      ai_updated_at = date_format L (a_updated_at r)\<rparr>"

definition session_view :: "lib \<Rightarrow> session_row \<Rightarrow> PaymentSessionInfo" where
  "session_view L r =
     \<lparr>si_id = s_id r, si_payment_session_id = s_payment_session_id r, si_order_sn = s_order_sn r,
      si_account_id = s_account_id r, si_buyer_id = s_buyer_id r, si_buyer_email = s_buyer_email r,
      si_status = s_status r, si_expire_at = date_format L (s_expire_at r),
      si_created_at = date_format L (s_created_at r), si_updated_at = date_format L (s_updated_at r)\<rparr>"

definition attempt_view :: "lib \<Rightarrow> attempt_row \<Rightarrow> PaymentAttemptInfo" where
  "attempt_view L r =
     \<lparr>ti_id = t_id r, ti_request_id = t_request_id r,
      ti_payment_session_id = t_payment_session_id r, ti_order_sn = t_order_sn r,
      ti_account_id = t_account_id r, ti_buyer_id = t_buyer_id r, ti_result = t_result r,
      ti_fail_reason = or_empty (t_fail_reason r), ti_client_ip = or_empty (t_client_ip r),
      ti_user_agent = or_empty (t_user_agent r), ti_created_at = date_format L (t_created_at r),
      ti_updated_at = date_format L (t_updated_at r)\<rparr>"

lemma to_int_small: "sql_int i \<Longrightarrow> to_int i = i"
proof -
  assume "sql_int i"
  then have "- (2 ^ 31) \<le> i" and "i < 2 ^ 31" by (simp_all add: sql_int_def INT_MIN_def INT_MAX_def)
  then have "signed_take_bit 31 i = i" by (simp add: signed_take_bit_int_eq_self)
  then show ?thesis by (simp add: to_int_def signed_of_int)
qed

lemma ranges [simp]:
  "tinyint i \<Longrightarrow> bigint i" "tinyint i \<Longrightarrow> sql_int i" "sql_int i \<Longrightarrow> bigint i"
  by (auto simp: tinyint_def sql_int_def bigint_def INT_MIN_def INT_MAX_def LLONG_MIN_def LLONG_MAX_def)

lemma stoll_bigint [simp]: "bigint i \<Longrightarrow> stoll (to_string i) = Inr i"
  by (simp add: bigint_def stoll_to_string)

lemma parseUser_row: "user_row_ok r \<Longrightarrow> parseUser (userSelectColumns L r) = Inr (user_view L r)"
  by (simp add: parseUser_def userSelectColumns_def user_view_def user_row_ok_def to_int_small row_get_def toInt64_def)

lemma parseOrder_row: "order_row_ok r \<Longrightarrow> parseOrder (orderSelectColumns L r) = Inr (order_view L r)"
  by (simp add: parseOrder_def orderSelectColumns_def order_view_def order_row_ok_def to_int_small row_get_def toInt64_def)

lemma parseAccount_row: "account_row_ok r \<Longrightarrow> parseAccount (accountSelectColumns L r) = Inr (account_view L r)"
  by (simp add: parseAccount_def accountSelectColumns_def account_view_def account_row_ok_def to_int_small row_get_def toInt64_def)

lemma parsePaymentSession_row:
  "session_row_ok r \<Longrightarrow> parsePaymentSession (paymentSessionSelectColumns L r) = Inr (session_view L r)"
  by (simp add: parsePaymentSession_def paymentSessionSelectColumns_def session_view_def session_row_ok_def
      to_int_small row_get_def toInt64_def)

lemma parsePaymentAttempt_row:
  "attempt_row_ok r \<Longrightarrow> parsePaymentAttempt (paymentAttemptSelectColumns L r) = Inr (attempt_view L r)"
  by (simp add: parsePaymentAttempt_def paymentAttemptSelectColumns_def attempt_view_def attempt_row_ok_def
      to_int_small row_get_def toInt64_def)

end
