(* ===== verification/Pool.thy ===== *)
theory Pool
  imports Prelude
begin

text \<open>
  What the three connection pools share: \<open>MySqlPool\<close> (backend/common/mysql_pool.hpp), \<open>RedisPool\<close>
  (backend/common/redis_pool.hpp) and the gateway's \<open>SessionStore\<close>
  (gateway/common/session_store.hpp). A connection is a handle, a number that is never reused.
  \<open>pl_idle\<close> is the queue \<open>connections_\<close>, \<open>pl_open\<close> the handles that have been created and not yet
  closed (the pool does not record them: they are the program's resources). A connection that is
  open and not idle is borrowed; a borrowed connection no guard holds any more is leaked.

  The interface of a pool, \<open>acquire\<close> and \<open>release\<close>, is the locale \<open>conn_pool\<close>; the guard
  (\<open>ConnectionGuard\<close>, whose destructor gives the connection back on every way out of the scope) is
  verified once in it. A pool whose failing \<open>acquire\<close> leaves nothing borrowed is a \<open>tight_pool\<close>.

  The wait in \<open>acquire\<close> is not a step of its own: \<open>acquire\<close> stands where \<open>wait_for\<close> returns, so an
  empty queue there means that the timeout has passed.
\<close>

section \<open>The state of a pool\<close>

record pool =
  pl_idle :: "nat list"
  pl_open :: "nat list"
  pl_next :: nat
  pl_initialized :: bool
  pl_shutting_down :: bool

definition empty_pool :: pool where
  "empty_pool = \<lparr>pl_idle = [], pl_open = [], pl_next = 0, pl_initialized = False,
                 pl_shutting_down = False\<rparr>"

definition open_conn :: "pool \<Rightarrow> pool" where
  "open_conn p = p\<lparr>pl_open := pl_next p # pl_open p, pl_next := Suc (pl_next p)\<rparr>"

definition close_conn :: "nat \<Rightarrow> pool \<Rightarrow> pool" where
  "close_conn c p = p\<lparr>pl_open := remove1 c (pl_open p)\<rparr>"

definition push_conn :: "nat \<Rightarrow> pool \<Rightarrow> pool" where
  "push_conn c p = p\<lparr>pl_idle := pl_idle p @ [c]\<rparr>"

definition pop_conn :: "pool \<Rightarrow> pool" where
  "pop_conn p = p\<lparr>pl_idle := tl (pl_idle p)\<rparr>"

text \<open>\<open>release\<close>, which the three pools write alike.\<close>

definition release_conn :: "nat \<Rightarrow> pool \<Rightarrow> pool" where
  "release_conn c p = (if pl_shutting_down p then close_conn c p else push_conn c p)"

text \<open>The loop of \<open>shutdown\<close>: close every idle connection.\<close>

definition close_idle :: "pool \<Rightarrow> pool" where
  "close_idle p = fold close_conn (pl_idle p) (p\<lparr>pl_idle := []\<rparr>)"

definition borrowed :: "pool \<Rightarrow> nat set" where
  "borrowed p = set (pl_open p) - set (pl_idle p)"

definition pool_ok :: "pool \<Rightarrow> bool" where
  "pool_ok p \<longleftrightarrow> distinct (pl_idle p) \<and> distinct (pl_open p) \<and> set (pl_idle p) \<subseteq> set (pl_open p) \<and>
     (\<forall>c\<in>set (pl_open p). c < pl_next p)"

lemma empty_pool_ok [simp]: "pool_ok empty_pool"
  by (simp add: pool_ok_def empty_pool_def)

lemma borrowed_open: "c \<in> borrowed p \<Longrightarrow> c \<in> set (pl_open p)"
  by (simp add: borrowed_def)

lemma open_conn_ok: "pool_ok p \<Longrightarrow> pool_ok (open_conn p)"
  by (auto simp: pool_ok_def open_conn_def less_Suc_eq)

lemma open_conn_borrowed: "pool_ok p \<Longrightarrow> borrowed (open_conn p) = insert (pl_next p) (borrowed p)"
  by (auto simp: pool_ok_def open_conn_def borrowed_def)

lemma next_fresh: "pool_ok p \<Longrightarrow> pl_next p \<notin> borrowed p"
  by (auto simp: pool_ok_def borrowed_def)

lemma close_conn_ok: "pool_ok p \<Longrightarrow> c \<in> borrowed p \<Longrightarrow> pool_ok (close_conn c p)"
  by (auto simp: pool_ok_def close_conn_def borrowed_def)

lemma close_conn_borrowed: "pool_ok p \<Longrightarrow> borrowed (close_conn c p) = borrowed p - {c}"
  by (auto simp: pool_ok_def close_conn_def borrowed_def)

lemma push_conn_ok: "pool_ok p \<Longrightarrow> c \<in> borrowed p \<Longrightarrow> pool_ok (push_conn c p)"
  by (auto simp: pool_ok_def push_conn_def borrowed_def)

lemma push_conn_borrowed: "borrowed (push_conn c p) = borrowed p - {c}"
  by (auto simp: push_conn_def borrowed_def)

lemma pop_conn_ok: "pool_ok p \<Longrightarrow> pool_ok (pop_conn p)"
  by (auto simp: pool_ok_def pop_conn_def distinct_tl dest: list.set_sel(2) [rotated])
     (metis list.sel(2) list.set_sel(2) subsetD)

lemma pop_conn_borrowed:
  "pool_ok p \<Longrightarrow> pl_idle p = c # cs \<Longrightarrow> borrowed (pop_conn p) = insert c (borrowed p) \<and> c \<notin> borrowed p"
  by (auto simp: pool_ok_def pop_conn_def borrowed_def)

lemma release_conn_ok: "pool_ok p \<Longrightarrow> c \<in> borrowed p \<Longrightarrow> pool_ok (release_conn c p)"
  by (simp add: release_conn_def close_conn_ok push_conn_ok)

lemma release_conn_borrowed: "pool_ok p \<Longrightarrow> borrowed (release_conn c p) = borrowed p - {c}"
  by (simp add: release_conn_def close_conn_borrowed push_conn_borrowed)

lemma fold_close_conn:
  "fold close_conn cs p = p\<lparr>pl_open := fold remove1 cs (pl_open p)\<rparr>"
  by (induction cs arbitrary: p) (simp_all add: close_conn_def)

lemma set_fold_remove1: "distinct xs \<Longrightarrow> set (fold remove1 cs xs) = set xs - set cs"
  by (induction cs arbitrary: xs) auto

lemma distinct_fold_remove1: "distinct xs \<Longrightarrow> distinct (fold remove1 cs xs)"
  by (induction cs arbitrary: xs) auto

lemma close_idle_props:
  assumes "pool_ok p"
  shows "pool_ok (close_idle p)" and "borrowed (close_idle p) = borrowed p"
    and "pl_idle (close_idle p) = []" and "set (pl_open (close_idle p)) = borrowed p"
  using assms
  by (auto simp: close_idle_def fold_close_conn pool_ok_def borrowed_def set_fold_remove1
      distinct_fold_remove1)

section \<open>The interface and the guard\<close>

text \<open>\<open>auto guard = acquire(); ... guard.get() ...\<close>, with the destructor \<open>~ConnectionGuard\<close>.\<close>

definition with_guard ::
    "('w, nat) comp \<Rightarrow> (nat \<Rightarrow> 'w \<Rightarrow> 'w) \<Rightarrow> (nat \<Rightarrow> ('w, 'a) comp) \<Rightarrow> ('w, 'a) comp" where
  "with_guard acquire release f = mbind acquire (\<lambda>c. mfinally (f c) (release c))"

text \<open>
  A computation lends when it keeps the pool well formed and everything borrowed stays borrowed; it
  settles when exactly the same connections are borrowed after it.
\<close>

definition lends :: "('w \<Rightarrow> pool) \<Rightarrow> 'w \<Rightarrow> 'w \<Rightarrow> bool" where
  "lends pl w w' \<longleftrightarrow> (pool_ok (pl w) \<longrightarrow> pool_ok (pl w') \<and> borrowed (pl w) \<subseteq> borrowed (pl w'))"

definition settles :: "('w \<Rightarrow> pool) \<Rightarrow> 'w \<Rightarrow> 'w \<Rightarrow> bool" where
  "settles pl w w' \<longleftrightarrow> (pool_ok (pl w) \<longrightarrow> pool_ok (pl w') \<and> borrowed (pl w') = borrowed (pl w))"

interpretation lends: frame "lends pl"
  by unfold_locales (auto simp: lends_def)

interpretation settles: frame "settles pl"
  by unfold_locales (auto simp: settles_def)

text \<open>
  \<open>pl\<close> reads the pool inside the client's state. \<open>acquire\<close> lends a connection nobody else holds;
  when it throws, it may have lost connections but has not taken one that was borrowed. \<open>release\<close>
  takes a borrowed connection back.
\<close>

locale conn_pool =
  fixes acquire :: "('w, nat) comp"
    and release :: "nat \<Rightarrow> 'w \<Rightarrow> 'w"
    and pl :: "'w \<Rightarrow> pool"
  assumes acquire_lends: "acquire w = (Inr c, w') \<Longrightarrow> pool_ok (pl w) \<Longrightarrow>
      pool_ok (pl w') \<and> c \<notin> borrowed (pl w) \<and> borrowed (pl w') = insert c (borrowed (pl w))"
    and acquire_fails: "acquire w = (Inl e, w') \<Longrightarrow> pool_ok (pl w) \<Longrightarrow>
      pool_ok (pl w') \<and> borrowed (pl w) \<subseteq> borrowed (pl w')"
    and release_returns: "pool_ok (pl w) \<Longrightarrow> c \<in> borrowed (pl w) \<Longrightarrow>
      pool_ok (pl (release c w)) \<and> borrowed (pl (release c w)) = borrowed (pl w) - {c}"
begin

lemma guarded_lends:
  assumes "\<And>c. keeps (lends pl) (f c)"
  shows "keeps (lends pl) (with_guard acquire release f)"
proof (rule keepsI)
  fix w r w' assume run: "with_guard acquire release f w = (r, w')"
  show "lends pl w w'"
  proof (cases "acquire w")
    case (Pair q w1)
    show ?thesis
    proof (cases q)
      case (Inl e)
      with run Pair show ?thesis
        using acquire_fails [of w e w1] by (auto simp: with_guard_def mbind_run lends_def)
    next
      case (Inr c)
      obtain r2 w2 where f: "f c w1 = (r2, w2)" by force
      with run Pair Inr have w': "w' = release c w2"
        by (simp add: with_guard_def mbind_run mfinally_run)
      have l: "lends pl w1 w2" using keepsD [OF assms f] .
      show ?thesis unfolding lends_def
      proof
        assume ok: "pool_ok (pl w)"
        from acquire_lends [of w c w1] Pair Inr ok
        have a: "pool_ok (pl w1)" "c \<notin> borrowed (pl w)" "borrowed (pl w1) = insert c (borrowed (pl w))"
          by auto
        with l have b: "pool_ok (pl w2)" "insert c (borrowed (pl w)) \<subseteq> borrowed (pl w2)"
          by (auto simp: lends_def)
        with release_returns [of w2 c] a
        show "pool_ok (pl w') \<and> borrowed (pl w) \<subseteq> borrowed (pl w')"
          unfolding w' by auto
      qed
    qed
  qed
qed

end

text \<open>A pool whose failing \<open>acquire\<close> leaves nothing borrowed: then the guard never leaks.\<close>

locale tight_pool = conn_pool +
  assumes acquire_fails_tight: "acquire w = (Inl e, w') \<Longrightarrow> pool_ok (pl w) \<Longrightarrow>
      borrowed (pl w') \<subseteq> borrowed (pl w)"
begin

lemma guarded_settles:
  assumes "\<And>c. keeps (settles pl) (f c)"
  shows "keeps (settles pl) (with_guard acquire release f)"
proof (rule keepsI)
  fix w r w' assume run: "with_guard acquire release f w = (r, w')"
  show "settles pl w w'"
  proof (cases "acquire w")
    case (Pair q w1)
    show ?thesis
    proof (cases q)
      case (Inl e)
      with run Pair show ?thesis
        using acquire_fails [of w e w1] acquire_fails_tight [of w e w1]
        by (auto simp: with_guard_def mbind_run settles_def)
    next
      case (Inr c)
      obtain r2 w2 where f: "f c w1 = (r2, w2)" by force
      with run Pair Inr have w': "w' = release c w2"
        by (simp add: with_guard_def mbind_run mfinally_run)
      have l: "settles pl w1 w2" using keepsD [OF assms f] .
      show ?thesis
        using acquire_lends [of w c w1] Pair Inr l release_returns [of w2 c]
        by (auto simp: w' settles_def)
    qed
  qed
qed

end

end
