(* ===== verification/MySqlPool.thy ===== *)
theory MySqlPool
  imports Tables Pool Config
begin

text \<open>
  \<open>payment_mysql::MySqlPool\<close> (backend/common/mysql_pool.hpp): the pool, the statements the program
  sends, and its operations. The database is the list of rows of each table; a statement is a
  function on it, with the error text on the left. Comparing a column with a text in a WHERE clause
  or a UNIQUE key compares collation weights (\<open>col_eq\<close>), comparing in C++ compares bytes.

  What the network and the server may do is in three lists of events of the state, each consumed
  from the front and harmless once empty: the answers to \<open>mysql_ping\<close>, the outcomes of connecting,
  and the outcomes of statements. A statement may fail before the server executed it (\<open>SqlFail\<close>) or
  after (\<open>SqlFailAfter\<close>, the reply was lost). Texts longer than their column make the server refuse
  the statement, which is such an event too.

  One handler runs between two changes by others at the granularity of the operations below: each
  of them is one statement in autocommit mode, or the transaction of \<open>finalizePaymentSuccess\<close>, whose
  rows are locked. \<open>m_txn\<close> is the state at \<open>START TRANSACTION\<close>, to which \<open>ROLLBACK\<close> returns. When
  \<open>ROLLBACK\<close> itself fails, the connection is lost, and the server rolls back. The time \<open>NOW()\<close> is an
  argument.
\<close>

section \<open>State\<close>

record db =
  users :: "user_row list"
  accounts :: "account_row list"
  orders :: "order_row list"
  sessions :: "session_row list"
  attempts :: "attempt_row list"
  session_seq :: int
  attempt_seq :: int

datatype sql_event = SqlOk | SqlFail string | SqlFailAfter string

datatype connect_event = ConnectOk | InitNull | ConnectFail string

record mysql =
  m_pool :: pool
  m_pool_size :: int
  m_db :: db
  m_txn :: "db option"
  m_pings :: "bool list"
  m_connects :: "connect_event list"
  m_events :: "sql_event list"

definition on_pool :: "(pool \<Rightarrow> pool) \<Rightarrow> (mysql, unit) comp" where
  "on_pool f = mmodify (\<lambda>w. w\<lparr>m_pool := f (m_pool w)\<rparr>)"

definition next_ping :: "(mysql, bool) comp" where
  "next_ping = (\<lambda>w. case m_pings w of
      [] \<Rightarrow> (Inr True, w)
    | b # bs \<Rightarrow> (Inr b, w\<lparr>m_pings := bs\<rparr>))"

definition next_connect :: "(mysql, connect_event) comp" where
  "next_connect = (\<lambda>w. case m_connects w of
      [] \<Rightarrow> (Inr ConnectOk, w)
    | e # es \<Rightarrow> (Inr e, w\<lparr>m_connects := es\<rparr>))"

definition next_event :: "(mysql, sql_event) comp" where
  "next_event = (\<lambda>w. case m_events w of
      [] \<Rightarrow> (Inr SqlOk, w)
    | e # es \<Rightarrow> (Inr e, w\<lparr>m_events := es\<rparr>))"

section \<open>The pool\<close>

definition my_createConnection :: "(mysql, nat) comp" where
  "my_createConnection =
     mbind next_connect (\<lambda>ev. case ev of
       InitNull \<Rightarrow> mthrow (MySqlException M_mysql_init_failed)
     | ConnectFail err \<Rightarrow> mthrow (MySqlException (M_mysql_connect_failed @ err))
     | ConnectOk \<Rightarrow>
         mbind (mread (\<lambda>w. pl_next (m_pool w))) (\<lambda>c.
         mbind (on_pool open_conn) (\<lambda>_. mret c)))"

definition my_acquire :: "(mysql, nat) comp" where
  "my_acquire =
     mbind (mread m_pool) (\<lambda>p.
       if \<not> pl_initialized p then mthrow (MySqlException M_mysql_uninit)
       else if pl_shutting_down p then mthrow (MySqlException M_mysql_timeout)
       else case pl_idle p of
           [] \<Rightarrow> mthrow (MySqlException M_mysql_timeout)
         | c # _ \<Rightarrow>
             mbind (on_pool pop_conn) (\<lambda>_.
             mbind next_ping (\<lambda>alive.
               if alive then mret c
               else mbind (on_pool (close_conn c)) (\<lambda>_. my_createConnection))))"

definition my_release :: "nat \<Rightarrow> mysql \<Rightarrow> mysql" where
  "my_release c w = w\<lparr>m_pool := release_conn c (m_pool w)\<rparr>"

abbreviation my_guarded :: "(nat \<Rightarrow> (mysql, 'a) comp) \<Rightarrow> (mysql, 'a) comp" where
  "my_guarded \<equiv> with_guard my_acquire my_release"

fun my_fill :: "nat \<Rightarrow> (mysql, unit) comp" where
  "my_fill 0 = mret ()"
| "my_fill (Suc n) =
     mbind my_createConnection (\<lambda>c. mbind (on_pool (push_conn c)) (\<lambda>_. my_fill n))"

definition my_init :: "MySqlConfig \<Rightarrow> (mysql, unit) comp" where
  "my_init cfg =
     mbind (mread m_pool) (\<lambda>p.
       if pl_initialized p then mret ()
       else
         mbind (mmodify (\<lambda>w. w\<lparr>m_pool_size := my_pool_size cfg\<rparr>)) (\<lambda>_.
         mbind (on_pool (\<lambda>p. p\<lparr>pl_shutting_down := False\<rparr>)) (\<lambda>_.
         mbind (my_fill (nat (my_pool_size cfg))) (\<lambda>_.
           on_pool (\<lambda>p. p\<lparr>pl_initialized := True\<rparr>)))))"

definition my_initFromConfig :: "values \<Rightarrow> (mysql, unit) comp" where
  "my_initFromConfig v = mbind (mlift (mysql_cfg v)) my_init"

definition my_shutdown :: "(mysql, unit) comp" where
  "my_shutdown =
     mbind (mread m_pool) (\<lambda>p.
       if \<not> pl_initialized p \<and> pl_idle p = [] then mret ()
       else on_pool (\<lambda>p. (close_idle (p\<lparr>pl_shutting_down := True\<rparr>))\<lparr>pl_initialized := False\<rparr>))"

section \<open>Statements\<close>

type_synonym 'a stmt = "db \<Rightarrow> string + 'a \<times> db"

definition col_eq :: "lib \<Rightarrow> string \<Rightarrow> string \<Rightarrow> bool" where
  "col_eq L a b \<longleftrightarrow> sql_key L a = sql_key L b"

definition exec_failed :: "string \<Rightarrow> exn" where
  "exec_failed err = MySqlException (M_mysql_exec_failed @ err)"

text \<open>\<open>execute\<close> and \<open>executeAffected\<close>: they differ in what the caller is told.\<close>

definition executeAffected :: "'a stmt \<Rightarrow> (mysql, 'a) comp" where
  "executeAffected st =
     mbind next_event (\<lambda>ev w. case ev of
       SqlFail err \<Rightarrow> (Inl (exec_failed err), w)
     | SqlOk \<Rightarrow> (case st (m_db w) of
           Inl err \<Rightarrow> (Inl (exec_failed err), w)
         | Inr (x, d) \<Rightarrow> (Inr x, w\<lparr>m_db := d\<rparr>))
     | SqlFailAfter err \<Rightarrow> (Inl (exec_failed err), (case st (m_db w) of
           Inl _ \<Rightarrow> w
         | Inr (_, d) \<Rightarrow> w\<lparr>m_db := d\<rparr>)))"

definition execute :: "unit stmt \<Rightarrow> (mysql, bool) comp" where
  "execute st = mbind (executeAffected st) (\<lambda>_. mret True)"

definition queryRows :: "(db \<Rightarrow> string list list) \<Rightarrow> (mysql, string list list) comp" where
  "queryRows q =
     mbind next_event (\<lambda>ev. case ev of
       SqlFail err \<Rightarrow> mthrow (MySqlException (M_mysql_query_failed @ err))
     | SqlFailAfter err \<Rightarrow> mthrow (MySqlException (M_mysql_store_failed @ err))
     | SqlOk \<Rightarrow> mread (\<lambda>w. q (m_db w)))"

definition begin_txn :: "(mysql, unit) comp" where
  "begin_txn =
     mbind next_event (\<lambda>ev. case ev of
       SqlFail err \<Rightarrow> mthrow (exec_failed err)
     | SqlOk \<Rightarrow> mmodify (\<lambda>w. w\<lparr>m_txn := Some (m_db w)\<rparr>)
     | SqlFailAfter err \<Rightarrow>
         mbind (mmodify (\<lambda>w. w\<lparr>m_txn := Some (m_db w)\<rparr>)) (\<lambda>_. mthrow (exec_failed err)))"

definition commit :: "(mysql, unit) comp" where
  "commit =
     mbind next_event (\<lambda>ev. case ev of
       SqlFail err \<Rightarrow> mthrow (exec_failed err)
     | SqlOk \<Rightarrow> mmodify (\<lambda>w. w\<lparr>m_txn := None\<rparr>)
     | SqlFailAfter err \<Rightarrow>
         mbind (mmodify (\<lambda>w. w\<lparr>m_txn := None\<rparr>)) (\<lambda>_. mthrow (exec_failed err)))"

definition undo :: "mysql \<Rightarrow> mysql" where
  "undo w = (case m_txn w of None \<Rightarrow> w | Some d \<Rightarrow> w\<lparr>m_db := d, m_txn := None\<rparr>)"

definition rollback :: "(mysql, unit) comp" where
  "rollback =
     mcatch
       (mbind next_event (\<lambda>ev. case ev of
          SqlOk \<Rightarrow> mmodify undo
        | SqlFail err \<Rightarrow> mbind (mmodify undo) (\<lambda>_. mthrow (exec_failed err))
        | SqlFailAfter err \<Rightarrow> mbind (mmodify undo) (\<lambda>_. mthrow (exec_failed err))))
       (\<lambda>_. mret ())"

definition nullableString :: "string \<Rightarrow> string option" where
  "nullableString v = (if v = [] then None else Some v)"

text \<open>\<open>SELECT columns FROM table WHERE condition LIMIT 1\<close> and its first row, parsed.\<close>

definition select1 :: "('r \<Rightarrow> string list) \<Rightarrow> (db \<Rightarrow> 'r list) \<Rightarrow> ('r \<Rightarrow> bool) \<Rightarrow> db \<Rightarrow> string list list" where
  "select1 cols table p d = map cols (take 1 (filter p (table d)))"

definition first_row :: "(string list \<Rightarrow> exn + 'a) \<Rightarrow> string list list \<Rightarrow> (mysql, 'a option) comp" where
  "first_row parse rows = (case rows of
      [] \<Rightarrow> mret None
    | r # _ \<Rightarrow> mbind (mlift (parse r)) (\<lambda>x. mret (Some x)))"

section \<open>Operations\<close>

definition getUserByUserId :: "lib \<Rightarrow> string \<Rightarrow> (mysql, UserInfo option) comp" where
  "getUserByUserId L user_id = my_guarded (\<lambda>_.
     mbind (queryRows (select1 (userSelectColumns L) users (\<lambda>r. col_eq L (u_user_id r) user_id)))
       (first_row parseUser))"

definition getUserByUsername :: "lib \<Rightarrow> string \<Rightarrow> (mysql, UserInfo option) comp" where
  "getUserByUsername L username = my_guarded (\<lambda>_.
     mbind (queryRows (select1 (userSelectColumns L) users (\<lambda>r. col_eq L (u_username r) username)))
       (first_row parseUser))"

definition isUserRealAuthCompleted :: "lib \<Rightarrow> string \<Rightarrow> (mysql, bool) comp" where
  "isUserRealAuthCompleted L user_id =
     mbind (getUserByUserId L user_id) (\<lambda>user. mret (case user of
        None \<Rightarrow> False
      | Some u \<Rightarrow> isRealAuthCompleted u))"

record UserRealAuthUpdate =
  ru_user_id :: string
  ru_email_hash :: string
  ru_email_masked :: string
  ru_id_card_hash :: string
  ru_id_card_masked :: string

text \<open>No two rows agree on a UNIQUE column, where NULL differs from everything.\<close>

definition unique_col :: "lib \<Rightarrow> ('r \<Rightarrow> string option) \<Rightarrow> 'r list \<Rightarrow> bool" where
  "unique_col L f rs = distinct (map (sql_key L) (List.map_filter f rs))"

definition set_real_auth :: "UserRealAuthUpdate \<Rightarrow> user_row \<Rightarrow> user_row" where
  "set_real_auth input r =
     r\<lparr>u_email_hash := Some (ru_email_hash input), u_email_masked := Some (ru_email_masked input),
       u_id_card_hash := Some (ru_id_card_hash input),
       u_id_card_masked := Some (ru_id_card_masked input), u_real_auth_completed := 1\<rparr>"

definition update_real_auth :: "lib \<Rightarrow> UserRealAuthUpdate \<Rightarrow> nat stmt" where
  "update_real_auth L input d =
     (let p = (\<lambda>r. col_eq L (u_user_id r) (ru_user_id input));
          rs = update_rows p (set_real_auth input) (users d)
      in if unique_col L u_email_hash rs \<and> unique_col L u_id_card_hash rs
         then Inr (changed_rows p (set_real_auth input) (users d), d\<lparr>users := rs\<rparr>)
         else Inl (dup_entry L))"

definition updateUserRealAuthProfile :: "lib \<Rightarrow> UserRealAuthUpdate \<Rightarrow> (mysql, bool) comp" where
  "updateUserRealAuthProfile L input =
     (if ru_user_id input = [] \<or> ru_email_hash input = [] \<or> ru_email_masked input = [] \<or>
         ru_id_card_hash input = [] \<or> ru_id_card_masked input = [] then mret False
      else my_guarded (\<lambda>_.
        mbind (executeAffected (update_real_auth L input)) (\<lambda>n. mret (n = 1))))"

definition getOrderBySn :: "lib \<Rightarrow> string \<Rightarrow> (mysql, OrderInfo option) comp" where
  "getOrderBySn L order_sn = my_guarded (\<lambda>_.
     mbind (queryRows (select1 (orderSelectColumns L) orders (\<lambda>r. col_eq L (o_order_sn r) order_sn)))
       (first_row parseOrder))"

definition getAccountById :: "lib \<Rightarrow> string \<Rightarrow> (mysql, AccountInfo option) comp" where
  "getAccountById L account_id = my_guarded (\<lambda>_.
     mbind (queryRows (select1 (accountSelectColumns L) accounts (\<lambda>r. col_eq L (a_account_id r) account_id)))
       (first_row parseAccount))"

definition getActivePaymentSessionByOrderSn ::
    "lib \<Rightarrow> int \<Rightarrow> string \<Rightarrow> (mysql, PaymentSessionInfo option) comp" where
  "getActivePaymentSessionByOrderSn L now order_sn = my_guarded (\<lambda>_.
     mbind (queryRows (select1 (paymentSessionSelectColumns L) sessions
         (\<lambda>r. col_eq L (s_order_sn r) order_sn \<and> s_status r = session_code WaitingPay \<and> s_expire_at r > now)))
       (first_row parsePaymentSession))"

definition getPaymentSessionById :: "lib \<Rightarrow> string \<Rightarrow> (mysql, PaymentSessionInfo option) comp" where
  "getPaymentSessionById L payment_session_id = my_guarded (\<lambda>_.
     mbind (queryRows (select1 (paymentSessionSelectColumns L) sessions
         (\<lambda>r. col_eq L (s_payment_session_id r) payment_session_id)))
       (first_row parsePaymentSession))"

record CreatePaymentSessionInput =
  cs_payment_session_id :: string
  cs_order_sn :: string
  cs_account_id :: string
  cs_buyer_id :: string
  cs_buyer_contact_masked :: string
  cs_ttl_seconds :: int

definition insert_session :: "lib \<Rightarrow> int \<Rightarrow> CreatePaymentSessionInput \<Rightarrow> unit stmt" where
  "insert_session L now input d =
     (if \<exists>r\<in>set (sessions d). col_eq L (s_payment_session_id r) (cs_payment_session_id input) \<or>
           col_eq L (s_order_sn r) (cs_order_sn input) then Inl (dup_entry L)
      else if \<not> bigint (session_seq d) then Inl (range_error L)
      else Inr ((), d\<lparr>sessions := sessions d @
             [\<lparr>s_id = session_seq d, s_payment_session_id = cs_payment_session_id input,
               s_order_sn = cs_order_sn input, s_account_id = cs_account_id input,
               s_buyer_id = cs_buyer_id input, s_buyer_email = cs_buyer_contact_masked input,
               s_status = session_code WaitingPay, s_expire_at = now + cs_ttl_seconds input,
               s_created_at = now, s_updated_at = now\<rparr>],
             session_seq := session_seq d + 1\<rparr>))"

definition createPaymentSession :: "lib \<Rightarrow> int \<Rightarrow> CreatePaymentSessionInput \<Rightarrow> (mysql, bool) comp" where
  "createPaymentSession L now input =
     (if cs_ttl_seconds input \<le> 0 then mthrow (MySqlException M_session_ttl)
      else my_guarded (\<lambda>_. mbind (execute (insert_session L now input)) (\<lambda>_. mret True)))"

definition getPaymentAttemptByRequestId :: "lib \<Rightarrow> string \<Rightarrow> (mysql, PaymentAttemptInfo option) comp" where
  "getPaymentAttemptByRequestId L request_id = my_guarded (\<lambda>_.
     mbind (queryRows (select1 (paymentAttemptSelectColumns L) attempts
         (\<lambda>r. col_eq L (t_request_id r) request_id)))
       (first_row parsePaymentAttempt))"

record CreatePaymentAttemptInput =
  ca_request_id :: string
  ca_payment_session_id :: string
  ca_order_sn :: string
  ca_account_id :: string
  ca_buyer_id :: string
  ca_client_ip :: string
  ca_user_agent :: string

definition insert_attempt :: "lib \<Rightarrow> int \<Rightarrow> CreatePaymentAttemptInput \<Rightarrow> unit stmt" where
  "insert_attempt L now input d =
     (if \<exists>r\<in>set (attempts d). col_eq L (t_request_id r) (ca_request_id input) then Inl (dup_entry L)
      else if \<not> bigint (attempt_seq d) then Inl (range_error L)
      else Inr ((), d\<lparr>attempts := attempts d @
             [\<lparr>t_id = attempt_seq d, t_request_id = ca_request_id input,
               t_payment_session_id = ca_payment_session_id input, t_order_sn = ca_order_sn input,
               t_account_id = ca_account_id input, t_buyer_id = ca_buyer_id input,
               t_result = attempt_code AttemptProcessing, t_fail_reason = None,
               t_client_ip = Some (ca_client_ip input), t_user_agent = Some (ca_user_agent input),
               t_created_at = now, t_updated_at = now\<rparr>],
             attempt_seq := attempt_seq d + 1\<rparr>))"

definition createPaymentAttemptProcessing ::
    "lib \<Rightarrow> int \<Rightarrow> CreatePaymentAttemptInput \<Rightarrow> (mysql, bool) comp" where
  "createPaymentAttemptProcessing L now input =
     my_guarded (\<lambda>_. mbind (execute (insert_attempt L now input)) (\<lambda>_. mret True))"

definition set_result :: "int \<Rightarrow> PaymentAttemptResult \<Rightarrow> string \<Rightarrow> attempt_row \<Rightarrow> attempt_row" where
  "set_result now result fail_reason r =
     r\<lparr>t_result := attempt_code result, t_fail_reason := nullableString fail_reason, t_updated_at := now\<rparr>"

definition update_attempt ::
    "lib \<Rightarrow> int \<Rightarrow> string \<Rightarrow> PaymentAttemptResult \<Rightarrow> string \<Rightarrow> nat stmt" where
  "update_attempt L now request_id result fail_reason d =
     (let p = (\<lambda>r. col_eq L (t_request_id r) request_id)
      in Inr (changed_rows p (set_result now result fail_reason) (attempts d),
              d\<lparr>attempts := update_rows p (set_result now result fail_reason) (attempts d)\<rparr>))"

definition updatePaymentAttemptResult ::
    "lib \<Rightarrow> int \<Rightarrow> string \<Rightarrow> PaymentAttemptResult \<Rightarrow> string \<Rightarrow> (mysql, bool) comp" where
  "updatePaymentAttemptResult L now request_id result fail_reason = my_guarded (\<lambda>_.
     mbind (executeAffected (update_attempt L now request_id result fail_reason)) (\<lambda>n. mret (n = 1)))"

definition expire_session :: "int \<Rightarrow> session_row \<Rightarrow> session_row" where
  "expire_session now r = r\<lparr>s_status := session_code SessionExpired, s_updated_at := now\<rparr>"

definition expire_sessions :: "int \<Rightarrow> nat stmt" where
  "expire_sessions now d =
     (let p = (\<lambda>r. s_status r = session_code WaitingPay \<and> s_expire_at r \<le> now)
      in Inr (changed_rows p (expire_session now) (sessions d),
              d\<lparr>sessions := update_rows p (expire_session now) (sessions d)\<rparr>))"

definition expireTimeoutPaymentSessions :: "int \<Rightarrow> (mysql, int) comp" where
  "expireTimeoutPaymentSessions now = my_guarded (\<lambda>_.
     mbind (executeAffected (expire_sessions now)) (\<lambda>n. mret (to_int (int n))))"

definition markAttemptFailedNoThrow :: "lib \<Rightarrow> int \<Rightarrow> string \<Rightarrow> string \<Rightarrow> (mysql, unit) comp" where
  "markAttemptFailedNoThrow L now request_id fail_reason =
     mcatch (mbind (updatePaymentAttemptResult L now request_id AttemptFailed fail_reason) (\<lambda>_. mret ()))
       (\<lambda>_. mret ())"

section \<open>The payment transaction\<close>

record PaymentFinalizeInput =
  pf_payment_session_id :: string
  pf_order_sn :: string
  pf_account_id :: string
  pf_buyer_id :: string
  pf_price :: int
  pf_request_id :: string

text \<open>
  The body of \<open>finalizePaymentSuccess\<close>, one definition per locked table in the order of the code;
  each takes the rest of the body as its last argument.
\<close>

definition finalize_reject :: "lib \<Rightarrow> int \<Rightarrow> PaymentFinalizeInput \<Rightarrow> string \<Rightarrow> (mysql, bool) comp" where
  "finalize_reject L now input reason =
     mbind rollback (\<lambda>_.
     mbind (markAttemptFailedNoThrow L now (pf_request_id input) reason) (\<lambda>_. mret False))"

definition select_all :: "('r \<Rightarrow> string list) \<Rightarrow> (db \<Rightarrow> 'r list) \<Rightarrow> ('r \<Rightarrow> bool) \<Rightarrow> db \<Rightarrow> string list list" where
  "select_all cols table p d = map cols (filter p (table d))"

definition finalize_session ::
    "lib \<Rightarrow> int \<Rightarrow> PaymentFinalizeInput \<Rightarrow> (mysql, bool) comp \<Rightarrow> (mysql, bool) comp" where
  "finalize_session L now input k =
     mbind (queryRows (select_all
         (\<lambda>r. [s_payment_session_id r, s_order_sn r, s_account_id r, s_buyer_id r,
               to_string (s_status r), date_format L (s_expire_at r)])
         sessions (\<lambda>r. col_eq L (s_payment_session_id r) (pf_payment_session_id input)))) (\<lambda>rows.
       case rows of [] \<Rightarrow> finalize_reject L now input ''SESSION_NOT_FOUND''
       | row # _ \<Rightarrow>
           mbind (mlift (toInt64 row 4)) (\<lambda>session_status.
           if row_get row 1 \<noteq> pf_order_sn input \<or> row_get row 2 \<noteq> pf_account_id input \<or>
              row_get row 3 \<noteq> pf_buyer_id input
           then finalize_reject L now input ''SESSION_BINDING_MISMATCH''
           else if to_int session_status \<noteq> session_code WaitingPay
           then finalize_reject L now input ''SESSION_NOT_PAYABLE''
           else k))"

definition finalize_order ::
    "lib \<Rightarrow> int \<Rightarrow> PaymentFinalizeInput \<Rightarrow> (mysql, bool) comp \<Rightarrow> (mysql, bool) comp" where
  "finalize_order L now input k =
     mbind (queryRows (select_all
         (\<lambda>r. [to_string (o_status r), o_account_id r, o_buyer_id r, to_string (o_price r)])
         orders (\<lambda>r. col_eq L (o_order_sn r) (pf_order_sn input)))) (\<lambda>rows.
       case rows of [] \<Rightarrow> finalize_reject L now input ''ORDER_NOT_FOUND''
       | row # _ \<Rightarrow>
           mbind (mlift (toInt64 row 0)) (\<lambda>order_status.
           mbind (mlift (toInt64 row 3)) (\<lambda>order_price.
           if to_int order_status \<noteq> order_code PendingPay
           then finalize_reject L now input
             (if to_int order_status = order_code OrderPaid then ''ORDER_ALREADY_PAID''
              else ''ORDER_NOT_PAYABLE'')
           else if row_get row 1 \<noteq> pf_account_id input \<or> row_get row 2 \<noteq> pf_buyer_id input \<or>
              order_price \<noteq> pf_price input
           then finalize_reject L now input ''ORDER_SNAPSHOT_MISMATCH''
           else k)))"

definition finalize_account ::
    "lib \<Rightarrow> int \<Rightarrow> PaymentFinalizeInput \<Rightarrow> (mysql, bool) comp \<Rightarrow> (mysql, bool) comp" where
  "finalize_account L now input k =
     mbind (queryRows (select_all (\<lambda>r. [to_string (a_status r), to_string (a_version r)])
         accounts (\<lambda>r. col_eq L (a_account_id r) (pf_account_id input)))) (\<lambda>rows.
       case rows of [] \<Rightarrow> finalize_reject L now input ''ACCOUNT_NOT_FOUND''
       | row # _ \<Rightarrow>
           mbind (mlift (toInt64 row 0)) (\<lambda>account_status.
           if to_int account_status \<noteq> account_code OnSale \<and> to_int account_status \<noteq> account_code Trading
           then finalize_reject L now input ''ACCOUNT_NOT_TRADABLE''
           else k))"

definition finalize_attempt ::
    "lib \<Rightarrow> int \<Rightarrow> PaymentFinalizeInput \<Rightarrow> (mysql, bool) comp \<Rightarrow> (mysql, bool) comp" where
  "finalize_attempt L now input k =
     mbind (queryRows (select_all
         (\<lambda>r. [to_string (t_result r), t_payment_session_id r, t_order_sn r, t_account_id r, t_buyer_id r])
         attempts (\<lambda>r. col_eq L (t_request_id r) (pf_request_id input)))) (\<lambda>rows.
       case rows of [] \<Rightarrow> mbind rollback (\<lambda>_. mret False)
       | row # _ \<Rightarrow>
           mbind (mlift (toInt64 row 0)) (\<lambda>attempt_result.
           if to_int attempt_result = attempt_code AttemptSuccess then mbind commit (\<lambda>_. mret True)
           else if to_int attempt_result = attempt_code AttemptFailed then mbind rollback (\<lambda>_. mret False)
           else if row_get row 1 \<noteq> pf_payment_session_id input \<or> row_get row 2 \<noteq> pf_order_sn input \<or>
              row_get row 3 \<noteq> pf_account_id input \<or> row_get row 4 \<noteq> pf_buyer_id input
           then finalize_reject L now input ''REQUEST_BINDING_MISMATCH''
           else k))"

definition finalize_user ::
    "lib \<Rightarrow> int \<Rightarrow> PaymentFinalizeInput \<Rightarrow> (mysql, bool) comp \<Rightarrow> (mysql, bool) comp" where
  "finalize_user L now input k =
     mbind (queryRows (select1
         (\<lambda>r. [to_string (u_status r), to_string (u_real_auth_completed r), or_empty (u_email_hash r),
               or_empty (u_id_card_hash r)])
         users (\<lambda>r. col_eq L (u_user_id r) (pf_buyer_id input)))) (\<lambda>rows.
       case rows of [] \<Rightarrow> finalize_reject L now input ''USER_NOT_FOUND''
       | row # _ \<Rightarrow>
           mbind (mlift (toInt64 row 0)) (\<lambda>user_status.
           mbind (mlift (toInt64 row 1)) (\<lambda>real_auth_completed.
           if to_int user_status \<noteq> user_code UserNormal \<or> to_int real_auth_completed \<noteq> 1 \<or>
              row_get row 2 = [] \<or> row_get row 3 = []
           then finalize_reject L now input ''USER_REAL_AUTH_INVALID''
           else k)))"

text \<open>The four updates.\<close>

definition pay_order_where :: "lib \<Rightarrow> PaymentFinalizeInput \<Rightarrow> order_row \<Rightarrow> bool" where
  "pay_order_where L input r \<longleftrightarrow> col_eq L (o_order_sn r) (pf_order_sn input) \<and> o_status r = 0"

definition pay_order_set :: "int \<Rightarrow> order_row \<Rightarrow> order_row" where
  "pay_order_set now r = r\<lparr>o_status := 1, o_paid_at := Some now, o_update_time := now\<rparr>"

definition pay_order :: "lib \<Rightarrow> int \<Rightarrow> PaymentFinalizeInput \<Rightarrow> nat stmt" where
  "pay_order L now input d =
     Inr (changed_rows (pay_order_where L input) (pay_order_set now) (orders d),
          d\<lparr>orders := update_rows (pay_order_where L input) (pay_order_set now) (orders d)\<rparr>)"

definition pay_account_where :: "lib \<Rightarrow> PaymentFinalizeInput \<Rightarrow> account_row \<Rightarrow> bool" where
  "pay_account_where L input r \<longleftrightarrow> col_eq L (a_account_id r) (pf_account_id input) \<and> a_status r \<in> {0, 1}"

definition pay_account_set :: "int \<Rightarrow> account_row \<Rightarrow> account_row" where
  "pay_account_set now r = r\<lparr>a_status := 2, a_version := a_version r + 1, a_updated_at := now\<rparr>"

definition pay_account :: "lib \<Rightarrow> int \<Rightarrow> PaymentFinalizeInput \<Rightarrow> nat stmt" where
  "pay_account L now input d =
     (if \<exists>r\<in>set (accounts d). pay_account_where L input r \<and> \<not> sql_int (a_version r + 1)
      then Inl (range_error L)
      else Inr (changed_rows (pay_account_where L input) (pay_account_set now) (accounts d),
            d\<lparr>accounts := update_rows (pay_account_where L input) (pay_account_set now) (accounts d)\<rparr>))"

definition pay_session_where :: "lib \<Rightarrow> PaymentFinalizeInput \<Rightarrow> session_row \<Rightarrow> bool" where
  "pay_session_where L input r \<longleftrightarrow>
     col_eq L (s_payment_session_id r) (pf_payment_session_id input) \<and> s_status r = 0"

definition pay_session_set :: "int \<Rightarrow> session_row \<Rightarrow> session_row" where
  "pay_session_set now r = r\<lparr>s_status := 1, s_updated_at := now\<rparr>"

definition pay_session :: "lib \<Rightarrow> int \<Rightarrow> PaymentFinalizeInput \<Rightarrow> nat stmt" where
  "pay_session L now input d =
     Inr (changed_rows (pay_session_where L input) (pay_session_set now) (sessions d),
          d\<lparr>sessions := update_rows (pay_session_where L input) (pay_session_set now) (sessions d)\<rparr>)"

definition pay_attempt_where :: "lib \<Rightarrow> PaymentFinalizeInput \<Rightarrow> attempt_row \<Rightarrow> bool" where
  "pay_attempt_where L input r \<longleftrightarrow> col_eq L (t_request_id r) (pf_request_id input) \<and> t_result r = 0"

definition pay_attempt_set :: "int \<Rightarrow> attempt_row \<Rightarrow> attempt_row" where
  "pay_attempt_set now r = r\<lparr>t_result := 1, t_fail_reason := None, t_updated_at := now\<rparr>"

definition pay_attempt :: "lib \<Rightarrow> int \<Rightarrow> PaymentFinalizeInput \<Rightarrow> nat stmt" where
  "pay_attempt L now input d =
     Inr (changed_rows (pay_attempt_where L input) (pay_attempt_set now) (attempts d),
          d\<lparr>attempts := update_rows (pay_attempt_where L input) (pay_attempt_set now) (attempts d)\<rparr>)"

definition finalize_update :: "lib \<Rightarrow> int \<Rightarrow> PaymentFinalizeInput \<Rightarrow> (mysql, bool) comp" where
  "finalize_update L now input =
     mbind (executeAffected (pay_order L now input)) (\<lambda>order_affected.
     mbind (executeAffected (pay_account L now input)) (\<lambda>account_affected.
     mbind (executeAffected (pay_session L now input)) (\<lambda>session_affected.
     mbind (executeAffected (pay_attempt L now input)) (\<lambda>attempt_affected.
     if order_affected \<noteq> 1 \<or> account_affected \<noteq> 1 \<or> session_affected \<noteq> 1 \<or> attempt_affected \<noteq> 1
     then finalize_reject L now input ''PAYMENT_STATE_UPDATE_FAILED''
     else mbind commit (\<lambda>_. mret True)))))"

definition finalize_body :: "lib \<Rightarrow> int \<Rightarrow> PaymentFinalizeInput \<Rightarrow> (mysql, bool) comp" where
  "finalize_body L now input =
     mbind begin_txn (\<lambda>_.
       finalize_session L now input
      (finalize_order L now input
      (finalize_account L now input
      (finalize_attempt L now input
      (finalize_user L now input
      (finalize_update L now input))))))"

definition finalizePaymentSuccess :: "lib \<Rightarrow> int \<Rightarrow> PaymentFinalizeInput \<Rightarrow> (mysql, bool) comp" where
  "finalizePaymentSuccess L now input = my_guarded (\<lambda>_.
     mcatch (finalize_body L now input)
       (\<lambda>_. finalize_reject L now input ''PAYMENT_INTERNAL_ERROR''))"

end
