(* ===== verification/RedisServer.thy ===== *)
theory RedisServer
  imports Config Pool
begin

text \<open>
  The Redis server and a hiredis client of it, as both processes use them: the backend's
  \<open>RedisPool\<close> and the gateway's \<open>SessionStore\<close>. The server keeps texts with an expiry time. A
  command is served, refused with an error reply, or lost with its connection before or after the
  server executed it; which one is the next event of the state (\<open>Serve\<close> once the list is empty).
\<close>

section \<open>Replies and commands\<close>

datatype reply =
    RStatus string
  | RString string
  | RInteger int
  | RNil
  | RError string

datatype redis_event = Serve | Refuse string | LostBefore string | LostAfter string

datatype redis_connect = RConnected | RNull | RRefused string | RTimeoutUnset string

type_synonym store = "string \<Rightarrow> (string \<times> int) option"

text \<open>The value of a key that has not expired.\<close>

definition alive :: "store \<Rightarrow> int \<Rightarrow> string \<Rightarrow> string option" where
  "alive st now k = (case st k of None \<Rightarrow> None | Some (v, t) \<Rightarrow> if now < t then Some v else None)"

definition cmd_ping :: "store \<Rightarrow> reply \<times> store" where
  "cmd_ping st = (RStatus ''PONG'', st)"

definition cmd_ok :: "store \<Rightarrow> reply \<times> store" where
  "cmd_ok st = (RStatus ''OK'', st)"

definition cmd_set :: "int \<Rightarrow> string \<Rightarrow> string \<Rightarrow> int \<Rightarrow> store \<Rightarrow> reply \<times> store" where
  "cmd_set now key value ttl st = (RStatus ''OK'', st(key \<mapsto> (value, now + ttl)))"

definition cmd_get :: "int \<Rightarrow> string \<Rightarrow> store \<Rightarrow> reply \<times> store" where
  "cmd_get now key st = (case alive st now key of None \<Rightarrow> RNil | Some v \<Rightarrow> RString v, st)"

definition cmd_del :: "int \<Rightarrow> string \<Rightarrow> store \<Rightarrow> reply \<times> store" where
  "cmd_del now key st = (RInteger (if alive st now key = None then 0 else 1), st(key := None))"

definition cmd_exists :: "int \<Rightarrow> string \<Rightarrow> store \<Rightarrow> reply \<times> store" where
  "cmd_exists now key st = (RInteger (if alive st now key = None then 0 else 1), st)"

section \<open>A client\<close>

record redis =
  r_pool :: pool
  r_cfg :: RedisConfig
  r_store :: store
  r_events :: "redis_event list"
  r_connects :: "redis_connect list"

definition on_rpool :: "(pool \<Rightarrow> pool) \<Rightarrow> (redis, unit) comp" where
  "on_rpool f = mmodify (\<lambda>w. w\<lparr>r_pool := f (r_pool w)\<rparr>)"

definition next_rconnect :: "(redis, redis_connect) comp" where
  "next_rconnect = (\<lambda>w. case r_connects w of
      [] \<Rightarrow> (Inr RConnected, w)
    | e # es \<Rightarrow> (Inr e, w\<lparr>r_connects := es\<rparr>))"

text \<open>\<open>redisCommand\<close>: the reply, or the connection's \<open>errstr\<close> where the reply is a null pointer.\<close>

definition redisCommand :: "(store \<Rightarrow> reply \<times> store) \<Rightarrow> (redis, string + reply) comp" where
  "redisCommand cmd = (\<lambda>w.
     let ev = (case r_events w of [] \<Rightarrow> Serve | e # _ \<Rightarrow> e);
         w1 = w\<lparr>r_events := tl (r_events w)\<rparr>
     in case cmd (r_store w) of (rep, st) \<Rightarrow>
        (case ev of
           Serve \<Rightarrow> (Inr (Inr rep), w1\<lparr>r_store := st\<rparr>)
         | Refuse e \<Rightarrow> (Inr (Inr (RError e)), w1)
         | LostBefore e \<Rightarrow> (Inr (Inl e), w1)
         | LostAfter e \<Rightarrow> (Inr (Inl e), w1\<lparr>r_store := st\<rparr>)))"

text \<open>The four ways a command can go.\<close>

lemma redisCommand_cases:
  obtains (served) es where "redisCommand cmd w =
      (Inr (Inr (fst (cmd (r_store w)))), w\<lparr>r_events := es, r_store := snd (cmd (r_store w))\<rparr>)"
  | (refused) e es where "redisCommand cmd w = (Inr (Inr (RError e)), w\<lparr>r_events := es\<rparr>)"
  | (lost) e es where "redisCommand cmd w = (Inr (Inl e), w\<lparr>r_events := es\<rparr>)"
  | (unanswered) e es where "redisCommand cmd w =
      (Inr (Inl e), w\<lparr>r_events := es, r_store := snd (cmd (r_store w))\<rparr>)"
proof -
  define ev where "ev = (case r_events w of [] \<Rightarrow> Serve | e # _ \<Rightarrow> e)"
  obtain rep st where c: "cmd (r_store w) = (rep, st)" by force
  show thesis
  proof (cases ev)
    case Serve
    with c show thesis by (intro served [of "tl (r_events w)"]) (simp add: redisCommand_def ev_def Let_def)
  next
    case (Refuse e)
    with c show thesis by (intro refused [of e "tl (r_events w)"]) (simp add: redisCommand_def ev_def Let_def)
  next
    case (LostBefore e)
    with c show thesis by (intro lost [of e "tl (r_events w)"]) (simp add: redisCommand_def ev_def Let_def)
  next
    case (LostAfter e)
    with c show thesis by (intro unanswered [of e "tl (r_events w)"]) (simp add: redisCommand_def ev_def Let_def)
  qed
qed

lemma redisCommand_pool: "redisCommand cmd w = (r, w') \<Longrightarrow> r_pool w' = r_pool w"
  by (rule redisCommand_cases [of cmd w]) auto

lemma redisCommand_keeps_store:
  "(\<And>st. snd (cmd st) = st) \<Longrightarrow> redisCommand cmd w = (r, w') \<Longrightarrow> r_store w' = r_store w"
  by (rule redisCommand_cases [of cmd w]) auto

lemma on_rpool_run [run_simps]: "on_rpool f w = (Inr (), w\<lparr>r_pool := f (r_pool w)\<rparr>)"
  by (simp add: on_rpool_def mmodify_run)

lemma next_rconnect_run:
  obtains e es where "next_rconnect w = (Inr e, w\<lparr>r_connects := es\<rparr>)"
proof (cases "r_connects w")
  case Nil
  then have "next_rconnect w = (Inr RConnected, w\<lparr>r_connects := r_connects w\<rparr>)"
    by (simp add: next_rconnect_def)
  then show thesis by (rule that)
next
  case (Cons b bs)
  then have "next_rconnect w = (Inr b, w\<lparr>r_connects := bs\<rparr>)" by (simp add: next_rconnect_def)
  then show thesis by (rule that)
qed

text \<open>
  The login sessions a server holds: \<open>payment:session:{session_id} -> user_id\<close>. The interface both
  processes rely on: \<open>save\<close> makes a session visible until its time to live has passed, \<open>remove\<close>
  removes it, \<open>find\<close> reads it; none touches another session.
\<close>

definition login_view :: "store \<Rightarrow> int \<Rightarrow> string \<Rightarrow> string option" where
  "login_view st now sid = alive st now (''payment:session:'' @ sid)"


text \<open>A session id the code looks up as it is: not empty, and without a zero byte.\<close>

definition valid_sid :: "string \<Rightarrow> bool" where
  "valid_sid sid \<longleftrightarrow> sid \<noteq> [] \<and> CHR 0x00 \<notin> set sid"

locale session_reader =
  fixes find_session :: "int \<Rightarrow> string \<Rightarrow> ('w, string option) comp"
    and store_of :: "'w \<Rightarrow> store"
  assumes find_keeps: "find_session now sid w = (r, w') \<Longrightarrow> store_of w' = store_of w"
    and find_reads: "find_session now sid w = (Inr x, w') \<Longrightarrow> valid_sid sid \<Longrightarrow>
      x = login_view (store_of w) now sid"

locale session_service = session_reader +
  fixes save :: "int \<Rightarrow> string \<Rightarrow> string \<Rightarrow> int \<Rightarrow> ('a, bool) comp"
    and remove :: "int \<Rightarrow> string \<Rightarrow> ('a, bool) comp"
  assumes save_writes: "save now sid uid ttl w = (Inr b, w') \<Longrightarrow> valid_sid sid \<Longrightarrow> CHR 0x00 \<notin> set uid \<Longrightarrow>
      b \<and> 0 < ttl \<and> (\<forall>t s. login_view (store_of w') t s =
        (if s = sid then if t < now + ttl then Some uid else None else login_view (store_of w) t s))"
    and remove_erases: "remove now sid w = (Inr b, w') \<Longrightarrow> valid_sid sid \<Longrightarrow>
      b \<and> (\<forall>t s. login_view (store_of w') t s =
        (if s = sid then None else login_view (store_of w) t s))"
begin

text \<open>A saved session is found by any reader of the same store until it expires.\<close>

lemma saved_then_found:
  assumes "save now sid uid ttl w = (Inr b, w1)" and "valid_sid sid" and "CHR 0x00 \<notin> set uid"
    and "session_reader find2 store2" and "store2 v = store_of w1" and "find2 t sid v = (Inr x, v')"
  shows "x = (if t < now + ttl then Some uid else None)"
  using save_writes [OF assms(1-3)] session_reader.find_reads [OF assms(4,6,2)] assms(5) by simp

lemma removed_then_gone:
  assumes "remove now sid w = (Inr b, w1)" and "valid_sid sid"
    and "session_reader find2 store2" and "store2 v = store_of w1" and "find2 t sid v = (Inr x, v')"
  shows "x = None"
  using remove_erases [OF assms(1,2)] session_reader.find_reads [OF assms(3,5,2)] assms(4) by simp

end

lemma login_view_set:
  "login_view (st(''payment:session:'' @ sid \<mapsto> (uid, now + ttl))) t s =
     (if s = sid then if t < now + ttl then Some uid else None else login_view st t s)"
  by (simp add: login_view_def alive_def)

lemma login_view_del:
  "login_view (st(''payment:session:'' @ sid := None)) t s = (if s = sid then None else login_view st t s)"
  by (simp add: login_view_def alive_def)

end
