(* ===== verification/RedisPool.thy ===== *)
theory RedisPool
  imports RedisServer
begin

text \<open>
  \<open>payment_redis::RedisPool\<close> (backend/common/redis_pool.hpp): the pool of connections and the
  session operations of the backend. The helpers that check a reply are followed to the exception
  they throw: \<open>ping\<close> throws on a lost connection, so \<open>acquire\<close> loses the connection it had taken
  from the queue (\<open>acquire_loses_dead_connection\<close>).
\<close>

section \<open>Operations\<close>

definition sessionKey :: "string \<Rightarrow> string" where
  "sessionKey session_id = ''payment:session:'' @ session_id"

text \<open>\<open>connectionError\<close> on a connection that exists, with the text \<open>errstr\<close>.\<close>

definition connectionError :: "string \<Rightarrow> string" where
  "connectionError errstr = (if errstr \<noteq> [] then errstr else M_unknown_error)"

definition checkStatusReply :: "string \<Rightarrow> string + reply \<Rightarrow> exn + bool" where
  "checkStatusReply op rep = (case rep of
      Inl errstr \<Rightarrow> Inl (RedisException (''redis '' @ op @ M_redis_op_failed @ connectionError errstr))
    | Inr (RStatus s) \<Rightarrow> Inr (c_str s = ''OK'' \<or> c_str s = ''PONG'')
    | Inr (RString s) \<Rightarrow> Inr (c_str s = ''PONG'')
    | _ \<Rightarrow> Inl (RedisException (''redis '' @ op @ M_redis_op_reply)))"

definition checkIntegerReplyAtLeast :: "string \<Rightarrow> int \<Rightarrow> string + reply \<Rightarrow> exn + bool" where
  "checkIntegerReplyAtLeast op min_value rep = (case rep of
      Inl errstr \<Rightarrow> Inl (RedisException (''redis '' @ op @ M_redis_op_failed @ connectionError errstr))
    | Inr (RInteger i) \<Rightarrow> Inr (i \<ge> min_value)
    | _ \<Rightarrow> Inl (RedisException (''redis '' @ op @ M_redis_op_type)))"

definition rd_authenticate :: "nat \<Rightarrow> (redis, unit) comp" where
  "rd_authenticate c =
     mbind (mread r_cfg) (\<lambda>cfg.
       if rd_password cfg = [] then mret ()
       else
         mbind (redisCommand cmd_ok) (\<lambda>auth_reply.
         mbind (mlift (checkStatusReply ''AUTH'' auth_reply)) (\<lambda>ok.
           if \<not> ok then mbind (on_rpool (close_conn c)) (\<lambda>_. mthrow (RedisException M_redis_auth_failed))
           else mret ())))"

definition rd_select :: "nat \<Rightarrow> (redis, unit) comp" where
  "rd_select c =
     mbind (redisCommand cmd_ok) (\<lambda>select_reply.
     mbind (mlift (checkStatusReply ''SELECT'' select_reply)) (\<lambda>ok.
       if \<not> ok then mbind (on_rpool (close_conn c)) (\<lambda>_. mthrow (RedisException M_redis_select_failed))
       else mret ()))"

definition rd_createConnection :: "(redis, nat) comp" where
  "rd_createConnection =
     mbind next_rconnect (\<lambda>ev.
       if ev = RNull then mthrow (RedisException M_redis_connect_alloc)
       else
         mbind (mread (\<lambda>w. pl_next (r_pool w))) (\<lambda>c.
         mbind (on_rpool open_conn) (\<lambda>_.
         case ev of
           RRefused err \<Rightarrow>
             mbind (on_rpool (close_conn c)) (\<lambda>_.
               mthrow (RedisException (M_redis_connect_failed @ connectionError err)))
         | RTimeoutUnset err \<Rightarrow>
             mbind (on_rpool (close_conn c)) (\<lambda>_.
               mthrow (RedisException (M_redis_settimeout_failed @ connectionError err)))
         | _ \<Rightarrow>
             mbind (rd_authenticate c) (\<lambda>_.
             mbind (rd_select c) (\<lambda>_. mret c)))))"

definition rd_ping :: "(redis, bool) comp" where
  "rd_ping = mbind (redisCommand cmd_ping) (\<lambda>rep. mlift (checkStatusReply ''PING'' rep))"

definition rd_acquire :: "(redis, nat) comp" where
  "rd_acquire =
     mbind (mread r_pool) (\<lambda>p.
       if \<not> pl_initialized p then mthrow (RedisException M_redis_uninit)
       else if pl_shutting_down p then mthrow (RedisException M_redis_timeout)
       else case pl_idle p of
           [] \<Rightarrow> mthrow (RedisException M_redis_timeout)
         | c # _ \<Rightarrow>
             mbind (on_rpool pop_conn) (\<lambda>_.
             mbind rd_ping (\<lambda>alive.
               if alive then mret c
               else mbind (on_rpool (close_conn c)) (\<lambda>_. rd_createConnection))))"

definition rd_release :: "nat \<Rightarrow> redis \<Rightarrow> redis" where
  "rd_release c w = w\<lparr>r_pool := release_conn c (r_pool w)\<rparr>"

abbreviation rd_guarded :: "(nat \<Rightarrow> (redis, 'a) comp) \<Rightarrow> (redis, 'a) comp" where
  "rd_guarded \<equiv> with_guard rd_acquire rd_release"

fun rd_fill :: "nat \<Rightarrow> (redis, unit) comp" where
  "rd_fill 0 = mret ()"
| "rd_fill (Suc n) =
     mbind rd_createConnection (\<lambda>c. mbind (on_rpool (push_conn c)) (\<lambda>_. rd_fill n))"

definition rd_init :: "RedisConfig \<Rightarrow> (redis, unit) comp" where
  "rd_init cfg =
     mbind (mread r_pool) (\<lambda>p.
       if pl_initialized p then mret ()
       else
         mbind (mmodify (\<lambda>w. w\<lparr>r_cfg := cfg\<rparr>)) (\<lambda>_.
         mbind (on_rpool (\<lambda>p. p\<lparr>pl_shutting_down := False\<rparr>)) (\<lambda>_.
         mbind (rd_fill (nat (rd_pool_size cfg))) (\<lambda>_.
           on_rpool (\<lambda>p. p\<lparr>pl_initialized := True\<rparr>)))))"

definition rd_initFromConfig :: "values \<Rightarrow> (redis, unit) comp" where
  "rd_initFromConfig v = mbind (mlift (redis_cfg v)) rd_init"

definition rd_shutdown :: "(redis, unit) comp" where
  "rd_shutdown =
     mbind (mread r_pool) (\<lambda>p.
       if \<not> pl_initialized p \<and> pl_idle p = [] then mret ()
       else on_rpool (\<lambda>p. (close_idle (p\<lparr>pl_shutting_down := True\<rparr>))\<lparr>pl_initialized := False\<rparr>))"

definition setEx :: "int \<Rightarrow> string \<Rightarrow> string \<Rightarrow> int \<Rightarrow> (redis, bool) comp" where
  "setEx now key value ttl_seconds =
     (if ttl_seconds \<le> 0 then mthrow (RedisException M_redis_ttl)
      else rd_guarded (\<lambda>_.
        mbind (redisCommand (cmd_set now (c_str key) (c_str value) ttl_seconds)) (\<lambda>rep.
          mlift (checkStatusReply ''SET'' rep))))"

definition redis_get :: "int \<Rightarrow> string \<Rightarrow> (redis, string option) comp" where
  "redis_get now key = rd_guarded (\<lambda>_.
     mbind (redisCommand (cmd_get now (c_str key))) (\<lambda>rep. case rep of
       Inl errstr \<Rightarrow> mthrow (RedisException (M_redis_get_failed @ connectionError errstr))
     | Inr RNil \<Rightarrow> mret None
     | Inr (RString v) \<Rightarrow> mret (Some v)
     | Inr _ \<Rightarrow> mthrow (RedisException M_redis_get_type)))"

definition redis_del :: "int \<Rightarrow> string \<Rightarrow> (redis, bool) comp" where
  "redis_del now key = rd_guarded (\<lambda>_.
     mbind (redisCommand (cmd_del now (c_str key))) (\<lambda>rep.
       mlift (checkIntegerReplyAtLeast ''DEL'' 0 rep)))"

definition redis_exists :: "int \<Rightarrow> string \<Rightarrow> (redis, bool) comp" where
  "redis_exists now key = rd_guarded (\<lambda>_.
     mbind (redisCommand (cmd_exists now (c_str key))) (\<lambda>rep.
       mlift (checkIntegerReplyAtLeast ''EXISTS'' 1 rep)))"

definition saveSession :: "int \<Rightarrow> string \<Rightarrow> string \<Rightarrow> int \<Rightarrow> (redis, bool) comp" where
  "saveSession now session_id user_id ttl_seconds = setEx now (sessionKey session_id) user_id ttl_seconds"

definition userIdOfSession :: "int \<Rightarrow> string \<Rightarrow> (redis, string option) comp" where
  "userIdOfSession now session_id = redis_get now (sessionKey session_id)"

definition removeSession :: "int \<Rightarrow> string \<Rightarrow> (redis, bool) comp" where
  "removeSession now session_id = redis_del now (sessionKey session_id)"


section \<open>The pool\<close>

lemma rd_authenticate_pool:
  "rd_authenticate c w = (r, w') \<Longrightarrow>
     r_store w' = r_store w \<and> (r_pool w' = r_pool w \<or> isl r \<and> r_pool w' = close_conn c (r_pool w))"
proof -
  assume run: "rd_authenticate c w = (r, w')"
  obtain q w1 where a: "redisCommand cmd_ok w = (q, w1)" by force
  have s: "r_pool w1 = r_pool w" "r_store w1 = r_store w"
    using redisCommand_pool [OF a] redisCommand_keeps_store [OF _ a] by (auto simp: cmd_ok_def)
  from run a s show ?thesis
    by (auto simp: rd_authenticate_def run_simps split: if_splits sum.splits)
qed

lemma rd_select_pool:
  "rd_select c w = (r, w') \<Longrightarrow>
     r_store w' = r_store w \<and> (r_pool w' = r_pool w \<or> isl r \<and> r_pool w' = close_conn c (r_pool w))"
proof -
  assume run: "rd_select c w = (r, w')"
  obtain q w1 where a: "redisCommand cmd_ok w = (q, w1)" by force
  have s: "r_pool w1 = r_pool w" "r_store w1 = r_store w"
    using redisCommand_pool [OF a] redisCommand_keeps_store [OF _ a] by (auto simp: cmd_ok_def)
  from run a s show ?thesis
    by (auto simp: rd_select_def run_simps split: if_splits sum.splits)
qed

text \<open>A new connection is a fresh handle; when connecting fails, the handle may have been left open.\<close>

lemma rd_create_pool:
  assumes "rd_createConnection w = (r, w')"
  shows "r_store w' = r_store w \<and>
    (case r of Inr c \<Rightarrow> c = pl_next (r_pool w) \<and> r_pool w' = open_conn (r_pool w)
     | Inl _ \<Rightarrow> r_pool w' = r_pool w \<or> r_pool w' = open_conn (r_pool w) \<or>
         r_pool w' = close_conn (pl_next (r_pool w)) (open_conn (r_pool w)))"
proof -
  obtain ev es where ev: "next_rconnect w = (Inr ev, w\<lparr>r_connects := es\<rparr>)" by (rule next_rconnect_run)
  let ?c = "pl_next (r_pool w)" and ?w1 = "w\<lparr>r_connects := es, r_pool := open_conn (r_pool w)\<rparr>"
  show ?thesis
  proof (cases "ev = RConnected")
    case False
    with assms ev show ?thesis
      by (cases ev) (auto simp: rd_createConnection_def run_simps)
  next
    case True
    obtain q1 v1 where a: "rd_authenticate ?c ?w1 = (q1, v1)" by force
    obtain q2 v2 where s: "rd_select ?c v1 = (q2, v2)" by force
    show ?thesis
      using assms ev True a s rd_authenticate_pool [OF a] rd_select_pool [OF s]
      by (cases q1; cases q2) (auto simp: rd_createConnection_def run_simps)
  qed
qed

lemma rd_ping_pool: "rd_ping w = (r, w') \<Longrightarrow> r_pool w' = r_pool w \<and> r_store w' = r_store w"
proof -
  assume run: "rd_ping w = (r, w')"
  obtain q w1 where a: "redisCommand cmd_ping w = (q, w1)" by force
  with run redisCommand_pool [OF a] redisCommand_keeps_store [OF _ a] show ?thesis
    by (auto simp: rd_ping_def run_simps cmd_ping_def split: sum.splits)
qed

lemma create_lends:
  assumes "rd_createConnection w = (r, w')" and ok: "pool_ok (r_pool w)"
  shows "pool_ok (r_pool w') \<and> (case r of
      Inl _ \<Rightarrow> borrowed (r_pool w) \<subseteq> borrowed (r_pool w')
    | Inr c \<Rightarrow> c \<notin> borrowed (r_pool w) \<and> borrowed (r_pool w') = insert c (borrowed (r_pool w)))"
  using rd_create_pool [OF assms(1)] ok next_fresh [OF ok] open_conn_ok [OF ok] open_conn_borrowed [OF ok]
    close_conn_ok [OF open_conn_ok [OF ok], of "pl_next (r_pool w)"]
    close_conn_borrowed [OF open_conn_ok [OF ok], of "pl_next (r_pool w)"]
  by (auto split: sum.splits)

lemma rd_acquire_pool:
  assumes run: "rd_acquire w = (r, w')" and ok: "pool_ok (r_pool w)"
  shows "pool_ok (r_pool w') \<and> (case r of
      Inl _ \<Rightarrow> borrowed (r_pool w) \<subseteq> borrowed (r_pool w')
    | Inr c \<Rightarrow> c \<notin> borrowed (r_pool w) \<and> borrowed (r_pool w') = insert c (borrowed (r_pool w)))"
proof (cases "pl_initialized (r_pool w) \<and> \<not> pl_shutting_down (r_pool w) \<and> pl_idle (r_pool w) \<noteq> []")
  case False
  with run ok show ?thesis by (auto simp: rd_acquire_def run_simps split: if_splits list.splits)
next
  case True
  then obtain c cs where idle: "pl_idle (r_pool w) = c # cs" by (cases "pl_idle (r_pool w)") auto
  let ?w1 = "w\<lparr>r_pool := pop_conn (r_pool w)\<rparr>"
  obtain q w2 where p: "rd_ping ?w1 = (q, w2)" by force
  have pool2: "r_pool w2 = pop_conn (r_pool w)" using rd_ping_pool [OF p] by simp
  have pop: "pool_ok (pop_conn (r_pool w))" "borrowed (pop_conn (r_pool w)) = insert c (borrowed (r_pool w))"
    "c \<notin> borrowed (r_pool w)"
    using pop_conn_ok [OF ok] pop_conn_borrowed [OF ok idle] by auto
  show ?thesis
  proof (cases q)
    case (Inl e)
    with run True idle p pool2 pop show ?thesis by (auto simp: rd_acquire_def run_simps)
  next
    case (Inr b)
    show ?thesis
    proof (cases b)
      case True
      with run \<open>pl_initialized (r_pool w) \<and> _\<close> idle p Inr pool2 pop show ?thesis
        by (auto simp: rd_acquire_def run_simps)
    next
      case False
      let ?w3 = "w2\<lparr>r_pool := close_conn c (pop_conn (r_pool w))\<rparr>"
      have "rd_createConnection ?w3 = (r, w')"
        using run True idle p Inr pool2 False by (simp add: rd_acquire_def run_simps)
      moreover have "pool_ok (r_pool ?w3)" "borrowed (r_pool ?w3) = borrowed (r_pool w)"
        using pop close_conn_ok [OF pop(1), of c] close_conn_borrowed [OF pop(1), of c] by auto
      ultimately show ?thesis using create_lends [of ?w3 r w'] by (auto split: sum.splits)
    qed
  qed
qed

lemma rd_acquire_store: "rd_acquire w = (r, w') \<Longrightarrow> r_store w' = r_store w"
proof -
  assume run: "rd_acquire w = (r, w')"
  let ?w1 = "w\<lparr>r_pool := pop_conn (r_pool w)\<rparr>"
  obtain q w2 where p: "rd_ping ?w1 = (q, w2)" by force
  have s: "r_store w2 = r_store w" using rd_ping_pool [OF p] by simp
  have "r_store v = r_store w"
    if "rd_createConnection (w2\<lparr>r_pool := f (r_pool w2)\<rparr>) = (x, v)" for f x v
    using rd_create_pool [OF that] s by simp
  with run p s show ?thesis
    by (auto simp: rd_acquire_def run_simps split: if_splits list.splits sum.splits)
qed

interpretation rd: conn_pool rd_acquire rd_release r_pool
proof unfold_locales
  fix w c w' assume "rd_acquire w = (Inr c, w')" and "pool_ok (r_pool w)"
  then show "pool_ok (r_pool w') \<and> c \<notin> borrowed (r_pool w) \<and>
      borrowed (r_pool w') = insert c (borrowed (r_pool w))"
    using rd_acquire_pool [of w "Inr c" w'] by simp
next
  fix w e w' assume "rd_acquire w = (Inl e, w')" and "pool_ok (r_pool w)"
  then show "pool_ok (r_pool w') \<and> borrowed (r_pool w) \<subseteq> borrowed (r_pool w')"
    using rd_acquire_pool [of w "Inl e" w'] by simp
next
  fix w :: redis and c assume "pool_ok (r_pool w)" and "c \<in> borrowed (r_pool w)"
  then show "pool_ok (r_pool (rd_release c w)) \<and>
      borrowed (r_pool (rd_release c w)) = borrowed (r_pool w) - {c}"
    by (simp add: rd_release_def release_conn_ok release_conn_borrowed)
qed


lemma same_rpool_lends: "(\<And>w r w'. m w = (r, w') \<Longrightarrow> r_pool w' = r_pool w) \<Longrightarrow> keeps (lends r_pool) m"
  by (rule keepsI) (simp add: lends_def)

lemma redisCommand_lends: "keeps (lends r_pool) (redisCommand cmd)"
  by (rule same_rpool_lends) (rule redisCommand_pool)

lemmas rd_lend_rules = rd.guarded_lends redisCommand_lends lends.keeps_rules

lemma keeps_reply:
  assumes "\<And>e. keeps R (f e)" and "keeps R n" and "\<And>s. keeps R (g s)" and "\<And>x. keeps R (h x)"
  shows "keeps R (case rep of Inl e \<Rightarrow> f e | Inr RNil \<Rightarrow> n | Inr (RString s) \<Rightarrow> g s | Inr x \<Rightarrow> h x)"
  using assms by (simp split: sum.split reply.split)

text \<open>
  The operations keep the pool well formed and take no connection away from another thread.
\<close>

lemma rd_operations_lend:
  "keeps (lends r_pool) (setEx now key value ttl)" "keeps (lends r_pool) (redis_get now key)"
  "keeps (lends r_pool) (redis_del now key)" "keeps (lends r_pool) (redis_exists now key)"
  unfolding setEx_def redis_get_def redis_del_def redis_exists_def
  by (intro rd_lend_rules keeps_reply)+

lemma rd_sessions_lend:
  "keeps (lends r_pool) (saveSession now sid uid ttl)" "keeps (lends r_pool) (userIdOfSession now sid)"
  "keeps (lends r_pool) (removeSession now sid)"
  unfolding saveSession_def userIdOfSession_def removeSession_def by (rule rd_operations_lend)+

text \<open>
  C37: when the first idle connection no longer answers, \<open>acquire\<close> throws out of \<open>ping\<close>: the connection
  it took from the queue is neither returned to the pool nor closed, so the branch that would replace
  it is not reached and the pool shrinks for good.
\<close>

theorem acquire_loses_dead_connection:
  assumes "pool_ok (r_pool w)" and "pl_initialized (r_pool w)" and "\<not> pl_shutting_down (r_pool w)"
    and "pl_idle (r_pool w) = c # cs" and "r_events w = LostBefore err # evs"
  shows "\<exists>msg w'. rd_acquire w = (Inl (RedisException msg), w') \<and> pl_idle (r_pool w') = cs \<and>
    c \<in> borrowed (r_pool w') \<and> r_connects w' = r_connects w"
proof -
  have "rd_acquire w = (Inl (RedisException (''redis PING'' @ M_redis_op_failed @ connectionError err)),
      w\<lparr>r_pool := pop_conn (r_pool w), r_events := evs\<rparr>)"
    using assms
    by (simp add: rd_acquire_def rd_ping_def run_simps redisCommand_def checkStatusReply_def Let_def
        cmd_ping_def)
  moreover have "c \<in> borrowed (pop_conn (r_pool w))" using pop_conn_borrowed [OF assms(1,4)] by simp
  ultimately show ?thesis using assms(4) by (simp add: pop_conn_def)
qed

section \<open>Sessions\<close>

lemma rd_guarded_cases:
  assumes "rd_guarded f w = (r, w')"
  obtains (no_conn) e where "r = Inl e" and "r_store w' = r_store w"
  | (conn) c w1 w2 where "r_store w1 = r_store w" and "f c w1 = (r, w2)" and "r_store w' = r_store w2"
proof -
  obtain q w1 where a: "rd_acquire w = (q, w1)" by force
  have s: "r_store w1 = r_store w" using rd_acquire_store [OF a] .
  show thesis
  proof (cases q)
    case (Inl e)
    with assms a s show thesis by (intro no_conn [of e]) (auto simp: with_guard_def run_simps)
  next
    case (Inr c)
    obtain r2 w2 where f: "f c w1 = (r2, w2)" by force
    with assms a Inr s show thesis
      by (intro conn [of w1 c w2]) (auto simp: with_guard_def run_simps rd_release_def)
  qed
qed

lemma setEx_Inr:
  assumes "setEx now key value ttl w = (Inr b, w')" and "CHR 0x00 \<notin> set key" and "CHR 0x00 \<notin> set value"
  shows "b \<and> 0 < ttl \<and> r_store w' = (r_store w)(key \<mapsto> (value, now + ttl))"
proof -
  from assms(1) have ttl: "0 < ttl" by (auto simp: setEx_def run_simps split: if_splits)
  with assms(1) have "rd_guarded (\<lambda>_. mbind (redisCommand (cmd_set now (c_str key) (c_str value) ttl))
      (\<lambda>rep. mlift (checkStatusReply ''SET'' rep))) w = (Inr b, w')" by (simp add: setEx_def)
  then show ?thesis
  proof (cases rule: rd_guarded_cases)
    case no_conn
    then show ?thesis by simp
  next
    case (conn c w1 w2)
    then show ?thesis
      by (cases rule: redisCommand_cases [of "cmd_set now (c_str key) (c_str value) ttl" w1])
         (auto simp: run_simps checkStatusReply_def cmd_set_def assms(2,3) ttl)
  qed
qed

lemma redis_get_run:
  assumes "redis_get now key w = (r, w')" and "CHR 0x00 \<notin> set key"
  shows "r_store w' = r_store w \<and> (\<forall>x. r = Inr x \<longrightarrow> x = alive (r_store w) now key)"
  using assms(1) unfolding redis_get_def
proof (cases rule: rd_guarded_cases)
  case no_conn
  then show ?thesis by simp
next
  case (conn c w1 w2)
  then show ?thesis
    by (cases rule: redisCommand_cases [of "cmd_get now (c_str key)" w1])
       (auto simp: run_simps cmd_get_def assms(2) split: option.splits)
qed

lemma redis_del_Inr:
  assumes "redis_del now key w = (Inr b, w')" and "CHR 0x00 \<notin> set key"
  shows "b \<and> r_store w' = (r_store w)(key := None)"
  using assms(1) unfolding redis_del_def
proof (cases rule: rd_guarded_cases)
  case no_conn
  then show ?thesis by simp
next
  case (conn c w1 w2)
  then show ?thesis
    by (cases rule: redisCommand_cases [of "cmd_del now (c_str key)" w1])
       (auto simp: run_simps cmd_del_def checkIntegerReplyAtLeast_def assms(2) split: if_splits)
qed

lemma session_key_plain: "valid_sid sid \<Longrightarrow> CHR 0x00 \<notin> set (sessionKey sid)"
  by (auto simp: valid_sid_def sessionKey_def)

lemma redis_get_store: "redis_get now key w = (r, w') \<Longrightarrow> r_store w' = r_store w"
proof -
  assume "redis_get now key w = (r, w')"
  then show ?thesis unfolding redis_get_def
  proof (cases rule: rd_guarded_cases)
    case no_conn
    then show ?thesis by simp
  next
    case (conn c w1 w2)
    then show ?thesis
      by (cases rule: redisCommand_cases [of "cmd_get now (c_str key)" w1])
         (auto simp: run_simps cmd_get_def split: option.splits)
  qed
qed

interpretation rd_sessions: session_service userIdOfSession r_store saveSession removeSession
proof unfold_locales
  fix now sid w r w' assume "userIdOfSession now sid w = (r, w')"
  then show "r_store w' = r_store w" unfolding userIdOfSession_def by (rule redis_get_store)
next
  fix now sid w x w' assume "userIdOfSession now sid w = (Inr x, w')" and "valid_sid sid"
  then show "x = login_view (r_store w) now sid"
    using redis_get_run [of now "sessionKey sid" w "Inr x" w'] session_key_plain [of sid]
    by (simp add: userIdOfSession_def login_view_def sessionKey_def)
next
  fix now sid uid ttl w b w'
  assume "saveSession now sid uid ttl w = (Inr b, w')" and "valid_sid sid" and "CHR 0x00 \<notin> set uid"
  then show "b \<and> 0 < ttl \<and> (\<forall>t s. login_view (r_store w') t s =
      (if s = sid then if t < now + ttl then Some uid else None else login_view (r_store w) t s))"
    using setEx_Inr [of now "sessionKey sid" uid ttl w b w'] session_key_plain [of sid]
      login_view_set [of "r_store w" sid uid now ttl]
    by (simp add: saveSession_def sessionKey_def)
next
  fix now sid w b w' assume "removeSession now sid w = (Inr b, w')" and "valid_sid sid"
  then show "b \<and> (\<forall>t s. login_view (r_store w') t s = (if s = sid then None else login_view (r_store w) t s))"
    using redis_del_Inr [of now "sessionKey sid" w b w'] session_key_plain [of sid]
      login_view_del [of "r_store w" sid]
    by (simp add: removeSession_def sessionKey_def)
qed

end
