(* ===== verification/ThreadPool.thy ===== *)
theory ThreadPool
  imports Messages
begin

text \<open>
  The worker pools \<open>payment_http::WorkerPool\<close> (backend/common/thread_pool.hpp) and
  \<open>gateway_http::WorkerPool\<close> (gateway/common/thread_pool.hpp), which are the same code. \<open>tasks_\<close> is a
  FIFO queue; \<open>wk_started\<close> lists the tasks workers have taken from it so far. A worker's turn is the
  step \<open>worker_turn\<close>: it waits, leaves the loop, or takes the first task.
\<close>

record 't worker_pool =
  wk_count :: int
  wk_initialized :: bool
  wk_stop :: bool
  wk_tasks :: "'t list"
  wk_started :: "'t list"

definition worker_init :: "int \<Rightarrow> 't worker_pool \<Rightarrow> 't worker_pool" where
  "worker_init worker_count p =
     (if wk_initialized p then p
      else p\<lparr>wk_count := (if worker_count < 4 then 4 else worker_count), wk_initialized := True\<rparr>)"

definition worker_submit :: "'t \<Rightarrow> ('t worker_pool, unit) comp" where
  "worker_submit task =
     mbind (mread wk_initialized) (\<lambda>ready.
       if \<not> ready then mthrow (StdException M_worker_uninit)
       else mbind (mread wk_stop) (\<lambda>stop.
         if stop then mret ()
         else mmodify (\<lambda>p. p\<lparr>wk_tasks := wk_tasks p @ [task]\<rparr>)))"

text \<open>The destructor sets \<open>stop_\<close>; the workers then drain the queue and leave.\<close>

definition worker_stop :: "'t worker_pool \<Rightarrow> 't worker_pool" where
  "worker_stop p = p\<lparr>wk_stop := True\<rparr>"

datatype turn = Waits | Leaves | Runs

definition worker_turn :: "'t worker_pool \<Rightarrow> turn \<times> 't worker_pool" where
  "worker_turn p = (case wk_tasks p of
      [] \<Rightarrow> (if wk_stop p then Leaves else Waits, p)
    | t # ts \<Rightarrow> (Runs, p\<lparr>wk_tasks := ts, wk_started := wk_started p @ [t]\<rparr>))"

datatype 't worker_event = Submit 't | Turn | Stop

fun worker_step :: "'t worker_event \<Rightarrow> 't worker_pool \<Rightarrow> 't worker_pool" where
  "worker_step (Submit t) p = snd (worker_submit t p)"
| "worker_step Turn p = snd (worker_turn p)"
| "worker_step Stop p = worker_stop p"

fun accepted :: "bool \<Rightarrow> 't worker_event list \<Rightarrow> 't list" where
  "accepted stopped [] = []"
| "accepted stopped (Submit t # es) = (if stopped then accepted stopped es else t # accepted stopped es)"
| "accepted stopped (Turn # es) = accepted stopped es"
| "accepted stopped (Stop # es) = accepted True es"

lemma worker_fifo_step:
  assumes "wk_initialized p"
  shows "wk_started (fold worker_step es p) @ wk_tasks (fold worker_step es p) =
    wk_started p @ wk_tasks p @ accepted (wk_stop p) es"
  using assms
proof (induction es arbitrary: p)
  case Nil
  then show ?case by simp
next
  case (Cons e es)
  show ?case
  proof (cases e)
    case (Submit t)
    with Cons show ?thesis by (auto simp: worker_submit_def run_simps)
  next
    case Turn
    with Cons show ?thesis by (auto simp: worker_turn_def split: list.split)
  next
    case Stop
    with Cons show ?thesis by (simp add: worker_stop_def)
  qed
qed


definition demo_workers :: "nat worker_pool" where
  "demo_workers = worker_init 20 \<lparr>wk_count = 0, wk_initialized = False, wk_stop = False, wk_tasks = [], wk_started = []\<rparr>"


end
