(* ===== verification/PaymentImpl.thy ===== *)
theory PaymentImpl
  imports HttpText Jwt MySqlPool RedisPool ThreadPool
begin

text \<open>
  The request handlers of backend/payment_impl.hpp. The state of the process is a \<open>world\<close>: the MySQL
  pool with the database, the Redis pool with the store, the worker pool, and the random generator.
  What a request reads and does not change is an \<open>env\<close>: the third-party functions, the loaded
  configuration and the clock, which stands still for one request. Log statements are not modelled.
\<close>

record env =
  e_lib :: lib
  e_values :: "values"
  e_now :: int

text \<open>
  \<open>w_random k n\<close>: what the \<open>k\<close>-th call of \<open>RAND_bytes\<close> delivers when asked for \<open>n\<close> bytes, \<open>None\<close> for
  a failure. A task of the worker pool is a call \<open>notifyPaymentResult(session id, order number)\<close>.
\<close>

record world =
  w_mysql :: mysql
  w_redis :: redis
  w_workers :: "(string \<times> string) worker_pool"
  w_random :: "nat \<Rightarrow> nat \<Rightarrow> string option"
  w_draws :: nat

definition sql :: "(mysql, 'a) comp \<Rightarrow> (world, 'a) comp" where
  "sql m = mzoom w_mysql (\<lambda>s w. w\<lparr>w_mysql := s\<rparr>) m"

definition redis_op :: "(redis, 'a) comp \<Rightarrow> (world, 'a) comp" where
  "redis_op m = mzoom w_redis (\<lambda>s w. w\<lparr>w_redis := s\<rparr>) m"

definition submit :: "string \<times> string \<Rightarrow> (world, unit) comp" where
  "submit task = mzoom w_workers (\<lambda>s w. w\<lparr>w_workers := s\<rparr>) (worker_submit task)"

definition draw :: "nat \<Rightarrow> (world, string option) comp" where
  "draw n = mbind (mread (\<lambda>w. w_random w (w_draws w) n)) (\<lambda>r.
     mbind (mmodify (\<lambda>w. w\<lparr>w_draws := Suc (w_draws w)\<rparr>)) (\<lambda>_. mret r))"

section \<open>Identifiers\<close>

definition randomHex :: "nat \<Rightarrow> (world, string) comp" where
  "randomHex bytes = mbind (draw bytes) (\<lambda>r. case r of
      None \<Rightarrow> mthrow (StdException M_rand_failed)
    | Some buf \<Rightarrow> mret (toHex buf))"

definition makePaymentSessionId :: "env \<Rightarrow> (world, string) comp" where
  "makePaymentSessionId E = mbind (randomHex 4) (\<lambda>r. mret (''PS'' @ to_string (e_now E) @ r))"

definition makeRequestId :: "env \<Rightarrow> (world, string) comp" where
  "makeRequestId E = mbind (randomHex 4) (\<lambda>r. mret (''REQ'' @ to_string (e_now E) @ r))"

definition makeLoginSessionId :: "(world, string) comp" where
  "makeLoginSessionId = mbind (randomHex 32) (\<lambda>r. mret (''SID'' @ r))"

definition reply :: "int \<Rightarrow> json \<Rightarrow> (world, HttpResponse) comp" where
  "reply status env = mret (respond status env)"

text \<open>\<open>body.value(key, "")\<close> inside a handler.\<close>

definition body_str :: "env \<Rightarrow> json \<Rightarrow> string \<Rightarrow> (world, string) comp" where
  "body_str E body key = mlift (json_value_str (e_lib E) body key [])"

section \<open>Login and logout\<close>

definition handleLogin :: "env \<Rightarrow> HttpRequest \<Rightarrow> (world, HttpResponse) comp" where
  "handleLogin E req = (case parseJsonBody (e_lib E) req of
      Inl _ \<Rightarrow> reply 400 (makeErr 40001 M_body_not_json)
    | Inr body \<Rightarrow>
        mbind (body_str E body ''username'') (\<lambda>username.
        mbind (body_str E body ''password'') (\<lambda>password.
        if username = [] \<or> password = [] then reply 400 (makeErr 40001 M_login_empty)
        else
        mbind (sql (getUserByUsername (e_lib E) username)) (\<lambda>user. case user of
          None \<Rightarrow> reply 404 (makeErr 40403 M_user_gone)
        | Some u \<Rightarrow>
            if \<not> isNormal u then reply 404 (makeErr 40403 M_user_gone)
            else
            mbind (mlift (passwordHash (e_values E))) (\<lambda>hash_cfg.
            if \<not> verifyLoginPasswordWithHash (e_lib E) password (ui_password_hash u) (pw_secret hash_cfg)
            then reply 401 (makeErr 40104 M_password_wrong)
            else
            mbind makeLoginSessionId (\<lambda>session_id.
            mbind (mlift (runtime (e_values E))) (\<lambda>rt.
            mbind (redis_op (saveSession (e_now E) session_id (ui_user_id u) (login_session_ttl_seconds rt))) (\<lambda>saved.
            if \<not> saved then reply 500 (makeErr 50001 M_login_session_failed)
            else
              mret ((respond 200 (makeOk (JObject [(''user_id'', JString (ui_user_id u))])))
                \<lparr>extra_headers := [(''Set-Cookie'',
                    ''session_id='' @ session_id @ ''; Path=/; HttpOnly; SameSite=Lax'')]\<rparr>)))))))))"

definition handleLogout :: "env \<Rightarrow> HttpRequest \<Rightarrow> (world, HttpResponse) comp" where
  "handleLogout E req =
     (let session_id = cookieValue (headerValue req ''Cookie'') ''session_id'';
          ok = (respond 200 (makeOk (JObject [])))
                 \<lparr>extra_headers := [(''Set-Cookie'',
                     ''session_id=; Path=/; HttpOnly; SameSite=Lax; Max-Age=0'')]\<rparr>
      in if session_id \<noteq> []
         then mbind (redis_op (removeSession (e_now E) session_id)) (\<lambda>_. mret ok)
         else mret ok)"

section \<open>Orders and confirmation\<close>

definition accountPayable :: "int \<Rightarrow> bool" where
  "accountPayable status \<longleftrightarrow> status = account_code OnSale \<or> status = account_code Trading"

definition extractOrderSn :: "string \<Rightarrow> string" where
  "extractOrderSn path = drop (length ''/api/payment/orders/'') path"

definition order_json :: "OrderInfo \<Rightarrow> AccountInfo \<Rightarrow> json" where
  "order_json order account = JObject
     [(''account'', JObject
        [(''account_id'', JString (ai_account_id account)), (''account_level'', JInt (ai_account_level account)),
         (''game_name'', JString (ai_game_name account)), (''price'', JInt (ai_price account)),
         (''server_area'', JString (ai_server_area account)), (''status'', JInt (ai_status account))]),
      (''account_id'', JString (oi_account_id order)), (''order_sn'', JString (oi_order_sn order)),
      (''price'', JInt (oi_price order)), (''status'', JInt (oi_status order))]"

definition handleGetOrder :: "env \<Rightarrow> HttpRequest \<Rightarrow> (world, HttpResponse) comp" where
  "handleGetOrder E req =
     (let order_sn = extractOrderSn (req_path req);
          user_id = headerValue req ''X-User-Id''
      in if user_id = [] then reply 400 (makeErr 40001 M_missing_user_id)
         else
         mbind (sql (getOrderBySn (e_lib E) order_sn)) (\<lambda>order. case order of
           None \<Rightarrow> reply 404 (makeErr 40401 M_order_missing)
         | Some ord \<Rightarrow>
             if oi_buyer_id ord \<noteq> user_id then reply 404 (makeErr 40401 M_order_missing)
             else
             mbind (sql (getAccountById (e_lib E) (oi_account_id ord))) (\<lambda>account. case account of
               None \<Rightarrow> reply 404 (makeErr 40402 M_account_missing)
             | Some a \<Rightarrow> reply 200 (makeOk (order_json ord a)))))"

definition confirm_session ::
    "env \<Rightarrow> string \<Rightarrow> string \<Rightarrow> UserInfo \<Rightarrow> OrderInfo \<Rightarrow> PaymentRuntimeConfig \<Rightarrow> (world, string) comp" where
  "confirm_session E order_sn user_id user order rt =
     mbind (sql (getActivePaymentSessionByOrderSn (e_lib E) (e_now E) order_sn)) (\<lambda>session. case session of
       Some s \<Rightarrow> mret (si_payment_session_id s)
     | None \<Rightarrow>
         mbind (makePaymentSessionId E) (\<lambda>payment_session_id.
         mbind (sql (createPaymentSession (e_lib E) (e_now E)
             \<lparr>cs_payment_session_id = payment_session_id, cs_order_sn = order_sn,
              cs_account_id = oi_account_id order, cs_buyer_id = user_id,
              cs_buyer_contact_masked = ui_email_masked user,
              cs_ttl_seconds = payment_session_ttl_seconds rt\<rparr>)) (\<lambda>_.
           mret payment_session_id)))"

definition confirm_json :: "PaymentNginxConfig \<Rightarrow> string \<Rightarrow> string \<Rightarrow> json" where
  "confirm_json nginx payment_session_id qr_token = JObject
     [(''payment_session_id'', JString payment_session_id),
      (''qr_payload'', JString (''http://'' @ ng_public_host nginx @ '':'' @ to_string (ng_port nginx) @
          ng_scan_page_path nginx @ ''?token='' @ qr_token)),
      (''websocket_url'', JString (''ws://'' @ ng_public_host nginx @ '':'' @ to_string (ng_port nginx) @
          ''/ws/payment?payment_session_id='' @ payment_session_id))]"

definition handleConfirm :: "env \<Rightarrow> HttpRequest \<Rightarrow> (world, HttpResponse) comp" where
  "handleConfirm E req =
     (let user_id = headerValue req ''X-User-Id''
      in if user_id = [] then reply 400 (makeErr 40001 M_missing_user_id)
         else (case parseJsonBody (e_lib E) req of
           Inl _ \<Rightarrow> reply 400 (makeErr 40001 M_json_illegal)
         | Inr body \<Rightarrow>
             mbind (body_str E body ''order_sn'') (\<lambda>order_sn.
             mbind (mlift (json_value_bool (e_lib E) body ''agreement_checked'' False)) (\<lambda>agreement_checked.
             if order_sn = [] \<or> \<not> agreement_checked then reply 400 (makeErr 40001 M_confirm_params)
             else
             mbind (sql (getUserByUserId (e_lib E) user_id)) (\<lambda>user. case user of
               None \<Rightarrow> reply 403 (makeErr 40301 M_user_abnormal)
             | Some u \<Rightarrow>
                 if \<not> isNormal u then reply 403 (makeErr 40301 M_user_abnormal)
                 else if \<not> isRealAuthCompleted u then reply 409 (makeErr 40910 M_real_auth_missing)
                 else
                 mbind (sql (getOrderBySn (e_lib E) order_sn)) (\<lambda>order. case order of
                   None \<Rightarrow> reply 404 (makeErr 40401 M_order_not_owned)
                 | Some ord \<Rightarrow>
                     if oi_buyer_id ord \<noteq> user_id then reply 404 (makeErr 40401 M_order_not_owned)
                     else if oi_status ord \<noteq> order_code PendingPay then reply 409 (makeErr 40901 M_order_unpayable)
                     else
                     mbind (sql (getAccountById (e_lib E) (oi_account_id ord))) (\<lambda>account. case account of
                       None \<Rightarrow> reply 409 (makeErr 40903 M_account_untradable)
                     | Some a \<Rightarrow>
                         if \<not> accountPayable (ai_status a) then reply 409 (makeErr 40903 M_account_untradable)
                         else
                         mbind (mlift (runtime (e_values E))) (\<lambda>rt.
                         mbind (mlift (paymentNginx (e_values E))) (\<lambda>nginx.
                         mbind (mlift (jwt_fromConfig (e_values E))) (\<lambda>jwt_service.
                         mbind (confirm_session E order_sn user_id u ord rt) (\<lambda>payment_session_id.
                         mbind (draw 16) (\<lambda>entropy.
                         mbind (mlift (issuePaymentQrToken (e_lib E) jwt_service (e_now E) entropy
                             (empty_payload\<lparr>qr_payment_session_id := payment_session_id\<rparr>))) (\<lambda>qr_token.
                           reply 200 (makeOk (confirm_json nginx payment_session_id qr_token)))))))))))))))"

definition real_auth_update :: "env \<Rightarrow> string \<Rightarrow> string \<Rightarrow> string \<Rightarrow> (world, bool) comp" where
  "real_auth_update E user_id email id_card =
     mbind (mlift (hash_cfg (e_values E))) (\<lambda>hash_service.
     mbind (mlift (normalizeEmail email)) (\<lambda>email_norm.
     mbind (mlift (normalizeIdCard id_card)) (\<lambda>id_card_norm.
     mbind (mlift (hashEmail (e_lib E) hash_service email_norm)) (\<lambda>email_hash.
     mbind (mlift (hashIdCard (e_lib E) hash_service id_card_norm)) (\<lambda>id_card_hash.
       sql (updateUserRealAuthProfile (e_lib E)
         \<lparr>ru_user_id = user_id, ru_email_hash = email_hash, ru_email_masked = maskEmail email_norm,
          ru_id_card_hash = id_card_hash, ru_id_card_masked = maskIdCard id_card_norm\<rparr>))))))"

definition handleRealAuthComplete :: "env \<Rightarrow> HttpRequest \<Rightarrow> (world, HttpResponse) comp" where
  "handleRealAuthComplete E req =
     (let user_id = headerValue req ''X-User-Id''
      in if user_id = [] then reply 400 (makeErr 40001 M_missing_user_id)
         else (case parseJsonBody (e_lib E) req of
           Inl _ \<Rightarrow> reply 400 (makeErr 40001 M_json_illegal)
         | Inr body \<Rightarrow>
             mbind (body_str E body ''email'') (\<lambda>email.
             mbind (body_str E body ''id_card'') (\<lambda>id_card.
             mbind (body_str E body ''return_url'') (\<lambda>return_url.
             if email = [] \<or> id_card = [] \<or> return_url = [] then reply 400 (makeErr 40001 M_params_incomplete)
             else
               mcatch
                 (mbind (real_auth_update E user_id email id_card) (\<lambda>updated.
                    if \<not> updated then reply 500 (makeErr 50001 M_real_auth_failed)
                    else reply 200 (makeOk (JObject [(''redirect_url'', JString return_url)]))))
                 (\<lambda>ex. reply 400 (makeErr 40001 (ex_what ex))))))))"

section \<open>The payment page and attempts\<close>

text \<open>
  The checks that the payment page and the attempt share, on the session of the token: the session,
  its order and its account, or the error response.
\<close>

definition payable_session ::
    "env \<Rightarrow> string \<Rightarrow> int \<Rightarrow> int \<Rightarrow>
     (world, HttpResponse + PaymentSessionInfo \<times> OrderInfo \<times> AccountInfo) comp" where
  "payable_session E payment_session_id session_err account_err =
     mbind (sql (getPaymentSessionById (e_lib E) payment_session_id)) (\<lambda>session. case session of
       None \<Rightarrow> mret (Inl (respond 409 (makeErr session_err M_session_invalid)))
     | Some s \<Rightarrow>
         if si_status s \<noteq> session_code WaitingPay
         then mret (Inl (respond 409 (makeErr session_err M_session_invalid)))
         else
         mbind (sql (getOrderBySn (e_lib E) (si_order_sn s))) (\<lambda>order. case order of
           None \<Rightarrow> mret (Inl (respond 409 (makeErr 40901 M_order_unpayable)))
         | Some ord \<Rightarrow>
             if oi_status ord \<noteq> order_code PendingPay
             then mret (Inl (respond 409 (makeErr 40901 M_order_unpayable)))
             else
             mbind (sql (getAccountById (e_lib E) (si_account_id s))) (\<lambda>account. case account of
               None \<Rightarrow> mret (Inl (respond 409 (makeErr account_err M_account_untradable)))
             | Some a \<Rightarrow>
                 if \<not> accountPayable (ai_status a)
                 then mret (Inl (respond 409 (makeErr account_err M_account_untradable)))
                 else mret (Inr (s, ord, a)))))"

definition handlePaymentPage :: "env \<Rightarrow> HttpRequest \<Rightarrow> (world, HttpResponse) comp" where
  "handlePaymentPage E req =
     (let token = queryParam (req_query req) ''token''
      in if token = [] then reply 400 (makeErr 40001 M_missing_token)
         else
         mbind (mlift (jwt_fromConfig (e_values E))) (\<lambda>jwt_service.
         let verified = verifyPaymentQrToken (e_lib E) jwt_service (e_now E) token
         in if \<not> qv_valid verified then reply 401 (makeErr 40101 (qv_error_message verified))
            else
            mbind (payable_session E (qr_payment_session_id (qv_payload verified)) 40903 40902) (\<lambda>checked.
            case checked of
              Inl response \<Rightarrow> mret response
            | Inr (s, ord, a) \<Rightarrow>
                reply 200 (makeOk (JObject
                  [(''game_name'', JString (ai_game_name a)), (''order_sn'', JString (oi_order_sn ord)),
                   (''payment_session_id'', JString (si_payment_session_id s)), (''price'', JInt (oi_price ord)),
                   (''status'', JString ''WAITING_PAY'')])))))"

definition handleAttemptInit :: "env \<Rightarrow> HttpRequest \<Rightarrow> (world, HttpResponse) comp" where
  "handleAttemptInit E req = (case parseJsonBody (e_lib E) req of
      Inl _ \<Rightarrow> reply 400 (makeErr 40001 M_json_illegal)
    | Inr body \<Rightarrow>
        mbind (body_str E body ''qr_token'') (\<lambda>qr_token.
        if qr_token = [] then reply 400 (makeErr 40001 M_missing_qr_token)
        else
        mbind (mlift (jwt_fromConfig (e_values E))) (\<lambda>jwt_service.
        let verified = verifyPaymentQrToken (e_lib E) jwt_service (e_now E) qr_token
        in if \<not> qv_valid verified then reply 401 (makeErr 40102 (qv_error_message verified))
           else
           mbind (payable_session E (qr_payment_session_id (qv_payload verified)) 40911 40903) (\<lambda>checked.
           case checked of
             Inl response \<Rightarrow> mret response
           | Inr (s, ord, a) \<Rightarrow>
               mbind (makeRequestId E) (\<lambda>request_id.
               mbind (sql (createPaymentAttemptProcessing (e_lib E) (e_now E)
                   \<lparr>ca_request_id = request_id, ca_payment_session_id = si_payment_session_id s,
                    ca_order_sn = si_order_sn s, ca_account_id = si_account_id s,
                    ca_buyer_id = si_buyer_id s, ca_client_ip = headerValue req ''X-Forwarded-For'',
                    ca_user_agent = headerValue req ''User-Agent''\<rparr>)) (\<lambda>_.
                 reply 200 (makeOk (JObject [(''request_id'', JString request_id)]))))))))"

section \<open>The payment\<close>

text \<open>\<open>updatePaymentAttemptResult(request_id, Failed, reason)\<close>, then the error response.\<close>

definition pay_fail :: "env \<Rightarrow> string \<Rightarrow> string \<Rightarrow> int \<Rightarrow> json \<Rightarrow> (world, HttpResponse) comp" where
  "pay_fail E request_id reason status err =
     mbind (sql (updatePaymentAttemptResult (e_lib E) (e_now E) request_id AttemptFailed reason)) (\<lambda>_.
       reply status err)"

definition paid_json :: "string \<Rightarrow> json" where
  "paid_json request_id = makeOk (JObject [(''payment_status'', JString ''PAID''), (''request_id'', JString request_id)])"

text \<open>The end of \<open>handlePay\<close>, from the transaction on.\<close>

definition pay_finalize ::
    "env \<Rightarrow> string \<Rightarrow> PaymentSessionInfo \<Rightarrow> OrderInfo \<Rightarrow> AccountInfo \<Rightarrow> (world, HttpResponse) comp" where
  "pay_finalize E request_id session order account =
     mbind (sql (finalizePaymentSuccess (e_lib E) (e_now E)
         \<lparr>pf_payment_session_id = si_payment_session_id session, pf_order_sn = oi_order_sn order,
          pf_account_id = ai_account_id account, pf_buyer_id = si_buyer_id session,
          pf_price = oi_price order, pf_request_id = request_id\<rparr>)) (\<lambda>done.
       if \<not> done then pay_fail E request_id ''FINALIZE_TXN_FAILED'' 409 (makeErr 40904 M_pay_txn_failed)
       else
         mbind (sql (updatePaymentAttemptResult (e_lib E) (e_now E) request_id AttemptSuccess [])) (\<lambda>_.
         mbind (submit (si_payment_session_id session, oi_order_sn order)) (\<lambda>_.
           reply 200 (paid_json request_id))))"

text \<open>The checks of the buyer and the password.\<close>

definition pay_authorize ::
    "env \<Rightarrow> string \<Rightarrow> string \<Rightarrow> PaymentSessionInfo \<Rightarrow> OrderInfo \<Rightarrow> AccountInfo \<Rightarrow> (world, HttpResponse) comp" where
  "pay_authorize E request_id login_password session order account =
     mbind (sql (getUserByUserId (e_lib E) (si_buyer_id session))) (\<lambda>user. case user of
       None \<Rightarrow> pay_fail E request_id ''USER_INVALID'' 403 (makeErr 40301 M_user_abnormal)
     | Some u \<Rightarrow>
         if \<not> isNormal u then pay_fail E request_id ''USER_INVALID'' 403 (makeErr 40301 M_user_abnormal)
         else
         mbind (mlift (passwordHash (e_values E))) (\<lambda>cfg.
         if \<not> verifyLoginPasswordWithHash (e_lib E) login_password (ui_password_hash u) (pw_secret cfg)
         then pay_fail E request_id ''PASSWORD_INVALID'' 401 (makeErr 40104 M_pay_password_wrong)
         else pay_finalize E request_id session order account))"

text \<open>The checks of session, order and account.\<close>

definition pay_check ::
    "env \<Rightarrow> string \<Rightarrow> string \<Rightarrow> PaymentAttemptInfo \<Rightarrow> string \<Rightarrow> (world, HttpResponse) comp" where
  "pay_check E request_id login_password attempt payment_session_id =
     mbind (sql (getPaymentSessionById (e_lib E) payment_session_id)) (\<lambda>session. case session of
       None \<Rightarrow> pay_fail E request_id ''SESSION_INVALID'' 409 (makeErr 40905 M_session_invalid)
     | Some s \<Rightarrow>
         if si_status s \<noteq> session_code WaitingPay
         then pay_fail E request_id ''SESSION_INVALID'' 409 (makeErr 40905 M_session_invalid)
         else if ti_payment_session_id attempt \<noteq> si_payment_session_id s
         then pay_fail E request_id ''SESSION_MISMATCH'' 409 (makeErr 40905 M_session_mismatch)
         else
         mbind (sql (getOrderBySn (e_lib E) (si_order_sn s))) (\<lambda>order. case order of
           None \<Rightarrow> pay_fail E request_id ''ORDER_NOT_PAYABLE'' 409 (makeErr 40901 M_order_unpayable)
         | Some ord \<Rightarrow>
             if oi_status ord \<noteq> order_code PendingPay
             then pay_fail E request_id ''ORDER_NOT_PAYABLE'' 409 (makeErr 40901 M_order_unpayable)
             else
             mbind (sql (getAccountById (e_lib E) (si_account_id s))) (\<lambda>account. case account of
               None \<Rightarrow> pay_fail E request_id ''ACCOUNT_NOT_PAYABLE'' 409 (makeErr 40903 M_account_untradable)
             | Some a \<Rightarrow>
                 if \<not> accountPayable (ai_status a)
                 then pay_fail E request_id ''ACCOUNT_NOT_PAYABLE'' 409 (makeErr 40903 M_account_untradable)
                 else pay_authorize E request_id login_password s ord a)))"

definition pay_attempt_known ::
    "env \<Rightarrow> string \<Rightarrow> string \<Rightarrow> string \<Rightarrow> PaymentAttemptInfo \<Rightarrow> (world, HttpResponse) comp" where
  "pay_attempt_known E request_id qr_token login_password attempt =
     (if ti_result attempt = attempt_code AttemptSuccess then reply 200 (paid_json request_id)
      else if ti_result attempt = attempt_code AttemptFailed
      then reply 409 (makeErr 40904 (if ti_fail_reason attempt = [] then M_pay_failed else ti_fail_reason attempt))
      else
      mbind (mlift (jwt_fromConfig (e_values E))) (\<lambda>jwt_service.
      let verified = verifyPaymentQrToken (e_lib E) jwt_service (e_now E) qr_token
      in if \<not> qv_valid verified
         then pay_fail E request_id ''INVALID_QR_TOKEN'' 401 (makeErr 40102 (qv_error_message verified))
         else pay_check E request_id login_password attempt (qr_payment_session_id (qv_payload verified))))"

definition handlePay :: "env \<Rightarrow> HttpRequest \<Rightarrow> (world, HttpResponse) comp" where
  "handlePay E req = (case parseJsonBody (e_lib E) req of
      Inl _ \<Rightarrow> reply 400 (makeErr 40001 M_json_illegal)
    | Inr body \<Rightarrow>
        mbind (body_str E body ''request_id'') (\<lambda>request_id.
        mbind (body_str E body ''qr_token'') (\<lambda>qr_token.
        mbind (body_str E body ''login_password'') (\<lambda>login_password.
        if request_id = [] \<or> qr_token = [] \<or> login_password = []
        then reply 400 (makeErr 40001 M_params_incomplete)
        else
        mbind (sql (getPaymentAttemptByRequestId (e_lib E) request_id)) (\<lambda>attempt. case attempt of
          None \<Rightarrow> reply 404 (makeErr 40404 M_attempt_missing)
        | Some t \<Rightarrow> pay_attempt_known E request_id qr_token login_password t)))))"

section \<open>Dispatch\<close>

definition dispatch :: "env \<Rightarrow> HttpRequest \<Rightarrow> (world, HttpResponse) comp" where
  "dispatch E req =
     (if req_method req = ''POST'' \<and> req_path req = ''/api/auth/login'' then handleLogin E req
      else if req_method req = ''POST'' \<and> req_path req = ''/api/auth/logout'' then handleLogout E req
      else if req_method req = ''GET'' \<and> is_prefix ''/api/payment/orders/'' (req_path req) then handleGetOrder E req
      else if req_method req = ''POST'' \<and> req_path req = ''/api/payment/confirm'' then handleConfirm E req
      else if req_method req = ''POST'' \<and> req_path req = ''/api/users/real-auth/complete''
        then handleRealAuthComplete E req
      else if req_method req = ''GET'' \<and> req_path req = ''/api/payment/page'' then handlePaymentPage E req
      else if req_method req = ''POST'' \<and> req_path req = ''/api/payment/attempt/init'' then handleAttemptInit E req
      else if req_method req = ''POST'' \<and> req_path req = ''/api/payment/pay'' then handlePay E req
      else reply 404 (makeErr 40400 M_no_route))"

definition handleRequest :: "env \<Rightarrow> HttpRequest \<Rightarrow> (world, HttpResponse) comp" where
  "handleRequest E req = mcatch (dispatch E req) (\<lambda>_. reply 500 (makeErr 50001 M_server_error))"

end
