(* ===== verification/DbSteps.thy ===== *)
theory DbSteps
  imports MySqlPool
begin

text \<open>
  The abstract specification of the database: which changes the program may make, as the step
  relation \<open>db_step\<close>. A step is one SQL statement that took effect, or one whole payment: \<open>paid\<close> says
  under which condition a payment happens and what it changes. Threads interleave at these steps, so
  what holds of every sequence of steps holds under any schedule of the worker threads (\<open>PaymentRace\<close>).

  The invariants are proved by rule induction: the ranges and UNIQUE keys of the schema, that a paid
  order, a sold account and a paid session stay so, that an account is sold for one order only, and
  that every order paid has a paid session and a sold account.
\<close>

section \<open>What the schema guarantees\<close>

definition unique_key :: "lib \<Rightarrow> ('r \<Rightarrow> string) \<Rightarrow> 'r list \<Rightarrow> bool" where
  "unique_key L f rs \<longleftrightarrow> distinct (map (sql_key L \<circ> f) rs)"

definition db_ok :: "lib \<Rightarrow> db \<Rightarrow> bool" where
  "db_ok L d \<longleftrightarrow>
     list_all user_row_ok (users d) \<and> list_all account_row_ok (accounts d) \<and>
     list_all order_row_ok (orders d) \<and> list_all session_row_ok (sessions d) \<and>
     list_all attempt_row_ok (attempts d) \<and>
     unique_key L u_user_id (users d) \<and> unique_key L u_username (users d) \<and>
     unique_col L u_email_hash (users d) \<and> unique_col L u_id_card_hash (users d) \<and>
     unique_key L a_account_id (accounts d) \<and> unique_key L o_order_sn (orders d) \<and>
     unique_key L s_payment_session_id (sessions d) \<and> unique_key L s_order_sn (sessions d) \<and>
     unique_key L t_request_id (attempts d)"

lemma col_eq_refl [simp]: "col_eq L a a"
  by (simp add: col_eq_def)

lemma col_eq_sym: "col_eq L a b \<Longrightarrow> col_eq L b a"
  by (simp add: col_eq_def)

lemma col_eq_trans: "col_eq L a b \<Longrightarrow> col_eq L b c \<Longrightarrow> col_eq L a c"
  by (simp add: col_eq_def)

lemma unique_keyD:
  "unique_key L f rs \<Longrightarrow> r \<in> set rs \<Longrightarrow> r' \<in> set rs \<Longrightarrow> col_eq L (f r) x \<Longrightarrow> col_eq L (f r') x \<Longrightarrow> r = r'"
  by (auto simp: unique_key_def col_eq_def distinct_map inj_on_def)

text \<open>A WHERE clause on a unique key selects one row at most.\<close>

lemma filter_unique:
  assumes "unique_key L f rs" and "r \<in> set rs" and "col_eq L (f r) x" and "Q r"
  shows "filter (\<lambda>r. col_eq L (f r) x \<and> Q r) rs = [r]"
  using assms
proof (induction rs)
  case Nil
  then show ?case by simp
next
  case (Cons a rs)
  have u: "unique_key L f rs" and a: "sql_key L (f a) \<notin> sql_key L ` f ` set rs"
    using Cons.prems(1) by (auto simp: unique_key_def)
  show ?case
  proof (cases "a = r")
    case True
    with a have "\<forall>b\<in>set rs. sql_key L (f b) \<noteq> sql_key L (f r)" by (metis image_eqI)
    then have "\<forall>b\<in>set rs. \<not> col_eq L (f b) x" using Cons.prems(3) by (simp add: col_eq_def)
    then have "filter (\<lambda>r. col_eq L (f r) x \<and> Q r) rs = []" by (simp add: filter_empty_conv)
    with True Cons.prems show ?thesis by simp
  next
    case False
    with Cons.prems have r: "r \<in> set rs" by simp
    then have "sql_key L (f a) \<noteq> sql_key L (f r)" using a by (metis image_eqI)
    then have "\<not> col_eq L (f a) x" using Cons.prems(3) by (simp add: col_eq_def)
    with r u Cons show ?thesis by simp
  qed
qed

lemma changed_unique:
  assumes "unique_key L f rs" and "r \<in> set rs" and "col_eq L (f r) x" and "Q r" and "g r \<noteq> r"
  shows "changed_rows (\<lambda>r. col_eq L (f r) x \<and> Q r) g rs = 1"
proof -
  have "filter (\<lambda>r. (col_eq L (f r) x \<and> Q r) \<and> g r \<noteq> r) rs = [r]"
    using filter_unique [of L f rs r x "\<lambda>r. Q r \<and> g r \<noteq> r"] assms by (simp add: conj_assoc)
  then show ?thesis by (simp add: changed_rows_def)
qed

lemma unique_key_update:
  assumes "unique_key L f rs" and "\<And>r. f (g r) = f r"
  shows "unique_key L f (update_rows p g rs)"
proof -
  have "map (sql_key L \<circ> f) (update_rows p g rs) = map (sql_key L \<circ> f) rs"
    by (simp add: update_rows_def assms(2))
  with assms(1) show ?thesis by (simp add: unique_key_def)
qed

lemma unique_key_snoc:
  "unique_key L f rs \<Longrightarrow> \<forall>r\<in>set rs. \<not> col_eq L (f r) (f x) \<Longrightarrow> unique_key L f (rs @ [x])"
  by (auto simp: unique_key_def col_eq_def)

lemma list_all_update: "list_all P rs \<Longrightarrow> (\<And>r. P r \<Longrightarrow> p r \<Longrightarrow> P (g r)) \<Longrightarrow> list_all P (update_rows p g rs)"
  by (auto simp: list_all_iff in_update_rows)

section \<open>The payment\<close>

definition can_pay :: "lib \<Rightarrow> PaymentFinalizeInput \<Rightarrow> db \<Rightarrow> bool" where
  "can_pay L i d \<longleftrightarrow>
     (\<exists>s\<in>set (sessions d). pay_session_where L i s \<and> s_order_sn s = pf_order_sn i \<and>
        s_account_id s = pf_account_id i \<and> s_buyer_id s = pf_buyer_id i) \<and>
     (\<exists>r\<in>set (orders d). pay_order_where L i r \<and> o_account_id r = pf_account_id i \<and>
        o_buyer_id r = pf_buyer_id i \<and> o_price r = pf_price i) \<and>
     (\<exists>a\<in>set (accounts d). pay_account_where L i a \<and> sql_int (a_version a + 1)) \<and>
     (\<exists>t\<in>set (attempts d). pay_attempt_where L i t \<and> t_payment_session_id t = pf_payment_session_id i \<and>
        t_order_sn t = pf_order_sn i \<and> t_account_id t = pf_account_id i \<and> t_buyer_id t = pf_buyer_id i) \<and>
     (\<exists>u\<in>set (users d). col_eq L (u_user_id u) (pf_buyer_id i) \<and> u_status u = 0 \<and>
        u_real_auth_completed u = 1 \<and> or_empty (u_email_hash u) \<noteq> [] \<and> or_empty (u_id_card_hash u) \<noteq> [])"

definition pay_db :: "lib \<Rightarrow> int \<Rightarrow> PaymentFinalizeInput \<Rightarrow> db \<Rightarrow> db" where
  "pay_db L now i d = d\<lparr>
     orders := update_rows (pay_order_where L i) (pay_order_set now) (orders d),
     accounts := update_rows (pay_account_where L i) (pay_account_set now) (accounts d),
     sessions := update_rows (pay_session_where L i) (pay_session_set now) (sessions d),
     attempts := update_rows (pay_attempt_where L i) (pay_attempt_set now) (attempts d)\<rparr>"

definition paid :: "lib \<Rightarrow> int \<Rightarrow> PaymentFinalizeInput \<Rightarrow> db \<Rightarrow> db \<Rightarrow> bool" where
  "paid L now i d d' \<longleftrightarrow> can_pay L i d \<and> d' = pay_db L now i d"

section \<open>Steps\<close>

inductive db_step :: "lib \<Rightarrow> db \<Rightarrow> db \<Rightarrow> bool" for L where
  real_auth: "update_real_auth L input d = Inr (n, d') \<Longrightarrow> db_step L d d'"
| new_session: "insert_session L now input d = Inr ((), d') \<Longrightarrow> db_step L d d'"
| new_attempt: "insert_attempt L now input d = Inr ((), d') \<Longrightarrow> db_step L d d'"
| set_attempt: "update_attempt L now request_id result reason d = Inr (n, d') \<Longrightarrow> db_step L d d'"
| expire: "expire_sessions now d = Inr (n, d') \<Longrightarrow> db_step L d d'"
| pay: "paid L now i d d' \<Longrightarrow> db_step L d d'"

abbreviation db_steps :: "lib \<Rightarrow> db \<Rightarrow> db \<Rightarrow> bool" where
  "db_steps L \<equiv> (db_step L)\<^sup>*\<^sup>*"

inductive_cases db_stepE: "db_step L d d'"

text \<open>The parts of a statement's effect, table by table.\<close>

lemma update_real_auth_effect:
  "update_real_auth L input d = Inr (n, d') \<Longrightarrow>
     d' = d\<lparr>users := update_rows (\<lambda>r. col_eq L (u_user_id r) (ru_user_id input)) (set_real_auth input) (users d)\<rparr> \<and>
     unique_col L u_email_hash (users d') \<and> unique_col L u_id_card_hash (users d')"
  by (auto simp: update_real_auth_def Let_def split: if_splits)

lemma insert_session_effect:
  assumes "insert_session L now input d = Inr (u, d')"
  obtains s where "d' = d\<lparr>sessions := sessions d @ [s], session_seq := session_seq d + 1\<rparr>"
    and "s_payment_session_id s = cs_payment_session_id input" and "s_order_sn s = cs_order_sn input"
    and "s_account_id s = cs_account_id input" and "s_buyer_id s = cs_buyer_id input"
    and "s_status s = 0" and "s_expire_at s = now + cs_ttl_seconds input"
    and "bigint (s_id s)"
    and "\<forall>r\<in>set (sessions d). \<not> col_eq L (s_payment_session_id r) (s_payment_session_id s) \<and>
           \<not> col_eq L (s_order_sn r) (s_order_sn s)"
  using assms by (fastforce simp: insert_session_def split: if_splits)

lemma insert_attempt_effect:
  assumes "insert_attempt L now input d = Inr (u, d')"
  obtains t where "d' = d\<lparr>attempts := attempts d @ [t], attempt_seq := attempt_seq d + 1\<rparr>"
    and "t_request_id t = ca_request_id input" and "t_result t = 0" and "bigint (t_id t)"
    and "\<forall>r\<in>set (attempts d). \<not> col_eq L (t_request_id r) (t_request_id t)"
  using assms by (fastforce simp: insert_attempt_def split: if_splits)

lemma update_attempt_effect:
  "update_attempt L now request_id result reason d = Inr (n, d') \<Longrightarrow>
     d' = d\<lparr>attempts := update_rows (\<lambda>r. col_eq L (t_request_id r) request_id)
              (set_result now result reason) (attempts d)\<rparr>"
  by (auto simp: update_attempt_def Let_def)

lemma expire_sessions_effect:
  "expire_sessions now d = Inr (n, d') \<Longrightarrow>
     d' = d\<lparr>sessions := update_rows (\<lambda>r. s_status r = 0 \<and> s_expire_at r \<le> now) (expire_session now) (sessions d)\<rparr>"
  by (auto simp: expire_sessions_def Let_def)

lemma pay_db_simps [simp]:
  "orders (pay_db L now i d) = update_rows (pay_order_where L i) (pay_order_set now) (orders d)"
  "accounts (pay_db L now i d) = update_rows (pay_account_where L i) (pay_account_set now) (accounts d)"
  "sessions (pay_db L now i d) = update_rows (pay_session_where L i) (pay_session_set now) (sessions d)"
  "attempts (pay_db L now i d) = update_rows (pay_attempt_where L i) (pay_attempt_set now) (attempts d)"
  "users (pay_db L now i d) = users d" "session_seq (pay_db L now i d) = session_seq d"
  "attempt_seq (pay_db L now i d) = attempt_seq d"
  by (simp_all add: pay_db_def)

section \<open>The schema is kept\<close>

lemma set_real_auth_simps [simp]:
  "u_user_id (set_real_auth input r) = u_user_id r" "u_username (set_real_auth input r) = u_username r"
  "user_row_ok r \<Longrightarrow> user_row_ok (set_real_auth input r)"
  by (simp_all add: set_real_auth_def user_row_ok_def tinyint_def)

lemma set_result_simps [simp]:
  "t_request_id (set_result now result reason r) = t_request_id r"
  "attempt_row_ok r \<Longrightarrow> attempt_row_ok (set_result now result reason r)"
  by (cases result; simp add: set_result_def attempt_row_ok_def tinyint_def)+

lemma expire_session_simps [simp]:
  "s_payment_session_id (expire_session now r) = s_payment_session_id r"
  "s_order_sn (expire_session now r) = s_order_sn r"
  "session_row_ok r \<Longrightarrow> session_row_ok (expire_session now r)"
  by (simp_all add: expire_session_def session_row_ok_def tinyint_def)

lemma pay_set_simps [simp]:
  "o_order_sn (pay_order_set now r) = o_order_sn r"
  "order_row_ok r \<Longrightarrow> order_row_ok (pay_order_set now r)"
  "a_account_id (pay_account_set now a) = a_account_id a"
  "account_row_ok a \<Longrightarrow> sql_int (a_version a + 1) \<Longrightarrow> account_row_ok (pay_account_set now a)"
  "s_payment_session_id (pay_session_set now s) = s_payment_session_id s"
  "s_order_sn (pay_session_set now s) = s_order_sn s"
  "session_row_ok s \<Longrightarrow> session_row_ok (pay_session_set now s)"
  "t_request_id (pay_attempt_set now t) = t_request_id t"
  "attempt_row_ok t \<Longrightarrow> attempt_row_ok (pay_attempt_set now t)"
  by (simp_all add: pay_order_set_def order_row_ok_def pay_account_set_def account_row_ok_def
      pay_session_set_def session_row_ok_def pay_attempt_set_def attempt_row_ok_def tinyint_def)

text \<open>The account a payment sells is one row, and its version has room.\<close>

lemma pay_account_room:
  assumes "db_ok L d" and "can_pay L i d" and "a \<in> set (accounts d)" and "pay_account_where L i a"
  shows "sql_int (a_version a + 1)"
proof -
  from assms(2) obtain b where b: "b \<in> set (accounts d)" "pay_account_where L i b" "sql_int (a_version b + 1)"
    by (auto simp: can_pay_def)
  have "unique_key L a_account_id (accounts d)" using assms(1) by (simp add: db_ok_def)
  then have "a = b"
    using b assms(3,4) by (auto simp: pay_account_where_def intro: unique_keyD)
  with b show ?thesis by simp
qed

lemma pay_keeps_ok:
  assumes ok: "db_ok L d" and pay: "can_pay L i d"
  shows "db_ok L (pay_db L now i d)"
proof -
  have "list_all account_row_ok (accounts d)" using ok by (simp add: db_ok_def)
  then have "list_all account_row_ok (update_rows (pay_account_where L i) (pay_account_set now) (accounts d))"
    using pay_account_room [OF ok pay] by (auto simp: list_all_iff in_update_rows)
  with ok show ?thesis
    by (simp add: db_ok_def list_all_update unique_key_update)
qed

lemma db_step_ok:
  assumes "db_step L d d'" and ok: "db_ok L d"
  shows "db_ok L d'"
  using assms(1)
proof cases
  case (real_auth input n)
  with ok show ?thesis
    using update_real_auth_effect [OF real_auth]
    by (auto simp: db_ok_def list_all_update unique_key_update)
next
  case (new_session now input)
  then show ?thesis
  proof (rule insert_session_effect)
    fix s
    assume "d' = d\<lparr>sessions := sessions d @ [s], session_seq := session_seq d + 1\<rparr>"
      and "s_status s = 0" and "bigint (s_id s)"
      and "\<forall>r\<in>set (sessions d). \<not> col_eq L (s_payment_session_id r) (s_payment_session_id s) \<and>
           \<not> col_eq L (s_order_sn r) (s_order_sn s)"
    with ok show ?thesis
      by (auto simp: db_ok_def session_row_ok_def tinyint_def intro: unique_key_snoc)
  qed
next
  case (new_attempt now input)
  then show ?thesis
  proof (rule insert_attempt_effect)
    fix t
    assume "d' = d\<lparr>attempts := attempts d @ [t], attempt_seq := attempt_seq d + 1\<rparr>"
      and "t_result t = 0" and "bigint (t_id t)"
      and "\<forall>r\<in>set (attempts d). \<not> col_eq L (t_request_id r) (t_request_id t)"
    with ok show ?thesis
      by (auto simp: db_ok_def attempt_row_ok_def tinyint_def intro: unique_key_snoc)
  qed
next
  case (set_attempt now request_id result reason n)
  with ok show ?thesis
    using update_attempt_effect [OF set_attempt]
    by (simp add: db_ok_def list_all_update unique_key_update)
next
  case (expire now n)
  with ok show ?thesis
    using expire_sessions_effect [OF expire]
    by (simp add: db_ok_def list_all_update unique_key_update)
next
  case (pay now i)
  with ok show ?thesis by (simp add: paid_def pay_keeps_ok)
qed

lemma db_steps_ok: "db_steps L d d' \<Longrightarrow> db_ok L d \<Longrightarrow> db_ok L d'"
  by (induction rule: rtranclp_induct) (auto dest: db_step_ok)


section \<open>What happens to orders, accounts and sessions\<close>

text \<open>An order changes once, from pending to paid; an account once, from tradable to sold.\<close>

definition order_moves :: "order_row \<Rightarrow> order_row \<Rightarrow> bool" where
  "order_moves r r' \<longleftrightarrow> r' = r \<or> o_status r = 0 \<and> (\<exists>now. r' = pay_order_set now r)"

definition account_moves :: "account_row \<Rightarrow> account_row \<Rightarrow> bool" where
  "account_moves a a' \<longleftrightarrow> a' = a \<or> a_status a \<in> {0, 1} \<and> (\<exists>now. a' = pay_account_set now a)"

lemma order_moves_refl: "list_all2 order_moves rs rs"
  by (simp add: list_all2_refl order_moves_def)

lemma account_moves_refl: "list_all2 account_moves rs rs"
  by (simp add: list_all2_refl account_moves_def)

lemma order_moves_trans: "order_moves a b \<Longrightarrow> order_moves b c \<Longrightarrow> order_moves a c"
  by (auto simp: order_moves_def pay_order_set_def)

lemma account_moves_trans: "account_moves a b \<Longrightarrow> account_moves b c \<Longrightarrow> account_moves a c"
  by (auto simp: account_moves_def pay_account_set_def)

lemma pay_order_moves: "list_all2 order_moves rs (update_rows (pay_order_where L i) (pay_order_set now) rs)"
  by (induction rs) (auto simp: order_moves_def pay_order_where_def)

lemma pay_account_moves:
  "list_all2 account_moves rs (update_rows (pay_account_where L i) (pay_account_set now) rs)"
  by (induction rs) (auto simp: account_moves_def pay_account_where_def)

text \<open>Only a payment touches orders and accounts; what is sold or paid stays in the tables.\<close>

lemma step_not_pay:
  assumes "db_step L d d'"
  shows "(orders d' = orders d \<and> accounts d' = accounts d) \<or> (\<exists>now i. paid L now i d d')"
  using assms
proof cases
  case (real_auth input n)
  then show ?thesis using update_real_auth_effect [OF real_auth] by simp
next
  case (new_session now input)
  then show ?thesis by (rule insert_session_effect) simp
next
  case (new_attempt now input)
  then show ?thesis by (rule insert_attempt_effect) simp
next
  case (set_attempt now request_id result reason n)
  then show ?thesis using update_attempt_effect [OF set_attempt] by simp
next
  case (expire now n)
  then show ?thesis using expire_sessions_effect [OF expire] by simp
next
  case (pay now i)
  then show ?thesis by blast
qed

lemma kept_row: "r \<in> set rs \<Longrightarrow> \<not> p r \<Longrightarrow> r \<in> set (update_rows p f rs)"
  by (auto simp: in_update_rows)

lemma paid_session_kept:
  assumes "db_step L d d'" and "s \<in> set (sessions d)" and "s_status s = 1"
  shows "s \<in> set (sessions d')"
  using assms(1)
proof cases
  case (real_auth input n)
  with assms(2) show ?thesis using update_real_auth_effect [OF real_auth] by simp
next
  case (new_session now input)
  then show ?thesis by (rule insert_session_effect) (simp add: assms(2))
next
  case (new_attempt now input)
  then show ?thesis by (rule insert_attempt_effect) (simp add: assms(2))
next
  case (set_attempt now request_id result reason n)
  with assms(2) show ?thesis using update_attempt_effect [OF set_attempt] by simp
next
  case (expire now n)
  with assms show ?thesis using expire_sessions_effect [OF expire] by (simp add: kept_row)
next
  case (pay now i)
  with assms show ?thesis by (simp add: paid_def kept_row pay_session_where_def)
qed

lemma sold_account_kept:
  assumes "db_step L d d'" and "a \<in> set (accounts d)" and "a_status a = 2"
  shows "a \<in> set (accounts d')"
  using step_not_pay [OF assms(1)] assms(2,3) by (auto simp: paid_def kept_row pay_account_where_def)

lemma step_moves:
  assumes "db_step L d d'"
  shows "list_all2 order_moves (orders d) (orders d') \<and> list_all2 account_moves (accounts d) (accounts d')"
  using step_not_pay [OF assms]
  by (auto simp: paid_def order_moves_refl account_moves_refl pay_order_moves pay_account_moves)

lemma steps_move:
  assumes "db_steps L d d'"
  shows "list_all2 order_moves (orders d) (orders d') \<and> list_all2 account_moves (accounts d) (accounts d')"
  using assms
proof (induction rule: rtranclp_induct)
  case base
  then show ?case by (simp add: order_moves_refl account_moves_refl)
next
  case (step y z)
  then show ?case
    using step_moves [OF step.hyps(2)] list_all2_trans [of order_moves order_moves order_moves]
      list_all2_trans [of account_moves account_moves account_moves]
    by (meson account_moves_trans order_moves_trans)
qed

section \<open>One sale per account\<close>

definition became_paid :: "db \<Rightarrow> db \<Rightarrow> nat \<Rightarrow> bool" where
  "became_paid d d' k \<longleftrightarrow>
     k < length (orders d) \<and> o_status (orders d ! k) = 0 \<and> o_status (orders d' ! k) = 1"

text \<open>A paid order has a sold account and a paid session of the same order, account and buyer.\<close>

definition settled :: "lib \<Rightarrow> db \<Rightarrow> order_row \<Rightarrow> bool" where
  "settled L d r \<longleftrightarrow>
     (\<exists>a\<in>set (accounts d). col_eq L (a_account_id a) (o_account_id r) \<and> a_status a = 2) \<and>
     (\<exists>s\<in>set (sessions d). col_eq L (s_order_sn s) (o_order_sn r) \<and> s_account_id s = o_account_id r \<and>
        s_buyer_id s = o_buyer_id r \<and> s_status s = 1)"

definition sold_once :: "lib \<Rightarrow> db \<Rightarrow> db \<Rightarrow> bool" where
  "sold_once L d0 d \<longleftrightarrow>
     (\<forall>k. became_paid d0 d k \<longrightarrow> settled L d (orders d ! k)) \<and>
     (\<forall>j k. became_paid d0 d j \<longrightarrow> became_paid d0 d k \<longrightarrow>
        col_eq L (o_account_id (orders d ! j)) (o_account_id (orders d ! k)) \<longrightarrow> j = k)"

lemma settled_kept:
  assumes "db_step L d d'" and "settled L d r"
  shows "settled L d' r"
  using assms paid_session_kept [OF assms(1)] sold_account_kept [OF assms(1)]
  unfolding settled_def by blast

text \<open>A payment pays one order, whose account was not sold and which is settled afterwards.\<close>

lemma pay_pays_one:
  assumes ok: "db_ok L d" and pay: "paid L now i d d'"
  obtains k where "k < length (orders d)" and "o_status (orders d ! k) = 0"
    and "\<And>j. j < length (orders d) \<Longrightarrow> orders d' ! j = (if j = k then pay_order_set now (orders d ! k) else orders d ! j)"
    and "settled L d' (orders d' ! k)"
    and "o_account_id (orders d ! k) = pf_account_id i"
proof -
  from pay obtain r s a where
    r: "r \<in> set (orders d)" "pay_order_where L i r" "o_account_id r = pf_account_id i" "o_buyer_id r = pf_buyer_id i" and
    s: "s \<in> set (sessions d)" "pay_session_where L i s" "s_order_sn s = pf_order_sn i"
       "s_account_id s = pf_account_id i" "s_buyer_id s = pf_buyer_id i" and
    a: "a \<in> set (accounts d)" "pay_account_where L i a" and
    d': "d' = pay_db L now i d"
    by (auto simp: paid_def can_pay_def)
  obtain k where k: "k < length (orders d)" "orders d ! k = r" using r(1) by (auto simp: in_set_conv_nth)
  have uo: "unique_key L o_order_sn (orders d)" and ua: "unique_key L a_account_id (accounts d)"
    using ok by (auto simp: db_ok_def)
  have only: "j = k" if "j < length (orders d)" "pay_order_where L i (orders d ! j)" for j
  proof -
    have "orders d ! j = r"
      using that r(1,2) unique_keyD [OF uo, of "orders d ! j" r "pf_order_sn i"]
      by (auto simp: pay_order_where_def)
    moreover have "distinct (map (sql_key L \<circ> o_order_sn) (orders d))" using uo by (simp add: unique_key_def)
    ultimately show ?thesis
      using that(1) k by (metis comp_apply distinct_conv_nth length_map nth_map)
  qed
  show thesis
  proof (rule that [OF k(1)])
    show "o_status (orders d ! k) = 0" using k r by (simp add: pay_order_where_def)
    show new: "orders d' ! j = (if j = k then pay_order_set now (orders d ! k) else orders d ! j)"
      if j: "j < length (orders d)" for j
    proof -
      have "orders d' ! j =
          (if pay_order_where L i (orders d ! j) then pay_order_set now (orders d ! j) else orders d ! j)"
        using j by (simp add: d' update_rows_def)
      moreover have "pay_order_where L i (orders d ! j) \<longleftrightarrow> j = k" using only [OF j] k(2) r(2) by blast
      ultimately show ?thesis by simp
    qed
    have acc: "pay_account_set now a \<in> set (accounts d')" using a by (auto simp: d' in_update_rows)
    have ses: "pay_session_set now s \<in> set (sessions d')" using s by (auto simp: d' in_update_rows)
    have row: "orders d' ! k = pay_order_set now r" using new [OF k(1)] k(2) by simp
    have "col_eq L (a_account_id (pay_account_set now a)) (o_account_id (pay_order_set now r)) \<and>
        a_status (pay_account_set now a) = 2"
      using a r by (simp add: pay_account_set_def pay_order_set_def pay_account_where_def)
    moreover have "col_eq L (s_order_sn (pay_session_set now s)) (o_order_sn (pay_order_set now r)) \<and>
        s_account_id (pay_session_set now s) = o_account_id (pay_order_set now r) \<and>
        s_buyer_id (pay_session_set now s) = o_buyer_id (pay_order_set now r) \<and>
        s_status (pay_session_set now s) = 1"
      using s r by (simp add: pay_session_set_def pay_order_set_def pay_order_where_def col_eq_sym)
    ultimately show "settled L d' (orders d' ! k)"
      unfolding settled_def row using acc ses by blast
    show "o_account_id (orders d ! k) = pf_account_id i" using k r by simp
  qed
qed

lemma steps_orders_length: "db_steps L d d' \<Longrightarrow> length (orders d') = length (orders d)"
  using steps_move list_all2_lengthD by fastforce

lemma sold_once_step:
  assumes reach: "db_steps L d0 d" and ok: "db_ok L d" and once: "sold_once L d0 d" and step: "db_step L d d'"
  shows "sold_once L d0 d'"
  using step_not_pay [OF step]
proof
  assume same: "orders d' = orders d \<and> accounts d' = accounts d"
  with once settled_kept [OF step] show ?thesis by (auto simp: sold_once_def became_paid_def)
next
  assume "\<exists>now i. paid L now i d d'"
  then obtain now i where pay: "paid L now i d d'" by blast
  have len: "length (orders d) = length (orders d0)" using steps_orders_length [OF reach] .
  show ?thesis
  proof (rule pay_pays_one [OF ok pay])
    fix k
    assume k: "k < length (orders d)" "o_status (orders d ! k) = 0"
      and new: "\<And>j. j < length (orders d) \<Longrightarrow>
        orders d' ! j = (if j = k then pay_order_set now (orders d ! k) else orders d ! j)"
      and set: "settled L d' (orders d' ! k)" and id: "o_account_id (orders d ! k) = pf_account_id i"
    have old: "became_paid d0 d j \<and> orders d' ! j = orders d ! j" if "became_paid d0 d' j" "j \<noteq> k" for j
      using that new [of j] by (auto simp: became_paid_def len)
    have acc: "o_account_id (orders d' ! k) = o_account_id (orders d ! k)"
      using new [OF k(1)] by (simp add: pay_order_set_def)
    have clash: "\<not> col_eq L (o_account_id (orders d' ! j)) (o_account_id (orders d' ! k))"
      if j: "became_paid d0 d' j" "j \<noteq> k" for j
    proof
      assume eq: "col_eq L (o_account_id (orders d' ! j)) (o_account_id (orders d' ! k))"
      have "settled L d (orders d ! j)" using old [OF j] once by (auto simp: sold_once_def)
      then obtain b where b: "b \<in> set (accounts d)" "col_eq L (a_account_id b) (o_account_id (orders d ! j))"
          "a_status b = 2"
        by (auto simp: settled_def)
      have "col_eq L (a_account_id b) (pf_account_id i)"
        using col_eq_trans [OF b(2)] eq acc old [OF j] id by simp
      moreover obtain a where "a \<in> set (accounts d)" "col_eq L (a_account_id a) (pf_account_id i)" "a_status a \<noteq> 2"
        using pay by (auto simp: paid_def can_pay_def pay_account_where_def)
      moreover have "unique_key L a_account_id (accounts d)" using ok by (simp add: db_ok_def)
      ultimately show False using b by (metis unique_keyD)
    qed
    show ?thesis unfolding sold_once_def
    proof (intro conjI allI impI)
      fix j assume j: "became_paid d0 d' j"
      show "settled L d' (orders d' ! j)"
      proof (cases "j = k")
        case True
        with set show ?thesis by simp
      next
        case False
        then show ?thesis
          using old [OF j False] once settled_kept [OF step] by (auto simp: sold_once_def)
      qed
    next
      fix i j
      assume i: "became_paid d0 d' i" and j: "became_paid d0 d' j"
        and eq: "col_eq L (o_account_id (orders d' ! i)) (o_account_id (orders d' ! j))"
      show "i = j"
      proof (cases "i = k \<or> j = k")
        case True
        with clash [OF i] clash [OF j] eq show ?thesis by (auto dest: col_eq_sym)
      next
        case False
        with old [OF i] old [OF j] eq once show ?thesis by (auto simp: sold_once_def)
      qed
    qed
  qed
qed

lemma sold_once_refl: "sold_once L d d"
  by (auto simp: sold_once_def became_paid_def)

lemma steps_sold_once:
  assumes "db_steps L d0 d" and "db_ok L d0"
  shows "sold_once L d0 d"
  using assms(1)
proof (induction rule: rtranclp_induct)
  case base
  show ?case by (rule sold_once_refl)
next
  case (step y z)
  then show ?case using db_steps_ok [OF step.hyps(1) assms(2)] by (auto intro: sold_once_step)
qed

end
