(* ===== verification/WsHelpers.thy ===== *)
theory WsHelpers
  imports Library "HOL-Library.AList"
begin

unbundle bit_operations_syntax

text \<open>
  gateway/common/ws_registry.hpp: the WebSocket handshake, text frames, and the registry that maps a
  payment session to the descriptor of its browser. The socket calls are outputs of the model: what
  is written, and which descriptor is closed.
\<close>

section \<open>Headers and query\<close>

fun ws_header_loop :: "string \<Rightarrow> string list \<Rightarrow> string" where
  "ws_header_loop key [] = []"
| "ws_header_loop key (l # ls) = (case cut CHR '':'' (drop_cr l) of
      None \<Rightarrow> ws_header_loop key ls
    | Some (k, v) \<Rightarrow> if toLower (trim k) = key then trim v else ws_header_loop key ls)"

definition ws_headerValue :: "string \<Rightarrow> string \<Rightarrow> string" where
  "ws_headerValue raw_headers name = ws_header_loop (toLower name) (getlines raw_headers)"

definition ws_next_part :: "string \<Rightarrow> string \<times> string option" where
  "ws_next_part s = (case cut CHR ''&'' s of None \<Rightarrow> (s, None) | Some (a, b) \<Rightarrow> (a, Some b))"

lemma ws_next_part_shorter: "(part, Some rest) = ws_next_part s \<Longrightarrow> length rest < length s"
  by (auto simp: ws_next_part_def split: option.splits dest: cut_length)

function ws_queryParam :: "string \<Rightarrow> string \<Rightarrow> string" where
  "ws_queryParam query key =
     (if query = [] then []
      else case ws_next_part query of (pair, remaining) \<Rightarrow>
        let found = (case cut CHR ''='' pair of
              None \<Rightarrow> None
            | Some (k, v) \<Rightarrow> if k = key then Some v else None)
        in case found of
             Some value \<Rightarrow> value
           | None \<Rightarrow> (case remaining of None \<Rightarrow> [] | Some rest \<Rightarrow> ws_queryParam rest key))"
  by pat_completeness auto

termination
  by (relation "measure (\<lambda>(s, _). length s)") (auto dest: ws_next_part_shorter)

declare ws_queryParam.simps [simp del]

section \<open>Base64\<close>

definition b64_table :: string where
  "b64_table = ''ABCDEFGHIJKLMNOPQRSTUVWXYZabcdefghijklmnopqrstuvwxyz0123456789+/''"

definition byte_at :: "string \<Rightarrow> nat \<Rightarrow> nat" where
  "byte_at data i = (if i < length data then code (data ! i) else 0)"

text \<open>The three bytes fill 24 bits of an \<open>unsigned int\<close>.\<close>

definition b64_triple :: "string \<Rightarrow> nat" where
  "b64_triple data = push_bit 16 (byte_at data 0) OR push_bit 8 (byte_at data 1) OR byte_at data 2"

function base64Encode :: "string \<Rightarrow> string" where
  "base64Encode data =
     (if data = [] then []
      else let triple = b64_triple data
           in [b64_table ! (drop_bit 18 triple AND 63),
               b64_table ! (drop_bit 12 triple AND 63),
               if 1 < length data then b64_table ! (drop_bit 6 triple AND 63) else CHR ''='',
               if 2 < length data then b64_table ! (triple AND 63) else CHR ''='']
              @ base64Encode (drop 3 data))"
  by pat_completeness auto

termination
  by (relation "measure length") auto

declare base64Encode.simps [simp del]

definition makeAcceptKey :: "lib \<Rightarrow> string \<Rightarrow> string" where
  "makeAcceptKey L client_key =
     base64Encode (SHA1 L (client_key @ ''258EAFA5-E914-47DA-95CA-C5AB0DC85B11''))"

section \<open>Frames\<close>

text \<open>The bytes of the frame; \<open>None\<close> for a payload too long to be sent.\<close>

definition textFrame :: "string \<Rightarrow> string option" where
  "textFrame payload =
     (let n = length payload
      in if n < 126 then Some (CHR 0x81 # char_of n # payload)
         else if n \<le> 0xFFFF
         then Some (CHR 0x81 # char_of (126::nat) # char_of (drop_bit 8 n AND 0xFF) # char_of (n AND 0xFF) # payload)
         else None)"

section \<open>The registry\<close>

text \<open>
  \<open>ws_output\<close> lists what was written to which descriptor, \<open>ws_closed\<close> the descriptors \<open>bind\<close> closed;
  \<open>ws_writes\<close> says how the coming calls of \<open>write\<close> end (they succeed once the list is empty).
\<close>

record registry =
  session_to_fd :: "(string \<times> int) list"
  fd_to_session :: "(int \<times> string) list"
  ws_closed :: "int list"
  ws_output :: "(int \<times> string) list"
  ws_writes :: "bool list"

definition ws_write :: "int \<Rightarrow> string \<Rightarrow> registry \<Rightarrow> bool \<times> registry" where
  "ws_write fd data w =
     (let ok = (case ws_writes w of [] \<Rightarrow> True | b # _ \<Rightarrow> b)
      in (ok, w\<lparr>ws_writes := tl (ws_writes w),
               ws_output := (if ok then ws_output w @ [(fd, data)] else ws_output w)\<rparr>))"

definition sendTextFrame :: "int \<Rightarrow> string \<Rightarrow> registry \<Rightarrow> bool \<times> registry" where
  "sendTextFrame fd payload w = (case textFrame payload of
      None \<Rightarrow> (False, w)
    | Some bytes \<Rightarrow> ws_write fd bytes w)"

definition ws_bind :: "string \<Rightarrow> int \<Rightarrow> registry \<Rightarrow> registry" where
  "ws_bind payment_session_id client_fd w =
     (let w1 = (case map_of (session_to_fd w) payment_session_id of
            None \<Rightarrow> w
          | Some fd \<Rightarrow> if fd \<noteq> client_fd then w\<lparr>ws_closed := ws_closed w @ [fd]\<rparr> else w)
      in w1\<lparr>fd_to_session := AList.update client_fd payment_session_id (fd_to_session w1),
            session_to_fd := AList.update payment_session_id client_fd (session_to_fd w1)\<rparr>)"

definition ws_unbind :: "int \<Rightarrow> registry \<Rightarrow> registry" where
  "ws_unbind client_fd w = (case map_of (fd_to_session w) client_fd of
      None \<Rightarrow> w
    | Some session_id \<Rightarrow>
        let w1 = w\<lparr>fd_to_session := AList.delete client_fd (fd_to_session w)\<rparr>
        in if map_of (session_to_fd w1) session_id = Some client_fd
           then w1\<lparr>session_to_fd := AList.delete session_id (session_to_fd w1)\<rparr>
           else w1)"

definition ws_push :: "string \<Rightarrow> string \<Rightarrow> registry \<Rightarrow> bool \<times> registry" where
  "ws_push payment_session_id message w = (case map_of (session_to_fd w) payment_session_id of
      None \<Rightarrow> (False, w)
    | Some fd \<Rightarrow> sendTextFrame fd message w)"

definition connectionCount :: "registry \<Rightarrow> nat" where
  "connectionCount w = length (session_to_fd w)"

section \<open>The handshake\<close>

definition handshake_response :: "lib \<Rightarrow> string \<Rightarrow> string" where
  "handshake_response L ws_key =
     ''HTTP/1.1 101 Switching Protocols'' @ crlf @ ''Upgrade: websocket'' @ crlf @
     ''Connection: Upgrade'' @ crlf @ ''Sec-WebSocket-Accept: '' @ makeAcceptKey L ws_key @ crlf @ crlf"

text \<open>The session and the key of an acceptable upgrade request.\<close>

definition handshake_request :: "string \<Rightarrow> (string \<times> string) option" where
  "handshake_request raw_request = (case cut_str crlf raw_request of
      None \<Rightarrow> None
    | Some (request_line, headers) \<Rightarrow>
        (case read_word request_line of (req_method, rest) \<Rightarrow>
         case read_word rest of (target, _) \<Rightarrow>
          if req_method \<noteq> ''GET'' \<or> target = [] then None
          else case (case cut CHR ''?'' target of None \<Rightarrow> (target, []) | Some pq \<Rightarrow> pq) of (path, query) \<Rightarrow>
            if path \<noteq> ''/ws/payment'' then None
            else
              let payment_session_id = ws_queryParam query ''payment_session_id''
              in if length payment_session_id < 3 \<or> \<not> is_prefix ''PS'' payment_session_id then None
                 else
                   let ws_key = ws_headerValue headers ''Sec-WebSocket-Key''
                   in if ws_key = [] then None else Some (payment_session_id, ws_key)))"

definition performHandshake :: "lib \<Rightarrow> int \<Rightarrow> string \<Rightarrow> registry \<Rightarrow> (bool \<times> string) \<times> registry" where
  "performHandshake L client_fd raw_request w = (case handshake_request raw_request of
      None \<Rightarrow> ((False, []), w)
    | Some (payment_session_id, ws_key) \<Rightarrow>
        (case ws_write client_fd (handshake_response L ws_key) w of
           (ok, w') \<Rightarrow> ((ok, payment_session_id), w')))"

section \<open>Base64 is what RFC 4648 says\<close>

text \<open>
  The reference decoder works on groups of four letters; an equal sign stands for six zero bits. It
  writes three bytes per group, as OpenSSL's \<open>EVP_DecodeBlock\<close> does; \<open>b64_decode\<close> then removes one
  byte for each of the at most two final equal signs.
\<close>

fun index_of :: "char \<Rightarrow> string \<Rightarrow> nat option" where
  "index_of c [] = None"
| "index_of c (x # xs) = (if x = c then Some 0 else map_option Suc (index_of c xs))"

definition b64_val :: "char \<Rightarrow> nat option" where
  "b64_val c = (if c = CHR ''='' then Some 0 else index_of c b64_table)"

definition group_bytes :: "nat \<Rightarrow> nat \<Rightarrow> nat \<Rightarrow> nat \<Rightarrow> string" where
  "group_bytes v0 v1 v2 v3 =
     [char_of (v0 * 4 + v1 div 16), char_of (v1 mod 16 * 16 + v2 div 4), char_of (v2 mod 4 * 64 + v3)]"

fun decode_block :: "string \<Rightarrow> string option" where
  "decode_block [] = Some []"
| "decode_block (a # b # c # d # s) =
     (case (b64_val a, b64_val b, b64_val c, b64_val d, decode_block s) of
        (Some v0, Some v1, Some v2, Some v3, Some r) \<Rightarrow> Some (group_bytes v0 v1 v2 v3 @ r)
      | _ \<Rightarrow> None)"
| "decode_block _ = None"

definition b64_pad :: "string \<Rightarrow> nat" where
  "b64_pad s = (3 - length s mod 3) mod 3"

definition b64_decode :: "string \<Rightarrow> string option" where
  "b64_decode s = map_option (\<lambda>r. take (length r - length (takeWhile (\<lambda>c. c = CHR ''='') (rev s))) r) (decode_block s)"

end
