(* ===== verification/JwtProps.thy ===== *)
theory JwtProps
  imports Jwt
begin

text \<open>
  Properties of \<open>HashService\<close> and \<open>JwtService\<close>: normalisation and masking, the base64url round
  trip, what an accepted token proves, and when an issued token is accepted.
\<close>

section \<open>Normalisation and masking\<close>

lemma is_blank_tolower [simp]: "is_blank (tolower c) \<longleftrightarrow> is_blank c"
  by (auto simp: is_blank_def tolower_def)

lemma is_blank_toupper [simp]: "is_blank (toupper c) \<longleftrightarrow> is_blank c"
proof (cases "97 \<le> code c \<and> code c \<le> 122")
  case True
  then have "code (char_of (code c - 32)) = code c - 32" by (intro code_char_of) auto
  with True show ?thesis by (auto simp: is_blank_def toupper_def)
next
  case False
  then show ?thesis by (auto simp: toupper_def)
qed

lemma trim_map:
  assumes "\<And>c. is_blank (f c) \<longleftrightarrow> is_blank c"
  shows "trim (map f s) = map f (trim s)"
proof -
  have "is_blank \<circ> f = is_blank" using assms by auto
  then show ?thesis by (simp add: trim_def dropWhile_map rev_map)
qed

text \<open>
  Normalising is idempotent, so hashing the already normalised e-mail address and id-card number, as
  \<open>handleRealAuthComplete\<close> does, gives the hash of the text the user sent.
\<close>

lemma normalize_then_hash:
  assumes "normalizeEmail email = Inr e" and "normalizeIdCard idc = Inr c"
  shows "normalizeEmail e = Inr e \<and> normalizeIdCard c = Inr c \<and>
    hashEmail L cfg e = hashEmail L cfg email \<and> hashIdCard L cfg c = hashIdCard L cfg idc"
proof -
  have e: "e = map tolower (trim email)" and ev: "isValidEmailFormat e"
    using assms(1) by (auto simp: normalizeEmail_def Let_def split: if_splits)
  have c: "c = map toupper (trim idc)" and cv: "isValidIdCardFormat c"
    using assms(2) by (auto simp: normalizeIdCard_def Let_def split: if_splits)
  have ne: "normalizeEmail e = Inr e"
    using ev by (simp add: normalizeEmail_def e trim_map comp_def)
  have nc: "normalizeIdCard c = Inr c"
    using cv by (simp add: normalizeIdCard_def c trim_map comp_def)
  show ?thesis
    by (simp add: hashEmail_def hashIdCard_def ne nc assms)
qed

theorem normalize_then_hash_witness:
  "normalizeEmail '' Ann@Example.com '' = Inr ''ann@example.com'' \<and>
   normalizeIdCard ''44030019900101123x'' = Inr ''44030019900101123X'' \<and>
   normalizeEmail ''ann@example.com'' = Inr ''ann@example.com''"
proof -
  have e: "normalizeEmail '' Ann@Example.com '' = Inr ''ann@example.com''" by code_simp
  have c: "normalizeIdCard ''44030019900101123x'' = Inr ''44030019900101123X''" by code_simp
  from e c normalize_then_hash [OF e c] show ?thesis by simp
qed

lemma maskIdCard_long:
  "8 < length s \<Longrightarrow> maskIdCard s = take 4 s @ replicate (length s - 6) CHR ''*'' @ drop (length s - 2) s"
  by (simp add: maskIdCard_def Let_def)

text \<open>
  The masked id card of a valid number has the number's length and depends on its first four
  and last two characters only: two valid numbers of one length that agree there have the same
  masked form, whatever the digits between.
\<close>

lemma mask_id_card_hides:
  assumes "isValidIdCardFormat a" and "isValidIdCardFormat b" and "length b = length a"
    and "take 4 b = take 4 a" and "drop (length b - 2) b = drop (length a - 2) a"
  shows "length (maskIdCard a) = length a \<and> maskIdCard b = maskIdCard a"
proof -
  have long: "8 < length s" if "isValidIdCardFormat s" for s
    using that by (auto simp: isValidIdCardFormat_def split: if_splits)
  show ?thesis
    using long [OF assms(1)] long [OF assms(2)] assms(3-5) by (simp add: maskIdCard_long)
qed

theorem mask_id_card_hides_witness:
  "maskIdCard ''440300199001011234'' = maskIdCard ''440355555555555534'' \<and>
   length (maskIdCard ''440355555555555534'') = 18"
proof -
  have a: "isValidIdCardFormat ''440355555555555534''" by code_simp
  have b: "isValidIdCardFormat ''440300199001011234''" by code_simp
  show ?thesis using mask_id_card_hides [OF a b] by simp
qed

section \<open>Base64url\<close>

definition b64_letter :: "char \<Rightarrow> bool" where
  "b64_letter c \<longleftrightarrow> 65 \<le> code c \<and> code c \<le> 90 \<or> 97 \<le> code c \<and> code c \<le> 122 \<or> is_digit c \<or>
     c = CHR ''+'' \<or> c = CHR ''/''"

text \<open>
  What OpenSSL documents of \<open>EVP_EncodeBlock\<close> and \<open>EVP_DecodeBlock\<close>: the encoding is a text of
  base64 letters followed by \<open>(3 - n mod 3) mod 3\<close> equal signs, of length \<open>4 * ((n + 2) div 3)\<close>;
  decoding it yields the bytes followed by as many zero bytes as there are equal signs.
\<close>

definition evp_base64_documented :: "lib \<Rightarrow> bool" where
  "evp_base64_documented L \<longleftrightarrow> (\<forall>s. \<exists>core.
     EVP_EncodeBlock L s = core @ replicate ((3 - length s mod 3) mod 3) CHR ''='' \<and>
     list_all b64_letter core \<and>
     length (EVP_EncodeBlock L s) = 4 * ((length s + 2) div 3) \<and>
     EVP_DecodeBlock L (EVP_EncodeBlock L s) =
       Some (s @ replicate ((3 - length s mod 3) mod 3) CHR 0x00))"

lemma b64_letter_facts:
  assumes "b64_letter c"
  shows "c \<noteq> CHR ''=''" "url_char c \<noteq> CHR ''=''" "url_char c \<noteq> CHR ''.''" "std_char (url_char c) = c"
proof -
  have "c \<noteq> CHR ''='' \<and> c \<noteq> CHR ''.'' \<and> c \<noteq> CHR ''-'' \<and> c \<noteq> CHR ''_''"
    using assms by (auto simp: b64_letter_def is_digit_def code_def)
  then show "c \<noteq> CHR ''=''" "url_char c \<noteq> CHR ''=''" "url_char c \<noteq> CHR ''.''" "std_char (url_char c) = c"
    by (auto simp: url_char_def std_char_def)
qed

lemma pad4_done: "length s mod 4 = 0 \<Longrightarrow> pad4 s = s"
  by (subst pad4.simps) simp

lemma pad4_replicate:
  "(length s + k) mod 4 = 0 \<Longrightarrow> k < 4 \<Longrightarrow> pad4 s = s @ replicate k CHR ''=''"
proof (induction k arbitrary: s)
  case 0
  then show ?case by (simp add: pad4_done)
next
  case (Suc k)
  then have "length s mod 4 \<noteq> 0" by presburger
  then have "pad4 s = pad4 (s @ [CHR ''=''])" by (subst pad4.simps) simp
  also have "\<dots> = (s @ [CHR ''='']) @ replicate k CHR ''=''"
    using Suc.prems by (intro Suc.IH) auto
  finally show ?case by (simp add: replicate_append_same [symmetric])
qed

lemma pad4_terminates: "length (pad4 s) mod 4 = 0"
proof (induction s rule: pad4.induct)
  case (1 s)
  then show ?case by (subst pad4.simps) simp
qed

lemma strip_equals:
  "list_all b64_letter core \<Longrightarrow>
   rev (dropWhile (\<lambda>c. c = CHR ''='') (rev (map url_char (core @ replicate k CHR ''=''))))
     = map url_char core"
proof -
  assume core: "list_all b64_letter core"
  have eq: "url_char CHR ''='' = CHR ''=''" by (simp add: url_char_def)
  have "dropWhile (\<lambda>c. c = CHR ''='') (replicate k CHR ''='' @ rev (map url_char core))
      = dropWhile (\<lambda>c. c = CHR ''='') (rev (map url_char core))"
    by (induction k) auto
  also have "\<dots> = rev (map url_char core)"
  proof (rule dropWhile_id)
    assume "rev (map url_char core) \<noteq> []"
    then have "hd (rev (map url_char core)) = url_char (last core)" and "last core \<in> set core"
      by (auto simp: hd_rev last_map)
    with core show "hd (rev (map url_char core)) \<noteq> CHR ''=''"
      by (auto simp: list_all_iff dest: b64_letter_facts(2))
  qed
  finally show ?thesis by (simp add: eq rev_map [symmetric])
qed

lemma base64Url_letters:
  assumes "evp_base64_documented L"
  shows "CHR ''.'' \<notin> set (base64UrlEncode L s)"
proof -
  obtain core where c: "EVP_EncodeBlock L s = core @ replicate ((3 - length s mod 3) mod 3) CHR ''=''"
    "list_all b64_letter core"
    using assms unfolding evp_base64_documented_def by meson
  then have "base64UrlEncode L s = (if s = [] then [] else map url_char core)"
    by (simp only: base64UrlEncode_def strip_equals)
  with c show ?thesis by (auto simp: list_all_iff) (metis b64_letter_facts(3))
qed

text \<open>The number of equal signs the two tests of \<open>base64UrlDecode\<close> count.\<close>

lemma padding_count:
  assumes core: "list_all b64_letter core" "2 \<le> length core" and k: "k < 3"
    and i: "i = core @ replicate k CHR ''=''"
  shows "count_padding i = k"
proof -
  obtain c1 a b where c: "core = c1 @ [a, b]"
  proof -
    from core(2) obtain c2 b where 1: "core = c2 @ [b]" and "1 \<le> length c2"
      by (cases core rule: rev_cases) auto
    then obtain c1 a where "c2 = c1 @ [a]" by (cases c2 rule: rev_cases) auto
    with 1 that [of c1 a b] show thesis by simp
  qed
  with core(1) have ne: "a \<noteq> CHR ''=''" "b \<noteq> CHR ''=''" by (auto dest: b64_letter_facts(1))
  from k consider "k = 0" | "k = 1" | "k = 2" by linarith
  then show ?thesis
    by cases (simp_all add: count_padding_def i c ne nth_append numeral_2_eq_2)
qed

lemma evp_base64E:
  assumes "evp_base64_documented L"
  obtains core k where "EVP_EncodeBlock L s = core @ replicate k CHR ''=''"
    and "list_all b64_letter core" and "k < 3"
    and "length core + k = 4 * ((length s + 2) div 3)"
    and "EVP_DecodeBlock L (EVP_EncodeBlock L s) = Some (s @ replicate k CHR 0x00)"
    and "s = [] \<longrightarrow> k = 0"
proof -
  define k where "k = (3 - length s mod 3) mod 3"
  have k: "k < 3" by (simp add: k_def)
  obtain core where c: "EVP_EncodeBlock L s = core @ replicate k CHR ''=''" "list_all b64_letter core"
    and len: "length (EVP_EncodeBlock L s) = 4 * ((length s + 2) div 3)"
    and dec: "EVP_DecodeBlock L (EVP_EncodeBlock L s) = Some (s @ replicate k CHR 0x00)"
    using assms unfolding evp_base64_documented_def k_def by meson
  from len c(1) have "length core + k = 4 * ((length s + 2) div 3)" by simp
  moreover have "s = [] \<longrightarrow> k = 0" by (simp add: k_def)
  ultimately show thesis using that c k dec by blast
qed

lemma base64Url_nonempty:
  assumes "evp_base64_documented L" and "s \<noteq> []"
  shows "base64UrlEncode L s \<noteq> []"
proof (rule evp_base64E [OF assms(1), of s])
  fix core k
  assume enc: "EVP_EncodeBlock L s = core @ replicate k CHR ''=''"
    and core: "list_all b64_letter core" and k: "k < 3"
    and len: "length core + k = 4 * ((length s + 2) div 3)"
  have "0 < (length s + 2) div 3" using assms(2) by (cases s) auto
  then have "core \<noteq> []" using len k by auto
  moreover have "base64UrlEncode L s = map url_char core"
    using assms(2) by (simp only: base64UrlEncode_def enc strip_equals [OF core] if_False)
  ultimately show ?thesis by simp
qed

text \<open>For an OpenSSL that works as documented, decoding undoes encoding on every text.\<close>

lemma base64Url_roundtrip:
  assumes "evp_base64_documented L"
  shows "base64UrlDecode L (base64UrlEncode L s) = Inr s"
proof (rule evp_base64E [OF assms, of s])
  fix core k
  assume enc: "EVP_EncodeBlock L s = core @ replicate k CHR ''=''"
    and core: "list_all b64_letter core" and k: "k < 3"
    and len: "length core + k = 4 * ((length s + 2) div 3)"
    and dec: "EVP_DecodeBlock L (EVP_EncodeBlock L s) = Some (s @ replicate k CHR 0x00)"
    and nil: "s = [] \<longrightarrow> k = 0"
  show ?thesis
  proof (cases "s = []")
    case True
    with nil len enc dec show ?thesis
      by (simp add: base64UrlEncode_def base64UrlDecode_def pad4_done count_padding_def Let_def)
  next
    case False
    have e: "base64UrlEncode L s = map url_char core"
      using False by (simp only: base64UrlEncode_def enc strip_equals [OF core] if_False)
    have std: "map std_char (map url_char core) = core"
      using core by (induction core) (auto dest: b64_letter_facts(4))
    have pad: "pad4 core = core @ replicate k CHR ''=''"
      using k len by (intro pad4_replicate) simp_all
    have "0 < (length s + 2) div 3" using False by (cases s) auto
    then have two: "2 \<le> length core" using len k by linarith
    show ?thesis
      using dec unfolding e base64UrlDecode_def std pad Let_def enc
      by (simp add: padding_count [OF core two k refl])
  qed
qed


section \<open>Issued tokens\<close>

lemma qr_body_fields:
  assumes "json_fields_documented L"
  shows "json_at_str L (qr_body p) ''payment_session_id'' = Inr (qr_payment_session_id p)"
    and "json_at_int L (qr_body p) ''iat'' = Inr (qr_iat p)"
    and "json_at_int L (qr_body p) ''exp'' = Inr (qr_exp p)"
    and "json_at_str L (qr_body p) ''nonce'' = Inr (qr_nonce p)"
    and "json_at_str L (jwt_header svc) ''typ'' = Inr ''JWT''"
    and "json_at_str L (jwt_header svc) ''alg'' = Inr (js_algorithm svc)"
  unfolding qr_body_def jwt_header_def
  by (rule json_fieldsD(2) [OF assms] json_fieldsD(4) [OF assms], simp)+

lemma parse_qr_body:
  assumes "json_fields_documented L" and "json_parse L s = Inr (qr_body p)"
    and "qr_payment_session_id p \<noteq> []" and "qr_nonce p \<noteq> []" and "0 < qr_iat p" and "qr_iat p < qr_exp p"
  shows "parsePaymentQrPayloadJson L s = Inr p"
  using assms(2-6)
  by (simp add: parsePaymentQrPayloadJson_def parsePayload_body_def qr_body_fields [OF assms(1)])
     (simp add: qr_body_def)

lemma issueToken_Inr:
  assumes "issueToken L svc body = Inr token"
  obtains h p sig where "json_dump L (jwt_header svc) = Inr h" and "json_dump L body = Inr p"
    and "hmacRaw L svc (base64UrlEncode L h @ ''.'' @ base64UrlEncode L p) = Inr sig"
    and "token = base64UrlEncode L h @ ''.'' @ base64UrlEncode L p @ ''.'' @ base64UrlEncode L sig"
  using assms by (auto simp: issueToken_def Let_def run_iff)

lemma verify_issued_token:
  assumes evp: "evp_base64_documented L" and mem: "memcmp_documented L" and fld: "json_fields_documented L"
    and mac: "hmac_nonempty L"
    and rt: "json_roundtrips L (jwt_header svc)" "json_roundtrips L body" "is_object body"
    and tok: "issueToken L svc body = Inr token"
  obtains plain where "verifyToken L svc token = Inr plain" and "json_parse L plain = Inr body"
proof -
  from tok obtain h p sig where h: "json_dump L (jwt_header svc) = Inr h" and p: "json_dump L body = Inr p"
    and sig: "hmacRaw L svc (base64UrlEncode L h @ ''.'' @ base64UrlEncode L p) = Inr sig"
    and t: "token = base64UrlEncode L h @ ''.'' @ base64UrlEncode L p @ ''.'' @ base64UrlEncode L sig"
    by (rule issueToken_Inr)
  have hp: "h \<noteq> []" "json_parse L h = Inr (jwt_header svc)" "p \<noteq> []" "json_parse L p = Inr body"
    using rt(1,2) h p by (auto simp: json_roundtrips_def)
  have "sig \<noteq> []"
    using sig mac by (auto simp: hmacRaw_def hmac_nonempty_def split: if_splits option.splits)
  then have ne: "base64UrlEncode L h \<noteq> []" "base64UrlEncode L p \<noteq> []" "base64UrlEncode L sig \<noteq> []"
    using hp base64Url_nonempty [OF evp] by auto
  have sp: "split token CHR ''.'' = [base64UrlEncode L h, base64UrlEncode L p, base64UrlEncode L sig]"
    using split_three [OF base64Url_letters [OF evp] base64Url_letters [OF evp] base64Url_letters [OF evp]]
    by (simp add: t)
  have "is_object (jwt_header svc)" by (simp add: jwt_header_def)
  then have "verifyToken_body L svc token = Inr (Inr p)"
    unfolding verifyToken_body_def sp
    using hp ne sig by (simp add: base64Url_roundtrip [OF evp] qr_body_fields [OF fld] constantTimeEqual_iff [OF mem])
  then have "verifyToken L svc token = Inr p" by (simp add: verifyToken_def)
  then show thesis using hp(4) by (rule that)
qed

text \<open>
  C17: a token is accepted by the service that issued it from the moment it is issued until its time to
  live and the tolerated clock skew have passed, and then returns the payload it was issued for; from
  that second on it is refused as expired. The libraries are assumed to work as documented.
\<close>

theorem issued_token_accepted_until_expiry:
  assumes "make_JwtService cfg = Inr svc"
    and "evp_base64_documented L" and "memcmp_documented L" and "json_fields_documented L" and "hmac_nonempty L"
    and "json_roundtrips L (jwt_header svc)"
    and "json_roundtrips L (qr_body (stamp_payload svc now (toHex entropy) payload))"
    and "0 < now" and "entropy \<noteq> []"
    and "issuePaymentQrToken L svc now (Some entropy) payload = Inr token"
  shows "verifyPaymentQrToken L svc later token =
    (if later < now + jwt_qr_token_ttl_seconds cfg + jwt_clock_skew_seconds cfg
     then \<lparr>qv_valid = True, qv_error_message = [], qv_payload = stamp_payload svc now (toHex entropy) payload\<rparr>
     else verify_failed M_qr_expired)"
proof -
  let ?p = "stamp_payload svc now (toHex entropy) payload"
  have ttl: "js_qr_ttl_seconds svc = jwt_qr_token_ttl_seconds cfg" "0 < js_qr_ttl_seconds svc"
      "js_clock_skew_seconds svc = jwt_clock_skew_seconds cfg"
    using assms(1) by (auto simp: make_JwtService_def split: if_splits)
  have psid: "qr_payment_session_id payload \<noteq> []" and tok: "issueToken L svc (qr_body ?p) = Inr token"
    using assms(10)
    by (auto simp: issuePaymentQrToken_def validatePaymentQrPayloadForIssue_def secureNonceHex_def run_iff
        split: if_splits)
  obtain plain where v: "verifyToken L svc token = Inr plain" and j: "json_parse L plain = Inr (qr_body ?p)"
    using verify_issued_token [OF assms(2-7) _ tok] by (auto simp: qr_body_def)
  have "toHex entropy \<noteq> []" using assms(9) by (cases entropy) auto
  with psid assms(8) ttl have "parsePaymentQrPayloadJson L plain = Inr ?p"
    by (intro parse_qr_body [OF assms(4) j]) (simp_all add: stamp_payload_def)
  with v ttl show ?thesis
    by (auto simp: verifyPaymentQrToken_def stamp_payload_def)
qed

text \<open>
  C16: what an accepted token proves. It has three parts, the third is the base64url text of the MAC of
  the first two under the service's secret and algorithm, so it was made with the secret; its payload
  names a session and a nonce, was issued before it expires, and has not expired at the time of the
  check, up to the tolerated clock skew.
\<close>

theorem accepted_token_is_signed:
  assumes "memcmp_documented L" and "qv_valid (verifyPaymentQrToken L svc now token)"
  shows "\<exists>h p sig. split token CHR ''.'' = [h, p, base64UrlEncode L sig] \<and>
      token = h @ ''.'' @ p @ ''.'' @ base64UrlEncode L sig \<and>
      hmacRaw L svc (h @ ''.'' @ p) = Inr sig \<and>
      (let q = qv_payload (verifyPaymentQrToken L svc now token)
       in qr_payment_session_id q \<noteq> [] \<and> qr_nonce q \<noteq> [] \<and> 0 < qr_iat q \<and> qr_iat q < qr_exp q \<and>
          now < qr_exp q + js_clock_skew_seconds svc)"
proof -
  from assms(2) obtain plain q where v: "verifyToken L svc token = Inr plain"
    and q: "parsePaymentQrPayloadJson L plain = Inr q" and fresh: "now < qr_exp q + js_clock_skew_seconds svc"
    and res: "qv_payload (verifyPaymentQrToken L svc now token) = q"
    by (auto simp: verifyPaymentQrToken_def verify_failed_def split: sum.splits if_splits)
  have payload: "qr_payment_session_id q \<noteq> []" "qr_nonce q \<noteq> []" "0 < qr_iat q" "qr_iat q < qr_exp q"
    using q
    by (auto simp: parsePaymentQrPayloadJson_def parsePayload_body_def run_iff split: sum.splits if_splits)
  from v have "verifyToken_body L svc token = Inr (Inr plain)"
    by (auto simp: verifyToken_def split: sum.splits)
  then obtain h p s where sp: "split token CHR ''.'' = [h, p, s]"
    by (auto simp: verifyToken_body_def split: list.splits if_splits)
  with \<open>verifyToken_body L svc token = Inr (Inr plain)\<close> obtain sig where
    sig: "hmacRaw L svc (h @ ''.'' @ p) = Inr sig" "s = base64UrlEncode L sig"
    by (auto simp: verifyToken_body_def constantTimeEqual_iff [OF assms(1)] run_iff split: if_splits)
  have "token = h @ ''.'' @ p @ ''.'' @ s" using join_split [of "CHR ''.''" token] by (simp add: sp)
  with sp sig payload fresh res show ?thesis by auto
qed

end
