(* ===== verification/WsProps.thy ===== *)
theory WsProps
  imports WsHelpers JwtProps
begin

text \<open>
  Properties of gateway/common/ws_registry.hpp: the Base64 encoder is the one RFC 4648 specifies, a
  receiver reads the payload of a frame back, and what \<open>bind\<close>, \<open>unbind\<close> and \<open>push\<close> do to the registry.
\<close>

section \<open>Base64\<close>

lemma push_or: "(b::nat) < 2 ^ k \<Longrightarrow> push_bit k a OR b = a * 2 ^ k + b"
proof -
  assume b: "b < 2 ^ k"
  have "\<not> bit b n" if "k \<le> n" for n
    using that b by (metis bit_take_bit_iff linorder_not_less take_bit_nat_eq_self)
  then have "push_bit k a AND b = 0"
    by (auto simp: bit_eq_iff bit_simps)
  then have "push_bit k a + b = push_bit k a OR b" by (rule disjunctive_add_eq_or)
  then show ?thesis by (simp add: push_bit_eq_mult)
qed

lemma b64_triple_val:
  "b64_triple data = byte_at data 0 * 65536 + byte_at data 1 * 256 + byte_at data 2"
proof -
  have b: "byte_at data i < 256" for i by (simp add: byte_at_def)
  have 1: "push_bit 8 (byte_at data 1) OR byte_at data 2 = byte_at data 1 * 256 + byte_at data 2"
    using push_or [of "byte_at data 2" 8 "byte_at data 1"] b [of 2] by simp
  have "byte_at data 1 * 256 + byte_at data 2 < 2 ^ 16" using b [of 1] b [of 2] by simp
  from push_or [OF this, of "byte_at data 0"] show ?thesis
    unfolding b64_triple_def or.assoc 1 by simp
qed

lemma and_63: "n AND 63 = n mod (64::nat)"
proof -
  have "n AND mask 6 = n mod 2 ^ 6" by (simp flip: take_bit_eq_mask add: take_bit_eq_mod)
  then show ?thesis by (simp add: mask_eq_exp_minus_1)
qed

lemma table_letters:
  "\<forall>i\<in>set [0..<64]. b64_val (b64_table ! i) = Some i \<and> b64_letter (b64_table ! i)"
  by code_simp

lemma table_letter [simp]:
  "i < 64 \<Longrightarrow> b64_val (b64_table ! i) = Some i" "i < 64 \<Longrightarrow> b64_letter (b64_table ! i)"
  using table_letters by auto

text \<open>The four six-bit groups of three bytes.\<close>

lemma div_mod_join: "m < n \<Longrightarrow> (q * n + m) div n = (q::nat)" "m < n \<Longrightarrow> (q * n + m) mod n = (m::nat)"
  by simp_all

lemma six_bits:
  assumes "a < 256" and "b < 256" and "c < (256::nat)"
  defines "x \<equiv> a * 65536 + b * 256 + c"
  shows "x div 262144 mod 64 = a div 4" and "x div 4096 mod 64 = a mod 4 * 16 + b div 16"
    and "x div 64 mod 64 = b mod 16 * 4 + c div 64" and "x mod 64 = c mod 64"
proof -
  define q1 r1 where "q1 = a div 4" and "r1 = a mod 4"
  define q2 r2 where "q2 = b div 16" and "r2 = b mod 16"
  define q3 r3 where "q3 = c div 64" and "r3 = c mod 64"
  have ab: "a = q1 * 4 + r1" "b = q2 * 16 + r2" "c = q3 * 64 + r3"
    by (simp_all add: q1_def r1_def q2_def r2_def q3_def r3_def)
  have lt: "r1 < 4" "r2 < 16" "r3 < 64" "q1 < 64" "q2 < 16" "q3 < 4"
    using assms by (auto simp: q1_def r1_def q2_def r2_def q3_def r3_def)
  have "x = q1 * 262144 + (r1 * 65536 + b * 256 + c)" using ab(1) unfolding x_def by linarith
  moreover have "r1 * 65536 + b * 256 + c < 262144" using lt assms by linarith
  ultimately have "x div 262144 = q1" by (simp only: div_mod_join)
  then show "x div 262144 mod 64 = a div 4" using lt by (simp add: q1_def)
  have "x = (a * 16 + q2) * 4096 + (r2 * 256 + c)"
    unfolding x_def by (subst ab(2)) (simp add: algebra_simps)
  moreover have "r2 * 256 + c < 4096" using lt assms by linarith
  ultimately have "x div 4096 = a * 16 + q2" by (simp only: div_mod_join)
  also have "\<dots> = q1 * 64 + (r1 * 16 + q2)" by (subst ab(1)) (simp add: algebra_simps)
  finally have "x div 4096 mod 64 = r1 * 16 + q2"
    using lt div_mod_join(2) [of "r1 * 16 + q2" 64 q1] by simp
  then show "x div 4096 mod 64 = a mod 4 * 16 + b div 16" by (simp add: r1_def q2_def)
  have "x = (a * 1024 + b * 4 + q3) * 64 + r3"
    unfolding x_def by (subst ab(3)) (simp add: algebra_simps)
  then have d: "x div 64 = a * 1024 + b * 4 + q3" and m: "x mod 64 = r3"
    using lt by (simp_all only: div_mod_join)
  show "x mod 64 = c mod 64" using m by (simp add: r3_def)
  have "a * 1024 + b * 4 + q3 = (a * 16 + q2) * 64 + (r2 * 4 + q3)"
    by (subst ab(2)) (simp add: algebra_simps)
  with d have "x div 64 mod 64 = r2 * 4 + q3"
    using lt div_mod_join(2) [of "r2 * 4 + q3" 64 "a * 16 + q2"] by simp
  then show "x div 64 mod 64 = b mod 16 * 4 + c div 64" by (simp add: r2_def q3_def)
qed

lemma group_bytes_six:
  assumes "a < 256" and "b < 256" and "c < (256::nat)"
  shows "group_bytes (a div 4) (a mod 4 * 16 + b div 16) (b mod 16 * 4 + c div 64) (c mod 64) =
    [char_of a, char_of b, char_of c]"
proof -
  have lt: "b div 16 < 16" "c div 64 < 4" using assms by auto
  have "(a mod 4 * 16 + b div 16) div 16 = a mod 4" "(a mod 4 * 16 + b div 16) mod 16 = b div 16"
    using lt div_mod_join [of "b div 16" 16 "a mod 4"] by simp_all
  moreover have "(b mod 16 * 4 + c div 64) div 4 = b mod 16" "(b mod 16 * 4 + c div 64) mod 4 = c div 64"
    using lt div_mod_join [of "c div 64" 4 "b mod 16"] by simp_all
  ultimately show ?thesis by (simp add: group_bytes_def)
qed

text \<open>One turn of the loop, and its inverse.\<close>

lemma base64Encode_step:
  fixes data :: string
  defines "a \<equiv> byte_at data 0" and "b \<equiv> byte_at data 1" and "c \<equiv> byte_at data 2"
  assumes "data \<noteq> []"
  shows "base64Encode data =
    [b64_table ! (a div 4), b64_table ! (a mod 4 * 16 + b div 16),
     if 1 < length data then b64_table ! (b mod 16 * 4 + c div 64) else CHR ''='',
     if 2 < length data then b64_table ! (c mod 64) else CHR ''=''] @ base64Encode (drop 3 data)"
proof -
  have lt: "a < 256" "b < 256" "c < 256" by (simp_all add: byte_at_def a_def b_def c_def)
  have x: "b64_triple data = a * 65536 + b * 256 + c" by (simp add: b64_triple_val a_def b_def c_def)
  have bits: "drop_bit 18 (b64_triple data) AND 63 = a div 4"
    "drop_bit 12 (b64_triple data) AND 63 = a mod 4 * 16 + b div 16"
    "drop_bit 6 (b64_triple data) AND 63 = b mod 16 * 4 + c div 64"
    "b64_triple data AND 63 = c mod 64"
    unfolding and_63 drop_bit_eq_div x using six_bits [OF lt] by simp_all
  show ?thesis using assms(4) by (subst base64Encode.simps) (simp only: Let_def bits if_False)
qed

lemma code_char [simp]: "char_of (code c) = c"
  by (simp add: code_def)

lemma six_less [simp]:
  "code a div 4 < 64" "code a mod 4 * 16 < 64" "code a mod 4 * 16 + code b div 16 < 64"
  "code b mod 16 * 4 < 64" "code b mod 16 * 4 + code c div 64 < 64"
proof -
  show a: "code a div 4 < 64" by (rule less_mult_imp_div_less) simp
  have b: "code b div 16 < 16" and c: "code c div 64 < 4" by (rule less_mult_imp_div_less, simp)+
  have "code a mod 4 < 4" "code b mod 16 < 16" by simp_all
  with b c show "code a mod 4 * 16 < 64" "code a mod 4 * 16 + code b div 16 < 64"
    "code b mod 16 * 4 < 64" "code b mod 16 * 4 + code c div 64 < 64" by linarith+
qed

lemma char_of_zero [simp]: "char_of (0::nat) = CHR 0x00"
  by code_simp

lemma b64_val_equals [simp]: "b64_val CHR ''='' = Some 0"
  by (simp add: b64_val_def)

lemma decode_base64Encode:
  "decode_block (base64Encode s) = Some (s @ replicate (b64_pad s) CHR 0x00)"
proof (induction s rule: base64Encode.induct)
  case (1 s)
  show ?case
  proof (cases "s = []")
    case True
    then show ?thesis by (subst base64Encode.simps) (simp add: b64_pad_def)
  next
    case False
    then consider (one) a where "s = [a]" | (two) a b where "s = [a, b]" | (more) a b c r where "s = a # b # c # r"
      by (metis list.exhaust)
    then show ?thesis
    proof cases
      case one
      have g: "group_bytes (code a div 4) (code a mod 4 * 16) 0 0 = [a, CHR 0x00, CHR 0x00]"
        using group_bytes_six [of "code a" 0 0] by simp
      have "base64Encode (drop 3 [a]) = []" by (subst base64Encode.simps) simp
      with one show ?thesis
        by (simp add: base64Encode_step byte_at_def b64_pad_def g numeral_2_eq_2)
    next
      case two
      have g: "group_bytes (code a div 4) (code a mod 4 * 16 + code b div 16) (code b mod 16 * 4) 0 = [a, b, CHR 0x00]"
        using group_bytes_six [of "code a" "code b" 0] by simp
      have "base64Encode (drop 3 [a, b]) = []" by (subst base64Encode.simps) simp
      with two show ?thesis
        by (simp add: base64Encode_step byte_at_def b64_pad_def g)
    next
      case more
      have g: "group_bytes (code a div 4) (code a mod 4 * 16 + code b div 16) (code b mod 16 * 4 + code c div 64)
          (code c mod 64) = [a, b, c]"
        using group_bytes_six [of "code a" "code b" "code c"] by simp
      have p: "b64_pad s = b64_pad r" by (simp add: b64_pad_def more)
      have r: "drop 3 s = r" using more by simp
      then have "base64Encode s = [b64_table ! (code a div 4), b64_table ! (code a mod 4 * 16 + code b div 16),
          b64_table ! (code b mod 16 * 4 + code c div 64), b64_table ! (code c mod 64)] @ base64Encode r"
        using base64Encode_step [OF False] more by (simp add: byte_at_def)
      moreover from r 1 [OF False] have "decode_block (base64Encode r) = Some (r @ replicate (b64_pad r) CHR 0x00)"
        by simp
      ultimately show ?thesis using more g p by simp
    qed
  qed
qed


text \<open>The letters, and how many: what OpenSSL documents of its own encoder.\<close>

lemma base64Encode_form:
  "\<exists>core. base64Encode s = core @ replicate (b64_pad s) CHR ''='' \<and> list_all b64_letter core \<and>
     length core + b64_pad s = 4 * ((length s + 2) div 3)"
proof (induction s rule: base64Encode.induct)
  case (1 s)
  show ?case
  proof (cases "s = []")
    case True
    then show ?thesis by (subst base64Encode.simps) (simp add: b64_pad_def)
  next
    case False
    then consider (one) a where "s = [a]" | (two) a b where "s = [a, b]" | (more) a b c r where "s = a # b # c # r"
      by (metis list.exhaust)
    then show ?thesis
    proof cases
      case one
      have "base64Encode (drop 3 [a]) = []" by (subst base64Encode.simps) simp
      with one have "base64Encode s =
          [b64_table ! (code a div 4), b64_table ! (code a mod 4 * 16)] @ replicate (b64_pad s) CHR ''=''"
        by (simp add: base64Encode_step byte_at_def b64_pad_def numeral_2_eq_2)
      with one show ?thesis
        by (intro exI [of _ "[b64_table ! (code a div 4), b64_table ! (code a mod 4 * 16)]"])
           (simp add: b64_pad_def)
    next
      case two
      have "base64Encode (drop 3 [a, b]) = []" by (subst base64Encode.simps) simp
      with two have "base64Encode s =
          [b64_table ! (code a div 4), b64_table ! (code a mod 4 * 16 + code b div 16),
           b64_table ! (code b mod 16 * 4)] @ replicate (b64_pad s) CHR ''=''"
        by (simp add: base64Encode_step byte_at_def b64_pad_def)
      with two show ?thesis
        by (intro exI [of _ "[b64_table ! (code a div 4), b64_table ! (code a mod 4 * 16 + code b div 16),
           b64_table ! (code b mod 16 * 4)]"]) (simp add: b64_pad_def)
    next
      case more
      let ?q = "[b64_table ! (code a div 4), b64_table ! (code a mod 4 * 16 + code b div 16),
          b64_table ! (code b mod 16 * 4 + code c div 64), b64_table ! (code c mod 64)]"
      have r: "drop 3 s = r" using more by simp
      then have e: "base64Encode s = ?q @ base64Encode r"
        using base64Encode_step [OF False] more by (simp add: byte_at_def)
      from 1 [OF False] r obtain core where core: "base64Encode r = core @ replicate (b64_pad r) CHR ''=''"
        "list_all b64_letter core" "length core + b64_pad r = 4 * ((length r + 2) div 3)" by auto
      have p: "b64_pad s = b64_pad r" by (simp add: b64_pad_def more)
      have "(length s + 2) div 3 = Suc ((length r + 2) div 3)" using more by simp
      with core e p show ?thesis by (intro exI [of _ "?q @ core"]) simp
    qed
  qed
qed

lemma evp_from_base64Encode:
  assumes "EVP_EncodeBlock L = base64Encode" and "EVP_DecodeBlock L = decode_block"
  shows "evp_base64_documented L"
  unfolding evp_base64_documented_def assms
proof
  fix s
  obtain core where core: "base64Encode s = core @ replicate (b64_pad s) CHR ''=''" "list_all b64_letter core"
    "length core + b64_pad s = 4 * ((length s + 2) div 3)" using base64Encode_form by blast
  then have "length (base64Encode s) = 4 * ((length s + 2) div 3)" by simp
  with core decode_base64Encode [of s]
  show "\<exists>core. base64Encode s = core @ replicate ((3 - length s mod 3) mod 3) CHR ''='' \<and>
      list_all b64_letter core \<and> length (base64Encode s) = 4 * ((length s + 2) div 3) \<and>
      decode_block (base64Encode s) = Some (s @ replicate ((3 - length s mod 3) mod 3) CHR 0x00)"
    by (auto simp: b64_pad_def)
qed

lemma takeWhile_pad:
  "list_all b64_letter core \<Longrightarrow> takeWhile (\<lambda>c. c = CHR ''='') (rev (core @ replicate k CHR ''='')) = replicate k CHR ''=''"
proof -
  assume core: "list_all b64_letter core"
  have "takeWhile (\<lambda>c. c = CHR ''='') (rev core) = []"
    using core by (cases core rule: rev_cases) (auto dest: b64_letter_facts(1))
  then show ?thesis by (simp add: takeWhile_append)
qed


section \<open>Frames\<close>

text \<open>A receiver of RFC 6455 for unmasked text frames of up to 65535 bytes.\<close>

fun read_frame :: "string \<Rightarrow> (string \<times> string) option" where
  "read_frame (h # l # s) =
     (if code h \<noteq> 0x81 then None
      else if code l < 126 then
        (if length s < code l then None else Some (take (code l) s, drop (code l) s))
      else if code l = 126 then (case s of
          x # y # r \<Rightarrow>
            let n = code x * 256 + code y
            in if length r < n then None else Some (take n r, drop n r)
        | _ \<Rightarrow> None)
      else None)"
| "read_frame _ = None"

lemma and_255: "n AND 0xFF = n mod (256::nat)"
proof -
  have "n AND mask 8 = n mod 2 ^ 8" by (simp flip: take_bit_eq_mask add: take_bit_eq_mod)
  then show ?thesis by (simp add: mask_eq_exp_minus_1)
qed

lemma frame_head: "code CHR 0x81 = 0x81"
  by code_simp

text \<open>
  C39: a frame the gateway sends is read back by the receiver: the payload, and then whatever follows on
  the stream; and only payloads of more than 65535 bytes are refused.
\<close>

theorem textFrame_reads_back:
  "(case textFrame payload of
      Some f \<Rightarrow> read_frame (f @ rest) = Some (payload, rest)
    | None \<Rightarrow> 65535 < length payload) \<and> (textFrame payload = None \<longleftrightarrow> 65535 < length payload)"
proof -
  consider "length payload < 126" | "126 \<le> length payload" "length payload \<le> 65535" | "65535 < length payload"
    by linarith
  then show ?thesis
  proof cases
    case 1
    then show ?thesis by (simp add: textFrame_def Let_def frame_head)
  next
    case 2
    define n where "n = length payload"
    have "n div 256 < 256" using 2 by (simp add: n_def less_mult_imp_div_less)
    then have "drop_bit 8 n AND 0xFF = n div 256" by (simp add: and_255 drop_bit_eq_div)
    moreover have "n AND 0xFF = n mod 256" by (rule and_255)
    ultimately have t: "textFrame payload =
        Some (CHR 0x81 # char_of (126::nat) # char_of (n div 256) # char_of (n mod 256) # payload)"
      using 2 by (simp add: textFrame_def Let_def n_def)
    have "code (char_of (n div 256)) * 256 + code (char_of (n mod 256)) = n"
      using \<open>n div 256 < 256\<close> by (simp add: code_def)
    with 2 show ?thesis by (simp add: t frame_head Let_def n_def)
  next
    case 3
    then show ?thesis by (simp add: textFrame_def Let_def)
  qed
qed

section \<open>The registry\<close>

text \<open>Every session's descriptor is registered for that session; no two share a descriptor.\<close>

definition ws_ok :: "registry \<Rightarrow> bool" where
  "ws_ok w \<longleftrightarrow> distinct (map fst (session_to_fd w)) \<and> distinct (map fst (fd_to_session w)) \<and>
     (\<forall>s fd. map_of (session_to_fd w) s = Some fd \<longrightarrow> map_of (fd_to_session w) fd = Some s)"

lemma update_map_of: "map_of (AList.update k v m) = (map_of m)(k \<mapsto> v)"
  by (rule update_conv')

lemma delete_map_of: "map_of (AList.delete k m) = (map_of m)(k := None)"
  by (rule delete_conv')

lemma bind_maps:
  "map_of (session_to_fd (ws_bind s fd w)) = (map_of (session_to_fd w))(s \<mapsto> fd)"
  "map_of (fd_to_session (ws_bind s fd w)) = (map_of (fd_to_session w))(fd \<mapsto> s)"
  by (auto simp: ws_bind_def Let_def update_map_of split: option.split)

lemma bind_ok:
  assumes "ws_ok w" and "map_of (fd_to_session w) fd = None"
  shows "ws_ok (ws_bind s fd w)"
proof -
  have "distinct (map fst (session_to_fd (ws_bind s fd w)))" "distinct (map fst (fd_to_session (ws_bind s fd w)))"
    using assms(1) by (auto simp: ws_ok_def ws_bind_def Let_def distinct_update split: option.split)
  with assms show ?thesis by (auto simp: ws_ok_def bind_maps)
qed

lemma unbind_maps:
  assumes "ws_ok w"
  shows "map_of (session_to_fd (ws_unbind fd w)) =
      (\<lambda>s. if map_of (session_to_fd w) s = Some fd then None else map_of (session_to_fd w) s)"
    and "map_of (fd_to_session (ws_unbind fd w)) = (map_of (fd_to_session w))(fd := None)"
  using assms
  by (auto simp: ws_ok_def ws_unbind_def Let_def delete_map_of fun_eq_iff split: option.split)

lemma unbind_ok: "ws_ok w \<Longrightarrow> ws_ok (ws_unbind fd w)"
  using unbind_maps [of w fd]
  by (auto simp: ws_ok_def ws_unbind_def Let_def distinct_delete split: option.split)

datatype ws_event = Bind string int | Unbind int

fun ws_event_step :: "ws_event \<Rightarrow> registry \<Rightarrow> registry" where
  "ws_event_step (Bind s fd) w = ws_bind s fd w"
| "ws_event_step (Unbind fd) w = ws_unbind fd w"

text \<open>The descriptors are bound as the operating system hands them out: never one still registered.\<close>

fun fresh_fds :: "registry \<Rightarrow> ws_event list \<Rightarrow> bool" where
  "fresh_fds w [] = True"
| "fresh_fds w (e # es) =
     ((case e of Bind s fd \<Rightarrow> map_of (fd_to_session w) fd = None | Unbind fd \<Rightarrow> True) \<and>
      fresh_fds (ws_event_step e w) es)"

text \<open>The descriptor of a session: the one bound last, unless it was unbound since.\<close>

fun current_fd :: "string \<Rightarrow> int option \<Rightarrow> ws_event list \<Rightarrow> int option" where
  "current_fd s c [] = c"
| "current_fd s c (Bind t fd # es) = current_fd s (if t = s then Some fd else c) es"
| "current_fd s c (Unbind fd # es) = current_fd s (if c = Some fd then None else c) es"

lemma ws_run:
  assumes "ws_ok w" and "fresh_fds w es"
  shows "ws_ok (fold ws_event_step es w) \<and>
    map_of (session_to_fd (fold ws_event_step es w)) s = current_fd s (map_of (session_to_fd w) s) es"
  using assms
proof (induction es arbitrary: w)
  case Nil
  then show ?case by simp
next
  case (Cons e es)
  show ?case
  proof (cases e)
    case (Bind t fd)
    with Cons show ?thesis by (simp add: bind_ok bind_maps)
  next
    case (Unbind fd)
    with Cons show ?thesis by (simp add: unbind_ok unbind_maps)
  qed
qed

definition empty_registry :: registry where
  "empty_registry = \<lparr>session_to_fd = [], fd_to_session = [], ws_closed = [], ws_output = [], ws_writes = []\<rparr>"

text \<open>
  As long as no descriptor is bound while it is still registered, the two maps of the registry stay
  consistent, the connection count is the number of sessions with a descriptor, and a push reaches
  exactly the descriptor bound last for the session and not unbound since.
\<close>

lemma registry_delivers:
  assumes "fresh_fds empty_registry es" and "w = fold ws_event_step es empty_registry"
  shows "ws_ok w \<and> connectionCount w = card (dom (map_of (session_to_fd w))) \<and>
    (case current_fd s None es of
       None \<Rightarrow> ws_push s message w = (False, w)
     | Some fd \<Rightarrow> ws_push s message w = sendTextFrame fd message w)"
proof -
  have "ws_ok empty_registry" by (simp add: ws_ok_def empty_registry_def)
  from ws_run [OF this assms(1), of s] have ok: "ws_ok w"
    and cur: "map_of (session_to_fd w) s = current_fd s None es"
    by (simp_all add: assms(2) empty_registry_def)
  have "card (dom (map_of (session_to_fd w))) = length (session_to_fd w)"
    using ok by (simp add: ws_ok_def dom_map_of_conv_image_fst) (metis distinct_card length_map set_map)
  with ok cur show ?thesis by (simp add: connectionCount_def ws_push_def split: option.split)
qed

text \<open>
  Without that assumption a push can be lost. A page reconnects, so \<open>bind\<close> closes descriptor 5 but
  keeps it in \<open>fd_to_session_\<close>; the operating system gives 5 to another page, which is bound; then the
  thread of the closed connection calls \<open>unbind(5)\<close>, and the other page, still connected, has lost
  its binding.
\<close>

lemma registry_reused_fd_loses_push:
  "let w = fold ws_event_step [Bind ''PS1'' 5, Bind ''PS1'' 6, Bind ''PS2'' 5, Unbind 5] empty_registry
   in ws_closed w = [5] \<and> ws_push ''PS2'' ''paid'' w = (False, w)"
  by code_simp

end
