(* ===== verification/Demo.thy ===== *)
theory Demo
  imports PaymentImpl DbSteps WsProps "HOL-Library.Code_Target_Numeral"
begin

text \<open>
  A concrete instance of the third-party functions, of a configuration and of a database: the
  witnesses of the development are evaluated on it, and it shows that the documented behaviour the
  theorems assume can hold. The Base64 functions are the real ones; JSON texts are read off a table;
  the collation ignores the case of ASCII letters; the MAC only has the right length.
\<close>

section \<open>Functions\<close>

definition type_error :: exn where
  "type_error = StdException ''type_error''"

fun demo_value_str :: "json \<Rightarrow> string \<Rightarrow> string \<Rightarrow> exn + string" where
  "demo_value_str (JObject kvs) k d = (case map_of kvs k of
      None \<Rightarrow> Inr d | Some (JString v) \<Rightarrow> Inr v | Some _ \<Rightarrow> Inl type_error)"
| "demo_value_str _ k d = Inl type_error"

fun demo_value_bool :: "json \<Rightarrow> string \<Rightarrow> bool \<Rightarrow> exn + bool" where
  "demo_value_bool (JObject kvs) k d = (case map_of kvs k of
      None \<Rightarrow> Inr d | Some (JBool v) \<Rightarrow> Inr v | Some _ \<Rightarrow> Inl type_error)"
| "demo_value_bool _ k d = Inl type_error"

fun demo_at_str :: "json \<Rightarrow> string \<Rightarrow> exn + string" where
  "demo_at_str (JObject kvs) k = (case map_of kvs k of Some (JString v) \<Rightarrow> Inr v | _ \<Rightarrow> Inl type_error)"
| "demo_at_str _ k = Inl type_error"

fun demo_at_int :: "json \<Rightarrow> string \<Rightarrow> exn + int" where
  "demo_at_int (JObject kvs) k = (case map_of kvs k of Some (JInt i) \<Rightarrow> Inr i | _ \<Rightarrow> Inl type_error)"
| "demo_at_int _ k = Inl type_error"

definition demo_dump :: "(string \<times> json) list \<Rightarrow> json \<Rightarrow> exn + string" where
  "demo_dump tbl j = (case map_of (map prod.swap tbl) j of None \<Rightarrow> Inl type_error | Some s \<Rightarrow> Inr s)"

definition demo_parse :: "(string \<times> json) list \<Rightarrow> string \<Rightarrow> string + json" where
  "demo_parse tbl s = (case map_of tbl s of None \<Rightarrow> Inl ''parse_error'' | Some j \<Rightarrow> Inr j)"

definition demo_mac :: "string \<Rightarrow> string \<Rightarrow> string" where
  "demo_mac k d = take 32 (d @ k @ replicate 32 CHR 0x00)"

definition demo_lib :: "(string \<times> json) list \<Rightarrow> lib" where
  "demo_lib tbl = \<lparr>json_parse = demo_parse tbl, json_dump = demo_dump tbl,
     json_value_str = demo_value_str, json_value_bool = demo_value_bool, json_at_str = demo_at_str,
     json_at_int = demo_at_int, hmac = (\<lambda>_ k d. Some (demo_mac k d)), uninit_digest = [],
     CRYPTO_memcmp = (\<lambda>a b n. if take n a = take n b then 0 else 1),
     EVP_EncodeBlock = base64Encode, EVP_DecodeBlock = decode_block,
     SHA1 = (\<lambda>s. take 20 (s @ replicate 20 CHR 0x00)), date_format = to_string,
     sql_key = map tolower, dup_entry = ''Duplicate entry'', range_error = ''Out of range value''\<rparr>"

lemma demo_documented:
  "memcmp_documented (demo_lib tbl)" "hmac_sha256_documented (demo_lib tbl)"
  "json_fields_documented (demo_lib tbl)" "evp_base64_documented (demo_lib tbl)"
  "hmac_nonempty (demo_lib tbl)"
proof -
  show "memcmp_documented (demo_lib tbl)" by (simp add: memcmp_documented_def demo_lib_def)
  show "hmac_sha256_documented (demo_lib tbl)"
    by (auto simp: hmac_sha256_documented_def demo_lib_def demo_mac_def min_def)
  show "json_fields_documented (demo_lib tbl)"
    by (simp add: json_fields_documented_def demo_lib_def)
  show "evp_base64_documented (demo_lib tbl)"
    by (rule evp_from_base64Encode) (simp_all add: demo_lib_def)
  have "demo_mac k d \<noteq> []" for k d by (simp add: demo_mac_def)
  then show "hmac_nonempty (demo_lib tbl)" by (simp add: hmac_nonempty_def demo_lib_def)
qed

section \<open>A configuration\<close>

definition demo_values :: "values" where
  "demo_values = map_of
     [(''JWT_ALGORITHM'', ''HS256''), (''JWT_SECRET'', ''k''), (''JWT_QR_TOKEN_TTL_SECONDS'', ''300''),
      (''JWT_CLOCK_SKEW_SECONDS'', ''5''), (''PASSWORD_HASH_SECRET'', ''p''),
      (''PAYMENT_SESSION_TTL_SECONDS'', ''300''), (''PAYMENT_ATTEMPT_REQUEST_TTL_SECONDS'', ''300''),
      (''WEBSOCKET_HEARTBEAT_INTERVAL_SECONDS'', ''30''), (''WEBSOCKET_IDLE_TIMEOUT_SECONDS'', ''90''),
      (''LOGIN_REAUTH_MAX_RETRY'', ''3''), (''PAYMENT_NGINX_IP'', ''pay''), (''PAYMENT_NGINX_PORT'', ''80''),
      (''PAYMENT_SCAN_PAGE_PATH'', ''/s''), (''USER_EMAIL_HASH_SECRET'', ''e''),
      (''USER_ID_CARD_HASH_SECRET'', ''i'')]"

definition demo_service :: JwtService where
  "demo_service = \<lparr>js_algorithm = ''HS256'', js_secret = ''k'', js_qr_ttl_seconds = 300, js_clock_skew_seconds = 5\<rparr>"

lemma demo_service_config: "jwt_fromConfig demo_values = Inr demo_service"
  by code_simp

section \<open>A database\<close>

definition demo_payload :: PaymentQrPayload where
  "demo_payload = \<lparr>qr_payment_session_id = ''PS1'', qr_iat = 1000, qr_exp = 1300, qr_nonce = ''61''\<rparr>"

text \<open>The token issued for \<open>demo_payload\<close> (\<open>demo_token_verifies\<close>).\<close>

definition demo_token :: string where
  "demo_token = ''aA.Yg.YUEuWWdrAAAAAAAAAAAAAAAAAAAAAAAAAAAAAAAAAAA''"

definition demo_table :: "(string \<times> json) list" where
  "demo_table =
     [(''h'', jwt_header demo_service), (''b'', qr_body demo_payload),
      (''{pay}'', JObject [(''login_password'', JString ''pw''), (''qr_token'', JString demo_token),
         (''request_id'', JString ''REQ1'')]),
      (''{bad}'', JObject [(''login_password'', JString ''pw''), (''qr_token'', JString ''a.b''),
         (''request_id'', JString ''REQ1'')])]"

abbreviation L0 :: lib where
  "L0 \<equiv> demo_lib demo_table"

lemma demo_token_verifies:
  "verifyPaymentQrToken L0 demo_service 1100 demo_token =
     \<lparr>qv_valid = True, qv_error_message = [], qv_payload = demo_payload\<rparr>"
  by code_simp

text \<open>\<open>demo_db pw st\<close>: one order of one account, its payment session and one attempt.\<close>

definition demo_user :: user_row where
  "demo_user = \<lparr>u_id = 1, u_user_id = ''U1'', u_username = ''ann'',
     u_password_hash = toHex (demo_mac ''p'' ''pw''), u_email_hash = Some ''eh'', u_email_masked = Some ''a****'',
     u_id_card_hash = Some ''ih'', u_id_card_masked = Some ''i****'', u_real_auth_completed = 1,
     u_user_type = 0, u_status = 0, u_last_login_at = 0, u_created_at = 0\<rparr>"

definition demo_account :: account_row where
  "demo_account = \<lparr>a_id = 1, a_account_id = ''A1'', a_seller_id = ''U2'', a_game_name = ''g'',
     a_server_area = ''s'', a_price = 100, a_account_level = 1, a_hero_count = 1, a_skin_count = 1,
     a_rare_items = ''[]'', a_status = 1, a_version = 7, a_created_at = 0, a_updated_at = 0\<rparr>"

definition demo_order :: order_row where
  "demo_order = \<lparr>o_id = 1, o_order_sn = ''O1'', o_account_id = ''A1'', o_buyer_id = ''U1'', o_price = 100,
     o_buyer_email = ''a****'', o_buyer_id_card_hash = ''ih'', o_buyer_id_card_masked = ''i****'',
     o_status = 0, o_create_time = 0, o_paid_at = None, o_update_time = 0\<rparr>"

definition demo_session :: session_row where
  "demo_session = \<lparr>s_id = 1, s_payment_session_id = ''PS1'', s_order_sn = ''O1'', s_account_id = ''A1'',
     s_buyer_id = ''U1'', s_buyer_email = ''a****'', s_status = 0, s_expire_at = 1300, s_created_at = 1000,
     s_updated_at = 1000\<rparr>"

definition demo_attempt :: attempt_row where
  "demo_attempt = \<lparr>t_id = 1, t_request_id = ''REQ1'', t_payment_session_id = ''PS1'', t_order_sn = ''O1'',
     t_account_id = ''A1'', t_buyer_id = ''U1'', t_result = 0, t_fail_reason = None, t_client_ip = Some [],
     t_user_agent = Some [], t_created_at = 1000, t_updated_at = 1000\<rparr>"

definition demo_db :: db where
  "demo_db = \<lparr>users = [demo_user], accounts = [demo_account], orders = [demo_order],
     sessions = [demo_session], attempts = [demo_attempt], session_seq = 2, attempt_seq = 2\<rparr>"

definition demo_pool :: pool where
  "demo_pool = \<lparr>pl_idle = [0, 1], pl_open = [1, 0], pl_next = 2, pl_initialized = True, pl_shutting_down = False\<rparr>"

definition demo_mysql :: "sql_event list \<Rightarrow> mysql" where
  "demo_mysql evs = \<lparr>m_pool = demo_pool, m_pool_size = 2, m_db = demo_db, m_txn = None, m_pings = [],
     m_connects = [], m_events = evs\<rparr>"

definition demo_redis_config :: RedisConfig where
  "demo_redis_config = \<lparr>rd_host = ''h'', rd_port = 6379, rd_db = 0, rd_username = [], rd_password = [],
     rd_connect_timeout_seconds = 3, rd_command_timeout_seconds = 3, rd_pool_size = 2\<rparr>"

definition demo_redis :: redis where
  "demo_redis = \<lparr>r_pool = demo_pool, r_cfg = demo_redis_config, r_store = (\<lambda>_. None), r_events = [],
     r_connects = []\<rparr>"

definition demo_world :: "sql_event list \<Rightarrow> world" where
  "demo_world evs = \<lparr>w_mysql = demo_mysql evs, w_redis = demo_redis,
     w_workers = \<lparr>wk_count = 4, wk_initialized = True, wk_stop = False, wk_tasks = [], wk_started = []\<rparr>,
     w_random = (\<lambda>k n. Some (replicate n CHR 0xAB)), w_draws = 0\<rparr>"

definition demo_env :: env where
  "demo_env = \<lparr>e_lib = L0, e_values = demo_values, e_now = 1100\<rparr>"

definition demo_pay :: HttpRequest where
  "demo_pay = \<lparr>req_method = ''POST'', req_path = ''/api/payment/pay'', req_query = [], req_headers = [],
     req_body = ''{pay}''\<rparr>"

lemma demo_db_ok: "db_ok L0 demo_db"
  by code_simp

end
