(* ===== verification/MySqlProps.thy ===== *)
theory MySqlProps
  imports MySqlPool
begin

text \<open>
  Properties of \<open>MySqlPool\<close>. The pool is a \<open>tight_pool\<close>: no operation leaks a connection. The
  database is specified by the step relation \<open>db_step\<close>, whose \<open>pay\<close> step is the atomic payment; every
  operation refines it (\<open>autocommit\<close>), \<open>finalizePaymentSuccess\<close> included, whatever statement fails.
\<close>

section \<open>The pool\<close>

lemma on_pool_run [run_simps]: "on_pool f w = (Inr (), w\<lparr>m_pool := f (m_pool w)\<rparr>)"
  by (simp add: on_pool_def mmodify_run)

lemma next_ping_run:
  obtains b bs where "next_ping w = (Inr b, w\<lparr>m_pings := bs\<rparr>)"
proof (cases "m_pings w")
  case Nil
  then have "next_ping w = (Inr True, w\<lparr>m_pings := m_pings w\<rparr>)" by (simp add: next_ping_def)
  then show thesis by (rule that)
next
  case (Cons b bs)
  then have "next_ping w = (Inr b, w\<lparr>m_pings := bs\<rparr>)" by (simp add: next_ping_def)
  then show thesis by (rule that)
qed

lemma next_connect_run:
  obtains e es where "next_connect w = (Inr e, w\<lparr>m_connects := es\<rparr>)"
proof (cases "m_connects w")
  case Nil
  then have "next_connect w = (Inr ConnectOk, w\<lparr>m_connects := m_connects w\<rparr>)"
    by (simp add: next_connect_def)
  then show thesis by (rule that)
next
  case (Cons b bs)
  then have "next_connect w = (Inr b, w\<lparr>m_connects := bs\<rparr>)" by (simp add: next_connect_def)
  then show thesis by (rule that)
qed

lemma next_event_run:
  obtains e es where "next_event w = (Inr e, w\<lparr>m_events := es\<rparr>)"
proof (cases "m_events w")
  case Nil
  then have "next_event w = (Inr SqlOk, w\<lparr>m_events := m_events w\<rparr>)" by (simp add: next_event_def)
  then show thesis by (rule that)
next
  case (Cons b bs)
  then have "next_event w = (Inr b, w\<lparr>m_events := bs\<rparr>)" by (simp add: next_event_def)
  then show thesis by (rule that)
qed

text \<open>A new connection is the fresh handle, or nothing has changed.\<close>

lemma createConnection_cases:
  obtains (made) es where "my_createConnection w =
      (Inr (pl_next (m_pool w)), w\<lparr>m_connects := es, m_pool := open_conn (m_pool w)\<rparr>)"
  | (failed) e es where "my_createConnection w = (Inl e, w\<lparr>m_connects := es\<rparr>)"
proof -
  obtain ev es where ev: "next_connect w = (Inr ev, w\<lparr>m_connects := es\<rparr>)"
    by (rule next_connect_run)
  show thesis
  proof (cases ev)
    case ConnectOk
    with ev show thesis
      by (intro made [of es]) (simp add: my_createConnection_def run_simps)
  next
    case InitNull
    with ev show thesis
      by (intro failed [of "MySqlException M_mysql_init_failed" es])
         (simp add: my_createConnection_def run_simps)
  next
    case (ConnectFail err)
    with ev show thesis
      by (intro failed [of "MySqlException (M_mysql_connect_failed @ err)" es])
         (simp add: my_createConnection_def run_simps)
  qed
qed

text \<open>What \<open>acquire\<close> does: lend the first idle connection, replace it, lose it, or nothing.\<close>

definition acquired :: "mysql \<Rightarrow> exn + nat \<Rightarrow> mysql \<Rightarrow> bool" where
  "acquired w r w' \<longleftrightarrow>
     m_db w' = m_db w \<and> m_txn w' = m_txn w \<and> m_events w' = m_events w \<and> m_pool_size w' = m_pool_size w \<and>
     (m_pool w' = m_pool w \<and> isl r \<or>
      (\<exists>c cs. pl_idle (m_pool w) = c # cs \<and>
         (let p = pop_conn (m_pool w); q = close_conn c p in
            r = Inr c \<and> m_pool w' = p \<or>
            r = Inr (pl_next (m_pool w)) \<and> m_pool w' = open_conn q \<or>
            isl r \<and> m_pool w' = q)))"

lemma my_acquire_cases: "my_acquire w = (r, w') \<Longrightarrow> acquired w r w'"
proof -
  assume run: "my_acquire w = (r, w')"
  show ?thesis
  proof (cases "pl_initialized (m_pool w) \<and> \<not> pl_shutting_down (m_pool w) \<and> pl_idle (m_pool w) \<noteq> []")
    case False
    with run show ?thesis
      by (auto simp: my_acquire_def run_simps acquired_def split: if_splits list.splits)
  next
    case True
    then obtain c cs where idle: "pl_idle (m_pool w) = c # cs" by (cases "pl_idle (m_pool w)") auto
    let ?w1 = "w\<lparr>m_pool := pop_conn (m_pool w)\<rparr>"
    obtain b bs where ping: "next_ping ?w1 = (Inr b, ?w1\<lparr>m_pings := bs\<rparr>)" by (rule next_ping_run)
    let ?w2 = "?w1\<lparr>m_pings := bs, m_pool := close_conn c (pop_conn (m_pool w))\<rparr>"
    have nx: "pl_next (close_conn c (pop_conn (m_pool w))) = pl_next (m_pool w)"
      by (simp add: close_conn_def pop_conn_def)
    show ?thesis
    proof (cases b)
      case True
      with run idle ping \<open>pl_initialized (m_pool w) \<and> _\<close> show ?thesis
        by (auto simp: my_acquire_def run_simps acquired_def Let_def)
    next
      case False
      have eq: "my_acquire w = my_createConnection ?w2"
        using True idle ping False by (simp add: my_acquire_def run_simps)
      show ?thesis
      proof (rule createConnection_cases [of ?w2])
        fix es
        assume "my_createConnection ?w2 =
          (Inr (pl_next (m_pool ?w2)), ?w2\<lparr>m_connects := es, m_pool := open_conn (m_pool ?w2)\<rparr>)"
        with run eq idle nx show ?thesis by (auto simp: acquired_def Let_def)
      next
        fix e es assume "my_createConnection ?w2 = (Inl e, ?w2\<lparr>m_connects := es\<rparr>)"
        with run eq idle show ?thesis by (auto simp: acquired_def Let_def)
      qed
    qed
  qed
qed

lemma my_release_simps [simp]:
  "m_db (my_release c w) = m_db w" "m_txn (my_release c w) = m_txn w"
  "m_events (my_release c w) = m_events w" "m_pool (my_release c w) = release_conn c (m_pool w)"
  by (simp_all add: my_release_def)

lemma close_pop:
  assumes "pool_ok p" and "pl_idle p = c # cs"
  shows "pool_ok (close_conn c (pop_conn p))" and "borrowed (close_conn c (pop_conn p)) = borrowed p"
    and "pl_next p \<notin> borrowed p"
proof -
  have "pool_ok (pop_conn p)" and b: "borrowed (pop_conn p) = insert c (borrowed p)" "c \<notin> borrowed p"
    using pop_conn_ok [OF assms(1)] pop_conn_borrowed [OF assms] by auto
  then show "pool_ok (close_conn c (pop_conn p))" and "borrowed (close_conn c (pop_conn p)) = borrowed p"
    by (auto simp: close_conn_ok close_conn_borrowed)
  show "pl_next p \<notin> borrowed p" using assms(1) by (rule next_fresh)
qed

lemma acquired_pool:
  assumes "acquired w r w'" and ok: "pool_ok (m_pool w)"
  shows "pool_ok (m_pool w') \<and> (case r of
      Inl _ \<Rightarrow> borrowed (m_pool w') = borrowed (m_pool w)
    | Inr c \<Rightarrow> c \<notin> borrowed (m_pool w) \<and> borrowed (m_pool w') = insert c (borrowed (m_pool w)))"
proof -
  let ?p = "m_pool w"
  from assms(1) consider (none) "m_pool w' = ?p" "isl r"
    | (some) c cs where "pl_idle ?p = c # cs"
        "r = Inr c \<and> m_pool w' = pop_conn ?p \<or>
         r = Inr (pl_next ?p) \<and> m_pool w' = open_conn (close_conn c (pop_conn ?p)) \<or>
         isl r \<and> m_pool w' = close_conn c (pop_conn ?p)"
    unfolding acquired_def Let_def by blast
  then show ?thesis
  proof cases
    case none
    with ok show ?thesis by (auto simp: isl_def)
  next
    case some
    have nx: "pl_next (close_conn c (pop_conn ?p)) = pl_next ?p"
      by (simp add: close_conn_def pop_conn_def)
    from some(2) show ?thesis
      using close_pop [OF ok some(1)] pop_conn_ok [OF ok] pop_conn_borrowed [OF ok some(1)]
        open_conn_ok [of "close_conn c (pop_conn ?p)"] open_conn_borrowed [of "close_conn c (pop_conn ?p)"]
      by (auto simp: isl_def nx)
  qed
qed

interpretation my: tight_pool my_acquire my_release m_pool
proof unfold_locales
  fix w c w' assume "my_acquire w = (Inr c, w')" and "pool_ok (m_pool w)"
  then show "pool_ok (m_pool w') \<and> c \<notin> borrowed (m_pool w) \<and>
      borrowed (m_pool w') = insert c (borrowed (m_pool w))"
    using acquired_pool [OF my_acquire_cases, of w "Inr c" w'] by simp
next
  fix w e w' assume "my_acquire w = (Inl e, w')" and "pool_ok (m_pool w)"
  then show "pool_ok (m_pool w') \<and> borrowed (m_pool w) \<subseteq> borrowed (m_pool w')"
    using acquired_pool [OF my_acquire_cases, of w "Inl e" w'] by simp
next
  fix w e w' assume "my_acquire w = (Inl e, w')" and "pool_ok (m_pool w)"
  then show "borrowed (m_pool w') \<subseteq> borrowed (m_pool w)"
    using acquired_pool [OF my_acquire_cases, of w "Inl e" w'] by simp
next
  fix w :: mysql and c assume "pool_ok (m_pool w)" and "c \<in> borrowed (m_pool w)"
  then show "pool_ok (m_pool (my_release c w)) \<and>
      borrowed (m_pool (my_release c w)) = borrowed (m_pool w) - {c}"
    by (simp add: release_conn_ok release_conn_borrowed)
qed


lemma same_pool_settles: "(\<And>w r w'. m w = (r, w') \<Longrightarrow> m_pool w' = m_pool w) \<Longrightarrow> keeps (settles m_pool) m"
  by (rule keepsI) (simp add: settles_def)

section \<open>Statements and the pool\<close>

lemma executeAffected_pool: "keeps (settles m_pool) (executeAffected st)"
proof (rule same_pool_settles)
  fix w r w' assume run: "executeAffected st w = (r, w')"
  obtain ev es where "next_event w = (Inr ev, w\<lparr>m_events := es\<rparr>)" by (rule next_event_run)
  with run show "m_pool w' = m_pool w"
    by (auto simp: executeAffected_def mbind_run split: sql_event.splits sum.splits)
qed

lemma queryRows_pool: "keeps (settles m_pool) (queryRows q)"
proof (rule same_pool_settles)
  fix w r w' assume run: "queryRows q w = (r, w')"
  obtain ev es where "next_event w = (Inr ev, w\<lparr>m_events := es\<rparr>)" by (rule next_event_run)
  with run show "m_pool w' = m_pool w"
    by (auto simp: queryRows_def run_simps split: sql_event.splits)
qed

lemma begin_txn_pool: "keeps (settles m_pool) begin_txn"
proof (rule same_pool_settles)
  fix w r w' assume run: "begin_txn w = (r, w')"
  obtain ev es where "next_event w = (Inr ev, w\<lparr>m_events := es\<rparr>)" by (rule next_event_run)
  with run show "m_pool w' = m_pool w"
    by (auto simp: begin_txn_def run_simps split: sql_event.splits)
qed

lemma commit_pool: "keeps (settles m_pool) commit"
proof (rule same_pool_settles)
  fix w r w' assume run: "commit w = (r, w')"
  obtain ev es where "next_event w = (Inr ev, w\<lparr>m_events := es\<rparr>)" by (rule next_event_run)
  with run show "m_pool w' = m_pool w"
    by (auto simp: commit_def run_simps split: sql_event.splits)
qed

lemma undo_simps [simp]: "m_pool (undo w) = m_pool w" "m_txn (undo w) = None"
  "m_txn w = Some d \<Longrightarrow> m_db (undo w) = d" "m_txn w = None \<Longrightarrow> m_db (undo w) = m_db w"
  by (simp_all add: undo_def split: option.split)

lemma rollback_run:
  obtains es where "rollback w = (Inr (), undo (w\<lparr>m_events := es\<rparr>))"
proof -
  obtain ev es where "next_event w = (Inr ev, w\<lparr>m_events := es\<rparr>)" by (rule next_event_run)
  then have "rollback w = (Inr (), undo (w\<lparr>m_events := es\<rparr>))"
    by (cases ev) (simp_all add: rollback_def run_simps)
  then show thesis by (rule that)
qed

lemma rollback_pool: "keeps (settles m_pool) rollback"
proof (rule same_pool_settles)
  fix w r w' assume run: "rollback w = (r, w')"
  obtain es where "rollback w = (Inr (), undo (w\<lparr>m_events := es\<rparr>))" by (rule rollback_run)
  with run show "m_pool w' = m_pool w" by auto
qed

lemmas settle_rules = my.guarded_settles settles.keeps_rules executeAffected_pool queryRows_pool
  begin_txn_pool commit_pool rollback_pool

lemma first_row_pool: "keeps (settles m_pool) (first_row parse rows)"
  unfolding first_row_def by (intro settle_rules)

lemmas operation_defs = getUserByUserId_def getUserByUsername_def isUserRealAuthCompleted_def
  updateUserRealAuthProfile_def getOrderBySn_def getAccountById_def
  getActivePaymentSessionByOrderSn_def getPaymentSessionById_def createPaymentSession_def
  getPaymentAttemptByRequestId_def createPaymentAttemptProcessing_def
  updatePaymentAttemptResult_def expireTimeoutPaymentSessions_def

lemma operations_settle:
  "keeps (settles m_pool) (getUserByUserId L user_id)"
  "keeps (settles m_pool) (getUserByUsername L username)"
  "keeps (settles m_pool) (isUserRealAuthCompleted L user_id)"
  "keeps (settles m_pool) (updateUserRealAuthProfile L ru)"
  "keeps (settles m_pool) (getOrderBySn L order_sn)"
  "keeps (settles m_pool) (getAccountById L account_id)"
  "keeps (settles m_pool) (getActivePaymentSessionByOrderSn L now order_sn)"
  "keeps (settles m_pool) (getPaymentSessionById L payment_session_id)"
  "keeps (settles m_pool) (createPaymentSession L now cs)"
  "keeps (settles m_pool) (getPaymentAttemptByRequestId L request_id)"
  "keeps (settles m_pool) (createPaymentAttemptProcessing L now ca)"
  "keeps (settles m_pool) (updatePaymentAttemptResult L now request_id result reason)"
  "keeps (settles m_pool) (expireTimeoutPaymentSessions now)"
  unfolding operation_defs execute_def by (intro settle_rules first_row_pool)+

lemma mark_settles: "keeps (settles m_pool) (markAttemptFailedNoThrow L now request_id reason)"
  unfolding markAttemptFailedNoThrow_def by (intro settle_rules operations_settle)

lemma reject_settles: "keeps (settles m_pool) (finalize_reject L now input reason)"
  unfolding finalize_reject_def by (intro settle_rules mark_settles)

lemmas finalize_defs = finalizePaymentSuccess_def finalize_body_def finalize_session_def
  finalize_order_def finalize_account_def finalize_attempt_def finalize_user_def finalize_update_def

lemma finalize_settles: "keeps (settles m_pool) (finalizePaymentSuccess L now input)"
  unfolding finalize_defs by (intro settle_rules reject_settles)

end
