(* ===== verification/MySqlRefine.thy ===== *)
theory MySqlRefine
  imports MySqlProps DbSteps
begin

text \<open>
  Every operation of \<open>MySqlPool\<close> refines the abstract steps of \<open>DbSteps\<close>: \<open>runs\<close> says that from a
  well-formed database outside a transaction an operation ends outside a transaction, in a database
  the steps reach. For \<open>finalizePaymentSuccess\<close> the outcome is given exactly, for every sequence of
  statement failures: the payment happens as a whole or not at all.
\<close>

section \<open>Relations on the store\<close>

definition same_store :: "mysql \<Rightarrow> mysql \<Rightarrow> bool" where
  "same_store w w' \<longleftrightarrow> m_db w' = m_db w \<and> m_txn w' = m_txn w"

definition runs :: "lib \<Rightarrow> mysql \<Rightarrow> mysql \<Rightarrow> bool" where
  "runs L w w' \<longleftrightarrow> (m_txn w = None \<and> db_ok L (m_db w) \<longrightarrow> m_txn w' = None \<and> db_steps L (m_db w) (m_db w'))"

lemma acquire_store: "my_acquire w = (r, w') \<Longrightarrow> same_store w w'"
  using my_acquire_cases [of w r w'] by (simp add: acquired_def same_store_def)

lemma acquire_events: "my_acquire w = (r, w') \<Longrightarrow> m_events w' = m_events w"
  using my_acquire_cases [of w r w'] by (simp add: acquired_def)

text \<open>A relation on the store that allows the store to stay the same passes through the guard.\<close>

locale store_frame = frame R for R :: "mysql \<Rightarrow> mysql \<Rightarrow> bool" +
  assumes same: "same_store w w' \<Longrightarrow> R w w'"
begin

lemma guarded_keeps:
  assumes "\<And>c. keeps R (f c)"
  shows "keeps R (my_guarded f)"
proof (rule keepsI)
  fix w r w' assume run: "my_guarded f w = (r, w')"
  obtain q w1 where a: "my_acquire w = (q, w1)" by force
  then have 1: "R w w1" by (intro same acquire_store)
  show "R w w'"
  proof (cases q)
    case (Inl e)
    with run a 1 show ?thesis by (simp add: with_guard_def mbind_run)
  next
    case (Inr c)
    obtain r2 w2 where f: "f c w1 = (r2, w2)" by force
    with run a Inr have w': "w' = my_release c w2" by (simp add: with_guard_def mbind_run mfinally_run)
    have "R w1 w2" using keepsD [OF assms f] .
    moreover have "R w2 w'" unfolding w' by (intro same) (simp add: same_store_def)
    ultimately show ?thesis using 1 frame_trans by blast
  qed
qed

lemma query_keeps: "keeps R (queryRows q)"
proof (rule keepsI)
  fix w r w' assume run: "queryRows q w = (r, w')"
  obtain ev es where "next_event w = (Inr ev, w\<lparr>m_events := es\<rparr>)" by (rule next_event_run)
  with run have "same_store w w'"
    by (auto simp: queryRows_def run_simps same_store_def split: sql_event.splits)
  then show "R w w'" by (rule same)
qed

lemma first_row_keeps: "keeps R (first_row parse rows)"
  unfolding first_row_def by (intro keeps_rules)

lemmas store_rules = guarded_keeps query_keeps first_row_keeps keeps_rules

lemma reads_keep:
  "keeps R (getUserByUserId L user_id)" "keeps R (getUserByUsername L username)"
  "keeps R (isUserRealAuthCompleted L user_id)"
  "keeps R (getOrderBySn L order_sn)" "keeps R (getAccountById L account_id)"
  "keeps R (getActivePaymentSessionByOrderSn L now order_sn)"
  "keeps R (getPaymentSessionById L payment_session_id)"
  "keeps R (getPaymentAttemptByRequestId L request_id)"
  unfolding operation_defs by (intro store_rules)+

end

interpretation same: store_frame same_store
  by unfold_locales (auto simp: same_store_def)

interpretation runs: store_frame "runs L"
proof unfold_locales
  show "runs L w w" for w by (simp add: runs_def)
  show "runs L u w" if "runs L u v" "runs L v w" for u v w
    using that db_steps_ok [of L "m_db u" "m_db v"] rtranclp_trans [of "db_step L" "m_db u" "m_db v" "m_db w"]
    by (auto simp: runs_def)
  show "runs L w w'" if "same_store w w'" for w w'
    using that by (auto simp: runs_def same_store_def)
qed

section \<open>Statements\<close>

text \<open>A statement whose reply will be lost after the server executed it is still to come.\<close>

definition lossy :: "mysql \<Rightarrow> bool" where
  "lossy w \<longleftrightarrow> (\<exists>e. SqlFailAfter e \<in> set (m_events w))"

lemma next_event_fits:
  obtains e es where "next_event w = (Inr e, w\<lparr>m_events := es\<rparr>)" and "set es \<subseteq> set (m_events w)"
    and "e \<noteq> SqlOk \<Longrightarrow> e \<in> set (m_events w)"
proof (cases "m_events w")
  case Nil
  then have "next_event w = (Inr SqlOk, w\<lparr>m_events := m_events w\<rparr>)" by (simp add: next_event_def)
  then show thesis by (rule that) simp_all
next
  case (Cons b bs)
  then have "next_event w = (Inr b, w\<lparr>m_events := bs\<rparr>)" by (simp add: next_event_def)
  then show thesis by (rule that) (auto simp: Cons)
qed

text \<open>Statements consume events and add none.\<close>

definition event_suffix :: "mysql \<Rightarrow> mysql \<Rightarrow> bool" where
  "event_suffix w w' \<longleftrightarrow> set (m_events w') \<subseteq> set (m_events w)"

lemma suffix_lossy: "event_suffix w w' \<Longrightarrow> lossy w' \<Longrightarrow> lossy w"
  by (auto simp: event_suffix_def lossy_def)

lemma executeAffected_cases:
  assumes "executeAffected st w = (r, w')"
  shows "m_txn w' = m_txn w \<and> event_suffix w w' \<and> (case r of
      Inr x \<Rightarrow> st (m_db w) = Inr (x, m_db w')
    | Inl _ \<Rightarrow> m_db w' = m_db w \<or> (\<exists>x. st (m_db w) = Inr (x, m_db w')))"
proof -
  obtain ev es where "next_event w = (Inr ev, w\<lparr>m_events := es\<rparr>)" "set es \<subseteq> set (m_events w)"
    by (rule next_event_fits)
  with assms show ?thesis
    by (cases ev; cases "st (m_db w)") (auto simp: executeAffected_def mbind_run event_suffix_def)
qed

lemma executeAffected_runs:
  assumes "\<And>d x d'. st d = Inr (x, d') \<Longrightarrow> db_step L d d'"
  shows "keeps (runs L) (executeAffected st)"
proof (rule keepsI)
  fix w r w' assume "executeAffected st w = (r, w')"
  from executeAffected_cases [OF this] have "m_txn w' = m_txn w"
    and "m_db w' = m_db w \<or> (\<exists>x. st (m_db w) = Inr (x, m_db w'))"
    by (auto split: sum.splits)
  then show "runs L w w'" using assms by (auto simp: runs_def)
qed

lemma execute_runs:
  "(\<And>d x d'. st d = Inr (x, d') \<Longrightarrow> db_step L d d') \<Longrightarrow> keeps (runs L) (execute st)"
  unfolding execute_def by (intro runs.keeps_rules executeAffected_runs)

lemma operations_run:
  "keeps (runs L) (updateUserRealAuthProfile L ru)"
  "keeps (runs L) (createPaymentSession L now cs)"
  "keeps (runs L) (createPaymentAttemptProcessing L now ca)"
  "keeps (runs L) (updatePaymentAttemptResult L now request_id result reason)"
  "keeps (runs L) (expireTimeoutPaymentSessions now)"
  unfolding operation_defs
  by (intro runs.store_rules execute_runs executeAffected_runs;
      auto intro: db_step.real_auth db_step.new_session db_step.new_attempt db_step.set_attempt db_step.expire)+

section \<open>The outcome of the payment transaction\<close>

definition marked :: "lib \<Rightarrow> string \<Rightarrow> db \<Rightarrow> db \<Rightarrow> bool" where
  "marked L request_id d d' \<longleftrightarrow> d' = d \<or>
     (\<exists>now reason n. update_attempt L now request_id AttemptFailed reason d = Inr (n, d'))"

definition already_paid :: "lib \<Rightarrow> PaymentFinalizeInput \<Rightarrow> db \<Rightarrow> bool" where
  "already_paid L i d \<longleftrightarrow>
     (\<exists>t\<in>set (attempts d). col_eq L (t_request_id t) (pf_request_id i) \<and> t_result t = 1)"

text \<open>What the body may do, started with \<open>m_db = d\<close> inside a transaction opened on \<open>d\<close>.\<close>

definition body_ok :: "lib \<Rightarrow> int \<Rightarrow> PaymentFinalizeInput \<Rightarrow> db \<Rightarrow> bool \<Rightarrow> exn + bool \<Rightarrow> mysql \<Rightarrow> bool" where
  "body_ok L now i d lost r w' \<longleftrightarrow> (case r of
      Inr b \<Rightarrow> m_txn w' = None \<and>
        (if b then paid L now i d (m_db w') \<or> already_paid L i d \<and> m_db w' = d
         else marked L (pf_request_id i) d (m_db w'))
    | Inl _ \<Rightarrow> m_txn w' = Some d \<or> m_txn w' = None \<and> (m_db w' = d \<or> lost \<and> paid L now i d (m_db w')))"

definition stage :: "lib \<Rightarrow> int \<Rightarrow> PaymentFinalizeInput \<Rightarrow> db \<Rightarrow> bool \<Rightarrow> (mysql, bool) comp \<Rightarrow> bool" where
  "stage L now i d lost k \<longleftrightarrow>
     (\<forall>w r w'. m_txn w = Some d \<longrightarrow> m_db w = d \<longrightarrow> (lossy w \<longrightarrow> lost) \<longrightarrow> k w = (r, w') \<longrightarrow> body_ok L now i d lost r w')"

lemma stageI:
  "(\<And>w r w'. m_txn w = Some d \<Longrightarrow> m_db w = d \<Longrightarrow> (lossy w \<Longrightarrow> lost) \<Longrightarrow> k w = (r, w') \<Longrightarrow> body_ok L now i d lost r w') \<Longrightarrow>
   stage L now i d lost k"
  by (simp add: stage_def)

lemma stageD:
  "stage L now i d lost k \<Longrightarrow> m_txn w = Some d \<Longrightarrow> m_db w = d \<Longrightarrow> (lossy w \<Longrightarrow> lost) \<Longrightarrow> k w = (r, w') \<Longrightarrow> body_ok L now i d lost r w'"
  by (simp add: stage_def)

lemma mark_run:
  assumes "markAttemptFailedNoThrow L now request_id reason w = (r, w')"
  shows "r = Inr () \<and> m_txn w' = m_txn w \<and> marked L request_id (m_db w) (m_db w')"
proof -
  have "m_txn w' = m_txn w \<and> marked L request_id (m_db w) (m_db w')"
  proof -
    define R :: "mysql \<Rightarrow> mysql \<Rightarrow> bool" where "R = (\<lambda>u v. m_txn v = m_txn u \<and> (m_db v = m_db u \<or>
      (\<exists>n. update_attempt L now request_id AttemptFailed reason (m_db u) = Inr (n, m_db v))))"
    obtain q w1 where a: "my_acquire w = (q, w1)" by force
    have s: "m_db w1 = m_db w" "m_txn w1 = m_txn w"
      using acquire_store [OF a] by (auto simp: same_store_def)
    obtain q2 w2 where e: "executeAffected (update_attempt L now request_id AttemptFailed reason) w1 = (q2, w2)"
      by force
    from executeAffected_cases [OF e] have "R w w2"
      by (auto simp: R_def s split: sum.splits)
    moreover have "w' = w1 \<or> (\<exists>c. w' = my_release c w2)"
      using assms a e
      by (cases q; cases q2)
         (auto simp: markAttemptFailedNoThrow_def updatePaymentAttemptResult_def with_guard_def run_simps)
    ultimately show ?thesis using s by (auto simp: R_def marked_def)
  qed
  moreover have "r = Inr ()"
    using assms by (auto simp: markAttemptFailedNoThrow_def run_simps split: prod.splits sum.splits)
  ultimately show ?thesis by simp
qed

lemma reject_run:
  assumes "finalize_reject L now i reason w = (r, w')"
  shows "r = Inr False \<and> m_txn w' = None \<and>
    marked L (pf_request_id i) (case m_txn w of Some d \<Rightarrow> d | None \<Rightarrow> m_db w) (m_db w')"
proof -
  obtain es where rb: "rollback w = (Inr (), undo (w\<lparr>m_events := es\<rparr>))" by (rule rollback_run)
  obtain q w1 where mk: "markAttemptFailedNoThrow L now (pf_request_id i) reason (undo (w\<lparr>m_events := es\<rparr>)) = (q, w1)"
    by force
  have "m_db (undo (w\<lparr>m_events := es\<rparr>)) = (case m_txn w of Some d \<Rightarrow> d | None \<Rightarrow> m_db w)"
    by (auto simp: undo_def split: option.splits)
  with assms rb mk mark_run [OF mk] show ?thesis
    by (auto simp: finalize_reject_def run_simps)
qed

lemma stage_reject: "stage L now i d lost (finalize_reject L now i reason)"
  by (rule stageI) (auto simp: body_ok_def dest!: reject_run)

lemma stage_throw: "stage L now i d lost (mthrow e)"
  by (rule stageI) (auto simp: mthrow_run body_ok_def)

lemma stage_rollback: "stage L now i d lost (mbind rollback (\<lambda>_. mret False))"
proof (rule stageI)
  fix w r w'
  assume w: "m_txn w = Some d" "m_db w = d" and run: "mbind rollback (\<lambda>_. mret False) w = (r, w')"
  obtain es where "rollback w = (Inr (), undo (w\<lparr>m_events := es\<rparr>))" by (rule rollback_run)
  with w run show "body_ok L now i d lost r w'" by (auto simp: run_simps body_ok_def marked_def)
qed

lemma commit_cases:
  assumes "commit w = (r, w')"
  shows "m_db w' = m_db w \<and> (m_txn w' = None \<and> (isl r \<longrightarrow> lossy w) \<or> isl r \<and> m_txn w' = m_txn w)"
proof -
  obtain ev es where "next_event w = (Inr ev, w\<lparr>m_events := es\<rparr>)" "ev \<noteq> SqlOk \<Longrightarrow> ev \<in> set (m_events w)"
    using next_event_fits [of w thesis] by blast
  with assms show ?thesis by (cases ev) (auto simp: commit_def run_simps lossy_def)
qed

text \<open>The last call of the body: the changes made so far are committed, or the commit fails.\<close>

lemma commit_ok:
  assumes "m_txn w = Some d" and "paid L now i d (m_db w) \<or> already_paid L i d \<and> m_db w = d"
    and "lossy w \<Longrightarrow> lost" and "mbind commit (\<lambda>_. mret True) w = (r, w')"
  shows "body_ok L now i d lost r w'"
proof -
  obtain q w1 where c: "commit w = (q, w1)" by force
  from commit_cases [OF c] assms c show ?thesis
    by (cases q) (auto simp: run_simps body_ok_def)
qed

lemma stage_query:
  assumes "stage L now i d lost (f (q d))"
  shows "stage L now i d lost (mbind (queryRows q) f)"
proof (rule stageI)
  fix w r w'
  assume w: "m_txn w = Some d" "m_db w = d" and l: "lossy w \<Longrightarrow> lost"
    and run: "mbind (queryRows q) f w = (r, w')"
  obtain ev es where ev: "next_event w = (Inr ev, w\<lparr>m_events := es\<rparr>)" and es: "set es \<subseteq> set (m_events w)"
    by (rule next_event_fits)
  show "body_ok L now i d lost r w'"
  proof (cases ev)
    case SqlOk
    with ev run w have "f (q d) (w\<lparr>m_events := es\<rparr>) = (r, w')"
      by (simp add: queryRows_def run_simps)
    moreover have "lossy (w\<lparr>m_events := es\<rparr>) \<Longrightarrow> lost"
      using l suffix_lossy [of w "w\<lparr>m_events := es\<rparr>"] es by (simp add: event_suffix_def)
    ultimately show ?thesis using w by (intro stageD [OF assms, of "w\<lparr>m_events := es\<rparr>"]) simp_all
  next
    case (SqlFail e)
    with ev run w show ?thesis by (auto simp: queryRows_def run_simps body_ok_def)
  next
    case (SqlFailAfter e)
    with ev run w show ?thesis by (auto simp: queryRows_def run_simps body_ok_def)
  qed
qed

lemma mlift_Inr: "mbind (mlift (Inr x)) f = f x"
  by (simp add: fun_eq_iff mbind_run mlift_run)

lemma select_all_first:
  "select_all cols table p d = row # rows \<Longrightarrow> \<exists>r\<in>set (table d). p r \<and> row = cols r"
  by (auto simp: select_all_def filter_eq_Cons_iff map_eq_Cons_conv)

lemma select1_first:
  "select1 cols table p d = row # rows \<Longrightarrow> \<exists>r\<in>set (table d). p r \<and> row = cols r"
proof -
  assume "select1 cols table p d = row # rows"
  then obtain r rs where "filter p (table d) = r # rs" and row: "row = cols r"
    by (cases "filter p (table d)") (auto simp: select1_def)
  then have "r \<in> set (filter p (table d))" by simp
  with row show ?thesis by auto
qed

lemma toInt64_nth: "k < length row \<Longrightarrow> bigint i \<Longrightarrow> row ! k = to_string i \<Longrightarrow> toInt64 row k = Inr i"
  by (simp add: toInt64_def row_get_def)


section \<open>The stages of the transaction\<close>

text \<open>What the guards of each stage establish of the database.\<close>

definition session_locked :: "lib \<Rightarrow> PaymentFinalizeInput \<Rightarrow> db \<Rightarrow> bool" where
  "session_locked L i d \<longleftrightarrow> (\<exists>s\<in>set (sessions d). pay_session_where L i s \<and> s_order_sn s = pf_order_sn i \<and>
     s_account_id s = pf_account_id i \<and> s_buyer_id s = pf_buyer_id i)"

definition order_locked :: "lib \<Rightarrow> PaymentFinalizeInput \<Rightarrow> db \<Rightarrow> bool" where
  "order_locked L i d \<longleftrightarrow> (\<exists>r\<in>set (orders d). pay_order_where L i r \<and> o_account_id r = pf_account_id i \<and>
     o_buyer_id r = pf_buyer_id i \<and> o_price r = pf_price i)"

definition account_locked :: "lib \<Rightarrow> PaymentFinalizeInput \<Rightarrow> db \<Rightarrow> bool" where
  "account_locked L i d \<longleftrightarrow> (\<exists>a\<in>set (accounts d). pay_account_where L i a)"

definition attempt_locked :: "lib \<Rightarrow> PaymentFinalizeInput \<Rightarrow> db \<Rightarrow> bool" where
  "attempt_locked L i d \<longleftrightarrow> (\<exists>t\<in>set (attempts d). col_eq L (t_request_id t) (pf_request_id i) \<and>
     t_payment_session_id t = pf_payment_session_id i \<and> t_order_sn t = pf_order_sn i \<and>
     t_account_id t = pf_account_id i \<and> t_buyer_id t = pf_buyer_id i)"

definition user_verified :: "lib \<Rightarrow> PaymentFinalizeInput \<Rightarrow> db \<Rightarrow> bool" where
  "user_verified L i d \<longleftrightarrow> (\<exists>u\<in>set (users d). col_eq L (u_user_id u) (pf_buyer_id i) \<and> u_status u = 0 \<and>
     u_real_auth_completed u = 1 \<and> or_empty (u_email_hash u) \<noteq> [] \<and> or_empty (u_id_card_hash u) \<noteq> [])"

lemmas locked_defs = session_locked_def order_locked_def account_locked_def attempt_locked_def
  user_verified_def

lemma rows_ok:
  assumes "db_ok L d"
  shows "s \<in> set (sessions d) \<Longrightarrow> tinyint (s_status s)"
    and "r \<in> set (orders d) \<Longrightarrow> tinyint (o_status r) \<and> sql_int (o_price r)"
    and "a \<in> set (accounts d) \<Longrightarrow> tinyint (a_status a)"
    and "t \<in> set (attempts d) \<Longrightarrow> tinyint (t_result t)"
    and "u \<in> set (users d) \<Longrightarrow> tinyint (u_status u) \<and> tinyint (u_real_auth_completed u)"
  using assms
  by (auto simp: db_ok_def list_all_iff session_row_ok_def order_row_ok_def account_row_ok_def
      attempt_row_ok_def user_row_ok_def)

lemma toInt64_simps [simp]: "bigint i \<Longrightarrow> toInt64 (to_string i # xs) 0 = Inr i"
  "toInt64 (x # xs) (Suc k) = toInt64 xs k" "row_get (x # xs) 0 = x" "row_get (x # xs) (Suc k) = row_get xs k"
  by (simp_all add: toInt64_def row_get_def)

text \<open>The rows the stages read, by table: the columns of the row with the key.\<close>

abbreviation session_selected :: "lib \<Rightarrow> PaymentFinalizeInput \<Rightarrow> db \<Rightarrow> string list list" where
  "session_selected L i \<equiv> select_all (\<lambda>r. [s_payment_session_id r, s_order_sn r, s_account_id r, s_buyer_id r,
      to_string (s_status r), date_format L (s_expire_at r)])
     sessions (\<lambda>r. col_eq L (s_payment_session_id r) (pf_payment_session_id i))"

abbreviation order_selected :: "lib \<Rightarrow> PaymentFinalizeInput \<Rightarrow> db \<Rightarrow> string list list" where
  "order_selected L i \<equiv> select_all
     (\<lambda>r. [to_string (o_status r), o_account_id r, o_buyer_id r, to_string (o_price r)])
     orders (\<lambda>r. col_eq L (o_order_sn r) (pf_order_sn i))"

abbreviation account_selected :: "lib \<Rightarrow> PaymentFinalizeInput \<Rightarrow> db \<Rightarrow> string list list" where
  "account_selected L i \<equiv> select_all (\<lambda>r. [to_string (a_status r), to_string (a_version r)])
     accounts (\<lambda>r. col_eq L (a_account_id r) (pf_account_id i))"

abbreviation attempt_selected :: "lib \<Rightarrow> PaymentFinalizeInput \<Rightarrow> db \<Rightarrow> string list list" where
  "attempt_selected L i \<equiv> select_all
     (\<lambda>r. [to_string (t_result r), t_payment_session_id r, t_order_sn r, t_account_id r, t_buyer_id r])
     attempts (\<lambda>r. col_eq L (t_request_id r) (pf_request_id i))"

abbreviation user_selected :: "lib \<Rightarrow> PaymentFinalizeInput \<Rightarrow> db \<Rightarrow> string list list" where
  "user_selected L i \<equiv> select1 (\<lambda>r. [to_string (u_status r), to_string (u_real_auth_completed r),
      or_empty (u_email_hash r), or_empty (u_id_card_hash r)])
     users (\<lambda>r. col_eq L (u_user_id r) (pf_buyer_id i))"

lemma session_row_read:
  assumes "db_ok L d" and "session_selected L i d = row # rows"
  obtains s where "s \<in> set (sessions d)" "col_eq L (s_payment_session_id s) (pf_payment_session_id i)"
    and "toInt64 row 4 = Inr (s_status s)" "to_int (s_status s) = s_status s"
      "row_get row 1 = s_order_sn s" "row_get row 2 = s_account_id s" "row_get row 3 = s_buyer_id s"
proof -
  from select_all_first [OF assms(2)] obtain s where s: "s \<in> set (sessions d)"
      "col_eq L (s_payment_session_id s) (pf_payment_session_id i)"
    and row: "row = [s_payment_session_id s, s_order_sn s, s_account_id s, s_buyer_id s,
      to_string (s_status s), date_format L (s_expire_at s)]"
    by auto
  then show thesis
    using rows_ok(1) [OF assms(1) s(1)] by (intro that [of s]) (simp_all add: row eval_nat_numeral to_int_small)
qed

lemma order_row_read:
  assumes "db_ok L d" and "order_selected L i d = row # rows"
  obtains r where "r \<in> set (orders d)" "col_eq L (o_order_sn r) (pf_order_sn i)"
    and "toInt64 row 0 = Inr (o_status r)" "toInt64 row 3 = Inr (o_price r)"
      "to_int (o_status r) = o_status r" "row_get row 1 = o_account_id r" "row_get row 2 = o_buyer_id r"
proof -
  from select_all_first [OF assms(2)] obtain r where r: "r \<in> set (orders d)"
      "col_eq L (o_order_sn r) (pf_order_sn i)"
    and row: "row = [to_string (o_status r), o_account_id r, o_buyer_id r, to_string (o_price r)]"
    by auto
  then show thesis
    using rows_ok(2) [OF assms(1) r(1)] by (intro that [of r]) (simp_all add: row eval_nat_numeral to_int_small)
qed

lemma account_row_read:
  assumes "db_ok L d" and "account_selected L i d = row # rows"
  obtains a where "a \<in> set (accounts d)" "col_eq L (a_account_id a) (pf_account_id i)"
    and "toInt64 row 0 = Inr (a_status a)" "to_int (a_status a) = a_status a"
proof -
  from select_all_first [OF assms(2)] obtain a where a: "a \<in> set (accounts d)"
      "col_eq L (a_account_id a) (pf_account_id i)"
    and row: "row = [to_string (a_status a), to_string (a_version a)]"
    by auto
  then show thesis
    using rows_ok(3) [OF assms(1) a(1)] by (intro that [of a]) (simp_all add: row eval_nat_numeral to_int_small)
qed

lemma attempt_row_read:
  assumes "db_ok L d" and "attempt_selected L i d = row # rows"
  obtains t where "t \<in> set (attempts d)" "col_eq L (t_request_id t) (pf_request_id i)"
    and "toInt64 row 0 = Inr (t_result t)" "to_int (t_result t) = t_result t"
      "row_get row 1 = t_payment_session_id t" "row_get row 2 = t_order_sn t"
      "row_get row 3 = t_account_id t" "row_get row 4 = t_buyer_id t"
proof -
  from select_all_first [OF assms(2)] obtain t where t: "t \<in> set (attempts d)"
      "col_eq L (t_request_id t) (pf_request_id i)"
    and row: "row = [to_string (t_result t), t_payment_session_id t, t_order_sn t, t_account_id t, t_buyer_id t]"
    by auto
  then show thesis
    using rows_ok(4) [OF assms(1) t(1)] by (intro that [of t]) (simp_all add: row eval_nat_numeral to_int_small)
qed

lemma user_row_read:
  assumes "db_ok L d" and "user_selected L i d = row # rows"
  obtains u where "u \<in> set (users d)" "col_eq L (u_user_id u) (pf_buyer_id i)"
    and "toInt64 row 0 = Inr (u_status u)" "toInt64 row 1 = Inr (u_real_auth_completed u)"
      "to_int (u_status u) = u_status u" "to_int (u_real_auth_completed u) = u_real_auth_completed u"
      "row_get row 2 = or_empty (u_email_hash u)" "row_get row 3 = or_empty (u_id_card_hash u)"
proof -
  from select1_first [OF assms(2)] obtain u where u: "u \<in> set (users d)"
      "col_eq L (u_user_id u) (pf_buyer_id i)"
    and row: "row = [to_string (u_status u), to_string (u_real_auth_completed u),
      or_empty (u_email_hash u), or_empty (u_id_card_hash u)]"
    by auto
  then show thesis
    using rows_ok(5) [OF assms(1) u(1)] by (intro that [of u]) (simp_all add: row eval_nat_numeral to_int_small)
qed

lemma stage_session:
  assumes ok: "db_ok L d" and k: "session_locked L i d \<Longrightarrow> stage L now i d lost k"
  shows "stage L now i d lost (finalize_session L now i k)"
  unfolding finalize_session_def
proof (rule stage_query, split list.split, intro conjI allI impI stage_reject, goal_cases)
  case (1 row rows)
  show ?case
    by (rule session_row_read [OF ok 1]) (auto intro!: stage_reject k simp: mlift_Inr session_locked_def pay_session_where_def)
qed

lemma stage_order:
  assumes ok: "db_ok L d" and k: "order_locked L i d \<Longrightarrow> stage L now i d lost k"
  shows "stage L now i d lost (finalize_order L now i k)"
  unfolding finalize_order_def
proof (rule stage_query, split list.split, intro conjI allI impI stage_reject, goal_cases)
  case (1 row rows)
  show ?case
    by (rule order_row_read [OF ok 1]) (auto intro!: stage_reject k simp: mlift_Inr order_locked_def pay_order_where_def)
qed

lemma stage_account:
  assumes ok: "db_ok L d" and k: "account_locked L i d \<Longrightarrow> stage L now i d lost k"
  shows "stage L now i d lost (finalize_account L now i k)"
  unfolding finalize_account_def
proof (rule stage_query, split list.split, intro conjI allI impI stage_reject, goal_cases)
  case (1 row rows)
  show ?case
    by (rule account_row_read [OF ok 1]) (auto intro!: stage_reject k simp: mlift_Inr account_locked_def pay_account_where_def)
qed

lemma stage_commit:
  assumes "already_paid L i d"
  shows "stage L now i d lost (mbind commit (\<lambda>_. mret True))"
  by (rule stageI, rule commit_ok) (simp_all add: assms)

lemma stage_attempt:
  assumes ok: "db_ok L d" and k: "attempt_locked L i d \<Longrightarrow> stage L now i d lost k"
  shows "stage L now i d lost (finalize_attempt L now i k)"
  unfolding finalize_attempt_def
proof (rule stage_query, split list.split, intro conjI allI impI stage_rollback, goal_cases)
  case (1 row rows)
  show ?case
    by (rule attempt_row_read [OF ok 1]) (auto intro!: stage_reject stage_rollback stage_commit k simp: mlift_Inr attempt_locked_def already_paid_def)
qed

lemma stage_user:
  assumes ok: "db_ok L d" and k: "user_verified L i d \<Longrightarrow> stage L now i d lost k"
  shows "stage L now i d lost (finalize_user L now i k)"
  unfolding finalize_user_def
proof (rule stage_query, split list.split, intro conjI allI impI stage_reject, goal_cases)
  case (1 row rows)
  show ?case
    by (rule user_row_read [OF ok 1]) (auto intro!: stage_reject k simp: mlift_Inr user_verified_def)
qed

text \<open>
  The four updates with the affected-rows test and the commit. \<open>updating d lost e w\<close>: inside the
  transaction opened on \<open>d\<close>, the database is now \<open>e\<close>.
\<close>

definition updating :: "db \<Rightarrow> bool \<Rightarrow> db \<Rightarrow> mysql \<Rightarrow> bool" where
  "updating d lost e w \<longleftrightarrow> m_txn w = Some d \<and> m_db w = e \<and> (lossy w \<longrightarrow> lost)"

lemma update_then:
  assumes run: "mbind (executeAffected st) f w = (r, w')" and w: "updating d lost e w"
    and cont: "\<And>n e' w1. st e = Inr (n, e') \<Longrightarrow> updating d lost e' w1 \<Longrightarrow> f n w1 = (r, w') \<Longrightarrow> body_ok L now i d lost r w'"
  shows "body_ok L now i d lost r w'"
proof -
  obtain q w1 where e: "executeAffected st w = (q, w1)" by force
  from executeAffected_cases [OF e] have c: "m_txn w1 = Some d" "lossy w1 \<longrightarrow> lost"
    "case q of Inr x \<Rightarrow> st (m_db w) = Inr (x, m_db w1) | Inl _ \<Rightarrow> True"
    using w suffix_lossy [of w w1] by (auto simp: updating_def split: sum.splits)
  show ?thesis
  proof (cases q)
    case (Inl x)
    with run e c show ?thesis by (auto simp: mbind_run body_ok_def)
  next
    case (Inr n)
    with run e have "f n w1 = (r, w')" by (simp add: mbind_run)
    with Inr c w show ?thesis by (intro cont [of n "m_db w1" w1]) (auto simp: updating_def)
  qed
qed

lemma paid_from_guards:
  assumes ok: "db_ok L d"
    and locked: "session_locked L i d" "order_locked L i d" "account_locked L i d" "attempt_locked L i d"
      "user_verified L i d"
    and room: "\<forall>a\<in>set (accounts d). pay_account_where L i a \<longrightarrow> sql_int (a_version a + 1)"
    and one: "changed_rows (pay_attempt_where L i) (pay_attempt_set now) (attempts d) = 1"
  shows "paid L now i d (pay_db L now i d)"
proof -
  from one obtain t' where t': "t' \<in> set (attempts d)" "pay_attempt_where L i t'"
  proof -
    have "\<not> (\<forall>t\<in>set (attempts d). \<not> pay_attempt_where L i t)"
      using one changed_rows_none [of "attempts d" "pay_attempt_where L i" "pay_attempt_set now"] by auto
    with that show thesis by blast
  qed
  obtain t where t: "t \<in> set (attempts d)" "col_eq L (t_request_id t) (pf_request_id i)"
    "t_payment_session_id t = pf_payment_session_id i" "t_order_sn t = pf_order_sn i"
    "t_account_id t = pf_account_id i" "t_buyer_id t = pf_buyer_id i"
    using locked(4) by (auto simp: attempt_locked_def)
  have "unique_key L t_request_id (attempts d)" using ok by (simp add: db_ok_def)
  then have "t' = t" using t t' by (auto simp: pay_attempt_where_def intro: unique_keyD)
  with t t' have "\<exists>t\<in>set (attempts d). pay_attempt_where L i t \<and> t_payment_session_id t = pf_payment_session_id i \<and>
      t_order_sn t = pf_order_sn i \<and> t_account_id t = pf_account_id i \<and> t_buyer_id t = pf_buyer_id i"
    by blast
  moreover have "\<exists>a\<in>set (accounts d). pay_account_where L i a \<and> sql_int (a_version a + 1)"
    using locked(3) room by (auto simp: account_locked_def)
  ultimately show ?thesis
    using locked by (simp add: paid_def can_pay_def locked_defs)
qed

lemma stage_update:
  assumes ok: "db_ok L d"
    and locked: "session_locked L i d" "order_locked L i d" "account_locked L i d" "attempt_locked L i d"
      "user_verified L i d"
  shows "stage L now i d lost (finalize_update L now i)"
proof (rule stageI)
  fix w r w'
  assume w: "m_txn w = Some d" "m_db w = d" and l: "lossy w \<Longrightarrow> lost" and run: "finalize_update L now i w = (r, w')"
  let ?o = "pay_order L now i d"
  let ?d1 = "d\<lparr>orders := update_rows (pay_order_where L i) (pay_order_set now) (orders d)\<rparr>"
  let ?d2 = "?d1\<lparr>accounts := update_rows (pay_account_where L i) (pay_account_set now) (accounts d)\<rparr>"
  let ?d3 = "?d2\<lparr>sessions := update_rows (pay_session_where L i) (pay_session_set now) (sessions d)\<rparr>"
  let ?d4 = "?d3\<lparr>attempts := update_rows (pay_attempt_where L i) (pay_attempt_set now) (attempts d)\<rparr>"
  have final: "?d4 = pay_db L now i d" by (simp add: pay_db_def)
  show "body_ok L now i d lost r w'"
    using run unfolding finalize_update_def
  proof (rule update_then [where e = d])
    show "updating d lost d w" using w l by (simp add: updating_def)
  next
    fix n1 e1 w1
    assume 1: "pay_order L now i d = Inr (n1, e1)" "updating d lost e1 w1"
    then have e1: "e1 = ?d1" by (simp add: pay_order_def)
    assume "mbind (executeAffected (pay_account L now i)) (\<lambda>account_affected.
      mbind (executeAffected (pay_session L now i)) (\<lambda>session_affected.
      mbind (executeAffected (pay_attempt L now i)) (\<lambda>attempt_affected.
        if n1 \<noteq> 1 \<or> account_affected \<noteq> 1 \<or> session_affected \<noteq> 1 \<or> attempt_affected \<noteq> 1
        then finalize_reject L now i ''PAYMENT_STATE_UPDATE_FAILED''
        else mbind commit (\<lambda>_. mret True)))) w1 = (r, w')"
    then show ?thesis
    proof (rule update_then [OF _ 1(2)])
      fix n2 e2 w2
      assume 2: "pay_account L now i e1 = Inr (n2, e2)" "updating d lost e2 w2"
      then have e2: "e2 = ?d2" and room: "\<forall>a\<in>set (accounts d). pay_account_where L i a \<longrightarrow> sql_int (a_version a + 1)"
        by (auto simp: pay_account_def e1 split: if_splits)
      assume "mbind (executeAffected (pay_session L now i)) (\<lambda>session_affected.
        mbind (executeAffected (pay_attempt L now i)) (\<lambda>attempt_affected.
          if n1 \<noteq> 1 \<or> n2 \<noteq> 1 \<or> session_affected \<noteq> 1 \<or> attempt_affected \<noteq> 1
          then finalize_reject L now i ''PAYMENT_STATE_UPDATE_FAILED''
          else mbind commit (\<lambda>_. mret True))) w2 = (r, w')"
      then show ?thesis
      proof (rule update_then [OF _ 2(2)])
        fix n3 e3 w3
        assume 3: "pay_session L now i e2 = Inr (n3, e3)" "updating d lost e3 w3"
        then have e3: "e3 = ?d3" by (simp add: pay_session_def e2)
        assume "mbind (executeAffected (pay_attempt L now i)) (\<lambda>attempt_affected.
            if n1 \<noteq> 1 \<or> n2 \<noteq> 1 \<or> n3 \<noteq> 1 \<or> attempt_affected \<noteq> 1
            then finalize_reject L now i ''PAYMENT_STATE_UPDATE_FAILED''
            else mbind commit (\<lambda>_. mret True)) w3 = (r, w')"
        then show ?thesis
        proof (rule update_then [OF _ 3(2)])
          fix n4 e4 w4
          assume 4: "pay_attempt L now i e3 = Inr (n4, e4)" "updating d lost e4 w4"
          then have e4: "e4 = pay_db L now i d"
            and n4: "n4 = changed_rows (pay_attempt_where L i) (pay_attempt_set now) (attempts d)"
            by (auto simp: pay_attempt_def e3 final [symmetric])
          assume last: "(if n1 \<noteq> 1 \<or> n2 \<noteq> 1 \<or> n3 \<noteq> 1 \<or> n4 \<noteq> 1
            then finalize_reject L now i ''PAYMENT_STATE_UPDATE_FAILED''
            else mbind commit (\<lambda>_. mret True)) w4 = (r, w')"
          have txn: "m_txn w4 = Some d" "m_db w4 = pay_db L now i d" "lossy w4 \<longrightarrow> lost" using 4(2) e4 by (auto simp: updating_def)
          show ?thesis
          proof (cases "n1 \<noteq> 1 \<or> n2 \<noteq> 1 \<or> n3 \<noteq> 1 \<or> n4 \<noteq> 1")
            case True
            with last have "finalize_reject L now i ''PAYMENT_STATE_UPDATE_FAILED'' w4 = (r, w')"
              by (simp only: if_True)
            from reject_run [OF this] txn show ?thesis by (simp add: body_ok_def)
          next
            case False
            then have "n4 = 1" by simp
            with n4 have "paid L now i d (m_db w4)"
              using paid_from_guards [OF ok locked room] txn by simp
            moreover from False last have "mbind commit (\<lambda>_. mret True) w4 = (r, w')"
              by (simp only: if_False)
            ultimately show ?thesis using txn by (intro commit_ok) simp_all
          qed
        qed
      qed
    qed
  qed
qed

lemma body_outcome:
  assumes ok: "db_ok L d"
  shows "stage L now i d lost (finalize_session L now i (finalize_order L now i (finalize_account L now i
    (finalize_attempt L now i (finalize_user L now i (finalize_update L now i))))))"
  by (intro stage_session stage_order stage_account stage_attempt stage_user stage_update ok)

text \<open>
  What \<open>finalizePaymentSuccess\<close> may do to a database \<open>d\<close>; \<open>lost\<close> says that a reply was lost.
\<close>

definition outcome :: "lib \<Rightarrow> int \<Rightarrow> PaymentFinalizeInput \<Rightarrow> db \<Rightarrow> bool \<Rightarrow> exn + bool \<Rightarrow> db \<Rightarrow> bool" where
  "outcome L now i d lost r d' \<longleftrightarrow> (case r of
      Inl _ \<Rightarrow> d' = d
    | Inr True \<Rightarrow> paid L now i d d' \<or> already_paid L i d \<and> d' = d
    | Inr False \<Rightarrow> marked L (pf_request_id i) d d' \<or>
        lost \<and> (\<exists>d1. paid L now i d d1 \<and> marked L (pf_request_id i) d1 d'))"

lemma body_then_catch:
  assumes ok: "db_ok L (m_db w)" and w: "m_txn w = None"
    and run: "mcatch (finalize_body L now i) (\<lambda>_. finalize_reject L now i ''PAYMENT_INTERNAL_ERROR'') w = (r, w')"
  shows "\<exists>b. r = Inr b \<and> m_txn w' = None \<and> outcome L now i (m_db w) (lossy w) r (m_db w')"
proof -
  let ?d = "m_db w"
  let ?k = "finalize_session L now i (finalize_order L now i (finalize_account L now i
    (finalize_attempt L now i (finalize_user L now i (finalize_update L now i)))))"
  obtain q w1 where b: "finalize_body L now i w = (q, w1)" by force
  obtain ev es where ev: "next_event w = (Inr ev, w\<lparr>m_events := es\<rparr>)" and es: "set es \<subseteq> set (m_events w)"
    by (rule next_event_fits)
  have body: "body_ok L now i ?d (lossy w) q w1 \<or> isl q \<and> m_txn w1 = None \<and> m_db w1 = ?d"
  proof (cases ev)
    case SqlOk
    with b ev have "?k (w\<lparr>m_events := es, m_txn := Some ?d\<rparr>) = (q, w1)"
      by (simp add: finalize_body_def begin_txn_def run_simps)
    moreover have "lossy (w\<lparr>m_events := es, m_txn := Some ?d\<rparr>) \<Longrightarrow> lossy w"
      using es by (auto simp: lossy_def)
    ultimately show ?thesis
      using stageD [OF body_outcome [OF ok], of "w\<lparr>m_events := es, m_txn := Some ?d\<rparr>" "lossy w" now i q w1]
      by simp
  next
    case (SqlFail e)
    with b ev w show ?thesis by (auto simp: finalize_body_def begin_txn_def run_simps)
  next
    case (SqlFailAfter e)
    with b ev have "isl q" "w1 = w\<lparr>m_events := es, m_txn := Some ?d\<rparr>"
      by (auto simp: finalize_body_def begin_txn_def run_simps)
    then show ?thesis by (auto simp: body_ok_def isl_def)
  qed
  show ?thesis
  proof (cases q)
    case (Inr c)
    with run b have "r = Inr c" "w' = w1" by (simp_all add: mcatch_run)
    with Inr body show ?thesis by (cases c) (auto simp: body_ok_def outcome_def)
  next
    case (Inl e)
    with run b have "finalize_reject L now i ''PAYMENT_INTERNAL_ERROR'' w1 = (r, w')"
      by (simp add: mcatch_run)
    from reject_run [OF this] body Inl show ?thesis
      by (auto simp: body_ok_def outcome_def split: option.splits)
  qed
qed

lemma finalize_outcome:
  assumes ok: "db_ok L (m_db w)" and w: "m_txn w = None"
    and run: "finalizePaymentSuccess L now i w = (r, w')"
  shows "m_txn w' = None \<and> outcome L now i (m_db w) (lossy w) r (m_db w')"
proof -
  obtain q w1 where a: "my_acquire w = (q, w1)" by force
  have s: "m_db w1 = m_db w" "m_txn w1 = m_txn w" "lossy w1 = lossy w"
    using acquire_store [OF a] acquire_events [OF a] by (auto simp: same_store_def lossy_def)
  show ?thesis
  proof (cases q)
    case (Inl e)
    with run a s w show ?thesis
      by (auto simp: finalizePaymentSuccess_def with_guard_def mbind_run outcome_def)
  next
    case (Inr c)
    obtain r2 w2 where f: "mcatch (finalize_body L now i)
        (\<lambda>_. finalize_reject L now i ''PAYMENT_INTERNAL_ERROR'') w1 = (r2, w2)" by force
    with run a Inr have "r = r2" "w' = my_release c w2"
      by (auto simp: finalizePaymentSuccess_def with_guard_def mbind_run mfinally_run)
    with body_then_catch [OF _ _ f] ok w s show ?thesis by auto
  qed
qed

lemma marked_steps: "marked L request_id d d' \<Longrightarrow> db_steps L d d'"
  by (auto simp: marked_def intro: db_step.set_attempt)

lemma outcome_steps: "outcome L now i d lost r d' \<Longrightarrow> db_steps L d d'"
  by (auto simp: outcome_def split: sum.splits bool.splits
      intro: marked_steps db_step.pay converse_rtranclp_into_rtranclp)

lemma finalize_runs: "keeps (runs L) (finalizePaymentSuccess L now i)"
  by (rule keepsI) (auto simp: runs_def dest: finalize_outcome outcome_steps)

end
