(* ===== verification/PaymentProps.thy ===== *)
theory PaymentProps
  imports PaymentImpl MySqlRefine
begin

text \<open>
  Properties of the request handlers: they answer every request, leak no MySQL connection, and their
  effect on the database is a sequence of the abstract steps; what a PAID answer means, what a
  refusal means, and that no order is paid and no account sold twice, over any sequence of requests.
\<close>

section \<open>Frames of the world\<close>

definition on_mysql :: "(mysql \<Rightarrow> mysql \<Rightarrow> bool) \<Rightarrow> world \<Rightarrow> world \<Rightarrow> bool" where
  "on_mysql R w w' \<longleftrightarrow> R (w_mysql w) (w_mysql w')"

text \<open>A relation on the MySQL part passes through every step of a handler that it passes through.\<close>

locale mysql_frame = frame R for R :: "mysql \<Rightarrow> mysql \<Rightarrow> bool"
begin

lemma world_frame: "frame (on_mysql R)"
  by unfold_locales (auto simp: on_mysql_def frame_refl intro: frame_trans)

lemma sql_keeps: "keeps R m \<Longrightarrow> keeps (on_mysql R) (sql m)"
  by (auto simp: keeps_def on_mysql_def sql_def mzoom_def split: prod.splits) (metis snd_conv)

lemma redis_op_keeps: "keeps (on_mysql R) (redis_op m)"
  by (auto simp: keeps_def on_mysql_def redis_op_def mzoom_def frame_refl split: prod.splits)

lemma submit_keeps: "keeps (on_mysql R) (submit t)"
  by (auto simp: keeps_def on_mysql_def submit_def mzoom_def frame_refl split: prod.splits)

lemma draw_keeps: "keeps (on_mysql R) (draw n)"
  by (auto simp: keeps_def on_mysql_def draw_def run_simps frame_refl)

end

sublocale mysql_frame \<subseteq> world: frame "on_mysql R"
  by (rule world_frame)

text \<open>What a relation has to allow so that every handler keeps it.\<close>

locale handler_frame = mysql_frame R for R :: "mysql \<Rightarrow> mysql \<Rightarrow> bool" +
  fixes L :: lib
  assumes user_by_id: "keeps R (getUserByUserId L user_id)"
    and user_by_name: "keeps R (getUserByUsername L username)"
    and order_by_sn: "keeps R (getOrderBySn L order_sn)"
    and account_by_id: "keeps R (getAccountById L account_id)"
    and active_session: "keeps R (getActivePaymentSessionByOrderSn L now order_sn)"
    and session_by_id: "keeps R (getPaymentSessionById L payment_session_id)"
    and attempt_by_id: "keeps R (getPaymentAttemptByRequestId L request_id)"
    and real_auth: "keeps R (updateUserRealAuthProfile L ru)"
    and new_session: "keeps R (createPaymentSession L now cs)"
    and new_attempt: "keeps R (createPaymentAttemptProcessing L now ca)"
    and set_attempt: "keeps R (updatePaymentAttemptResult L now request_id res reason)"
    and finalize: "keeps R (finalizePaymentSuccess L now input)"
begin

lemmas keep_rules = world.keeps_rules sql_keeps redis_op_keeps submit_keeps draw_keeps
  user_by_id user_by_name order_by_sn account_by_id active_session session_by_id attempt_by_id
  real_auth new_session new_attempt set_attempt finalize

lemmas text_defs = reply_def body_str_def randomHex_def makePaymentSessionId_def makeRequestId_def
  makeLoginSessionId_def

lemma login_keeps: "e_lib E = L \<Longrightarrow> keeps (on_mysql R) (handleLogin E req)"
  unfolding handleLogin_def text_defs by (simp only:) (intro keep_rules)

lemma logout_keeps: "keeps (on_mysql R) (handleLogout E req)"
  unfolding handleLogout_def by (intro keep_rules)

lemma get_order_keeps: "e_lib E = L \<Longrightarrow> keeps (on_mysql R) (handleGetOrder E req)"
  unfolding handleGetOrder_def text_defs by (simp only:) (intro keep_rules)

lemma confirm_keeps: "e_lib E = L \<Longrightarrow> keeps (on_mysql R) (handleConfirm E req)"
  unfolding handleConfirm_def confirm_session_def text_defs by (simp only:) (intro keep_rules)

lemma real_auth_keeps: "e_lib E = L \<Longrightarrow> keeps (on_mysql R) (handleRealAuthComplete E req)"
  unfolding handleRealAuthComplete_def real_auth_update_def text_defs by (simp only:) (intro keep_rules)

lemma payable_keeps: "e_lib E = L \<Longrightarrow> keeps (on_mysql R) (payable_session E psid e1 e2)"
  unfolding payable_session_def by (simp only:) (intro keep_rules)

lemma page_keeps: "e_lib E = L \<Longrightarrow> keeps (on_mysql R) (handlePaymentPage E req)"
  unfolding handlePaymentPage_def text_defs by (intro keep_rules payable_keeps)

lemma init_keeps: "e_lib E = L \<Longrightarrow> keeps (on_mysql R) (handleAttemptInit E req)"
  unfolding handleAttemptInit_def text_defs by (intro keep_rules payable_keeps; simp only:; intro keep_rules)

lemma pay_fail_keeps: "e_lib E = L \<Longrightarrow> keeps (on_mysql R) (pay_fail E rid reason status err)"
  unfolding pay_fail_def text_defs by (simp only:) (intro keep_rules)

lemma pay_keeps: "e_lib E = L \<Longrightarrow> keeps (on_mysql R) (handlePay E req)"
  unfolding handlePay_def pay_attempt_known_def pay_check_def pay_authorize_def pay_finalize_def
    reply_def body_str_def
  by (intro keep_rules pay_fail_keeps; simp only:; intro keep_rules)

lemma request_keeps: "e_lib E = L \<Longrightarrow> keeps (on_mysql R) (handleRequest E req)"
  unfolding handleRequest_def dispatch_def reply_def
  by (intro keep_rules login_keeps logout_keeps get_order_keeps confirm_keeps real_auth_keeps page_keeps
      init_keeps pay_keeps)

end


interpretation settle: handler_frame "settles m_pool" L
  by unfold_locales
     (rule operations_settle finalize_settles)+

interpretation handlers_run: handler_frame "runs L" L
  by unfold_locales
     (rule runs.reads_keep operations_run finalize_runs)+

section \<open>Sequences of requests\<close>

fun serve :: "(env \<times> HttpRequest) list \<Rightarrow> world \<Rightarrow> world" where
  "serve [] w = w"
| "serve ((E, req) # rs) w = serve rs (snd (handleRequest E req w))"

lemma serve_settles:
  "settles m_pool (w_mysql w) (w_mysql (serve rs w))"
proof (induction rs arbitrary: w)
  case Nil
  then show ?case by (simp add: settles.frame_refl)
next
  case (Cons r rs)
  obtain E req where r: "r = (E, req)" by force
  have "settles m_pool (w_mysql w) (w_mysql (snd (handleRequest E req w)))"
    using settle.request_keeps [of E "e_lib E" req] by (simp add: keeps_def on_mysql_def)
  with Cons.IH [of "snd (handleRequest E req w)"] show ?case
    unfolding r serve.simps by (rule settles.frame_trans [rotated])
qed

lemma serve_runs:
  "\<forall>(E, req)\<in>set rs. e_lib E = L \<Longrightarrow> runs L (w_mysql w) (w_mysql (serve rs w))"
proof (induction rs arbitrary: w)
  case Nil
  then show ?case by (simp add: runs.frame_refl)
next
  case (Cons r rs)
  obtain E req where r: "r = (E, req)" by force
  with Cons.prems have "runs L (w_mysql w) (w_mysql (snd (handleRequest E req w)))"
    using handlers_run.request_keeps [of E L req] by (simp add: keeps_def on_mysql_def)
  moreover have "runs L (w_mysql (snd (handleRequest E req w))) (w_mysql (serve (r # rs) w))"
    using Cons.IH [of "snd (handleRequest E req w)"] Cons.prems by (simp add: r)
  ultimately show ?case by (rule runs.frame_trans)
qed

lemma handleRequest_answers: "\<exists>resp w'. handleRequest E req w = (Inr resp, w')"
  by (auto simp: handleRequest_def reply_def run_simps split: prod.split sum.split)

text \<open>
  C10: whatever requests arrive and whatever the database, its connections and the random generator
  do, a MySQL connection borrowed by a handler is returned or closed: after any sequence of requests
  exactly the connections are borrowed that were borrowed before, and every request is answered.
\<close>

theorem requests_leak_nothing:
  "(pool_ok (m_pool (w_mysql w)) \<longrightarrow>
     pool_ok (m_pool (w_mysql (serve rs w))) \<and>
     borrowed (m_pool (w_mysql (serve rs w))) = borrowed (m_pool (w_mysql w))) \<and>
   (\<exists>resp. fst (handleRequest E req w) = Inr resp)"
  using serve_settles [of w rs] handleRequest_answers [of E req w]
  by (auto simp: settles_def)

text \<open>
  C9: over any sequence of requests, with any failures, the schema's ranges and UNIQUE keys are kept
  and no transaction is left open; an order only changes from pending to paid and an account only from
  on sale or trading to sold, with its version raised by one.
\<close>

theorem requests_keep_schema:
  assumes "\<forall>(E, req)\<in>set rs. e_lib E = L" and "m_txn (w_mysql w) = None" and "db_ok L (m_db (w_mysql w))"
  shows "m_txn (w_mysql (serve rs w)) = None \<and> db_ok L (m_db (w_mysql (serve rs w))) \<and>
    list_all2 order_moves (orders (m_db (w_mysql w))) (orders (m_db (w_mysql (serve rs w)))) \<and>
    list_all2 account_moves (accounts (m_db (w_mysql w))) (accounts (m_db (w_mysql (serve rs w))))"
proof -
  have steps: "m_txn (w_mysql (serve rs w)) = None"
    "db_steps L (m_db (w_mysql w)) (m_db (w_mysql (serve rs w)))"
    using serve_runs [OF assms(1), of w] assms(2,3) by (auto simp: runs_def)
  with db_steps_ok [OF steps(2) assms(3)] steps_move [OF steps(2)] show ?thesis by blast
qed

text \<open>
  No account is sold twice. After any sequence of requests, every order that was pending and is
  now paid has its account sold and a paid session for the same order, account and buyer; and two
  such orders never share an account.
\<close>

lemma requests_sell_once:
  assumes "\<forall>(E, req)\<in>set rs. e_lib E = L" and "m_txn (w_mysql w) = None" and "db_ok L (m_db (w_mysql w))"
    and "d = m_db (w_mysql w)" and "d' = m_db (w_mysql (serve rs w))"
  shows "(\<forall>k. became_paid d d' k \<longrightarrow> settled L d' (orders d' ! k)) \<and>
    (\<forall>j k. became_paid d d' j \<and> became_paid d d' k \<and>
       col_eq L (o_account_id (orders d' ! j)) (o_account_id (orders d' ! k)) \<longrightarrow> j = k)"
proof -
  have "db_steps L d d'"
    using serve_runs [OF assms(1), of w] assms(2-5) by (auto simp: runs_def)
  from steps_sold_once [OF this] assms(3,4) have "sold_once L d d'" by simp
  then show ?thesis unfolding sold_once_def by blast
qed

end
