(* ===== verification/PayProps.thy ===== *)
theory PayProps
  imports PaymentProps
begin

text \<open>
  What the answers of \<open>handlePay\<close> mean: a PAID answer comes with every check passed and the whole
  payment made, and a refusal leaves orders, accounts, sessions and users as they were.
\<close>

section \<open>What the single operations return\<close>

lemma my_guarded_cases:
  assumes "my_guarded f w = (r, w')"
  obtains (no_conn) e where "r = Inl e" and "same_store w w'" and "m_events w' = m_events w"
  | (conn) c w1 w2 where "same_store w w1" and "m_events w1 = m_events w" and "f c w1 = (r, w2)"
      and "w' = my_release c w2"
proof -
  obtain q w1 where a: "my_acquire w = (q, w1)" by force
  show thesis
  proof (cases q)
    case (Inl e)
    with assms a show thesis
      using acquire_store [OF a] acquire_events [OF a]
      by (intro no_conn [of e]) (auto simp: with_guard_def run_simps)
  next
    case (Inr c)
    obtain r2 w2 where f: "f c w1 = (r2, w2)" by force
    with assms a Inr show thesis
      using acquire_store [OF a] acquire_events [OF a]
      by (intro conn [of w1 c w2]) (auto simp: with_guard_def run_simps)
  qed
qed

text \<open>A SELECT with LIMIT 1: the first matching row as the program sees it, or no row matches.\<close>

definition found :: "('r \<Rightarrow> bool) \<Rightarrow> ('r \<Rightarrow> 'v) \<Rightarrow> 'r list \<Rightarrow> 'v option \<Rightarrow> bool" where
  "found p view rs res \<longleftrightarrow> (case res of
      None \<Rightarrow> \<forall>r\<in>set rs. \<not> p r
    | Some x \<Rightarrow> \<exists>r\<in>set rs. p r \<and> x = view r)"

lemma query_cases:
  assumes "queryRows q w = (r, w')"
  shows "same_store w w' \<and> event_suffix w w' \<and> (\<forall>x. r = Inr x \<longrightarrow> x = q (m_db w))"
proof -
  obtain ev es where "next_event w = (Inr ev, w\<lparr>m_events := es\<rparr>)" "set es \<subseteq> set (m_events w)"
    by (rule next_event_fits)
  with assms show ?thesis
    by (cases ev) (auto simp: queryRows_def run_simps same_store_def event_suffix_def)
qed

lemma read_cases:
  assumes "my_guarded (\<lambda>_. mbind (queryRows (select1 cols tbl p)) (first_row parse)) w = (r, w')"
  shows "same_store w w' \<and> event_suffix w w' \<and>
    (\<forall>res. r = Inr res \<longrightarrow> (\<forall>x\<in>set (tbl (m_db w)). parse (cols x) = Inr (view x)) \<longrightarrow>
       found p view (tbl (m_db w)) res)"
  using assms
proof (cases rule: my_guarded_cases)
  case (no_conn e)
  then show ?thesis by (simp add: event_suffix_def)
next
  case (conn c w1 w2)
  obtain q w3 where qr: "queryRows (select1 cols tbl p) w1 = (q, w3)" by force
  have s: "same_store w w3" "event_suffix w w3"
    using query_cases [OF qr] conn(1,2) by (auto simp: same_store_def event_suffix_def)
  show ?thesis
  proof (cases q)
    case (Inl e)
    with conn qr s show ?thesis
      by (auto simp: run_simps same_store_def event_suffix_def)
  next
    case (Inr rows)
    then have rows: "rows = select1 cols tbl p (m_db w)"
      using query_cases [OF qr] conn(1) by (simp add: same_store_def)
    have w2: "w2 = w3"
      using conn(3) qr Inr by (auto simp: run_simps first_row_def split: list.splits sum.splits)
    have "found p view (tbl (m_db w)) res"
      if res: "r = Inr res" and ok: "\<forall>x\<in>set (tbl (m_db w)). parse (cols x) = Inr (view x)" for res
    proof (cases "filter p (tbl (m_db w))")
      case Nil
      with conn(3) qr Inr rows res have "res = None"
        by (simp add: run_simps first_row_def select1_def)
      with Nil show ?thesis by (simp add: found_def filter_empty_conv)
    next
      case (Cons x xs)
      then have "x \<in> set (filter p (tbl (m_db w)))" by simp
      then have x: "x \<in> set (tbl (m_db w))" "p x" by simp_all
      with conn(3) qr Inr rows res Cons ok have "res = Some (view x)"
        by (simp add: run_simps first_row_def select1_def)
      with x show ?thesis by (auto simp: found_def)
    qed
    with s w2 conn(4) show ?thesis by (auto simp: same_store_def event_suffix_def)
  qed
qed

lemma db_ok_rows:
  assumes "db_ok L d"
  shows "u \<in> set (users d) \<Longrightarrow> user_row_ok u" "o1 \<in> set (orders d) \<Longrightarrow> order_row_ok o1"
    "a \<in> set (accounts d) \<Longrightarrow> account_row_ok a" "s \<in> set (sessions d) \<Longrightarrow> session_row_ok s"
    "t \<in> set (attempts d) \<Longrightarrow> attempt_row_ok t"
  using assms by (auto simp: db_ok_def list_all_iff)

lemma read_found:
  assumes "my_guarded (\<lambda>_. mbind (queryRows (select1 cols tbl p)) (first_row parse)) w = (Inr res, w')"
    and "\<And>x. x \<in> set (tbl (m_db w)) \<Longrightarrow> parse (cols x) = Inr (view x)"
  shows "found p view (tbl (m_db w)) res"
  using read_cases [OF assms(1)] assms(2) by blast

text \<open>The reads of the program, on a well-formed database.\<close>

lemma reads_find:
  assumes ok: "db_ok L (m_db w)"
  shows "getUserByUserId L k w = (Inr u, w') \<Longrightarrow>
      found (\<lambda>r. col_eq L (u_user_id r) k) (user_view L) (users (m_db w)) u"
    and "getUserByUsername L k w = (Inr u, w') \<Longrightarrow>
      found (\<lambda>r. col_eq L (u_username r) k) (user_view L) (users (m_db w)) u"
    and "getOrderBySn L k w = (Inr ord, w') \<Longrightarrow>
      found (\<lambda>r. col_eq L (o_order_sn r) k) (order_view L) (orders (m_db w)) ord"
    and "getAccountById L k w = (Inr a, w') \<Longrightarrow>
      found (\<lambda>r. col_eq L (a_account_id r) k) (account_view L) (accounts (m_db w)) a"
    and "getPaymentSessionById L k w = (Inr s, w') \<Longrightarrow>
      found (\<lambda>r. col_eq L (s_payment_session_id r) k) (session_view L) (sessions (m_db w)) s"
    and "getActivePaymentSessionByOrderSn L now k w = (Inr s, w') \<Longrightarrow>
      found (\<lambda>r. col_eq L (s_order_sn r) k \<and> s_status r = session_code WaitingPay \<and> s_expire_at r > now) (session_view L) (sessions (m_db w)) s"
    and "getPaymentAttemptByRequestId L k w = (Inr t, w') \<Longrightarrow>
      found (\<lambda>r. col_eq L (t_request_id r) k) (attempt_view L) (attempts (m_db w)) t"
proof -
  show "getUserByUserId L k w = (Inr u, w') \<Longrightarrow>
      found (\<lambda>r. col_eq L (u_user_id r) k) (user_view L) (users (m_db w)) u"
    unfolding getUserByUserId_def by (erule read_found) (rule parseUser_row, rule db_ok_rows(1) [OF ok])
  show "getUserByUsername L k w = (Inr u, w') \<Longrightarrow>
      found (\<lambda>r. col_eq L (u_username r) k) (user_view L) (users (m_db w)) u"
    unfolding getUserByUsername_def by (erule read_found) (rule parseUser_row, rule db_ok_rows(1) [OF ok])
  show "getOrderBySn L k w = (Inr ord, w') \<Longrightarrow>
      found (\<lambda>r. col_eq L (o_order_sn r) k) (order_view L) (orders (m_db w)) ord"
    unfolding getOrderBySn_def by (erule read_found) (rule parseOrder_row, rule db_ok_rows(2) [OF ok])
  show "getAccountById L k w = (Inr a, w') \<Longrightarrow>
      found (\<lambda>r. col_eq L (a_account_id r) k) (account_view L) (accounts (m_db w)) a"
    unfolding getAccountById_def by (erule read_found) (rule parseAccount_row, rule db_ok_rows(3) [OF ok])
  show "getPaymentSessionById L k w = (Inr s, w') \<Longrightarrow>
      found (\<lambda>r. col_eq L (s_payment_session_id r) k) (session_view L) (sessions (m_db w)) s"
    unfolding getPaymentSessionById_def by (erule read_found) (rule parsePaymentSession_row, rule db_ok_rows(4) [OF ok])
  show "getActivePaymentSessionByOrderSn L now k w = (Inr s, w') \<Longrightarrow>
      found (\<lambda>r. col_eq L (s_order_sn r) k \<and> s_status r = session_code WaitingPay \<and> s_expire_at r > now) (session_view L) (sessions (m_db w)) s"
    unfolding getActivePaymentSessionByOrderSn_def by (erule read_found) (rule parsePaymentSession_row, rule db_ok_rows(4) [OF ok])
  show "getPaymentAttemptByRequestId L k w = (Inr t, w') \<Longrightarrow>
      found (\<lambda>r. col_eq L (t_request_id r) k) (attempt_view L) (attempts (m_db w)) t"
    unfolding getPaymentAttemptByRequestId_def by (erule read_found) (rule parsePaymentAttempt_row, rule db_ok_rows(5) [OF ok])
qed

text \<open>Reads change nothing; writing an attempt's result changes that table only.\<close>

definition quiet :: "mysql \<Rightarrow> mysql \<Rightarrow> bool" where
  "quiet w w' \<longleftrightarrow> same_store w w' \<and> event_suffix w w'"

lemma reads_quiet:
  "getUserByUserId L k w = (r1, w') \<Longrightarrow> quiet w w'"
  "getUserByUsername L k w = (r1, w') \<Longrightarrow> quiet w w'"
  "getOrderBySn L k w = (r2, w') \<Longrightarrow> quiet w w'"
  "getAccountById L k w = (r3, w') \<Longrightarrow> quiet w w'"
  "getPaymentSessionById L k w = (r4, w') \<Longrightarrow> quiet w w'"
  "getActivePaymentSessionByOrderSn L now k w = (r4, w') \<Longrightarrow> quiet w w'"
  "getPaymentAttemptByRequestId L k w = (r5, w') \<Longrightarrow> quiet w w'"
  unfolding operation_defs quiet_def
  by (drule read_cases [where view = "\<lambda>_. undefined"], simp)+

lemma set_attempt_cases:
  assumes "updatePaymentAttemptResult L now rid res reason w = (r, w')"
  shows "m_txn w' = m_txn w \<and> event_suffix w w' \<and>
    (m_db w' = m_db w \<or> (\<exists>n. update_attempt L now rid res reason (m_db w) = Inr (n, m_db w'))) \<and>
    (\<forall>b. r = Inr b \<longrightarrow> (\<exists>n. update_attempt L now rid res reason (m_db w) = Inr (n, m_db w')))"
  using assms unfolding updatePaymentAttemptResult_def
proof (cases rule: my_guarded_cases)
  case (no_conn e)
  then show ?thesis by (simp add: event_suffix_def same_store_def)
next
  case (conn c w1 w2)
  obtain q w3 where e: "executeAffected (update_attempt L now rid res reason) w1 = (q, w3)" by force
  have "w2 = w3" using conn(3) e by (cases q) (auto simp: run_simps)
  with executeAffected_cases [OF e] conn e show ?thesis
    by (cases q) (auto simp: run_simps same_store_def event_suffix_def)
qed

section \<open>What PAID means\<close>

lemma sql_iff [run_iff]:
  "sql m w = (Inr x, w') \<longleftrightarrow> (\<exists>s. m (w_mysql w) = (Inr x, s) \<and> w' = w\<lparr>w_mysql := s\<rparr>)"
  by (auto simp: sql_def mzoom_iff)

text \<open>The evidence a payment rests on: token, session, buyer and password.\<close>

definition pay_evidence :: "env \<Rightarrow> db \<Rightarrow> HttpRequest \<Rightarrow> PaymentFinalizeInput \<Rightarrow> bool" where
  "pay_evidence E d req i \<longleftrightarrow>
     (\<exists>body token pw svc cfg s u.
        parseJsonBody (e_lib E) req = Inr body \<and>
        json_value_str (e_lib E) body ''request_id'' [] = Inr (pf_request_id i) \<and>
        json_value_str (e_lib E) body ''qr_token'' [] = Inr token \<and>
        json_value_str (e_lib E) body ''login_password'' [] = Inr pw \<and>
        jwt_fromConfig (e_values E) = Inr svc \<and>
        qv_valid (verifyPaymentQrToken (e_lib E) svc (e_now E) token) \<and>
        s \<in> set (sessions d) \<and> s_payment_session_id s = pf_payment_session_id i \<and>
        col_eq (e_lib E) (pf_payment_session_id i)
          (qr_payment_session_id (qv_payload (verifyPaymentQrToken (e_lib E) svc (e_now E) token))) \<and>
        s_buyer_id s = pf_buyer_id i \<and>
        u \<in> set (users d) \<and> col_eq (e_lib E) (u_user_id u) (pf_buyer_id i) \<and> u_status u = 0 \<and>
        passwordHash (e_values E) = Inr cfg \<and>
        verifyLoginPasswordWithHash (e_lib E) pw (u_password_hash u) (pw_secret cfg))"

definition fin_input ::
    "string \<Rightarrow> PaymentSessionInfo \<Rightarrow> OrderInfo \<Rightarrow> AccountInfo \<Rightarrow> PaymentFinalizeInput" where
  "fin_input rid s ord a =
     \<lparr>pf_payment_session_id = si_payment_session_id s, pf_order_sn = oi_order_sn ord,
      pf_account_id = ai_account_id a, pf_buyer_id = si_buyer_id s, pf_price = oi_price ord,
      pf_request_id = rid\<rparr>"

lemma fin_input_simps [simp]:
  "pf_payment_session_id (fin_input rid s ord a) = si_payment_session_id s"
  "pf_order_sn (fin_input rid s ord a) = oi_order_sn ord"
  "pf_account_id (fin_input rid s ord a) = ai_account_id a"
  "pf_buyer_id (fin_input rid s ord a) = si_buyer_id s"
  "pf_price (fin_input rid s ord a) = oi_price ord"
  "pf_request_id (fin_input rid s ord a) = rid"
  by (simp_all add: fin_input_def)

lemma respond_status [simp]: "http_status (respond n e) = n" "envelope (respond n e) = e"
  by (simp_all add: respond_def)

text \<open>The result of the transaction and of what follows it.\<close>

definition pay_done :: "env \<Rightarrow> PaymentFinalizeInput \<Rightarrow> world \<Rightarrow> world \<Rightarrow> bool" where
  "pay_done E i w w' \<longleftrightarrow>
     (\<exists>d1 n. (paid (e_lib E) (e_now E) i (m_db (w_mysql w)) d1 \<or>
              already_paid (e_lib E) i (m_db (w_mysql w)) \<and> d1 = m_db (w_mysql w)) \<and>
        update_attempt (e_lib E) (e_now E) (pf_request_id i) AttemptSuccess [] d1 = Inr (n, m_db (w_mysql w')) \<and>
        worker_submit (pf_payment_session_id i, pf_order_sn i) (w_workers w) = (Inr (), w_workers w'))"

lemma pay_fail_status: "pay_fail E rid reason status err w = (Inr resp, w') \<Longrightarrow> http_status resp = status"
  by (auto simp: pay_fail_def reply_def run_iff)

lemma pay_finalize_200:
  assumes run: "pay_finalize E rid s ord a w = (Inr resp, w')" and 200: "http_status resp = 200"
    and ok: "db_ok (e_lib E) (m_db (w_mysql w))" and txn: "m_txn (w_mysql w) = None"
  shows "pay_done E (fin_input rid s ord a) w w' \<and> envelope resp = paid_json rid"
proof -
  let ?i = "fin_input rid s ord a"
  from run obtain b m1 where fin: "finalizePaymentSuccess (e_lib E) (e_now E) ?i (w_mysql w) = (Inr b, m1)"
    and rest: "(if \<not> b then pay_fail E rid ''FINALIZE_TXN_FAILED'' 409 (makeErr 40904 M_pay_txn_failed)
       else mbind (sql (updatePaymentAttemptResult (e_lib E) (e_now E) rid AttemptSuccess [])) (\<lambda>_.
         mbind (submit (si_payment_session_id s, oi_order_sn ord)) (\<lambda>_. reply 200 (paid_json rid))))
       (w\<lparr>w_mysql := m1\<rparr>) = (Inr resp, w')"
    by (auto simp: pay_finalize_def fin_input_def run_iff)
  have b: "b" using rest 200 by (auto split: if_splits dest: pay_fail_status)
  with finalize_outcome [OF ok txn fin] have "paid (e_lib E) (e_now E) ?i (m_db (w_mysql w)) (m_db m1) \<or>
      already_paid (e_lib E) ?i (m_db (w_mysql w)) \<and> m_db m1 = m_db (w_mysql w)"
    by (auto simp: outcome_def)
  moreover from rest b obtain b2 m2 where
      set: "updatePaymentAttemptResult (e_lib E) (e_now E) rid AttemptSuccess [] m1 = (Inr b2, m2)"
    and sub: "mbind (submit (si_payment_session_id s, oi_order_sn ord)) (\<lambda>_. reply 200 (paid_json rid))
       (w\<lparr>w_mysql := m2\<rparr>) = (Inr resp, w')"
    by (auto simp: run_iff)
  moreover have "\<exists>n. update_attempt (e_lib E) (e_now E) rid AttemptSuccess [] (m_db m1) = Inr (n, m_db m2)"
    using set_attempt_cases [OF set] by blast
  moreover from sub have "w_mysql w' = m2" "envelope resp = paid_json rid"
      "worker_submit (si_payment_session_id s, oi_order_sn ord) (w_workers w) = (Inr (), w_workers w')"
    by (auto simp: submit_def reply_def run_iff)
  ultimately show ?thesis by (auto simp: pay_done_def)
qed


text \<open>One read of the handler: the world after it has the same database and workers.\<close>

definition calm :: "world \<Rightarrow> world \<Rightarrow> bool" where
  "calm w w' \<longleftrightarrow> quiet (w_mysql w) (w_mysql w') \<and> w_workers w' = w_workers w"

lemma calm_db:
  "calm w w' \<Longrightarrow> m_db (w_mysql w') = m_db (w_mysql w)" "calm w w' \<Longrightarrow> m_txn (w_mysql w') = m_txn (w_mysql w)"
  "calm w w' \<Longrightarrow> w_workers w' = w_workers w"
  by (simp_all add: calm_def quiet_def same_store_def)

lemma calm_trans: "calm u v \<Longrightarrow> calm v w \<Longrightarrow> calm u w"
  by (auto simp: calm_def quiet_def same_store_def event_suffix_def)

lemma calm_refl: "calm w w"
  by (simp add: calm_def quiet_def same_store_def event_suffix_def)

lemma sql_read:
  assumes "sql m w = (Inr x, w1)" and "\<And>m1. m (w_mysql w) = (Inr x, m1) \<Longrightarrow> quiet (w_mysql w) m1"
  shows "m (w_mysql w) = (Inr x, w_mysql w1) \<and> calm w w1"
  using assms by (auto simp: sql_iff calm_def)

lemma pay_done_calm: "calm w w1 \<Longrightarrow> pay_done E i w1 w' \<Longrightarrow> pay_done E i w w'"
  by (simp add: pay_done_def calm_db)

definition buyer_verified :: "env \<Rightarrow> db \<Rightarrow> string \<Rightarrow> string \<Rightarrow> bool" where
  "buyer_verified E d buyer_id pw \<longleftrightarrow>
     (\<exists>u\<in>set (users d). \<exists>cfg. col_eq (e_lib E) (u_user_id u) buyer_id \<and> u_status u = 0 \<and>
        passwordHash (e_values E) = Inr cfg \<and>
        verifyLoginPasswordWithHash (e_lib E) pw (u_password_hash u) (pw_secret cfg))"

lemma pay_authorize_200:
  assumes run: "pay_authorize E rid pw s ord a w = (Inr resp, w')" and 200: "http_status resp = 200"
    and ok: "db_ok (e_lib E) (m_db (w_mysql w))" and txn: "m_txn (w_mysql w) = None"
  shows "pay_done E (fin_input rid s ord a) w w' \<and> envelope resp = paid_json rid \<and>
    buyer_verified E (m_db (w_mysql w)) (si_buyer_id s) pw"
proof -
  from run obtain user w1 where r: "sql (getUserByUserId (e_lib E) (si_buyer_id s)) w = (Inr user, w1)"
    and rest: "(case user of
       None \<Rightarrow> pay_fail E rid ''USER_INVALID'' 403 (makeErr 40301 M_user_abnormal)
     | Some u \<Rightarrow>
         if \<not> isNormal u then pay_fail E rid ''USER_INVALID'' 403 (makeErr 40301 M_user_abnormal)
         else
         mbind (mlift (passwordHash (e_values E))) (\<lambda>cfg.
         if \<not> verifyLoginPasswordWithHash (e_lib E) pw (ui_password_hash u) (pw_secret cfg)
         then pay_fail E rid ''PASSWORD_INVALID'' 401 (makeErr 40104 M_pay_password_wrong)
         else pay_finalize E rid s ord a)) w1 = (Inr resp, w')"
    by (auto simp: pay_authorize_def mbind_Inr_iff)
  from sql_read [OF r reads_quiet(1)] have g: "getUserByUserId (e_lib E) (si_buyer_id s) (w_mysql w) = (Inr user, w_mysql w1)"
    and c: "calm w w1" by auto
  from rest 200 obtain ui cfg where u: "user = Some ui" "isNormal ui" and pc: "passwordHash (e_values E) = Inr cfg"
      "verifyLoginPasswordWithHash (e_lib E) pw (ui_password_hash ui) (pw_secret cfg)"
    and fin: "pay_finalize E rid s ord a w1 = (Inr resp, w')"
    by (auto simp: run_iff split: option.splits if_splits dest: pay_fail_status)
  from reads_find(1) [OF ok g] u obtain u0 where u0: "u0 \<in> set (users (m_db (w_mysql w)))"
      "col_eq (e_lib E) (u_user_id u0) (si_buyer_id s)" "ui = user_view (e_lib E) u0"
    by (auto simp: found_def)
  with u pc have "buyer_verified E (m_db (w_mysql w)) (si_buyer_id s) pw"
    by (auto simp: buyer_verified_def isNormal_def user_view_def)
  moreover have "pay_done E (fin_input rid s ord a) w1 w' \<and> envelope resp = paid_json rid"
    using pay_finalize_200 [OF fin 200] ok txn by (simp add: calm_db [OF c])
  ultimately show ?thesis using pay_done_calm [OF c] by blast
qed

lemma pay_check_200:
  assumes run: "pay_check E rid pw t psid w = (Inr resp, w')" and 200: "http_status resp = 200"
    and ok: "db_ok (e_lib E) (m_db (w_mysql w))" and txn: "m_txn (w_mysql w) = None"
  shows "\<exists>i s. pay_done E i w w' \<and> envelope resp = paid_json rid \<and> pf_request_id i = rid \<and>
    s \<in> set (sessions (m_db (w_mysql w))) \<and> s_payment_session_id s = pf_payment_session_id i \<and>
    col_eq (e_lib E) (pf_payment_session_id i) psid \<and> s_buyer_id s = pf_buyer_id i \<and>
    buyer_verified E (m_db (w_mysql w)) (pf_buyer_id i) pw"
proof -
  from run obtain sv w1 where r: "sql (getPaymentSessionById (e_lib E) psid) w = (Inr sv, w1)"
    and rest: "(case sv of
       None \<Rightarrow> pay_fail E rid ''SESSION_INVALID'' 409 (makeErr 40905 M_session_invalid)
     | Some s \<Rightarrow>
         if si_status s \<noteq> session_code WaitingPay
         then pay_fail E rid ''SESSION_INVALID'' 409 (makeErr 40905 M_session_invalid)
         else if ti_payment_session_id t \<noteq> si_payment_session_id s
         then pay_fail E rid ''SESSION_MISMATCH'' 409 (makeErr 40905 M_session_mismatch)
         else
         mbind (sql (getOrderBySn (e_lib E) (si_order_sn s))) (\<lambda>order. case order of
           None \<Rightarrow> pay_fail E rid ''ORDER_NOT_PAYABLE'' 409 (makeErr 40901 M_order_unpayable)
         | Some ord \<Rightarrow>
             if oi_status ord \<noteq> order_code PendingPay
             then pay_fail E rid ''ORDER_NOT_PAYABLE'' 409 (makeErr 40901 M_order_unpayable)
             else
             mbind (sql (getAccountById (e_lib E) (si_account_id s))) (\<lambda>account. case account of
               None \<Rightarrow> pay_fail E rid ''ACCOUNT_NOT_PAYABLE'' 409 (makeErr 40903 M_account_untradable)
             | Some a \<Rightarrow>
                 if \<not> accountPayable (ai_status a)
                 then pay_fail E rid ''ACCOUNT_NOT_PAYABLE'' 409 (makeErr 40903 M_account_untradable)
                 else pay_authorize E rid pw s ord a))) w1 = (Inr resp, w')"
    by (auto simp: pay_check_def mbind_Inr_iff)
  from sql_read [OF r reads_quiet(5)] have g: "getPaymentSessionById (e_lib E) psid (w_mysql w) = (Inr sv, w_mysql w1)"
    and c1: "calm w w1" by auto
  from rest 200 obtain si where sv: "sv = Some si" and rest2: "mbind (sql (getOrderBySn (e_lib E) (si_order_sn si)))
       (\<lambda>order. case order of
           None \<Rightarrow> pay_fail E rid ''ORDER_NOT_PAYABLE'' 409 (makeErr 40901 M_order_unpayable)
         | Some ord \<Rightarrow>
             if oi_status ord \<noteq> order_code PendingPay
             then pay_fail E rid ''ORDER_NOT_PAYABLE'' 409 (makeErr 40901 M_order_unpayable)
             else
             mbind (sql (getAccountById (e_lib E) (si_account_id si))) (\<lambda>account. case account of
               None \<Rightarrow> pay_fail E rid ''ACCOUNT_NOT_PAYABLE'' 409 (makeErr 40903 M_account_untradable)
             | Some a \<Rightarrow>
                 if \<not> accountPayable (ai_status a)
                 then pay_fail E rid ''ACCOUNT_NOT_PAYABLE'' 409 (makeErr 40903 M_account_untradable)
                 else pay_authorize E rid pw si ord a)) w1 = (Inr resp, w')"
    by (cases sv) (auto split: if_splits dest: pay_fail_status)
  from rest2 obtain ov w2 where r2: "sql (getOrderBySn (e_lib E) (si_order_sn si)) w1 = (Inr ov, w2)"
    and rest3: "(case ov of
           None \<Rightarrow> pay_fail E rid ''ORDER_NOT_PAYABLE'' 409 (makeErr 40901 M_order_unpayable)
         | Some ord \<Rightarrow>
             if oi_status ord \<noteq> order_code PendingPay
             then pay_fail E rid ''ORDER_NOT_PAYABLE'' 409 (makeErr 40901 M_order_unpayable)
             else
             mbind (sql (getAccountById (e_lib E) (si_account_id si))) (\<lambda>account. case account of
               None \<Rightarrow> pay_fail E rid ''ACCOUNT_NOT_PAYABLE'' 409 (makeErr 40903 M_account_untradable)
             | Some a \<Rightarrow>
                 if \<not> accountPayable (ai_status a)
                 then pay_fail E rid ''ACCOUNT_NOT_PAYABLE'' 409 (makeErr 40903 M_account_untradable)
                 else pay_authorize E rid pw si ord a)) w2 = (Inr resp, w')"
    by (rule mbind_InrE)
  from rest3 200 obtain ord av w3 where r3: "sql (getAccountById (e_lib E) (si_account_id si)) w2 = (Inr av, w3)"
    and rest4: "(case av of
               None \<Rightarrow> pay_fail E rid ''ACCOUNT_NOT_PAYABLE'' 409 (makeErr 40903 M_account_untradable)
             | Some a \<Rightarrow>
                 if \<not> accountPayable (ai_status a)
                 then pay_fail E rid ''ACCOUNT_NOT_PAYABLE'' 409 (makeErr 40903 M_account_untradable)
                 else pay_authorize E rid pw si ord a) w3 = (Inr resp, w')"
    by (cases ov) (auto simp: mbind_Inr_iff split: if_splits dest: pay_fail_status)
  from rest4 200 obtain a where auth: "pay_authorize E rid pw si ord a w3 = (Inr resp, w')"
    by (cases av) (auto split: if_splits dest: pay_fail_status)
  from reads_find(5) [OF ok g] sv obtain s where s: "s \<in> set (sessions (m_db (w_mysql w)))"
      "col_eq (e_lib E) (s_payment_session_id s) psid" "si = session_view (e_lib E) s"
    by (auto simp: found_def)
  have "calm w1 w2" "calm w2 w3"
    using sql_read [OF r2 reads_quiet(3)] sql_read [OF r3 reads_quiet(4)] by auto
  with c1 have c3: "calm w w3" by (blast intro: calm_trans)
  have "pay_done E (fin_input rid si ord a) w3 w' \<and> envelope resp = paid_json rid \<and>
      buyer_verified E (m_db (w_mysql w3)) (si_buyer_id si) pw"
    using pay_authorize_200 [OF auth 200] ok txn by (simp add: calm_db [OF c3])
  with pay_done_calm [OF c3] s show ?thesis
    by (intro exI [of _ "fin_input rid si ord a"] exI [of _ s]) (simp add: session_view_def calm_db [OF c3])
qed

text \<open>The attempt was already successful: nothing but the answer.\<close>

definition pay_replayed :: "env \<Rightarrow> string \<Rightarrow> world \<Rightarrow> world \<Rightarrow> bool" where
  "pay_replayed E rid w w' \<longleftrightarrow> calm w w' \<and>
     (\<exists>t\<in>set (attempts (m_db (w_mysql w))). col_eq (e_lib E) (t_request_id t) rid \<and> t_result t = 1)"

lemma handlePay_200:
  assumes run: "handlePay E req w = (Inr resp, w')" and 200: "http_status resp = 200"
    and ok: "db_ok (e_lib E) (m_db (w_mysql w))" and txn: "m_txn (w_mysql w) = None"
  shows "\<exists>rid. envelope resp = paid_json rid \<and>
    (pay_replayed E rid w w' \<or>
     (\<exists>i. pf_request_id i = rid \<and> pay_evidence E (m_db (w_mysql w)) req i \<and>
        \<not> already_paid (e_lib E) i (m_db (w_mysql w)) \<and> pay_done E i w w'))"
proof -
  from run 200 obtain body rid token pw tv w1 where
    b: "parseJsonBody (e_lib E) req = Inr body" "json_value_str (e_lib E) body ''request_id'' [] = Inr rid"
      "json_value_str (e_lib E) body ''qr_token'' [] = Inr token"
      "json_value_str (e_lib E) body ''login_password'' [] = Inr pw" and
    r: "sql (getPaymentAttemptByRequestId (e_lib E) rid) w = (Inr (Some tv), w1)" and
    known: "pay_attempt_known E rid token pw tv w1 = (Inr resp, w')"
    by (auto simp: handlePay_def body_str_def reply_def run_iff split: sum.splits if_splits option.splits)
  from sql_read [OF r reads_quiet(7)] have
    g: "getPaymentAttemptByRequestId (e_lib E) rid (w_mysql w) = (Inr (Some tv), w_mysql w1)"
    and c: "calm w w1" by auto
  from reads_find(7) [OF ok g] obtain t where t: "t \<in> set (attempts (m_db (w_mysql w)))"
      "col_eq (e_lib E) (t_request_id t) rid" "tv = attempt_view (e_lib E) t"
    by (auto simp: found_def)
  show ?thesis
  proof (cases "t_result t = 1")
    case True
    with known t have "w' = w1" "envelope resp = paid_json rid"
      by (auto simp: pay_attempt_known_def attempt_view_def reply_def run_iff)
    with t True c show ?thesis by (auto simp: pay_replayed_def)
  next
    case False
    with known t 200 obtain svc where svc: "jwt_fromConfig (e_values E) = Inr svc"
      "qv_valid (verifyPaymentQrToken (e_lib E) svc (e_now E) token)"
      and chk: "pay_check E rid pw tv
        (qr_payment_session_id (qv_payload (verifyPaymentQrToken (e_lib E) svc (e_now E) token))) w1 = (Inr resp, w')"
      by (auto simp: pay_attempt_known_def attempt_view_def reply_def run_iff Let_def split: if_splits
          dest!: pay_fail_status)
    have "\<not> already_paid (e_lib E) i (m_db (w_mysql w))" if i: "pf_request_id i = rid" for i
    proof
      assume "already_paid (e_lib E) i (m_db (w_mysql w))"
      then obtain t2 where "t2 \<in> set (attempts (m_db (w_mysql w)))" "col_eq (e_lib E) (t_request_id t2) rid"
          "t_result t2 = 1" using i by (auto simp: already_paid_def)
      moreover have "unique_key (e_lib E) t_request_id (attempts (m_db (w_mysql w)))"
        using ok by (simp add: db_ok_def)
      ultimately show False using t False by (metis unique_keyD)
    qed
    moreover from pay_check_200 [OF chk 200] ok txn obtain i s where
      "pay_done E i w1 w'" "envelope resp = paid_json rid" "pf_request_id i = rid"
      "s \<in> set (sessions (m_db (w_mysql w)))" "s_payment_session_id s = pf_payment_session_id i"
      "col_eq (e_lib E) (pf_payment_session_id i)
        (qr_payment_session_id (qv_payload (verifyPaymentQrToken (e_lib E) svc (e_now E) token)))"
      "s_buyer_id s = pf_buyer_id i" "buyer_verified E (m_db (w_mysql w)) (pf_buyer_id i) pw"
      by (auto simp: calm_db [OF c])
    ultimately show ?thesis
      using b svc pay_done_calm [OF c]
      unfolding pay_evidence_def buyer_verified_def by blast
  qed
qed


text \<open>
  C3: when \<open>handlePay\<close> answers 200, either the attempt was recorded as successful before, and nothing
  has changed, or the request carried a valid token for a session, the password of the session's
  buyer, who is a normal user, and the whole payment was made: the session, order, account and
  attempt were waiting, pending, tradable and processing and agreed with each other (\<open>can_pay\<close>), all
  four were updated together, the attempt is recorded as successful, and the notification of the
  gateway was handed to the worker pool.
\<close>

theorem pay_ok_means_paid:
  assumes "handlePay E req w = (Inr resp, w')" and "http_status resp = 200"
    and "db_ok (e_lib E) (m_db (w_mysql w))" and "m_txn (w_mysql w) = None"
  shows "\<exists>rid. envelope resp = paid_json rid \<and>
    (pay_replayed E rid w w' \<or>
     (\<exists>i n. pf_request_id i = rid \<and> pay_evidence E (m_db (w_mysql w)) req i \<and>
        can_pay (e_lib E) i (m_db (w_mysql w)) \<and>
        update_attempt (e_lib E) (e_now E) rid AttemptSuccess []
          (pay_db (e_lib E) (e_now E) i (m_db (w_mysql w))) = Inr (n, m_db (w_mysql w')) \<and>
        worker_submit (pf_payment_session_id i, pf_order_sn i) (w_workers w) = (Inr (), w_workers w')))"
  using handlePay_200 [OF assms] unfolding pay_done_def paid_def by blast

section \<open>What a refusal means\<close>

definition money_kept :: "lib \<Rightarrow> mysql \<Rightarrow> mysql \<Rightarrow> bool" where
  "money_kept L w w' \<longleftrightarrow> (\<not> lossy w \<and> m_txn w = None \<and> db_ok L (m_db w) \<longrightarrow>
     \<not> lossy w' \<and> m_txn w' = None \<and> db_ok L (m_db w') \<and> orders (m_db w') = orders (m_db w) \<and>
     accounts (m_db w') = accounts (m_db w) \<and> sessions (m_db w') = sessions (m_db w) \<and>
     users (m_db w') = users (m_db w))"

interpretation money: mysql_frame "money_kept L"
  by unfold_locales (auto simp: money_kept_def)

lemma quiet_money: "quiet w w' \<Longrightarrow> money_kept L w w'"
  by (auto simp: quiet_def same_store_def money_kept_def dest: suffix_lossy)

lemma reads_money:
  "keeps (money_kept L) (getUserByUserId K k)" "keeps (money_kept L) (getOrderBySn K k)"
  "keeps (money_kept L) (getAccountById K k)" "keeps (money_kept L) (getPaymentSessionById K k)"
  "keeps (money_kept L) (getPaymentAttemptByRequestId K k)"
  by (rule keepsI, rule quiet_money, erule reads_quiet)+

lemma update_attempt_money:
  "update_attempt L now rid res reason d = Inr (n, d') \<Longrightarrow> db_ok L d \<Longrightarrow>
     db_ok L d' \<and> orders d' = orders d \<and> accounts d' = accounts d \<and> sessions d' = sessions d \<and> users d' = users d"
  using update_attempt_effect [of L now rid res reason d n d'] db_step_ok [OF db_step.set_attempt]
  by auto

lemma set_attempt_money: "keeps (money_kept L) (updatePaymentAttemptResult L now rid res reason)"
proof (rule keepsI)
  fix w r w' assume "updatePaymentAttemptResult L now rid res reason w = (r, w')"
  from set_attempt_cases [OF this] show "money_kept L w w'"
    using suffix_lossy [of w w'] update_attempt_money [of L now rid res reason "m_db w" _ "m_db w'"]
    by (auto simp: money_kept_def)
qed

text \<open>A computation of a response that keeps the money whenever it returns one other than 200.\<close>

definition refuses :: "lib \<Rightarrow> (world, HttpResponse) comp \<Rightarrow> bool" where
  "refuses L m \<longleftrightarrow> (\<forall>w resp w'. m w = (Inr resp, w') \<longrightarrow> http_status resp \<noteq> 200 \<longrightarrow>
     on_mysql (money_kept L) w w')"

lemma keeps_refuses: "keeps (on_mysql (money_kept L)) m \<Longrightarrow> refuses L m"
  by (auto simp: refuses_def dest: keepsD)

lemma refuses_bind:
  assumes "keeps (on_mysql (money_kept L)) m" and "\<And>x. refuses L (f x)"
  shows "refuses L (mbind m f)"
proof -
  show ?thesis
    unfolding refuses_def
  proof (intro allI impI)
    fix w resp w' assume "mbind m f w = (Inr resp, w')" and s: "http_status resp \<noteq> 200"
    then obtain x w1 where m: "m w = (Inr x, w1)" and f: "f x w1 = (Inr resp, w')"
      by (auto elim: mbind_InrE)
    have "on_mysql (money_kept L) w w1" by (rule keepsD [OF assms(1) m])
    moreover have "on_mysql (money_kept L) w1 w'" using assms(2) f s by (auto simp: refuses_def)
    ultimately show "on_mysql (money_kept L) w w'" by (rule money.world.frame_trans)
  qed
qed

lemma refuses_split:
  "refuses L m \<Longrightarrow> refuses L n \<Longrightarrow> refuses L (if b then m else n)"
  "refuses L m \<Longrightarrow> (\<And>x. refuses L (f x)) \<Longrightarrow> refuses L (case opt of None \<Rightarrow> m | Some x \<Rightarrow> f x)"
  "(\<And>x. refuses L (g x)) \<Longrightarrow> (\<And>x. refuses L (f x)) \<Longrightarrow> refuses L (case sm of Inl x \<Rightarrow> g x | Inr x \<Rightarrow> f x)"
  "(\<And>x. refuses L (f x)) \<Longrightarrow> refuses L (let x = t in f x)"
  by (simp_all split: option.split sum.split)


lemma pay_fail_money: "keeps (on_mysql (money_kept (e_lib E))) (pay_fail E rid reason status err)"
proof -
  show ?thesis
    unfolding pay_fail_def reply_def by (intro money.world.keeps_rules money.sql_keeps set_attempt_money)
qed

text \<open>No operation adds an event, so a run without lost replies stays without.\<close>

interpretation suffix: frame event_suffix
  by unfold_locales (auto simp: event_suffix_def)

lemma suffix_guarded:
  assumes "\<And>c. keeps event_suffix (f c)"
  shows "keeps event_suffix (my_guarded f)"
proof (rule keepsI)
  fix w r w' assume "my_guarded f w = (r, w')"
  then show "event_suffix w w'"
  proof (cases rule: my_guarded_cases)
    case (no_conn e)
    then show ?thesis by (simp add: event_suffix_def)
  next
    case (conn c w1 w2)
    have "event_suffix w1 w2" by (rule keepsD [OF assms conn(3)])
    with conn show ?thesis by (simp add: event_suffix_def)
  qed
qed

lemma suffix_statements:
  "keeps event_suffix (queryRows q)" "keeps event_suffix (executeAffected st)"
  "keeps event_suffix begin_txn" "keeps event_suffix commit" "keeps event_suffix rollback"
proof -
  have undo: "event_suffix w (undo (w\<lparr>m_events := es\<rparr>))" if "set es \<subseteq> set (m_events w)" for w es
    using that by (auto simp: event_suffix_def undo_def split: option.split)
  show "keeps event_suffix (queryRows q)" by (rule keepsI) (simp add: query_cases)
  show "keeps event_suffix (executeAffected st)" by (rule keepsI) (simp add: executeAffected_cases)
  show "keeps event_suffix begin_txn"
  proof (rule keepsI)
    fix w r w' assume run: "begin_txn w = (r, w')"
    obtain ev es where "next_event w = (Inr ev, w\<lparr>m_events := es\<rparr>)" "set es \<subseteq> set (m_events w)"
      by (rule next_event_fits)
    with run show "event_suffix w w'"
      by (cases ev) (auto simp: begin_txn_def run_simps event_suffix_def)
  qed
  show "keeps event_suffix commit"
  proof (rule keepsI)
    fix w r w' assume run: "commit w = (r, w')"
    obtain ev es where "next_event w = (Inr ev, w\<lparr>m_events := es\<rparr>)" "set es \<subseteq> set (m_events w)"
      by (rule next_event_fits)
    with run show "event_suffix w w'"
      by (cases ev) (auto simp: commit_def run_simps event_suffix_def)
  qed
  show "keeps event_suffix rollback"
  proof (rule keepsI)
    fix w r w' assume run: "rollback w = (r, w')"
    obtain ev es where "next_event w = (Inr ev, w\<lparr>m_events := es\<rparr>)" "set es \<subseteq> set (m_events w)"
      by (rule next_event_fits)
    with run undo [of es w] show "event_suffix w w'"
      by (cases ev) (auto simp: rollback_def run_simps)
  qed
qed

lemmas suffix_rules = suffix_guarded suffix.keeps_rules suffix_statements

lemma suffix_mark: "keeps event_suffix (markAttemptFailedNoThrow L now rid reason)"
  unfolding markAttemptFailedNoThrow_def updatePaymentAttemptResult_def by (intro suffix_rules)

lemma finalize_suffix: "keeps event_suffix (finalizePaymentSuccess L now i)"
  unfolding finalize_defs finalize_reject_def by (intro suffix_rules suffix_mark)

lemma marked_money:
  "marked L rid d d' \<Longrightarrow> db_ok L d \<Longrightarrow>
     db_ok L d' \<and> orders d' = orders d \<and> accounts d' = accounts d \<and> sessions d' = sessions d \<and> users d' = users d"
  unfolding marked_def by (auto dest: update_attempt_money)

text \<open>A payment the transaction refused, with no reply lost, has kept the money.\<close>

lemma finalize_refused:
  assumes "finalizePaymentSuccess L now i w = (Inr False, w')"
  shows "money_kept L w w'"
proof -
  have sfx: "event_suffix w w'" by (rule keepsD [OF finalize_suffix assms])
  show ?thesis unfolding money_kept_def
  proof
    assume w: "\<not> lossy w \<and> m_txn w = None \<and> db_ok L (m_db w)"
    with finalize_outcome [OF _ _ assms] have "m_txn w' = None" "marked L (pf_request_id i) (m_db w) (m_db w')"
      by (auto simp: outcome_def)
    with w marked_money suffix_lossy [OF sfx]
    show "\<not> lossy w' \<and> m_txn w' = None \<and> db_ok L (m_db w') \<and> orders (m_db w') = orders (m_db w) \<and>
      accounts (m_db w') = accounts (m_db w) \<and> sessions (m_db w') = sessions (m_db w) \<and>
      users (m_db w') = users (m_db w)" by blast
  qed
qed

lemma pay_finalize_refuses: "refuses (e_lib E) (pay_finalize E rid s ord a)"
  unfolding refuses_def
proof (intro allI impI)
  fix w resp w'
  let ?L = "e_lib E"
  assume run: "pay_finalize E rid s ord a w = (Inr resp, w')" and st: "http_status resp \<noteq> 200"
  from run obtain b m1 where
    fin: "finalizePaymentSuccess (e_lib E) (e_now E) (fin_input rid s ord a) (w_mysql w) = (Inr b, m1)"
    and rest: "(if \<not> b then pay_fail E rid ''FINALIZE_TXN_FAILED'' 409 (makeErr 40904 M_pay_txn_failed)
       else mbind (sql (updatePaymentAttemptResult (e_lib E) (e_now E) rid AttemptSuccess [])) (\<lambda>_.
         mbind (submit (si_payment_session_id s, oi_order_sn ord)) (\<lambda>_. reply 200 (paid_json rid))))
       (w\<lparr>w_mysql := m1\<rparr>) = (Inr resp, w')"
    by (auto simp: pay_finalize_def fin_input_def run_iff)
  have "\<not> b" using rest st by (cases b) (auto simp: reply_def run_iff)
  with fin have "on_mysql (money_kept ?L) w (w\<lparr>w_mysql := m1\<rparr>)"
    by (auto simp: on_mysql_def intro: finalize_refused)
  moreover from rest \<open>\<not> b\<close> have "on_mysql (money_kept ?L) (w\<lparr>w_mysql := m1\<rparr>) w'"
    using keepsD [OF pay_fail_money] by simp
  ultimately show "on_mysql (money_kept ?L) w w'" by (rule money.world.frame_trans)
qed

lemma reply_money: "keeps (on_mysql (money_kept L)) (reply st env)"
proof -
  show ?thesis unfolding reply_def by (rule money.world.keeps_mret)
qed

lemma lift_money: "keeps (on_mysql (money_kept L)) (mlift r)"
proof -
  show ?thesis by (rule money.world.keeps_mlift)
qed

lemma handlePay_refuses: "refuses (e_lib E) (handlePay E req)"
  unfolding handlePay_def pay_attempt_known_def pay_check_def pay_authorize_def body_str_def
  by (intro refuses_split refuses_bind pay_finalize_refuses reads_money [THEN money.sql_keeps] lift_money
      keeps_refuses [OF pay_fail_money] keeps_refuses [OF reply_money])

text \<open>
  C6: when \<open>handlePay\<close> answers anything but 200, and no reply of the server was lost after a statement
  had been executed, nothing was paid: orders, accounts, sessions and users are as they were, and
  no transaction is left open.
\<close>

theorem pay_refused_keeps_money:
  assumes "handlePay E req w = (Inr resp, w')" and "http_status resp \<noteq> 200"
    and "db_ok (e_lib E) (m_db (w_mysql w))" and "m_txn (w_mysql w) = None"
    and "\<forall>e. SqlFailAfter e \<notin> set (m_events (w_mysql w))"
  shows "m_txn (w_mysql w') = None \<and>
    orders (m_db (w_mysql w')) = orders (m_db (w_mysql w)) \<and>
    accounts (m_db (w_mysql w')) = accounts (m_db (w_mysql w)) \<and>
    sessions (m_db (w_mysql w')) = sessions (m_db (w_mysql w)) \<and>
    users (m_db (w_mysql w')) = users (m_db (w_mysql w))"
proof -
  have "on_mysql (money_kept (e_lib E)) w w'"
    using handlePay_refuses [of E req] assms(1,2) by (simp add: refuses_def)
  with assms(3-5) show ?thesis by (auto simp: on_mysql_def money_kept_def lossy_def)
qed

text \<open>
  C4: the transaction is atomic. Whatever statement or reply fails in \<open>finalizePaymentSuccess\<close>, the
  tables of orders, accounts and sessions are afterwards either all as they were, or all as the
  payment leaves them, which then was allowed (\<open>can_pay\<close>); users never change, the transaction is
  closed, and the answer true means that the payment was made or had been made before.
\<close>

theorem finalize_all_or_nothing:
  assumes "finalizePaymentSuccess L now i w = (r, w')" and "db_ok L (m_db w)" and "m_txn w = None"
    and "d = m_db w" and "d' = m_db w'"
  shows "m_txn w' = None \<and> users d' = users d \<and>
    (orders d' = orders d \<and> accounts d' = accounts d \<and> sessions d' = sessions d \<or>
     can_pay L i d \<and> orders d' = orders (pay_db L now i d) \<and> accounts d' = accounts (pay_db L now i d) \<and>
       sessions d' = sessions (pay_db L now i d)) \<and>
    (r = Inr True \<longrightarrow> can_pay L i d \<and> d' = pay_db L now i d \<or> already_paid L i d \<and> d' = d)"
proof -
  have txn: "m_txn w' = None" and out: "outcome L now i d (lossy w) r d'"
    using finalize_outcome [OF assms(2,3,1)] assms(4,5) by auto
  have ok1: "db_ok L d1" if "paid L now i d d1" for d1
    using that assms(2,4) by (auto simp: paid_def pay_keeps_ok)
  show ?thesis
  proof (cases r)
    case (Inl e)
    with out txn show ?thesis by (simp add: outcome_def)
  next
    case (Inr b)
    with out consider (paid) "b" "paid L now i d d'" | (before) "b" "already_paid L i d" "d' = d"
      | (marked) "\<not> b" "marked L (pf_request_id i) d d'"
      | (lost) d1 where "\<not> b" "paid L now i d d1" "marked L (pf_request_id i) d1 d'"
      by (cases b) (auto simp: outcome_def)
    then show ?thesis
    proof cases
      case paid
      with Inr txn show ?thesis by (simp add: paid_def)
    next
      case before
      with Inr txn show ?thesis by simp
    next
      case marked
      with Inr txn marked_money [OF marked(2)] assms(2,4) show ?thesis by simp
    next
      case lost
      with Inr txn marked_money [OF lost(3) ok1 [OF lost(2)]] show ?thesis by (simp add: paid_def)
    qed
  qed
qed

end
