(* ===== verification/Witnesses.thy ===== *)
theory Witnesses
  imports Demo PayProps RedisPool
begin

text \<open>
  The properties with hypotheses, each applied to a concrete input of \<open>Demo\<close> that satisfies them.
\<close>

section \<open>Passwords and tokens\<close>

theorem verify_password_iff_witness:
  "verifyLoginPasswordWithHash L0 ''pw'' (u_password_hash demo_user) ''p''"
  unfolding verify_password_iff [OF demo_documented(1)] by code_simp

theorem verify_password_tags_witness:
  "\<not> verifyLoginPasswordWithHash L0 ''px'' (hashLoginPassword L0 ''pw'' ''p'') ''p''"
proof -
  have "hmac L0 SHA256 ''p'' ''px'' \<noteq> hmac L0 SHA256 ''p'' ''pw''" by code_simp
  with verify_password_tags [OF demo_documented(1,2) [of demo_table], of "''pw''" "''p''" "''px''"]
  show ?thesis by simp
qed

lemma demo_roundtrips:
  "json_roundtrips L0 (jwt_header demo_service)" "json_roundtrips L0 (qr_body demo_payload)"
  by (simp_all add: json_roundtrips_def demo_lib_def demo_dump_def demo_parse_def demo_table_def
      jwt_header_def qr_body_def)

definition demo_jwt_config :: JwtConfig where
  "demo_jwt_config = \<lparr>jwt_algorithm = ''HS256'', jwt_secret = ''k'', jwt_qr_token_ttl_seconds = 300,
     jwt_clock_skew_seconds = 5\<rparr>"

theorem issued_token_accepted_until_expiry_witness:
  "verifyPaymentQrToken L0 demo_service 1304 demo_token =
     \<lparr>qv_valid = True, qv_error_message = [], qv_payload = demo_payload\<rparr> \<and>
   verifyPaymentQrToken L0 demo_service 1305 demo_token = verify_failed M_qr_expired"
proof -
  let ?p = "empty_payload\<lparr>qr_payment_session_id := ''PS1''\<rparr>"
  have p: "stamp_payload demo_service 1000 (toHex ''a'') ?p = demo_payload" by code_simp
  have cfg: "make_JwtService demo_jwt_config = Inr demo_service" by code_simp
  have tok: "issuePaymentQrToken L0 demo_service 1000 (Some ''a'') ?p = Inr demo_token" by code_simp
  have "verifyPaymentQrToken L0 demo_service later demo_token =
    (if later < 1305 then \<lparr>qv_valid = True, qv_error_message = [], qv_payload = demo_payload\<rparr>
     else verify_failed M_qr_expired)" for later
    using issued_token_accepted_until_expiry
        [OF cfg demo_documented(4,1,3,5) demo_roundtrips(1) _ _ _ tok, of later] demo_roundtrips(2)
    unfolding p by (simp add: demo_jwt_config_def)
  then show ?thesis by simp
qed

theorem accepted_token_is_signed_witness:
  "\<exists>h p sig. demo_token = h @ ''.'' @ p @ ''.'' @ base64UrlEncode L0 sig \<and>
     hmacRaw L0 demo_service (h @ ''.'' @ p) = Inr sig"
proof -
  have "qv_valid (verifyPaymentQrToken L0 demo_service 1100 demo_token)" by (simp add: demo_token_verifies)
  from accepted_token_is_signed [OF demo_documented(1) this] show ?thesis by blast
qed

section \<open>The pools\<close>

theorem acquire_loses_dead_connection_witness:
  "\<exists>msg w'. rd_acquire (demo_redis\<lparr>r_events := [LostBefore ''gone'']\<rparr>) = (Inl (RedisException msg), w') \<and>
     pl_idle (r_pool w') = [1] \<and> 0 \<in> borrowed (r_pool w')"
  using acquire_loses_dead_connection [of "demo_redis\<lparr>r_events := [LostBefore ''gone'']\<rparr>" 0 "[1]" "''gone''" "[]"]
  by (auto simp: demo_redis_def demo_pool_def pool_ok_def)

section \<open>Payments\<close>

lemma demo_world_ready:
  "db_ok (e_lib demo_env) (m_db (w_mysql (demo_world evs)))" "m_txn (w_mysql (demo_world evs)) = None"
  using demo_db_ok by (simp_all add: demo_env_def demo_world_def demo_mysql_def)

text \<open>A request whose token has two parts only is refused.\<close>

definition demo_bad :: HttpRequest where
  "demo_bad = demo_pay\<lparr>req_body := ''{bad}''\<rparr>"

theorem pay_refused_keeps_money_witness:
  "orders (m_db (w_mysql (snd (handlePay demo_env demo_bad (demo_world []))))) = [demo_order]"
proof -
  have st: "(case fst (handlePay demo_env demo_bad (demo_world [])) of Inr r \<Rightarrow> http_status r | Inl _ \<Rightarrow> 0) = 401"
    by code_simp
  then obtain resp where run: "handlePay demo_env demo_bad (demo_world []) =
      (Inr resp, snd (handlePay demo_env demo_bad (demo_world [])))" and "http_status resp \<noteq> 200"
    by (cases "handlePay demo_env demo_bad (demo_world [])") (auto split: sum.splits)
  from pay_refused_keeps_money [OF this demo_world_ready]
  show ?thesis by (simp add: demo_world_def demo_mysql_def demo_db_def)
qed

definition demo_input :: PaymentFinalizeInput where
  "demo_input = \<lparr>pf_payment_session_id = ''PS1'', pf_order_sn = ''O1'', pf_account_id = ''A1'',
     pf_buyer_id = ''U1'', pf_price = 100, pf_request_id = ''REQ1''\<rparr>"

text \<open>
  The reply to the commit, the eleventh statement, is lost: the payment is made, the function answers
  false.
\<close>

definition demo_lost :: "sql_event list" where
  "demo_lost = replicate 10 SqlOk @ [SqlFailAfter ''lost'']"

lemma demo_lost_run:
  "(case finalizePaymentSuccess L0 1100 demo_input (demo_mysql demo_lost) of
      (r, w) \<Rightarrow> (r, map o_status (orders (m_db w)))) = (Inr False, [1])"
  by code_simp

theorem finalize_all_or_nothing_witness:
  "\<exists>w'. finalizePaymentSuccess L0 1100 demo_input (demo_mysql demo_lost) = (Inr False, w') \<and>
     map o_status (orders (m_db w')) = [1] \<and> can_pay L0 demo_input demo_db \<and>
     accounts (m_db w') = accounts (pay_db L0 1100 demo_input demo_db)"
proof -
  obtain r w' where run: "finalizePaymentSuccess L0 1100 demo_input (demo_mysql demo_lost) = (r, w')"
    by force
  with demo_lost_run have res: "r = Inr False" and st: "map o_status (orders (m_db w')) = [1]" by simp_all
  have db: "m_db (demo_mysql demo_lost) = demo_db" "m_txn (demo_mysql demo_lost) = None"
    by (simp_all add: demo_mysql_def)
  have "orders (m_db w') \<noteq> orders demo_db" using st by (auto simp: demo_db_def demo_order_def)
  with finalize_all_or_nothing [OF run _ _ refl refl] run res st db demo_db_ok show ?thesis by auto
qed

lemma demo_pay_run:
  "(case handlePay demo_env demo_pay (demo_world []) of
      (r, w) \<Rightarrow> ((case r of Inr x \<Rightarrow> http_status x | Inl _ \<Rightarrow> 0), map o_status (orders (m_db (w_mysql w))),
                map o_account_id (orders (m_db (w_mysql w))), wk_tasks (w_workers w))) =
   (200, [1], [''A1''], [(''PS1'', ''O1'')])"
  by code_simp

lemma demo_pay_paid:
  obtains resp w' where "handlePay demo_env demo_pay (demo_world []) = (Inr resp, w')"
    and "http_status resp = 200" and "map o_status (orders (m_db (w_mysql w'))) = [1]"
    and "map o_account_id (orders (m_db (w_mysql w'))) = [''A1'']"
proof -
  obtain r w' where run: "handlePay demo_env demo_pay (demo_world []) = (r, w')" by force
  with demo_pay_run have "(case r of Inr x \<Rightarrow> http_status x | Inl _ \<Rightarrow> 0) = 200"
      and o': "map o_status (orders (m_db (w_mysql w'))) = [1]"
        "map o_account_id (orders (m_db (w_mysql w'))) = [''A1'']" by simp_all
  then obtain resp where "r = Inr resp" "http_status resp = 200" by (auto split: sum.splits)
  with run o' show thesis by (intro that) simp_all
qed

theorem pay_ok_means_paid_witness:
  "\<exists>i n (w' :: world). can_pay L0 i demo_db \<and>
     worker_submit (pf_payment_session_id i, pf_order_sn i) (w_workers (demo_world [])) = (Inr (), w_workers w') \<and>
     update_attempt L0 1100 (pf_request_id i) AttemptSuccess [] (pay_db L0 1100 i demo_db) =
       Inr (n, m_db (w_mysql w'))"
proof -
  obtain resp w' where run: "handlePay demo_env demo_pay (demo_world []) = (Inr resp, w')"
    and st: "http_status resp = 200" and ord: "map o_status (orders (m_db (w_mysql w'))) = [1]"
    by (rule demo_pay_paid)
  have env: "e_lib demo_env = L0" "e_now demo_env = 1100" "m_db (w_mysql (demo_world [])) = demo_db"
    by (simp_all add: demo_env_def demo_world_def demo_mysql_def)
  have "m_db (w_mysql w') \<noteq> demo_db" using ord by (auto simp: demo_db_def demo_order_def)
  then have "\<not> pay_replayed demo_env rid (demo_world []) w'" for rid
    using env by (auto simp: pay_replayed_def demo_db_def demo_attempt_def)
  with pay_ok_means_paid [OF run st demo_world_ready, unfolded env] obtain i n where
    "can_pay L0 i demo_db"
    "worker_submit (pf_payment_session_id i, pf_order_sn i) (w_workers (demo_world [])) = (Inr (), w_workers w')"
    "update_attempt L0 1100 (pf_request_id i) AttemptSuccess [] (pay_db L0 1100 i demo_db) =
       Inr (n, m_db (w_mysql w'))"
    by auto
  then show ?thesis by blast
qed

section \<open>Sequences of requests\<close>

abbreviation demo_served :: world where
  "demo_served \<equiv> serve [(demo_env, demo_pay)] (demo_world [])"

theorem requests_leak_nothing_witness:
  "borrowed (m_pool (w_mysql demo_served)) = {}"
proof -
  have "pool_ok (m_pool (w_mysql (demo_world [])))" "borrowed (m_pool (w_mysql (demo_world []))) = {}"
    by (auto simp: demo_world_def demo_mysql_def demo_pool_def pool_ok_def borrowed_def)
  with requests_leak_nothing [of "demo_world []" "[(demo_env, demo_pay)]"] show ?thesis by blast
qed

theorem requests_keep_schema_witness:
  "db_ok L0 (m_db (w_mysql demo_served)) \<and> m_txn (w_mysql demo_served) = None"
  using requests_keep_schema [of "[(demo_env, demo_pay)]" L0, OF _ demo_world_ready(2)] demo_world_ready(1)
  by (simp add: demo_env_def)

end
