(* ===== verification/HttpWire.thy ===== *)
theory HttpWire
  imports HttpText
begin

text \<open>
  Requests on the wire: \<open>readHttpRequest\<close>, which backend/main.cpp and gateway/main.cpp have word for
  word. A connection is the list of the byte blocks that successive calls of \<open>read\<close> return; an empty
  block, and the end of the list, is a result of zero or less (closed, failed or timed out). The
  main lemma of the theory reads a well-formed request text back, however it is cut into blocks.
\<close>

section \<open>Reading a request\<close>

definition head_end :: string where
  "head_end = crlf @ crlf"

text \<open>The loop that reads until the blank line; the size limit is checked after each block.\<close>

fun read_head :: "nat \<Rightarrow> string \<Rightarrow> string list \<Rightarrow> (string \<times> string list) option" where
  "read_head limit raw [] = (if cut_str head_end raw \<noteq> None then Some (raw, []) else None)"
| "read_head limit raw (c # cs) =
     (if cut_str head_end raw \<noteq> None then Some (raw, c # cs)
      else if c = [] then None
      else if length (raw @ c) > limit then None
      else read_head limit (raw @ c) cs)"

text \<open>The loop that reads the rest of a body of \<open>n\<close> bytes, and the final \<open>resize\<close>.\<close>

fun read_body :: "nat \<Rightarrow> string \<Rightarrow> string list \<Rightarrow> string option" where
  "read_body n body [] = (if length body < n then None else Some (take n body))"
| "read_body n body (c # cs) =
     (if \<not> length body < n then Some (take n body)
      else if c = [] then None
      else read_body n (body @ c) cs)"

text \<open>\<open>headers[key] = value\<close> on a \<open>std::map\<close>, the list of its entries in key order.\<close>

fun map_put :: "string \<Rightarrow> string \<Rightarrow> (string \<times> string) list \<Rightarrow> (string \<times> string) list" where
  "map_put k v [] = [(k, v)]"
| "map_put k v ((k', v') # kvs) =
     (if k = k' then (k, v) # kvs
      else if k < k' then (k, v) # (k', v') # kvs
      else (k', v') # map_put k v kvs)"

fun parse_headers ::
    "string list \<Rightarrow> (string \<times> string) list \<Rightarrow> nat \<Rightarrow> exn + (string \<times> string) list \<times> nat" where
  "parse_headers [] headers content_length = Inr (headers, content_length)"
| "parse_headers (l # ls) headers content_length =
     (let header_line = drop_cr l
      in if header_line = [] then Inr (headers, content_length)
         else case cut CHR '':'' header_line of
             None \<Rightarrow> parse_headers ls headers content_length
           | Some (k, v) \<Rightarrow>
               let key = trim k; value = trim v; headers' = map_put key value headers
               in if key = ''Content-Length''
                  then ebind (stoul value) (\<lambda>n. parse_headers ls headers' n)
                  else parse_headers ls headers' content_length)"

definition split_target :: "string \<Rightarrow> string \<times> string" where
  "split_target target = (case cut CHR ''?'' target of None \<Rightarrow> (target, []) | Some pq \<Rightarrow> pq)"

text \<open>\<open>None\<close> is the result false, \<open>Inl\<close> an exception of \<open>std::stoul\<close>.\<close>

definition readHttpRequest :: "string list \<Rightarrow> exn + HttpRequest option" where
  "readHttpRequest blocks = (case read_head 1048576 [] blocks of
      None \<Rightarrow> Inr None
    | Some (raw, rest) \<Rightarrow>
        (case cut_str head_end raw of
           None \<Rightarrow> Inr None
         | Some (head, body_prefix) \<Rightarrow>
             (case getlines head of
                [] \<Rightarrow> Inr None
              | request_line # header_lines \<Rightarrow>
                  (case read_word (drop_cr request_line) of (meth, r) \<Rightarrow>
                   case read_word r of (target, _) \<Rightarrow>
                     if meth = [] \<or> target = [] then Inr None
                     else
                     case split_target target of (path, query) \<Rightarrow>
                     ebind (parse_headers header_lines [] 0) (\<lambda>(headers, content_length).
                       Inr (map_option
                         (\<lambda>body. \<lparr>req_method = meth, req_path = path, req_query = query,
                                  req_headers = headers, req_body = body\<rparr>)
                         (if length body_prefix \<ge> content_length
                          then Some (take content_length body_prefix)
                          else read_body content_length body_prefix rest)))))))"

section \<open>Writing a message\<close>

definition header_line :: "string \<times> string \<Rightarrow> string" where
  "header_line kv = fst kv @ '': '' @ snd kv"

fun lines_text :: "string list \<Rightarrow> string" where
  "lines_text [] = []"
| "lines_text (l # ls) = l @ crlf @ lines_text ls"

text \<open>The first line, the header lines, a blank line, and the body.\<close>

definition message_text :: "string \<Rightarrow> (string \<times> string) list \<Rightarrow> string \<Rightarrow> string" where
  "message_text first headers body = lines_text (first # map header_line headers) @ crlf @ body"

text \<open>The text \<open>writeHttpResponse\<close> hands to \<open>write\<close>.\<close>

definition response_headers :: "(string \<times> string) list \<Rightarrow> string \<Rightarrow> (string \<times> string) list" where
  "response_headers extra body =
     (''Content-Type'', ''application/json; charset=utf-8'') # extra @
     [(''Content-Length'', to_string (int (length body))), (''Connection'', ''close'')]"

definition answer_line :: "int \<Rightarrow> string" where
  "answer_line status = ''HTTP/1.1 '' @ to_string status @ '' OK''"

definition response_text :: "int \<Rightarrow> (string \<times> string) list \<Rightarrow> string \<Rightarrow> string" where
  "response_text status extra body = message_text (answer_line status) (response_headers extra body) body"

section \<open>Finding the blank line\<close>

lemma cut_str_more: "cut_str p s = Some (a, b) \<Longrightarrow> cut_str p (s @ t) = Some (a, b @ t)"
proof (induction p s arbitrary: a rule: cut_str.induct)
  case (1 p)
  then show ?case by (cases t) (auto simp: is_prefix_def split: if_splits)
next
  case (2 p x xs)
  show ?case
  proof (cases "is_prefix p (x # xs)")
    case True
    then have "is_prefix p ((x # xs) @ t)" by (metis append.assoc is_prefix_iff)
    moreover have "length p \<le> length (x # xs)"
      using True by (metis is_prefix_iff le_add1 length_append)
    ultimately show ?thesis
      using True "2.prems" drop_append [of "length p" "x # xs" t] by auto
  next
    case False
    with "2.prems" obtain a' where a': "cut_str p xs = Some (a', b)" "a = x # a'"
      by (auto split: option.splits)
    show ?thesis
    proof (cases "is_prefix p (x # xs @ t)")
      case True
      then have "\<not> length p \<le> length (x # xs)"
        using False take_append [of "length p" "x # xs" t] by (auto simp: is_prefix_def)
      moreover have "length p \<le> length xs" using cut_str_Some [OF a'(1)] by simp
      ultimately show ?thesis by simp
    next
      case no: False
      with "2.IH" [OF False a'(1)] a' show ?thesis by simp
    qed
  qed
qed

lemma head_end_prefix: "is_prefix head_end (x # y # s) \<Longrightarrow> x = CHR 0x0D \<and> y = CHR 0x0A"
  by (auto simp: is_prefix_iff head_end_def crlf_def)

lemma head_end_short: "length s < 4 \<Longrightarrow> cut_str head_end s = None"
proof -
  assume "length s < 4"
  moreover have "length s \<ge> 4" if "cut_str head_end s = Some (a, b)" for a b
    using cut_str_Some [OF that] by (simp add: head_end_def crlf_def)
  ultimately show ?thesis by (cases "cut_str head_end s") (auto simp: not_less [symmetric])
qed

text \<open>Text without a line feed in front does not change where the blank line is.\<close>

lemma cut_head_skip:
  assumes "CHR 0x0A \<notin> set l" and "s = [] \<or> hd s \<noteq> CHR 0x0A"
  shows "cut_str head_end (l @ s) = map_option (\<lambda>(a, b). (l @ a, b)) (cut_str head_end s)"
  using assms
proof (induction l)
  case Nil
  then show ?case by (cases "cut_str head_end s") auto
next
  case (Cons x l)
  have "\<not> is_prefix head_end (x # l @ s)"
  proof
    assume p: "is_prefix head_end (x # l @ s)"
    then obtain y t where yt: "l @ s = y # t" by (cases "l @ s") (auto simp: is_prefix_iff head_end_def crlf_def)
    with p have "y = CHR 0x0A" using head_end_prefix by simp
    with yt Cons.prems show False by (cases l) auto
  qed
  with Cons show ?case by (cases "cut_str head_end s") auto
qed

fun crlf_join :: "string list \<Rightarrow> string" where
  "crlf_join [] = []"
| "crlf_join [l] = l"
| "crlf_join (l # m # ls) = l @ crlf @ crlf_join (m # ls)"

definition line_ok :: "string \<Rightarrow> bool" where
  "line_ok l \<longleftrightarrow> l \<noteq> [] \<and> CHR 0x0A \<notin> set l \<and> last l \<noteq> CHR 0x0D"

lemma head_end_line_feed: "\<not> is_prefix head_end (CHR 0x0A # s)"
  by (simp add: is_prefix_def head_end_def crlf_def)

lemma head_end_not_here:
  assumes "l \<noteq> []" and "CHR 0x0A \<notin> set l"
  shows "\<not> is_prefix head_end (CHR 0x0D # CHR 0x0A # l @ crlf @ s)"
proof
  assume "is_prefix head_end (CHR 0x0D # CHR 0x0A # l @ crlf @ s)"
  then have "take 2 (l @ crlf @ s) = crlf"
    by (simp add: is_prefix_def head_end_def crlf_def numeral_2_eq_2)
  with assms show False
    by (cases l; cases "tl l") (auto simp: crlf_def numeral_2_eq_2)
qed

lemma cut_head_lines:
  "ls \<noteq> [] \<Longrightarrow> \<forall>l\<in>set ls. line_ok l \<Longrightarrow>
     cut_str head_end (lines_text ls @ crlf @ body) = Some (crlf_join ls, body)"
proof (induction ls rule: crlf_join.induct)
  case 1
  then show ?case by simp
next
  case (2 l)
  have "cut_str head_end (crlf @ crlf @ body) = Some ([], body)"
  proof -
    have "is_prefix head_end (head_end @ body)" by simp
    then have p: "is_prefix head_end (CHR 0x0D # CHR 0x0A # crlf @ body)" by (simp add: head_end_def crlf_def)
    show ?thesis using p by (simp add: crlf_def head_end_def)
  qed
  with 2 show ?case
    using cut_head_skip [of l "crlf @ crlf @ body"] by (simp add: line_ok_def crlf_def)
next
  case (3 l m ls)
  let ?s = "lines_text (m # ls) @ crlf @ body"
  have IH: "cut_str head_end ?s = Some (crlf_join (m # ls), body)" using 3 by simp
  have m: "m \<noteq> []" "CHR 0x0A \<notin> set m" using "3.prems" by (auto simp: line_ok_def)
  have "\<not> is_prefix head_end (CHR 0x0D # CHR 0x0A # ?s)"
    using head_end_not_here [OF m] by simp
  then have "cut_str head_end (crlf @ ?s) = Some (crlf @ crlf_join (m # ls), body)"
    using IH head_end_line_feed by (simp add: crlf_def)
  then show ?case
    using cut_head_skip [of l "crlf @ ?s"] "3.prems" by (simp add: line_ok_def crlf_def)
qed

lemma crlf_join_lines:
  "ls \<noteq> [] \<Longrightarrow> \<forall>l\<in>set ls. line_ok l \<Longrightarrow> map drop_cr (getlines (crlf_join ls)) = ls"
proof (induction ls rule: crlf_join.induct)
  case 1
  then show ?case by simp
next
  case (2 l)
  then show ?case by (simp add: line_ok_def getlines_last drop_cr_id)
next
  case (3 l m ls)
  have "getlines ((l @ [CHR 0x0D]) @ CHR 0x0A # crlf_join (m # ls)) =
      (l @ [CHR 0x0D]) # getlines (crlf_join (m # ls))"
    using "3.prems" by (intro getlines_line) (simp add: line_ok_def)
  with 3 show ?case by (simp add: crlf_def)
qed

section \<open>Blocks\<close>

lemma cut_str_exists: "cut_str p (a @ p @ b) \<noteq> None"
proof (induction a)
  case Nil
  show ?case
  proof (cases "p @ b")
    case Nil
    then show ?thesis by simp
  next
    case (Cons x xs)
    moreover have "is_prefix p (x # xs)" using Cons by (metis is_prefix_append)
    ultimately show ?thesis by simp
  qed
next
  case (Cons x a)
  then show ?case by (auto split: option.splits)
qed

lemma not_yet_read:
  assumes "cut_str head_end (raw @ t) = Some (head, tail)" and "cut_str head_end raw = None"
  shows "length raw < length head + 4"
proof (rule ccontr)
  assume "\<not> length raw < length head + 4"
  then have long: "length (head @ head_end) \<le> length raw" by (simp add: head_end_def crlf_def)
  have "raw @ t = (head @ head_end) @ tail" using cut_str_Some [OF assms(1)] by simp
  with long have "take (length (head @ head_end)) raw = head @ head_end"
    by (metis append_eq_conv_conj take_append take_all_iff diff_is_0_eq take_eq_Nil append_Nil2)
  then have "raw = head @ head_end @ drop (length (head @ head_end)) raw"
    by (metis append.assoc append_take_drop_id)
  with cut_str_exists [of head_end head "drop (length (head @ head_end)) raw"] assms(2) show False by simp
qed

definition blocks_ok :: "string list \<Rightarrow> bool" where
  "blocks_ok cs \<longleftrightarrow> (\<forall>c\<in>set cs. c \<noteq> [] \<and> length c \<le> 4096)"

lemma read_head_blocks:
  assumes "cut_str head_end (raw @ concat cs) = Some (head, tail)" and "blocks_ok cs"
    and "length head + 4100 \<le> limit"
  shows "\<exists>raw' rest bp. read_head limit raw cs = Some (raw', rest) \<and> blocks_ok rest \<and>
    cut_str head_end raw' = Some (head, bp) \<and> tail = bp @ concat rest"
  using assms
proof (induction cs arbitrary: raw)
  case Nil
  then show ?case by (auto simp: blocks_ok_def)
next
  case (Cons c cs)
  show ?case
  proof (cases "cut_str head_end raw")
    case (Some ab)
    obtain a b where ab: "ab = (a, b)" by force
    have "cut_str head_end (raw @ concat (c # cs)) = Some (a, b @ concat (c # cs))"
      using cut_str_more [of head_end raw a b] Some ab by simp
    with Cons.prems Some ab show ?thesis by auto
  next
    case None
    have "length raw < length head + 4" using not_yet_read Cons.prems(1) None by blast
    with Cons.prems have "c \<noteq> []" "length (raw @ c) \<le> limit" "blocks_ok cs"
      by (auto simp: blocks_ok_def)
    with None Cons.IH [of "raw @ c"] Cons.prems show ?thesis by simp
  qed
qed

lemma read_body_blocks:
  "n \<le> length (body @ concat cs) \<Longrightarrow> blocks_ok cs \<Longrightarrow> read_body n body cs = Some (take n (body @ concat cs))"
proof (induction cs arbitrary: body)
  case Nil
  then show ?case by simp
next
  case (Cons c cs)
  then show ?case by (auto simp: blocks_ok_def)
qed

section \<open>Reading a message back\<close>

text \<open>A header name and a header value that survive the trip.\<close>

definition clean_key :: "string \<Rightarrow> bool" where
  "clean_key k \<longleftrightarrow> k \<noteq> [] \<and> CHR '':'' \<notin> set k \<and> CHR 0x0A \<notin> set k \<and> trim k = k"

definition clean_value :: "string \<Rightarrow> bool" where
  "clean_value v \<longleftrightarrow> CHR 0x0A \<notin> set v \<and> trim v = v"

lemma clean_line:
  assumes "clean_key k" and "clean_value v"
  shows "line_ok (header_line (k, v))" and "cut CHR '':'' (header_line (k, v)) = Some (k, CHR '' '' # v)"
    and "trim (CHR '' '' # v) = v"
proof -
  have blank: "is_blank CHR 0x0D" "is_blank CHR '' ''" by (simp_all add: is_blank_def code_def)
  have "last v \<noteq> CHR 0x0D" if "v \<noteq> []"
    using trim_last [of v] that assms(2) blank by (auto simp: clean_value_def)
  with assms show "line_ok (header_line (k, v))"
    by (auto simp: line_ok_def header_line_def clean_key_def clean_value_def)
  show "cut CHR '':'' (header_line (k, v)) = Some (k, CHR '' '' # v)"
    using assms(1) by (simp add: header_line_def clean_key_def)
  show "trim (CHR '' '' # v) = v" using assms(2) blank by (simp add: trim_blank_left clean_value_def)
qed

lemma parse_headers_clean:
  assumes "\<forall>(k, v)\<in>set hs. clean_key k \<and> clean_value v \<and> k \<noteq> ''Content-Length''"
    and "map drop_cr ls = map header_line hs @ more_lines"
  shows "parse_headers ls acc n =
    parse_headers (drop (length hs) ls) (fold (\<lambda>(k, v). map_put k v) hs acc) n"
  using assms
proof (induction hs arbitrary: ls acc)
  case Nil
  then show ?case by simp
next
  case (Cons kv hs)
  obtain k v where kv: "kv = (k, v)" by force
  from Cons.prems(2) obtain l ls' where ls: "ls = l # ls'" "drop_cr l = header_line (k, v)"
      "map drop_cr ls' = map header_line hs @ more_lines"
    by (cases ls) (auto simp: kv)
  have c: "clean_key k" "clean_value v" "k \<noteq> ''Content-Length''" using Cons.prems(1) by (auto simp: kv)
  have "parse_headers ls acc n = parse_headers ls' (map_put k v acc) n"
    using clean_line [OF c(1,2)] c by (auto simp: ls Let_def line_ok_def clean_key_def)
  with Cons.IH [OF _ ls(3), of "map_put k v acc"] Cons.prems(1) show ?case by (simp add: ls kv)
qed

text \<open>A message with a body announces its length in its last header.\<close>

definition with_length :: "(string \<times> string) list \<Rightarrow> string \<Rightarrow> (string \<times> string) list" where
  "with_length headers body =
     headers @ (if body = [] then [] else [(''Content-Length'', to_string (int (length body)))])"

lemma to_string_clean: "clean_value (to_string i)"
proof -
  have d: "\<not> is_blank c \<and> c \<noteq> CHR 0x0A" if "c \<in> set (to_string i)" for c
  proof -
    have "is_digit c \<or> c = CHR ''-''" using that nat_to_string_digits by (auto simp: to_string_def split: if_splits)
    then show ?thesis by (auto simp: is_digit_def is_blank_def code_def)
  qed
  have "trim (to_string i) = to_string i" by (rule trim_id) (use d in auto)
  with d show ?thesis by (auto simp: clean_value_def)
qed

lemma parse_headers_length:
  assumes "\<forall>(k, v)\<in>set hs. clean_key k \<and> clean_value v \<and> k \<noteq> ''Content-Length''"
    and "map drop_cr ls = map header_line (with_length hs body)" and "length body < 2 ^ 64"
  shows "parse_headers ls [] 0 = Inr (fold (\<lambda>(k, v). map_put k v) (with_length hs body) [], length body)"
proof (cases "body = []")
  case True
  have "length ls = length hs" using assms(2) True map_eq_imp_length_eq by (fastforce simp: with_length_def)
  with True parse_headers_clean [OF assms(1), of ls "[]" "[]" 0] assms(2) show ?thesis
    by (simp add: with_length_def)
next
  case False
  let ?cl = "(''Content-Length'', to_string (int (length body)))"
  have m: "map drop_cr ls = map header_line hs @ [header_line ?cl]"
    using assms(2) False by (simp add: with_length_def)
  have "length ls = Suc (length hs)" using arg_cong [OF m, of length] by simp
  then obtain l where l: "drop (length hs) ls = [l]"
    by (metis Cons_nth_drop_Suc drop_all lessI order_refl)
  have "drop (length hs) (map drop_cr ls) = [header_line ?cl]" using m by simp
  then have dl: "drop_cr l = header_line ?cl" using l by (simp add: drop_map)
  have key: "clean_key ''Content-Length''" by code_simp
  have "parse_headers [l] acc 0 = Inr (map_put ''Content-Length'' (to_string (int (length body))) acc, length body)"
    for acc
    using clean_line [OF key to_string_clean [of "int (length body)"]] key assms(3)
    by (simp add: dl Let_def line_ok_def clean_key_def stoul_to_string)
  with parse_headers_clean [OF assms(1) m, of "[]" 0] l False show ?thesis
    by (simp add: with_length_def)
qed

definition request_line :: "string \<Rightarrow> string \<Rightarrow> string" where
  "request_line meth target = meth @ '' '' @ target @ '' HTTP/1.1''"

lemma is_word_no_feed: "is_word w \<Longrightarrow> CHR 0x0A \<notin> set w"
  by (auto simp: is_word_def is_space_def code_def)

lemma request_line_ok: "is_word meth \<Longrightarrow> is_word target \<Longrightarrow> line_ok (request_line meth target)"
  using is_word_no_feed [of meth] is_word_no_feed [of target] by (simp add: line_ok_def request_line_def)

lemma read_request_line:
  assumes "is_word meth" and "is_word target"
  shows "\<exists>r. read_word (request_line meth target) = (meth, r) \<and> (\<exists>r'. read_word r = (target, r'))"
proof -
  have sp: "is_space CHR '' ''" by (simp add: is_space_def code_def)
  have "read_word (request_line meth target) = (meth, CHR '' '' # target @ '' HTTP/1.1'')"
    using read_word_word [OF assms(1), of "CHR '' '' # target @ '' HTTP/1.1''"] sp
    by (simp add: request_line_def)
  moreover have "read_word (CHR '' '' # target @ '' HTTP/1.1'') = (target, '' HTTP/1.1'')"
    using read_word_word [OF assms(2), of "'' HTTP/1.1''"] sp by (simp add: read_word_blank)
  ultimately show ?thesis by blast
qed

lemma is_word_ne: "is_word w \<Longrightarrow> w \<noteq> []"
  by (simp add: is_word_def)

text \<open>The request that a message stands for.\<close>

definition request_of :: "string \<Rightarrow> string \<Rightarrow> (string \<times> string) list \<Rightarrow> string \<Rightarrow> HttpRequest" where
  "request_of meth target hs body =
     \<lparr>req_method = meth, req_path = fst (split_target target), req_query = snd (split_target target),
      req_headers = fold (\<lambda>(k, v). map_put k v) (with_length hs body) [], req_body = body\<rparr>"

definition head_length :: "string \<Rightarrow> (string \<times> string) list \<Rightarrow> nat" where
  "head_length first headers = length (crlf_join (first # map header_line headers))"

text \<open>
  Any message whose header lines parse is read back, in whatever blocks it arrives.
\<close>

lemma read_lines:
  assumes words: "is_word meth" "is_word target"
    and hs: "\<forall>(k, v)\<in>set hs. clean_key k \<and> clean_value v"
    and parse: "\<And>ls. map drop_cr ls = map header_line hs \<Longrightarrow> parse_headers ls [] 0 = Inr (m, length body)"
    and blocks: "blocks_ok cs" "concat cs = message_text (request_line meth target) hs body"
    and size: "head_length (request_line meth target) hs + 4100 \<le> 1048576"
  shows "readHttpRequest cs = Inr (Some \<lparr>req_method = meth, req_path = fst (split_target target),
    req_query = snd (split_target target), req_headers = m, req_body = body\<rparr>)"
proof -
  let ?first = "request_line meth target" and ?hs = "map header_line hs"
  let ?head = "crlf_join (?first # ?hs)"
  have ok: "\<forall>l\<in>set (?first # ?hs). line_ok l"
    using hs request_line_ok [OF words] clean_line(1) by auto
  have cut: "cut_str head_end ([] @ concat cs) = Some (?head, body)"
    using cut_head_lines [OF _ ok, of body] blocks(2) by (simp add: message_text_def)
  obtain raw rest bp where read: "read_head 1048576 [] cs = Some (raw, rest)" "blocks_ok rest"
      "cut_str head_end raw = Some (?head, bp)" "body = bp @ concat rest"
    using read_head_blocks [OF cut blocks(1) size [unfolded head_length_def]] by metis
  have lines: "map drop_cr (getlines ?head) = ?first # ?hs" by (rule crlf_join_lines [OF _ ok]) simp
  then obtain l0 ls where g: "getlines ?head = l0 # ls" "drop_cr l0 = ?first" "map drop_cr ls = ?hs"
    by (cases "getlines ?head") auto
  obtain r r' where w: "read_word ?first = (meth, r)" "read_word r = (target, r')"
    using read_request_line [OF words] by blast
  have body: "(if length bp \<ge> length body then Some (take (length body) bp) else read_body (length body) bp rest) =
      Some body"
    using read_body_blocks [of "length body" bp rest] read(2,4) by auto
  show ?thesis
    using read(1,3) g w parse [OF g(3)] body is_word_ne [OF words(1)] is_word_ne [OF words(2)]
    by (simp add: readHttpRequest_def split: prod.split)
qed

lemma read_message:
  assumes words: "is_word meth" "is_word target"
    and hs: "\<forall>(k, v)\<in>set hs. clean_key k \<and> clean_value v \<and> k \<noteq> ''Content-Length''"
    and blocks: "blocks_ok cs" "concat cs = message_text (request_line meth target) (with_length hs body) body"
    and size: "head_length (request_line meth target) (with_length hs body) + 4100 \<le> 1048576"
    and len: "length body < 2 ^ 64"
  shows "readHttpRequest cs = Inr (Some (request_of meth target hs body))"
  unfolding request_of_def
proof (rule read_lines [OF words _ _ blocks size])
  have "clean_key ''Content-Length''" by code_simp
  with hs to_string_clean show "\<forall>(k, v)\<in>set (with_length hs body). clean_key k \<and> clean_value v"
    by (auto simp: with_length_def)
qed (rule parse_headers_length [OF hs _ len])

lemma read_head_parts: "read_head limit raw cs = Some (raw', rest) \<Longrightarrow> raw' @ concat rest = raw @ concat cs"
  by (induction limit raw cs rule: read_head.induct) (auto split: if_splits)

lemma read_body_parts:
  "read_body n body cs = Some b \<Longrightarrow> n \<le> length (body @ concat cs) \<and> b = take n (body @ concat cs)"
  by (induction n body cs rule: read_body.induct) (auto split: if_splits)

text \<open>
  A text that is cut short, whose end never arrives, is not taken for a request; and a request that is
  read from a part of the text is the request of the whole text.
\<close>

lemma read_message_sound:
  assumes read: "readHttpRequest cs = Inr (Some r)"
    and sent: "concat cs @ lost = message_text (request_line meth target) (with_length hs body) body"
    and words: "is_word meth" "is_word target"
    and hs: "\<forall>(k, v)\<in>set hs. clean_key k \<and> clean_value v \<and> k \<noteq> ''Content-Length''"
    and len: "length body < 2 ^ 64"
  shows "r = request_of meth target hs body"
proof -
  let ?first = "request_line meth target" and ?hs = "map header_line (with_length hs body)"
  let ?head = "crlf_join (?first # ?hs)"
  have cl: "clean_key ''Content-Length''" by code_simp
  have ok: "\<forall>l\<in>set (?first # ?hs). line_ok l"
    using hs request_line_ok [OF words] clean_line(1) [OF cl to_string_clean] clean_line(1)
    by (auto simp: with_length_def)
  from read obtain raw rest head bp where parts: "read_head 1048576 [] cs = Some (raw, rest)"
    and c: "cut_str head_end raw = Some (head, bp)"
    by (auto simp: readHttpRequest_def split: option.splits)
  have raw: "concat cs = raw @ concat rest" using read_head_parts [OF parts] by simp
  have "cut_str head_end (concat cs @ lost) = Some (?head, body)"
    using cut_head_lines [OF _ ok, of body] sent by (simp add: message_text_def)
  moreover have "cut_str head_end (concat cs @ lost) = Some (head, bp @ concat rest @ lost)"
    using cut_str_more [OF c, of "concat rest @ lost"] raw by simp
  ultimately have head: "head = ?head" and body: "body = bp @ concat rest @ lost" by simp_all
  have lines: "map drop_cr (getlines ?head) = ?first # ?hs" by (rule crlf_join_lines [OF _ ok]) simp
  then obtain l0 ls where g: "getlines ?head = l0 # ls" "drop_cr l0 = ?first" "map drop_cr ls = ?hs"
    by (cases "getlines ?head") auto
  obtain x x' where w: "read_word ?first = (meth, x)" "read_word x = (target, x')"
    using read_request_line [OF words] by blast
  have whole: "b = body" if "read_body (length body) bp rest = Some b" for b
    using read_body_parts [OF that] body by (auto simp: not_le)
  define got where "got = (if length bp \<ge> length body then Some (take (length body) bp) else read_body (length body) bp rest)"
  have "map_option (\<lambda>b. (request_of meth target hs body)\<lparr>req_body := b\<rparr>) got = Some r"
    using read parts c head g w parse_headers_length [OF hs g(3) len] is_word_ne [OF words(1)] is_word_ne [OF words(2)]
    by (auto simp: readHttpRequest_def request_of_def got_def [symmetric] split: prod.splits)
  moreover have "take (length body) bp = body" if "length body \<le> length bp" using that body by auto
  ultimately show ?thesis using whole by (auto simp: request_of_def got_def split: if_splits)
qed

section \<open>What a request that was read looks like\<close>

lemma map_put_entries: "set (map_put k v hs) \<subseteq> insert (k, v) (set hs)"
  by (induction hs) (auto split: if_splits)

lemma getlines_no_feed: "l \<in> set (getlines s) \<Longrightarrow> CHR 0x0A \<notin> set l"
proof (induction s arbitrary: l)
  case Nil
  then show ?case by simp
next
  case (Cons c s)
  show ?case
  proof (cases "c = CHR 0x0A")
    case True
    with Cons show ?thesis by auto
  next
    case False
    show ?thesis
    proof (cases "getlines s")
      case Nil
      with Cons.prems False show ?thesis by auto
    next
      case (Cons l' ls)
      with Cons.prems False Cons.IH [of l'] Cons.IH show ?thesis by auto
    qed
  qed
qed

lemma drop_cr_sub: "set (drop_cr l) \<subseteq> set l"
  by (auto simp: drop_cr_def dest: in_set_butlastD)

lemma trim_sub: "set (trim s) \<subseteq> set s"
  unfolding trim_def by (auto dest!: set_dropWhileD simp del: set_rev) (auto dest!: set_dropWhileD)

lemma parse_headers_values:
  assumes "parse_headers ls acc n = Inr (hs, m)" and "\<forall>l\<in>set ls. CHR 0x0A \<notin> set l"
    and "\<forall>(k, v)\<in>set acc. clean_value v"
  shows "\<forall>(k, v)\<in>set hs. clean_value v"
  using assms
proof (induction ls arbitrary: acc n)
  case Nil
  then show ?case by simp
next
  case (Cons l ls)
  show ?case
  proof (cases "drop_cr l = [] \<or> cut CHR '':'' (drop_cr l) = None")
    case True
    with Cons show ?thesis by (auto simp: Let_def split: if_splits)
  next
    case False
    then obtain k v where kv: "cut CHR '':'' (drop_cr l) = Some (k, v)" by auto
    then have "set v \<subseteq> set (drop_cr l)" by (auto simp: cut_Some_iff)
    then have "CHR 0x0A \<notin> set (trim v)"
      using Cons.prems(2) drop_cr_sub [of l] trim_sub [of v] by auto
    then have put: "\<forall>(k, v)\<in>set (map_put (trim k) (trim v) acc). clean_value v"
      using Cons.prems(3) map_put_entries [of "trim k" "trim v" acc] by (fastforce simp: clean_value_def)
    obtain j where "parse_headers ls (map_put (trim k) (trim v) acc) j = Inr (hs, m)"
      using Cons.prems(1) False kv by (auto simp: Let_def run_iff split: if_splits)
    with Cons.IH Cons.prems(2) put show ?thesis by simp
  qed
qed

text \<open>
  What \<open>readHttpRequest\<close> delivers: a method without blanks, a path and a query that make up a word, and
  header values without line feeds and without blanks at either end.
\<close>

definition request_ok :: "'a HttpRequest_scheme \<Rightarrow> bool" where
  "request_ok r \<longleftrightarrow> is_word (req_method r) \<and>
     (\<forall>c\<in>set (req_path r) \<union> set (req_query r). \<not> is_space c) \<and> CHR ''?'' \<notin> set (req_path r) \<and>
     (\<forall>(k, v)\<in>set (req_headers r). clean_value v)"

lemma split_target_words:
  assumes "split_target t = (p, q)" and "\<forall>c\<in>set t. \<not> is_space c"
  shows "(\<forall>c\<in>set p \<union> set q. \<not> is_space c) \<and> CHR ''?'' \<notin> set p"
  using assms by (auto simp: split_target_def cut_Some_iff cut_None_iff split: option.splits)

lemma readHttpRequest_ok:
  assumes "readHttpRequest cs = Inr (Some r)"
  shows "request_ok r"
proof -
  from assms obtain raw rest head bp where "cut_str head_end raw = Some (head, bp)"
    and read: "read_head 1048576 [] cs = Some (raw, rest)"
    by (auto simp: readHttpRequest_def split: option.splits)
  with assms obtain l0 ls where g: "getlines head = l0 # ls"
    by (auto simp: readHttpRequest_def split: list.splits)
  obtain meth s1 where w1: "read_word (drop_cr l0) = (meth, s1)" by force
  obtain target s2 where w2: "read_word s1 = (target, s2)" by force
  obtain p q where t: "split_target target = (p, q)" by force
  from assms \<open>cut_str head_end raw = Some (head, bp)\<close> read g w1 w2 t have ne: "meth \<noteq> []" "target \<noteq> []"
    by (auto simp: readHttpRequest_def split: if_splits)
  with assms \<open>cut_str head_end raw = Some (head, bp)\<close> read g w1 w2 t obtain hs n where
    h: "parse_headers ls [] 0 = Inr (hs, n)" and r: "req_method r = meth" "req_path r = p" "req_query r = q"
      "req_headers r = hs"
    by (auto simp: readHttpRequest_def run_iff)
  have words: "is_word meth" "is_word target"
    using read_word_is_word [OF w1] read_word_is_word [OF w2] ne by auto
  have "\<forall>l\<in>set ls. CHR 0x0A \<notin> set l" using getlines_no_feed g by (metis list.set_intros(2))
  with parse_headers_values [OF h] have "\<forall>(k, v)\<in>set hs. clean_value v" by simp
  with words split_target_words [OF t] r show ?thesis by (auto simp: request_ok_def is_word_def)
qed

end
