(* ===== verification/SocketClient.thy ===== *)
theory SocketClient
  imports HttpWire
begin

text \<open>
  The client side of a TCP connection, as gateway/common/http_forwarder.hpp (to the backend) and
  backend/common/gateway_notify.hpp (to the gateway) have it, word for word: \<open>connect\<close>, \<open>sendAll\<close>, and
  the loop that reads a head (\<open>HttpWire\<close>). A \<open>link\<close> is what the process and the network contribute: the
  number of sockets it holds open, the texts it has sent, how coming attempts to connect end (they
  succeed once the list is empty), how many bytes coming calls of \<open>write\<close> take (all of them once the list is
  empty), and the peer. \<open>ln_peer k s\<close> is the list of blocks that \<open>read\<close> yields after the text \<open>s\<close> was sent
  on the \<open>k\<close>-th connection.
\<close>

section \<open>Connecting\<close>

text \<open>\<open>inet_pton(AF_INET, ip, ...) == 1\<close>: four decimal numbers up to 255 without leading zeros.\<close>

definition ipv4_part :: "string \<Rightarrow> bool" where
  "ipv4_part s \<longleftrightarrow> s \<noteq> [] \<and> (\<forall>c\<in>set s. is_digit c) \<and> digits_val s \<le> 255 \<and> (hd s = CHR ''0'' \<longrightarrow> s = ''0'')"

definition inet_pton :: "string \<Rightarrow> bool" where
  "inet_pton ip = (let ps = split ip CHR ''.'' in length ps = 4 \<and> list_all ipv4_part ps)"

datatype connect_event = Connects | NoSocket | ConnectFails

record link =
  ln_open :: nat
  ln_sent :: "string list"
  ln_connects :: "connect_event list"
  ln_writes :: "int list"
  ln_peer :: "nat \<Rightarrow> string \<Rightarrow> string list"

text \<open>False where the code returns \<open>-1\<close>. A socket that was opened and not connected has been closed.\<close>

definition connect_link :: "string \<Rightarrow> (link, bool) comp" where
  "connect_link host = (\<lambda>l.
     let ev = (case ln_connects l of [] \<Rightarrow> Connects | e # _ \<Rightarrow> e);
         l1 = l\<lparr>ln_connects := tl (ln_connects l)\<rparr>
     in if ev = NoSocket then (Inr False, l1)
        else let ip = (if host = ''localhost'' then ''127.0.0.1'' else host)
             in if \<not> inet_pton ip then (Inr False, l1)
                else if ev = ConnectFails then (Inr False, l1)
                else (Inr True, l1\<lparr>ln_open := Suc (ln_open l1)\<rparr>))"

definition close_link :: "(link, unit) comp" where
  "close_link = mmodify (\<lambda>l. l\<lparr>ln_open := ln_open l - 1\<rparr>)"

section \<open>Sending\<close>

text \<open>
  The loop of \<open>sendAll\<close>: a \<open>write\<close> may take a part of what is left, and a result of zero or less ends the
  loop. The result is whether everything was sent, what was sent, and the writes that remain.
\<close>

fun send_loop :: "int list \<Rightarrow> string \<Rightarrow> bool \<times> string \<times> int list" where
  "send_loop [] rest = (True, rest, [])"
| "send_loop (n # ns) rest =
     (if rest = [] then (True, [], n # ns)
      else if n \<le> 0 then (False, [], ns)
      else case send_loop ns (drop (nat n) rest) of
          (ok, s, ns') \<Rightarrow> (ok, take (nat n) rest @ s, ns'))"

definition sendAll :: "string \<Rightarrow> (link, bool) comp" where
  "sendAll payload = (\<lambda>l. case send_loop (ln_writes l) payload of
      (ok, s, ns) \<Rightarrow> (Inr ok, l\<lparr>ln_writes := ns, ln_sent := ln_sent l @ [s]\<rparr>))"

text \<open>What the peer answers to the text sent last.\<close>

definition peer_blocks :: "link \<Rightarrow> string list" where
  "peer_blocks l = ln_peer l (length (ln_sent l) - 1) (last (ln_sent l))"

section \<open>Facts\<close>

text \<open>What was sent is a prefix of the text, and all of it exactly when the loop says so.\<close>

lemma send_loop_sent: "send_loop ns s = (ok, t, ns') \<Longrightarrow> (\<exists>u. s = t @ u) \<and> (ok \<longleftrightarrow> t = s)"
proof (induction ns s arbitrary: ok t ns' rule: send_loop.induct)
  case (1 rest)
  then show ?case by simp
next
  case (2 n ns rest)
  show ?case
  proof (cases "rest = [] \<or> n \<le> 0")
    case True
    with "2.prems" show ?thesis by (auto split: if_splits)
  next
    case False
    obtain ok' t' r where r: "send_loop ns (drop (nat n) rest) = (ok', t', r)" by (metis prod_cases3)
    from 2 False r have "(\<exists>u. drop (nat n) rest = t' @ u) \<and> (ok' \<longleftrightarrow> t' = drop (nat n) rest)" by auto
    moreover have "ok = ok'" "t = take (nat n) rest @ t'" using "2.prems" False r by auto
    ultimately show ?thesis by (metis append.assoc append_take_drop_id same_append_eq)
  qed
qed

lemma sendAll_run:
  obtains t ns ok where "sendAll s l = (Inr ok, l\<lparr>ln_writes := ns, ln_sent := ln_sent l @ [t]\<rparr>)"
    and "\<exists>u. s = t @ u" and "ok \<longleftrightarrow> t = s"
proof -
  obtain ok t ns where r: "send_loop (ln_writes l) s = (ok, t, ns)" by (metis prod_cases3)
  have "sendAll s l = (Inr ok, l\<lparr>ln_writes := ns, ln_sent := ln_sent l @ [t]\<rparr>)"
    using r by (simp add: sendAll_def)
  with send_loop_sent [OF r] show thesis using that [of ok t ns] by simp
qed

lemma sendAll_writes_all: "ln_writes l = [] \<Longrightarrow> sendAll s l = (Inr True, l\<lparr>ln_sent := ln_sent l @ [s]\<rparr>)"
  by (simp add: sendAll_def)

lemma connect_link_run:
  obtains (up) es where "connect_link host l = (Inr True, l\<lparr>ln_connects := es, ln_open := Suc (ln_open l)\<rparr>)"
  | (down) es where "connect_link host l = (Inr False, l\<lparr>ln_connects := es\<rparr>)"
  by (cases "fst (connect_link host l)") (auto simp: connect_link_def Let_def split: if_splits)

end
