(* ===== verification/GatewayConfig.thy ===== *)
theory GatewayConfig
  imports Config
begin

text \<open>
  The gateway's \<open>payment_config::Config\<close> (gateway/common/config.hpp). Reading the file and the typed
  access to a key are the code of \<open>Config\<close>, and so are the logger's and the HTTP server's view; this
  theory has the views that differ. The time-outs of Redis are unsigned there too, but are checked
  after a cast back to \<open>int\<close>.
\<close>

record GwBackendConfig =
  gb_ip :: string
  gb_http_port :: int

record GwGatewayConfig =
  gg_websocket_port :: int
  gg_http_port :: int

record GwNginxConfig =
  gn_ip :: string
  gn_port :: int

definition gw_redis_cfg :: "values \<Rightarrow> exn + RedisConfig" where
  "gw_redis_cfg v =
     ebind (requireString v ''REDIS_HOST'') (\<lambda>host.
     ebind (requireInt v ''REDIS_PORT'') (\<lambda>port.
     ebind (requireInt v ''REDIS_DB'') (\<lambda>db.
     ebind (requireString v ''REDIS_GATEWAY_USERNAME'') (\<lambda>username.
     ebind (requireString v ''REDIS_GATEWAY_PASSWORD'') (\<lambda>password.
     ebind (requireInt v ''REDIS_CONNECT_TIMEOUT_SECONDS'') (\<lambda>ct.
     ebind (requireInt v ''REDIS_COMMAND_TIMEOUT_SECONDS'') (\<lambda>cmd.
     ebind (requireInt v ''REDIS_POOL_SIZE'') (\<lambda>pool.
     ebind (requirePositive ''REDIS_PORT'' port) (\<lambda>_.
     ebind (requirePositive ''REDIS_POOL_SIZE'' pool) (\<lambda>_.
     if db < 0 then Inl (ConfigException (''REDIS_DB'' @ M_cfg_nonneg))
     else
     ebind (requirePositive ''REDIS_CONNECT_TIMEOUT_SECONDS'' (sint (word_of_int ct :: 32 word))) (\<lambda>_.
     ebind (requirePositive ''REDIS_COMMAND_TIMEOUT_SECONDS'' (sint (word_of_int cmd :: 32 word))) (\<lambda>_.
       Inr \<lparr>rd_host = host, rd_port = port, rd_db = db, rd_username = username,
            rd_password = password, rd_connect_timeout_seconds = word_of_int ct,
            rd_command_timeout_seconds = word_of_int cmd, rd_pool_size = pool\<rparr>))))))))))))"

definition gw_paymentBackend :: "values \<Rightarrow> exn + GwBackendConfig" where
  "gw_paymentBackend v =
     ebind (requireString v ''PAYMENT_BACKEND_IP'') (\<lambda>ip.
     ebind (requireInt v ''PAYMENT_BACKEND_HTTP_PORT'') (\<lambda>port.
     ebind (requirePositive ''PAYMENT_BACKEND_HTTP_PORT'' port) (\<lambda>_.
       Inr \<lparr>gb_ip = ip, gb_http_port = port\<rparr>)))"

definition gw_paymentGateway :: "values \<Rightarrow> exn + GwGatewayConfig" where
  "gw_paymentGateway v =
     ebind (requireInt v ''PAYMENT_GATEWAY_WEBSOCKET_PORT'') (\<lambda>ws.
     ebind (requireInt v ''PAYMENT_GATEWAY_HTTP_PORT'') (\<lambda>http.
     ebind (requirePositive ''PAYMENT_GATEWAY_WEBSOCKET_PORT'' ws) (\<lambda>_.
     ebind (requirePositive ''PAYMENT_GATEWAY_HTTP_PORT'' http) (\<lambda>_.
       Inr \<lparr>gg_websocket_port = ws, gg_http_port = http\<rparr>))))"

definition gw_paymentNginx :: "values \<Rightarrow> exn + GwNginxConfig" where
  "gw_paymentNginx v =
     ebind (requireString v ''PAYMENT_NGINX_IP'') (\<lambda>ip.
     ebind (requireInt v ''PAYMENT_NGINX_PORT'') (\<lambda>port.
     ebind (requirePositive ''PAYMENT_NGINX_PORT'' port) (\<lambda>_.
       Inr \<lparr>gn_ip = ip, gn_port = port\<rparr>)))"

definition wsMaxConnections :: "values \<Rightarrow> exn + int" where
  "wsMaxConnections v =
     ebind (intOr v ''WS_MAX_CONNECTIONS'' 256) (\<lambda>max_connections.
     ebind (requirePositive ''WS_MAX_CONNECTIONS'' max_connections) (\<lambda>_. Inr max_connections))"

end
