(* ===== verification/Forwarder.thy ===== *)
theory Forwarder
  imports SocketClient GatewayConfig "HOL-Library.Sublist"
begin

text \<open>
  gateway/common/http_forwarder.hpp: the text of the request that the gateway sends to the backend, and
  the reading of the answer. The theory shows that the backend reads exactly the forwarded request, and
  that the gateway reads back exactly the answer the backend wrote.
\<close>

record ForwardResponse =
  fr_status :: int
  fr_body :: string
  fr_extra_headers :: "(string \<times> string) list"

definition connectBackend :: "GwBackendConfig \<Rightarrow> (link, bool) comp" where
  "connectBackend backend = connect_link (gb_ip backend)"

definition buildTarget :: "HttpRequest \<Rightarrow> string" where
  "buildTarget request =
     (if req_query request = [] then req_path request else req_path request @ ''?'' @ req_query request)"

section \<open>The request\<close>

definition host_header :: "string \<Rightarrow> int \<Rightarrow> string" where
  "host_header ip port = ip @ '':'' @ to_string port"

text \<open>A header that is copied when it is there and not empty.\<close>

definition copied_header :: "HttpRequest \<Rightarrow> string \<Rightarrow> (string \<times> string) list" where
  "copied_header request name = (case map_of (req_headers request) name of
      None \<Rightarrow> []
    | Some v \<Rightarrow> if v = [] then [] else [(name, v)])"

definition forward_headers :: "GwBackendConfig \<Rightarrow> HttpRequest \<Rightarrow> string \<Rightarrow> (string \<times> string) list" where
  "forward_headers backend request user_id =
     [(''Host'', host_header (gb_ip backend) (gb_http_port backend)), (''Connection'', ''close'')] @
     (if user_id = [] then [] else [(''X-User-Id'', user_id)]) @
     (case map_of (req_headers request) ''Content-Type'' of
        Some v \<Rightarrow> [(''Content-Type'', v)]
      | None \<Rightarrow> if req_body request = [] then [] else [(''Content-Type'', ''application/json'')]) @
     copied_header request ''Cookie'' @ copied_header request ''X-Forwarded-For'' @
     copied_header request ''User-Agent''"

definition forward_text :: "GwBackendConfig \<Rightarrow> HttpRequest \<Rightarrow> string \<Rightarrow> string" where
  "forward_text backend request user_id =
     message_text (request_line (req_method request) (buildTarget request))
       (with_length (forward_headers backend request user_id) (req_body request)) (req_body request)"

section \<open>The answer\<close>

text \<open>
  \<open>stream >> i\<close> for an \<open>int\<close>: at the end of the text \<open>i\<close> keeps its value, without digits it becomes 0, and
  a number out of range becomes the nearest one in range.
\<close>

definition read_int :: "string \<Rightarrow> int \<Rightarrow> int" where
  "read_int s i =
     (if dropWhile is_space s = [] then i
      else case scan_number s of
          None \<Rightarrow> 0
        | Some (neg, m, _) \<Rightarrow>
            let v = signed_val neg m
            in if v < INT_MIN then INT_MIN else if INT_MAX < v then INT_MAX else v)"

text \<open>\<open>http_version >> status\<close>: a failed first read leaves the status as it was.\<close>

definition status_of_line :: "string \<Rightarrow> int \<Rightarrow> int" where
  "status_of_line status_line status = (case read_word status_line of (http_version, r) \<Rightarrow>
     if http_version = [] then status else read_int r status)"

text \<open>The loops that take blanks off both ends.\<close>

definition strip_both :: "string \<Rightarrow> string" where
  "strip_both s = rev (strip_spaces (rev (strip_spaces s)))"

fun parse_response_headers ::
    "string list \<Rightarrow> (string \<times> string) list \<Rightarrow> nat \<Rightarrow> exn + (string \<times> string) list \<times> nat" where
  "parse_response_headers [] extra content_length = Inr (extra, content_length)"
| "parse_response_headers (l # ls) extra content_length = (case cut CHR '':'' (drop_cr l) of
      None \<Rightarrow> parse_response_headers ls extra content_length
    | Some (k, v) \<Rightarrow>
        let key = strip_both k; value = strip_both v
        in if key = ''Content-Length''
           then ebind (stoul value) (\<lambda>n. parse_response_headers ls extra n)
           else if key = ''Set-Cookie''
           then parse_response_headers ls (extra @ [(key, value)]) content_length
           else parse_response_headers ls extra content_length)"

text \<open>\<open>None\<close> is the result false.\<close>

definition readHttpResponse :: "string list \<Rightarrow> exn + ForwardResponse option" where
  "readHttpResponse blocks = (case read_head 4194304 [] blocks of
      None \<Rightarrow> Inr None
    | Some (raw, rest) \<Rightarrow>
        (case cut_str head_end raw of
           None \<Rightarrow> Inr None
         | Some (head, body_prefix) \<Rightarrow>
             (case getlines head of
                [] \<Rightarrow> Inr None
              | status_line # header_lines \<Rightarrow>
                  ebind (parse_response_headers header_lines [] 0) (\<lambda>(extra, content_length).
                    Inr (map_option
                      (\<lambda>body. \<lparr>fr_status = status_of_line (drop_cr status_line) 500, fr_body = body,
                               fr_extra_headers = extra\<rparr>)
                      (read_body content_length body_prefix rest))))))"

section \<open>Forwarding\<close>

definition bad_gateway :: "string \<Rightarrow> ForwardResponse" where
  "bad_gateway message =
     \<lparr>fr_status = 502, fr_body = ''{\"code\":50001,\"message\":\"'' @ message @ ''\",\"data\":{}}'', fr_extra_headers = []\<rparr>"

definition forwardToBackend :: "values \<Rightarrow> HttpRequest \<Rightarrow> string \<Rightarrow> (link, ForwardResponse) comp" where
  "forwardToBackend cfg request user_id =
     mbind (mlift (gw_paymentBackend cfg)) (\<lambda>backend.
     mbind (connectBackend backend) (\<lambda>connected.
     if \<not> connected then mret (bad_gateway M_backend_unreachable)
     else
     mbind (sendAll (forward_text backend request user_id)) (\<lambda>sent.
     if \<not> sent then mbind close_link (\<lambda>_. mret (bad_gateway M_backend_reply))
     else
     mbind (mread peer_blocks) (\<lambda>blocks.
     mbind (mlift (readHttpResponse blocks)) (\<lambda>answer. case answer of
       None \<Rightarrow> mbind close_link (\<lambda>_. mret (bad_gateway M_backend_reply))
     | Some response \<Rightarrow> mbind close_link (\<lambda>_. mret response))))))"

section \<open>The backend reads what was forwarded\<close>

lemma set_map_put: "k \<notin> fst ` set m \<Longrightarrow> set (map_put k v m) = insert (k, v) (set m)"
  by (induction m) (auto split: if_splits)

text \<open>Names that differ also when case is ignored.\<close>

definition names_ok :: "(string \<times> string) list \<Rightarrow> bool" where
  "names_ok hs \<longleftrightarrow> distinct (map (\<lambda>kv. toLower (fst kv)) hs)"

lemma headerValue_loop_unique:
  "names_ok hs \<Longrightarrow> (k, v) \<in> set hs \<Longrightarrow> toLower k = key \<Longrightarrow> headerValue_loop key hs = v"
  by (induction hs) (auto simp: names_ok_def rev_image_eqI)

lemma headerValue_loop_none:
  "\<forall>kv\<in>set hs. toLower (fst kv) \<noteq> key \<Longrightarrow> headerValue_loop key hs = []"
  by (induction hs) auto

lemma headerValue_loop_perm:
  assumes "names_ok hs" and "names_ok hs'" and "set hs = set hs'"
  shows "headerValue_loop key hs = headerValue_loop key hs'"
proof (cases "\<exists>kv\<in>set hs. toLower (fst kv) = key")
  case True
  then obtain k v where "(k, v) \<in> set hs" "toLower k = key" by auto
  with assms headerValue_loop_unique show ?thesis by metis
next
  case False
  with assms show ?thesis using headerValue_loop_none [of hs key] headerValue_loop_none [of hs' key] by simp
qed

lemma fold_map_put:
  assumes "names_ok (hs @ m)"
  shows "names_ok (fold (\<lambda>(k, v). map_put k v) hs m) \<and>
    set (fold (\<lambda>(k, v). map_put k v) hs m) = set hs \<union> set m"
  using assms
proof (induction hs arbitrary: m)
  case Nil
  then show ?case by simp
next
  case (Cons kv hs)
  obtain k v where kv: "kv = (k, v)" by force
  have k: "k \<notin> fst ` set m" using Cons.prems kv by (auto simp: names_ok_def image_iff)
  have s: "set (map_put k v m) = insert (k, v) (set m)" by (rule set_map_put [OF k])
  have "length (map_put k v m) = Suc (length m)" using k by (induction m) auto
  moreover have "inj_on (\<lambda>kv. toLower (fst kv)) (insert (k, v) (set m))" "card (insert (k, v) (set m)) = Suc (length m)"
    using Cons.prems kv k
    by (auto simp: names_ok_def distinct_map inj_on_def image_iff card_insert_if distinct_card rev_image_eqI)
  ultimately have "distinct (map_put k v m)" using s by (metis card_distinct)
  with s \<open>inj_on _ _\<close> have d: "distinct (map (\<lambda>kv. toLower (fst kv)) (map_put k v m))" by (simp add: distinct_map)
  have "names_ok (hs @ map_put k v m)"
    using Cons.prems d s kv by (auto simp: names_ok_def)
  with Cons.IH [OF this] s show ?case by (auto simp: kv)
qed

lemma headerValue_fold:
  assumes "names_ok hs"
  shows "headerValue_loop key (fold (\<lambda>(k, v). map_put k v) hs []) = headerValue_loop key hs"
  using fold_map_put [of hs "[]"] assms by (intro headerValue_loop_perm) auto

lemma forward_names [simp]:
  "toLower ''Host'' = ''host''" "toLower ''Connection'' = ''connection''"
  "toLower ''X-User-Id'' = ''x-user-id''" "toLower ''Content-Type'' = ''content-type''"
  "toLower ''Cookie'' = ''cookie''" "toLower ''X-Forwarded-For'' = ''x-forwarded-for''"
  "toLower ''User-Agent'' = ''user-agent''" "toLower ''Content-Length'' = ''content-length''"
  by code_simp+

lemma copied_header_cases:
  "copied_header request name = [] \<or> (\<exists>v. copied_header request name = [(name, v)] \<and> v \<noteq> [] \<and>
     (name, v) \<in> set (req_headers request))"
  by (auto simp: copied_header_def map_of_SomeD split: option.split)

text \<open>The value of a header of a request, empty when it is missing.\<close>

definition header_or_empty :: "HttpRequest \<Rightarrow> string \<Rightarrow> string" where
  "header_or_empty request name = (case map_of (req_headers request) name of None \<Rightarrow> [] | Some v \<Rightarrow> v)"

lemma forward_headers_values:
  fixes b req uid body
  defines "hs \<equiv> with_length (forward_headers b req uid) body"
  shows "headerValue_loop ''x-user-id'' hs = uid"
    and "headerValue_loop ''cookie'' hs = header_or_empty req ''Cookie''"
    and "headerValue_loop ''x-forwarded-for'' hs = header_or_empty req ''X-Forwarded-For''"
    and "headerValue_loop ''user-agent'' hs = header_or_empty req ''User-Agent''"
  unfolding hs_def with_length_def forward_headers_def copied_header_def header_or_empty_def
  by (simp_all split: option.split)

lemma forward_headers_names: "names_ok (with_length (forward_headers b req uid) body)"
proof -
  have blk: "subseq (map (\<lambda>kv. toLower (fst kv)) (copied_header req n)) [toLower n]" for n
    using copied_header_cases [of req n] by auto
  have "subseq (map (\<lambda>kv. toLower (fst kv)) (with_length (forward_headers b req uid) body))
     ([''host'', ''connection''] @ [''x-user-id''] @ [''content-type''] @ [toLower ''Cookie''] @
      [toLower ''X-Forwarded-For''] @ [toLower ''User-Agent''] @ [''content-length''])"
    unfolding with_length_def forward_headers_def map_append append_assoc
    by (intro list_emb_append_mono blk) (auto split: option.split)
  then show ?thesis by (auto simp: names_ok_def subseq_conv_nths simp del: nths_Cons)
qed

lemma forward_keys_clean:
  "clean_key ''Host''" "clean_key ''Connection''" "clean_key ''X-User-Id''" "clean_key ''Content-Type''"
  "clean_key ''Cookie''" "clean_key ''X-Forwarded-For''" "clean_key ''User-Agent''"
  "clean_value ''close''" "clean_value ''application/json''"
  by code_simp+

lemma clean_valueI:
  "CHR 0x0A \<notin> set v \<Longrightarrow> (v \<noteq> [] \<Longrightarrow> \<not> is_blank (hd v) \<and> \<not> is_blank (last v)) \<Longrightarrow> clean_value v"
  by (simp add: clean_value_def trim_id)

lemma clean_value_ends:
  assumes "clean_value v" and "v \<noteq> []"
  shows "\<not> is_blank (hd v)" and "\<not> is_blank (last v)"
  using assms trim_hd [of v] trim_last [of v] by (simp_all add: clean_value_def)

lemma host_header_clean:
  assumes "clean_value ip"
  shows "clean_value (host_header ip port)"
proof (rule clean_valueI)
  have n: "CHR 0x0A \<notin> set (to_string port)" "to_string port \<noteq> []" "\<not> is_blank (last (to_string port))"
    using clean_value_ends [OF to_string_clean, of port] to_string_clean [of port]
    by (auto simp: clean_value_def to_string_def)
  show "CHR 0x0A \<notin> set (host_header ip port)" using n assms by (simp add: host_header_def clean_value_def)
  have "\<not> is_blank CHR '':''" by code_simp
  with n clean_value_ends [OF assms] show "\<not> is_blank (hd (host_header ip port)) \<and> \<not> is_blank (last (host_header ip port))"
    by (cases ip) (auto simp: host_header_def)
qed

lemma forward_headers_clean:
  assumes "\<forall>(k, v)\<in>set (req_headers req). clean_value v" and "clean_value uid" and "clean_value (gb_ip b)"
  shows "\<forall>(k, v)\<in>set (forward_headers b req uid). clean_key k \<and> clean_value v \<and> k \<noteq> ''Content-Length''"
proof -
  let ?ok = "\<lambda>kv. clean_key (fst kv) \<and> clean_value (snd kv) \<and> fst kv \<noteq> ''Content-Length''"
  have copied: "list_all ?ok (copied_header req n)" if "clean_key n" "n \<noteq> ''Content-Length''" for n
    using copied_header_cases [of req n] assms(1) that by auto
  have type: "list_all ?ok (case map_of (req_headers req) ''Content-Type'' of
      Some v \<Rightarrow> [(''Content-Type'', v)]
    | None \<Rightarrow> if req_body req = [] then [] else [(''Content-Type'', ''application/json'')])"
  proof (cases "map_of (req_headers req) ''Content-Type''")
    case None
    then show ?thesis using forward_keys_clean by simp
  next
    case (Some v)
    then have "clean_value v" using map_of_SomeD [OF Some] assms(1) by auto
    with Some show ?thesis using forward_keys_clean by simp
  qed
  have front: "list_all ?ok [(''Host'', host_header (gb_ip b) (gb_http_port b)), (''Connection'', ''close'')]"
    using forward_keys_clean host_header_clean [OF assms(3)] by simp
  have user: "list_all ?ok (if uid = [] then [] else [(''X-User-Id'', uid)])"
    using forward_keys_clean assms(2) by simp
  have "list_all ?ok (forward_headers b req uid)"
    unfolding forward_headers_def list_all_append
    using front user type copied [of "''Cookie''"] copied [of "''X-Forwarded-For''"] copied [of "''User-Agent''"]
      forward_keys_clean by simp
  then show ?thesis by (auto simp: list_all_iff)
qed

lemma buildTarget_word:
  assumes "request_ok req" and "req_path req \<noteq> []"
  shows "is_word (buildTarget req)" and "split_target (buildTarget req) = (req_path req, req_query req)"
proof -
  have q: "\<not> is_space CHR ''?''" by code_simp
  show "is_word (buildTarget req)"
    using assms q by (auto simp: request_ok_def is_word_def buildTarget_def)
  have "cut CHR ''?'' (req_path req) = None" using assms by (intro cut_absent) (simp add: request_ok_def)
  moreover have "cut CHR ''?'' (req_path req @ CHR ''?'' # req_query req) = Some (req_path req, req_query req)"
    using assms by (intro cut_found) (simp add: request_ok_def)
  ultimately show "split_target (buildTarget req) = (req_path req, req_query req)"
    by (simp add: split_target_def buildTarget_def)
qed

text \<open>What the backend makes of a forwarded request.\<close>

definition seen_request :: "HttpRequest \<Rightarrow> string \<Rightarrow> HttpRequest \<Rightarrow> bool" where
  "seen_request req user_id r \<longleftrightarrow>
     req_method r = req_method req \<and> req_path r = req_path req \<and> req_query r = req_query req \<and>
     req_body r = req_body req \<and> headerValue r ''X-User-Id'' = user_id \<and>
     headerValue r ''Cookie'' = header_or_empty req ''Cookie'' \<and>
     headerValue r ''X-Forwarded-For'' = header_or_empty req ''X-Forwarded-For'' \<and>
     headerValue r ''User-Agent'' = header_or_empty req ''User-Agent''"

text \<open>The head must fit the backend's limit, whatever the blocks it comes in.\<close>

definition fits_backend :: "GwBackendConfig \<Rightarrow> HttpRequest \<Rightarrow> string \<Rightarrow> bool" where
  "fits_backend b req user_id \<longleftrightarrow>
     head_length (request_line (req_method req) (buildTarget req))
       (with_length (forward_headers b req user_id) (req_body req)) + 4100 \<le> 1048576 \<and>
     length (req_body req) < 2 ^ 64"

lemma seen_request_of:
  assumes "request_ok req" and "req_path req \<noteq> []"
  shows "seen_request req user_id
    (request_of (req_method req) (buildTarget req) (forward_headers b req user_id) (req_body req))"
  using buildTarget_word [OF assms]
  by (simp add: seen_request_def request_of_def headerValue_def headerValue_fold [OF forward_headers_names]
      forward_headers_values)

lemma read_forwarded:
  assumes "request_ok req" and "req_path req \<noteq> []" and "clean_value user_id" and "clean_value (gb_ip b)"
    and "fits_backend b req user_id"
    and "blocks_ok cs" and "concat cs = forward_text b req user_id"
  shows "\<exists>r. readHttpRequest cs = Inr (Some r) \<and> seen_request req user_id r"
proof -
  let ?hs = "forward_headers b req user_id"
  have "readHttpRequest cs = Inr (Some (request_of (req_method req) (buildTarget req) ?hs (req_body req)))"
  proof (rule read_message)
    show "is_word (req_method req)" using assms(1) by (simp add: request_ok_def)
    show "\<forall>(k, v)\<in>set ?hs. clean_key k \<and> clean_value v \<and> k \<noteq> ''Content-Length''"
      using assms(1) by (intro forward_headers_clean assms) (simp add: request_ok_def)
  qed (use assms buildTarget_word in \<open>simp_all add: forward_text_def fits_backend_def\<close>)
  with seen_request_of [OF assms(1,2)] show ?thesis by blast
qed

text \<open>What is read from a text that may be cut short.\<close>

lemma read_forwarded_sound:
  assumes "readHttpRequest cs = Inr (Some r)" and "concat cs @ lost = forward_text b req user_id"
    and "request_ok req" and "req_path req \<noteq> []" and "clean_value user_id" and "clean_value (gb_ip b)"
    and "length (req_body req) < 2 ^ 64"
  shows "seen_request req user_id r"
proof -
  have "r = request_of (req_method req) (buildTarget req) (forward_headers b req user_id) (req_body req)"
  proof (rule read_message_sound [OF assms(1) assms(2) [unfolded forward_text_def]])
    show "is_word (req_method req)" using assms(3) by (simp add: request_ok_def)
    show "\<forall>(k, v)\<in>set (forward_headers b req user_id). clean_key k \<and> clean_value v \<and> k \<noteq> ''Content-Length''"
      using assms(3) by (intro forward_headers_clean assms) (simp add: request_ok_def)
  qed (use assms buildTarget_word in simp_all)
  with seen_request_of [OF assms(3,4)] show ?thesis by simp
qed

section \<open>The gateway reads what the backend answered\<close>

lemma strip_both_id: "(s \<noteq> [] \<Longrightarrow> hd s \<noteq> CHR '' '' \<and> last s \<noteq> CHR '' '') \<Longrightarrow> strip_both s = s"
  by (cases "s = []") (simp_all add: strip_both_def strip_spaces_def dropWhile_id hd_rev)

lemma strip_both_trim: "trim s = s \<Longrightarrow> strip_both s = s \<and> strip_both (CHR '' '' # s) = s"
proof -
  assume t: "trim s = s"
  have b: "is_blank CHR '' ''" by (simp add: is_blank_def code_def)
  have "strip_both s = s" using trim_hd [of s] trim_last [of s] t b by (intro strip_both_id) auto
  then show ?thesis by (simp add: strip_both_def strip_spaces_def)
qed

definition cookies :: "(string \<times> string) list \<Rightarrow> (string \<times> string) list" where
  "cookies hs = filter (\<lambda>kv. fst kv = ''Set-Cookie'') hs"

lemma parse_response_clean:
  assumes "\<forall>(k, v)\<in>set hs. clean_key k \<and> clean_value v \<and> k \<noteq> ''Content-Length''"
    and "map drop_cr ls = map header_line hs @ more_lines"
  shows "parse_response_headers ls extra n =
    parse_response_headers (drop (length hs) ls) (extra @ cookies hs) n"
  using assms
proof (induction hs arbitrary: ls extra)
  case Nil
  then show ?case by (simp add: cookies_def)
next
  case (Cons kv hs)
  obtain k v where kv: "kv = (k, v)" by force
  from Cons.prems(2) obtain l ls' where ls: "ls = l # ls'" "drop_cr l = header_line (k, v)"
      "map drop_cr ls' = map header_line hs @ more_lines"
    by (cases ls) (auto simp: kv)
  have c: "clean_key k" "clean_value v" "k \<noteq> ''Content-Length''" using Cons.prems(1) by (auto simp: kv)
  have "strip_both k = k" "strip_both (CHR '' '' # v) = v"
    using c strip_both_trim by (auto simp: clean_key_def clean_value_def)
  then have "parse_response_headers ls extra n = parse_response_headers ls' (extra @ cookies [kv]) n"
    using clean_line(2) [OF c(1,2)] c by (auto simp: ls kv Let_def cookies_def)
  with Cons.IH [OF _ ls(3), of "extra @ cookies [kv]"] Cons.prems(1) show ?case
    by (simp add: ls kv cookies_def)
qed

lemma scan_number_blank:
  "is_space c \<Longrightarrow> scan_number s = Some (neg, m, i) \<Longrightarrow> \<exists>j. scan_number (c # s) = Some (neg, m, j)"
  by (auto simp: scan_number_def Let_def split: prod.splits if_splits)

lemma status_of_answer:
  assumes "0 \<le> status" and "status \<le> INT_MAX"
  shows "status_of_line (answer_line status) i = status"
proof -
  let ?t = "to_string status @ '' OK''"
  have sp: "is_space CHR '' ''" "\<not> is_digit CHR '' ''" by code_simp+
  have n: "to_string status = nat_to_string (nat status)" using assms(1) by (simp add: to_string_def)
  have "scan_number ?t = Some (False, nat status, length (nat_to_string (nat status)))"
    unfolding n using scan_nat_to_string [of "nat status" "'' OK''"] sp by (simp add: nat_to_string_val)
  then obtain j where "scan_number (CHR '' '' # ?t) = Some (False, nat status, j)"
    using scan_number_blank [OF sp(1)] by blast
  moreover have "dropWhile is_space (CHR '' '' # ?t) \<noteq> []"
  proof -
    obtain c cs where c: "to_string status = c # cs" by (meson list.exhaust to_string_ne)
    then have "is_digit c" using nat_to_string_digits [of "nat status"] n by (metis list.set_intros(1))
    then have "\<not> is_space c" using is_digit_not by blast
    with c show ?thesis by (simp add: sp)
  qed
  moreover have "0 < INT_MAX" "INT_MIN < 0" by (simp_all add: INT_MAX_def INT_MIN_def)
  ultimately have "read_int (CHR '' '' # ?t) i = status"
    using assms by (simp add: read_int_def signed_val_def)
  moreover have "is_word ''HTTP/1.1''" by code_simp
  then have "read_word (''HTTP/1.1'' @ CHR '' '' # ?t) = (''HTTP/1.1'', CHR '' '' # ?t)"
    using sp by (intro read_word_word) auto
  ultimately show ?thesis by (simp add: status_of_line_def answer_line_def)
qed

lemma answer_line_ok: "line_ok (answer_line status)"
  using to_string_clean [of status] by (simp add: line_ok_def answer_line_def clean_value_def)

lemma response_keys_clean:
  "clean_key ''Content-Type''" "clean_key ''Connection''" "clean_key ''Content-Length''" "clean_key ''Set-Cookie''"
  "clean_value ''application/json; charset=utf-8''" "clean_value ''close''"
  by code_simp+

lemma parse_response_answer:
  assumes "\<forall>(k, v)\<in>set extra. clean_key k \<and> clean_value v \<and> k \<noteq> ''Content-Length''"
    and "map drop_cr ls = map header_line (response_headers extra body)" and "length body < 2 ^ 64"
  shows "parse_response_headers ls [] 0 = Inr (cookies extra, length body)"
proof -
  let ?pre = "(''Content-Type'', ''application/json; charset=utf-8'') # extra"
  let ?cl = "(''Content-Length'', to_string (int (length body)))" and ?cn = "[(''Connection'', ''close'')]"
  have pre: "\<forall>(k, v)\<in>set ?pre. clean_key k \<and> clean_value v \<and> k \<noteq> ''Content-Length''"
    using assms(1) response_keys_clean by simp
  have m: "map drop_cr ls = map header_line ?pre @ header_line ?cl # map header_line ?cn"
    using assms(2) by (simp add: response_headers_def)
  define n where "n = length ?pre"
  have "length ls = n + 2" using arg_cong [OF m, of length] by (simp add: n_def)
  then have d: "drop n ls = ls ! n # drop (Suc n) ls" by (intro Cons_nth_drop_Suc [symmetric]) simp
  have dm: "map drop_cr (drop n ls) = header_line ?cl # map header_line ?cn"
    using m by (simp add: drop_map [symmetric] n_def)
  then have l: "drop_cr (ls ! n) = header_line ?cl" "map drop_cr (drop (Suc n) ls) = map header_line ?cn @ []"
    unfolding d by simp_all
  have v: "strip_both ''Content-Length'' = ''Content-Length''" by code_simp
  have w: "strip_both (CHR '' '' # to_string (int (length body))) = to_string (int (length body))"
    using strip_both_trim to_string_clean by (simp add: clean_value_def)
  have "parse_response_headers (drop (Suc n) ls) ex j = Inr (ex, j)" for ex j
    using parse_response_clean [OF _ l(2), of ex j] response_keys_clean \<open>length ls = n + 2\<close>
    by (simp add: cookies_def)
  then have "parse_response_headers (drop n ls) (cookies ?pre) 0 = Inr (cookies ?pre, length body)"
    using clean_line(2) [OF response_keys_clean(3) to_string_clean, of "int (length body)"] assms(3)
    unfolding d by (simp add: l v w Let_def stoul_to_string)
  with parse_response_clean [OF pre m, of "[]" 0] show ?thesis by (simp add: n_def cookies_def)
qed

lemma read_response:
  assumes "0 \<le> status" and "status \<le> INT_MAX"
    and hs: "\<forall>(k, v)\<in>set extra. clean_key k \<and> clean_value v \<and> k \<noteq> ''Content-Length''"
    and blocks: "blocks_ok cs" "concat cs = response_text status extra body"
    and size: "head_length (answer_line status) (response_headers extra body) + 4100 \<le> 4194304"
    and len: "length body < 2 ^ 64"
  shows "readHttpResponse cs = Inr (Some \<lparr>fr_status = status, fr_body = body, fr_extra_headers = cookies extra\<rparr>)"
proof -
  let ?first = "answer_line status" and ?hs = "map header_line (response_headers extra body)"
  let ?head = "crlf_join (?first # ?hs)"
  have "line_ok (header_line (k, v))" if "(k, v) \<in> set (response_headers extra body)" for k v
    using that hs clean_line(1) response_keys_clean to_string_clean by (fastforce simp: response_headers_def)
  then have ok: "\<forall>l\<in>set (?first # ?hs). line_ok l" using answer_line_ok by auto
  have cut: "cut_str head_end ([] @ concat cs) = Some (?head, body)"
    using cut_head_lines [OF _ ok, of body] blocks(2) by (simp add: response_text_def message_text_def)
  obtain raw rest bp where read: "read_head 4194304 [] cs = Some (raw, rest)" "blocks_ok rest"
      "cut_str head_end raw = Some (?head, bp)" "body = bp @ concat rest"
    using read_head_blocks [OF cut blocks(1) size [unfolded head_length_def]] by metis
  have lines: "map drop_cr (getlines ?head) = ?first # ?hs" by (rule crlf_join_lines [OF _ ok]) simp
  then obtain l0 ls where g: "getlines ?head = l0 # ls" "drop_cr l0 = ?first" "map drop_cr ls = ?hs"
    by (cases "getlines ?head") auto
  have "read_body (length body) bp rest = Some body"
    using read_body_blocks [of "length body" bp rest] read(2,4) by simp
  then show ?thesis
    using read(1,3) g parse_response_answer [OF hs g(3) len] status_of_answer [OF assms(1,2)]
    by (simp add: readHttpResponse_def)
qed

section \<open>What forwarding does to the process\<close>

definition sends :: "string list \<Rightarrow> link \<Rightarrow> link \<Rightarrow> bool" where
  "sends texts l l' \<longleftrightarrow> ln_peer l' = ln_peer l \<and> (\<exists>ts. ln_sent l' = ln_sent l @ ts \<and> length ts \<le> length texts \<and>
     (\<forall>i<length ts. \<exists>u. texts ! i = ts ! i @ u))"

lemma forwardToBackend_cases:
  assumes run: "forwardToBackend cfg req uid l = (r, l')"
  obtains (config) e where "gw_paymentBackend cfg = Inl e" and "r = Inl e" and "l' = l"
  | (unreachable) b where "gw_paymentBackend cfg = Inr b" and "r = Inr (bad_gateway M_backend_unreachable)"
      and "ln_sent l' = ln_sent l" and "ln_peer l' = ln_peer l" and "ln_open l' = ln_open l"
  | (broken) b t u where "gw_paymentBackend cfg = Inr b" and "r = Inr (bad_gateway M_backend_reply)"
      and "ln_sent l' = ln_sent l @ [t]" and "forward_text b req uid = t @ u" and "u \<noteq> []"
      and "ln_peer l' = ln_peer l" and "ln_open l' = ln_open l"
  | (sent) b where "gw_paymentBackend cfg = Inr b"
      and "ln_sent l' = ln_sent l @ [forward_text b req uid]"
      and "r = map_sum id (\<lambda>x. case x of None \<Rightarrow> bad_gateway M_backend_reply | Some resp \<Rightarrow> resp)
        (readHttpResponse (ln_peer l (length (ln_sent l)) (forward_text b req uid)))"
      and "ln_peer l' = ln_peer l" and "ln_open l' = (if isl r then Suc (ln_open l) else ln_open l)"
proof (cases "gw_paymentBackend cfg")
  case (Inl e)
  with run show thesis by (intro config) (auto simp: forwardToBackend_def run_simps)
next
  case (Inr b)
  let ?s = "forward_text b req uid"
  have close: "close_link m = (Inr (), m\<lparr>ln_open := ln_open m - 1\<rparr>)" for m
    by (simp add: close_link_def run_simps)
  show thesis
  proof (cases rule: connect_link_run [of "gb_ip b" l])
    case (down es)
    with run Inr have "r = Inr (bad_gateway M_backend_unreachable)" "l' = l\<lparr>ln_connects := es\<rparr>"
      by (simp_all add: forwardToBackend_def connectBackend_def run_simps)
    with Inr show thesis by (intro unreachable) simp_all
  next
    case (up es)
    let ?l1 = "l\<lparr>ln_connects := es, ln_open := Suc (ln_open l)\<rparr>"
    obtain t ns ok where w: "sendAll ?s ?l1 = (Inr ok, ?l1\<lparr>ln_writes := ns, ln_sent := ln_sent ?l1 @ [t]\<rparr>)"
      and t: "\<exists>u. ?s = t @ u" "ok \<longleftrightarrow> t = ?s" by (rule sendAll_run [of ?s ?l1]) blast
    let ?m = "?l1\<lparr>ln_writes := ns, ln_sent := ln_sent l @ [t]\<rparr>"
    show thesis
    proof (cases ok)
      case False
      with t obtain u where "?s = t @ u" "u \<noteq> []" by auto
      moreover have "r = Inr (bad_gateway M_backend_reply)" "l' = ?m\<lparr>ln_open := ln_open l\<rparr>"
        using run Inr up w False by (simp_all add: forwardToBackend_def connectBackend_def run_simps close)
      ultimately show thesis using Inr by (intro broken) simp_all
    next
      case True
      define a where "a = readHttpResponse (ln_peer l (length (ln_sent l)) ?s)"
      have "peer_blocks ?m = ln_peer l (length (ln_sent l)) ?s" using True t by (simp add: peer_blocks_def)
      then have st: "forwardToBackend cfg req uid l = (case a of
          Inl e \<Rightarrow> (Inl e, ?m)
        | Inr None \<Rightarrow> (Inr (bad_gateway M_backend_reply), ?m\<lparr>ln_open := ln_open l\<rparr>)
        | Inr (Some resp) \<Rightarrow> (Inr resp, ?m\<lparr>ln_open := ln_open l\<rparr>))"
        using Inr up w True
        by (simp add: forwardToBackend_def connectBackend_def run_simps close a_def split: sum.split option.split)
      have "r = map_sum id (\<lambda>x. case x of None \<Rightarrow> bad_gateway M_backend_reply | Some resp \<Rightarrow> resp) a"
        "l' = (if isl r then ?m else ?m\<lparr>ln_open := ln_open l\<rparr>)"
        using run unfolding st by (auto split: sum.splits option.splits)
      with True t Inr show thesis unfolding a_def by (intro sent) auto
    qed
  qed
qed

lemma forwardToBackend_run:
  assumes run: "forwardToBackend cfg req uid l = (r, l')"
  shows "(case gw_paymentBackend cfg of
       Inl e \<Rightarrow> r = Inl e \<and> l' = l
     | Inr b \<Rightarrow> sends [forward_text b req uid] l l') \<and>
    ln_open l' = (if isl r \<and> \<not> isl (gw_paymentBackend cfg) then Suc (ln_open l) else ln_open l)"
  using run by (cases rule: forwardToBackend_cases) (auto simp: sends_def)

text \<open>With a network that works, the answer of the peer is read.\<close>

lemma forwardToBackend_answer:
  assumes "gw_paymentBackend cfg = Inr b" and "inet_pton (if gb_ip b = ''localhost'' then ''127.0.0.1'' else gb_ip b)"
    and "ln_connects l = []" and "ln_writes l = []"
    and "readHttpResponse (ln_peer l (length (ln_sent l)) (forward_text b req uid)) = Inr (Some resp)"
  shows "forwardToBackend cfg req uid l = (Inr resp, l\<lparr>ln_sent := ln_sent l @ [forward_text b req uid]\<rparr>)"
proof -
  have "connectBackend b l = (Inr True, l\<lparr>ln_open := Suc (ln_open l)\<rparr>)"
    using assms(2,3) by (simp add: connectBackend_def connect_link_def)
  moreover have "close_link m = (Inr (), m\<lparr>ln_open := ln_open m - 1\<rparr>)" for m
    by (simp add: close_link_def run_simps)
  moreover have "sendAll (forward_text b req uid) (l\<lparr>ln_open := Suc (ln_open l)\<rparr>) =
      (Inr True, l\<lparr>ln_open := Suc (ln_open l), ln_sent := ln_sent l @ [forward_text b req uid]\<rparr>)"
    using assms(4) by (simp add: sendAll_writes_all)
  ultimately show ?thesis using assms(1,5) by (simp add: forwardToBackend_def run_simps peer_blocks_def)
qed

end
