(* ===== verification/SessionStore.thy ===== *)
theory SessionStore
  imports RedisServer GatewayConfig
begin

text \<open>
  \<open>gateway_session::SessionStore\<close> (gateway/common/session_store.hpp): the gateway's pool of Redis
  connections and the look-up of a login session. Its \<open>ping\<close> returns false on a dead connection, so
  the pool replaces it, unlike the backend's: the pool is a \<open>tight_pool\<close>.
\<close>

section \<open>Operations\<close>

definition ss_connectionError :: "string \<Rightarrow> string" where
  "ss_connectionError errstr = (if errstr = [] then M_unknown_error else errstr)"

definition statusOk :: "string \<Rightarrow> string + reply \<Rightarrow> bool" where
  "statusOk expected rep = (case rep of Inr (RStatus s) \<Rightarrow> c_str s = expected | _ \<Rightarrow> False)"

definition ss_authenticate :: "nat \<Rightarrow> (redis, unit) comp" where
  "ss_authenticate c =
     mbind (redisCommand cmd_ok) (\<lambda>auth_reply.
       if \<not> statusOk ''OK'' auth_reply
       then mbind (on_rpool (close_conn c)) (\<lambda>_. mthrow (StdException M_gw_redis_auth))
       else
     mbind (redisCommand cmd_ok) (\<lambda>select_reply.
       if \<not> statusOk ''OK'' select_reply
       then mbind (on_rpool (close_conn c)) (\<lambda>_. mthrow (StdException M_gw_redis_select))
       else mret ()))"

definition ss_createConnection :: "(redis, nat) comp" where
  "ss_createConnection =
     mbind next_rconnect (\<lambda>ev.
       if ev = RNull then mthrow (StdException M_gw_redis_alloc)
       else
         mbind (mread (\<lambda>w. pl_next (r_pool w))) (\<lambda>c.
         mbind (on_rpool open_conn) (\<lambda>_.
         case ev of
           RRefused err \<Rightarrow>
             mbind (on_rpool (close_conn c)) (\<lambda>_.
               mthrow (StdException (M_gw_redis_connect @ ss_connectionError err)))
         | RTimeoutUnset err \<Rightarrow>
             mbind (on_rpool (close_conn c)) (\<lambda>_.
               mthrow (StdException (M_gw_redis_settimeout @ ss_connectionError err)))
         | _ \<Rightarrow> mbind (ss_authenticate c) (\<lambda>_. mret c))))"

definition ss_ping :: "(redis, bool) comp" where
  "ss_ping = mbind (redisCommand cmd_ping) (\<lambda>rep. mret (statusOk ''PONG'' rep))"

definition ss_acquire :: "(redis, nat) comp" where
  "ss_acquire =
     mbind (mread r_pool) (\<lambda>p.
       if \<not> pl_initialized p then mthrow (StdException M_gw_redis_uninit)
       else if pl_shutting_down p then mthrow (StdException M_gw_redis_timeout)
       else case pl_idle p of
           [] \<Rightarrow> mthrow (StdException M_gw_redis_timeout)
         | c # _ \<Rightarrow>
             mbind (on_rpool pop_conn) (\<lambda>_.
             mbind ss_ping (\<lambda>alive.
               if alive then mret c
               else mbind (on_rpool (close_conn c)) (\<lambda>_. ss_createConnection))))"

definition ss_release :: "nat \<Rightarrow> redis \<Rightarrow> redis" where
  "ss_release c w = w\<lparr>r_pool := release_conn c (r_pool w)\<rparr>"

fun ss_fill :: "nat \<Rightarrow> (redis, unit) comp" where
  "ss_fill 0 = mret ()"
| "ss_fill (Suc n) =
     mbind ss_createConnection (\<lambda>c. mbind (on_rpool (push_conn c)) (\<lambda>_. ss_fill n))"

definition ss_initFromConfig :: "values \<Rightarrow> (redis, unit) comp" where
  "ss_initFromConfig v =
     mbind (mread r_pool) (\<lambda>p.
       if pl_initialized p then mret ()
       else
         mbind (mlift (gw_redis_cfg v)) (\<lambda>cfg.
         mbind (mmodify (\<lambda>w. w\<lparr>r_cfg := cfg\<rparr>)) (\<lambda>_.
         mbind (on_rpool (\<lambda>p. p\<lparr>pl_shutting_down := False\<rparr>)) (\<lambda>_.
         mbind (ss_fill (nat (rd_pool_size cfg))) (\<lambda>_.
           on_rpool (\<lambda>p. p\<lparr>pl_initialized := True\<rparr>))))))"

definition ss_shutdown :: "(redis, unit) comp" where
  "ss_shutdown =
     on_rpool (\<lambda>p. (close_idle (p\<lparr>pl_shutting_down := True\<rparr>))\<lparr>pl_initialized := False\<rparr>)"

definition userIdOf :: "int \<Rightarrow> string \<Rightarrow> (redis, string option) comp" where
  "userIdOf now session_id =
     (if session_id = [] then mret None
      else with_guard ss_acquire ss_release (\<lambda>_.
        mbind (redisCommand (cmd_get now (c_str (''payment:session:'' @ session_id)))) (\<lambda>rep. case rep of
          Inl errstr \<Rightarrow> mthrow (StdException (M_gw_redis_get_failed @ ss_connectionError errstr))
        | Inr RNil \<Rightarrow> mret None
        | Inr (RString v) \<Rightarrow> mret (Some v)
        | Inr _ \<Rightarrow> mthrow (StdException M_gw_redis_get_type))))"

section \<open>The pool\<close>

lemma ss_authenticate_pool:
  assumes "ss_authenticate c w = (r, w')"
  shows "r_store w' = r_store w \<and>
    (r = Inr () \<and> r_pool w' = r_pool w \<or> isl r \<and> r_pool w' = close_conn c (r_pool w))"
proof -
  obtain q1 w1 where a: "redisCommand cmd_ok w = (q1, w1)" by force
  obtain q2 w2 where b: "redisCommand cmd_ok w1 = (q2, w2)" by force
  have s: "r_pool w1 = r_pool w" "r_store w1 = r_store w" "r_pool w2 = r_pool w" "r_store w2 = r_store w"
    using redisCommand_pool [OF a] redisCommand_keeps_store [OF _ a] redisCommand_pool [OF b]
      redisCommand_keeps_store [OF _ b] by (auto simp: cmd_ok_def)
  have "\<exists>x. q1 = Inr x" "\<exists>x. q2 = Inr x"
    using a b by (auto simp: redisCommand_def Let_def split: prod.splits list.splits redis_event.splits)
  with assms a b s show ?thesis by (auto simp: ss_authenticate_def run_simps split: if_splits)
qed

text \<open>A connection that could not be set up has been closed again.\<close>

lemma ss_create_pool:
  assumes "ss_createConnection w = (r, w')"
  shows "r_store w' = r_store w \<and>
    (case r of Inr c \<Rightarrow> c = pl_next (r_pool w) \<and> r_pool w' = open_conn (r_pool w)
     | Inl _ \<Rightarrow> r_pool w' = r_pool w \<or> r_pool w' = close_conn (pl_next (r_pool w)) (open_conn (r_pool w)))"
proof -
  obtain ev es where ev: "next_rconnect w = (Inr ev, w\<lparr>r_connects := es\<rparr>)" by (rule next_rconnect_run)
  let ?c = "pl_next (r_pool w)" and ?w1 = "w\<lparr>r_connects := es, r_pool := open_conn (r_pool w)\<rparr>"
  show ?thesis
  proof (cases "ev = RConnected")
    case False
    with assms ev show ?thesis by (cases ev) (auto simp: ss_createConnection_def run_simps)
  next
    case True
    obtain q1 v1 where a: "ss_authenticate ?c ?w1 = (q1, v1)" by force
    show ?thesis
      using assms ev True a ss_authenticate_pool [OF a]
      by (cases q1) (auto simp: ss_createConnection_def run_simps)
  qed
qed

lemma ss_ping_pool:
  assumes "ss_ping w = (r, w')"
  shows "(\<exists>b. r = Inr b) \<and> r_pool w' = r_pool w \<and> r_store w' = r_store w"
  using assms
  by (cases rule: redisCommand_cases [of cmd_ping w]) (auto simp: ss_ping_def run_simps cmd_ping_def)

lemma ss_create_settled:
  assumes "ss_createConnection w = (r, w')" and ok: "pool_ok (r_pool w)"
  shows "pool_ok (r_pool w') \<and> (case r of
      Inl _ \<Rightarrow> borrowed (r_pool w') = borrowed (r_pool w)
    | Inr c \<Rightarrow> c \<notin> borrowed (r_pool w) \<and> borrowed (r_pool w') = insert c (borrowed (r_pool w)))"
  using ss_create_pool [OF assms(1)] ok next_fresh [OF ok] open_conn_ok [OF ok] open_conn_borrowed [OF ok]
    close_conn_ok [OF open_conn_ok [OF ok], of "pl_next (r_pool w)"]
    close_conn_borrowed [OF open_conn_ok [OF ok], of "pl_next (r_pool w)"]
  by (auto split: sum.splits)

lemma ss_acquire_run:
  assumes run: "ss_acquire w = (r, w')"
  shows "r_store w' = r_store w \<and> (pool_ok (r_pool w) \<longrightarrow> pool_ok (r_pool w') \<and> (case r of
      Inl _ \<Rightarrow> borrowed (r_pool w') = borrowed (r_pool w)
    | Inr c \<Rightarrow> c \<notin> borrowed (r_pool w) \<and> borrowed (r_pool w') = insert c (borrowed (r_pool w))))"
proof (cases "pl_initialized (r_pool w) \<and> \<not> pl_shutting_down (r_pool w) \<and> pl_idle (r_pool w) \<noteq> []")
  case False
  with run show ?thesis by (auto simp: ss_acquire_def run_simps split: if_splits list.splits)
next
  case True
  then obtain c cs where idle: "pl_idle (r_pool w) = c # cs" by (cases "pl_idle (r_pool w)") auto
  let ?w1 = "w\<lparr>r_pool := pop_conn (r_pool w)\<rparr>"
  obtain q w2 where p: "ss_ping ?w1 = (q, w2)" by force
  obtain b where w2: "q = Inr b" "r_pool w2 = pop_conn (r_pool w)" "r_store w2 = r_store w"
    using ss_ping_pool [OF p] by auto
  have pop: "pool_ok (pop_conn (r_pool w))" "borrowed (pop_conn (r_pool w)) = insert c (borrowed (r_pool w))"
      "c \<notin> borrowed (r_pool w)" if "pool_ok (r_pool w)"
    using pop_conn_ok [OF that] pop_conn_borrowed [OF that idle] by auto
  show ?thesis
  proof (cases b)
    case True
    with run \<open>pl_initialized (r_pool w) \<and> _\<close> idle p w2 have "r = Inr c" "w' = w2"
      by (auto simp: ss_acquire_def run_simps)
    with w2 pop show ?thesis by simp
  next
    case False
    let ?w3 = "w2\<lparr>r_pool := close_conn c (pop_conn (r_pool w))\<rparr>"
    have create: "ss_createConnection ?w3 = (r, w')"
      using run True idle p w2 False by (simp add: ss_acquire_def run_simps)
    have "pool_ok (r_pool ?w3) \<and> borrowed (r_pool ?w3) = borrowed (r_pool w)" if "pool_ok (r_pool w)"
      using pop [OF that] close_conn_ok [OF pop(1) [OF that], of c] close_conn_borrowed [OF pop(1) [OF that], of c]
      by auto
    with ss_create_settled [OF create] ss_create_pool [OF create] w2 show ?thesis by (auto split: sum.splits)
  qed
qed

interpretation ss: tight_pool ss_acquire ss_release r_pool
proof unfold_locales
  fix w c w' assume "ss_acquire w = (Inr c, w')" and "pool_ok (r_pool w)"
  then show "pool_ok (r_pool w') \<and> c \<notin> borrowed (r_pool w) \<and>
      borrowed (r_pool w') = insert c (borrowed (r_pool w))"
    using ss_acquire_run [of w "Inr c" w'] by simp
next
  fix w e w' assume "ss_acquire w = (Inl e, w')" and "pool_ok (r_pool w)"
  then show "pool_ok (r_pool w') \<and> borrowed (r_pool w) \<subseteq> borrowed (r_pool w')"
    using ss_acquire_run [of w "Inl e" w'] by simp
next
  fix w :: redis and c assume "pool_ok (r_pool w)" and "c \<in> borrowed (r_pool w)"
  then show "pool_ok (r_pool (ss_release c w)) \<and>
      borrowed (r_pool (ss_release c w)) = borrowed (r_pool w) - {c}"
    by (simp add: ss_release_def release_conn_ok release_conn_borrowed)
next
  fix w e w' assume "ss_acquire w = (Inl e, w')" and "pool_ok (r_pool w)"
  then show "borrowed (r_pool w') \<subseteq> borrowed (r_pool w)"
    using ss_acquire_run [of w "Inl e" w'] by simp
qed

section \<open>The look-up\<close>

lemma redisCommand_settles: "keeps (settles r_pool) (redisCommand cmd)"
  by (rule keepsI) (simp add: settles_def redisCommand_pool)

lemma keeps_reply_cases:
  assumes "\<And>e. keeps R (f e)" and "keeps R n" and "\<And>s. keeps R (g s)" and "\<And>x. keeps R (h x)"
  shows "keeps R (case rep of Inl e \<Rightarrow> f e | Inr RNil \<Rightarrow> n | Inr (RString s) \<Rightarrow> g s | Inr x \<Rightarrow> h x)"
  using assms by (simp split: sum.split reply.split)

lemma userIdOf_settles: "keeps (settles r_pool) (userIdOf now sid)"
  unfolding userIdOf_def
  by (intro settles.keeps_rules ss.guarded_settles redisCommand_settles keeps_reply_cases)

text \<open>A zero byte ends the key, so the look-up is that of the session number up to it.\<close>

lemma userIdOf_run:
  assumes run: "userIdOf now sid w = (r, w')"
  shows "r_store w' = r_store w \<and>
    (\<forall>x. r = Inr x \<longrightarrow> x = (if sid = [] then None else login_view (r_store w) now (c_str sid)))"
proof (cases "sid = []")
  case True
  with run show ?thesis by (auto simp: userIdOf_def run_simps)
next
  case False
  define key where "key = ''payment:session:'' @ c_str sid"
  have key: "c_str (''payment:session:'' @ sid) = key" by (simp add: key_def c_str_def)
  have u: "userIdOf now sid = with_guard ss_acquire ss_release (\<lambda>_.
      mbind (redisCommand (cmd_get now key)) (\<lambda>rep. case rep of
          Inl errstr \<Rightarrow> mthrow (StdException (M_gw_redis_get_failed @ ss_connectionError errstr))
        | Inr RNil \<Rightarrow> mret None
        | Inr (RString v) \<Rightarrow> mret (Some v)
        | Inr _ \<Rightarrow> mthrow (StdException M_gw_redis_get_type)))"
    unfolding userIdOf_def key using False by simp
  obtain q w1 where a: "ss_acquire w = (q, w1)" by force
  have s: "r_store w1 = r_store w" using ss_acquire_run [OF a] by simp
  have view: "login_view st now (c_str sid) = alive st now key" for st by (simp add: login_view_def key_def)
  show ?thesis
  proof (cases q)
    case (Inl e)
    with run a s show ?thesis by (auto simp: u with_guard_def run_simps)
  next
    case (Inr c)
    from run a Inr s False show ?thesis
      by (cases rule: redisCommand_cases [of "cmd_get now key" w1])
         (auto simp: u with_guard_def run_simps ss_release_def cmd_get_def view split: option.splits)
  qed
qed

interpretation ss_sessions: session_reader userIdOf r_store
proof unfold_locales
  fix now sid w r w' assume "userIdOf now sid w = (r, w')"
  then show "r_store w' = r_store w" using userIdOf_run by blast
next
  fix now sid w x w' assume "userIdOf now sid w = (Inr x, w')" and "valid_sid sid"
  then show "x = login_view (r_store w) now sid" using userIdOf_run [of now sid w "Inr x" w'] by (simp add: valid_sid_def)
qed

end
