(* ===== verification/Gateway.thy ===== *)
theory Gateway
  imports Forwarder SessionStore WsHelpers
begin

text \<open>
  gateway/gateway_impl.hpp: the routing of requests, the look-up of the login session, the forwarding to
  the backend and the push of a payment result; and, from gateway/main.cpp, the life of one HTTP
  connection. The state of the process is a \<open>gworld\<close>: its Redis pool, the registry of WebSockets and its
  connections to the backend. What one request reads and does not change is a \<open>genv\<close>.
\<close>

section \<open>Requests, responses and state\<close>

record GatewayRequest = HttpRequest +
  req_client_ip :: string

record GatewayResponse =
  gr_http_status :: int
  gr_body :: string
  gr_extra_headers :: "(string \<times> string) list"

record genv =
  g_lib :: lib
  g_values :: "values"
  g_now :: int

record gworld =
  gw_redis :: redis
  gw_registry :: registry
  gw_link :: link

definition gw_redis_op :: "(redis, 'a) comp \<Rightarrow> (gworld, 'a) comp" where
  "gw_redis_op m = mzoom gw_redis (\<lambda>s w. w\<lparr>gw_redis := s\<rparr>) m"

definition gw_link_op :: "(link, 'a) comp \<Rightarrow> (gworld, 'a) comp" where
  "gw_link_op m = mzoom gw_link (\<lambda>s w. w\<lparr>gw_link := s\<rparr>) m"

definition gw_push :: "string \<Rightarrow> string \<Rightarrow> (gworld, bool) comp" where
  "gw_push payment_session_id message = (\<lambda>w.
     case ws_push payment_session_id message (gw_registry w) of (ok, reg) \<Rightarrow> (Inr ok, w\<lparr>gw_registry := reg\<rparr>))"

definition respondJson :: "genv \<Rightarrow> int \<Rightarrow> json \<Rightarrow> (gworld, GatewayResponse) comp" where
  "respondJson E status env =
     mlift (ebind (json_dump (g_lib E) env)
       (\<lambda>s. Inr \<lparr>gr_http_status = status, gr_body = s, gr_extra_headers = []\<rparr>))"

section \<open>Routing\<close>

definition requiresAuth :: "string \<Rightarrow> string \<Rightarrow> bool" where
  "requiresAuth meth path \<longleftrightarrow>
     meth = ''GET'' \<and> is_prefix ''/api/payment/orders/'' path \<or>
     meth = ''POST'' \<and> path = ''/api/payment/confirm'' \<or>
     meth = ''POST'' \<and> path = ''/api/users/real-auth/complete''"

definition isForwardApi :: "string \<Rightarrow> bool" where
  "isForwardApi path \<longleftrightarrow> is_prefix ''/api/payment/'' path \<or> is_prefix ''/api/auth/'' path \<or>
     path = ''/api/users/real-auth/complete''"

text \<open>\<open>forward.headers[name] = value\<close> for a value that is not empty.\<close>

definition put_header :: "string \<Rightarrow> string \<Rightarrow> (string \<times> string) list \<Rightarrow> (string \<times> string) list" where
  "put_header name val headers = (if val = [] then headers else map_put name val headers)"

definition toForwardRequest :: "GatewayRequest \<Rightarrow> HttpRequest" where
  "toForwardRequest request =
     (let client_ip = (if headerValue request ''X-Forwarded-For'' = []
                       then headerValue request ''X-Real-IP''
                       else headerValue request ''X-Forwarded-For'')
      in \<lparr>req_method = req_method request, req_path = req_path request, req_query = req_query request,
          req_headers =
            put_header ''User-Agent'' (headerValue request ''User-Agent'')
              (put_header ''X-Forwarded-For'' client_ip
                (put_header ''Cookie'' (headerValue request ''Cookie'')
                  (put_header ''Content-Type'' (headerValue request ''Content-Type'') []))),
          req_body = req_body request\<rparr>)"

section \<open>The payment result\<close>

definition gw_body_str :: "genv \<Rightarrow> json \<Rightarrow> string \<Rightarrow> (gworld, string) comp" where
  "gw_body_str E body key = mlift (json_value_str (g_lib E) body key [])"

definition result_json :: "string \<Rightarrow> string \<Rightarrow> string \<Rightarrow> string \<Rightarrow> json" where
  "result_json payment_session_id order_sn payment_status message =
     JObject [(''message'', JString message), (''order_sn'', JString order_sn),
              (''payment_session_id'', JString payment_session_id),
              (''payment_status'', JString payment_status), (''type'', JString ''PAYMENT_RESULT'')]"

definition handlePaymentResult :: "genv \<Rightarrow> GatewayRequest \<Rightarrow> (gworld, GatewayResponse) comp" where
  "handlePaymentResult E request =
     mbind (mlift (gw_paymentBackend (g_values E))) (\<lambda>backend.
     if req_client_ip request \<noteq> gb_ip backend then respondJson E 403 (makeErr 40302 M_only_backend)
     else case json_parse (g_lib E) (req_body request) of
         Inl _ \<Rightarrow> respondJson E 400 (makeErr 40000 M_body_not_json)
       | Inr body \<Rightarrow>
           mbind (gw_body_str E body ''payment_session_id'') (\<lambda>payment_session_id.
           mbind (gw_body_str E body ''order_sn'') (\<lambda>order_sn.
           if payment_session_id = [] then respondJson E 400 (makeErr 40000 M_psid_empty)
           else
           mbind (gw_body_str E body ''payment_status'') (\<lambda>payment_status.
           mbind (gw_body_str E body ''message'') (\<lambda>message.
           mbind (mlift (json_dump (g_lib E)
               (result_json payment_session_id order_sn payment_status message))) (\<lambda>pushed.
           mbind (gw_push payment_session_id pushed) (\<lambda>ok.
             if \<not> ok then respondJson E 500 (makeErr 50003 M_ws_push_failed)
             else respondJson E 200 (makeOk (JObject [])))))))))"

section \<open>Requests\<close>

definition from_backend :: "ForwardResponse \<Rightarrow> GatewayResponse" where
  "from_backend backend = \<lparr>gr_http_status = fr_status backend, gr_body = fr_body backend,
     gr_extra_headers = fr_extra_headers backend\<rparr>"

definition forwardRequest :: "genv \<Rightarrow> GatewayRequest \<Rightarrow> string \<Rightarrow> (gworld, GatewayResponse) comp" where
  "forwardRequest E request user_id =
     mbind (gw_link_op (forwardToBackend (g_values E) (toForwardRequest request) user_id)) (\<lambda>backend.
       mret (from_backend backend))"

text \<open>The branch that needs a login; the \<open>catch\<close> covers the forwarding as well.\<close>

definition authRequest :: "genv \<Rightarrow> GatewayRequest \<Rightarrow> (gworld, GatewayResponse) comp" where
  "authRequest E request =
     (let session_id = cookieValue (headerValue request ''Cookie'') ''session_id''
      in if session_id = [] then respondJson E 401 (makeErr 40101 M_login_invalid)
         else mcatch
           (mbind (gw_redis_op (userIdOf (g_now E) session_id)) (\<lambda>uid. case uid of
              None \<Rightarrow> respondJson E 401 (makeErr 40101 M_login_invalid)
            | Some user_id \<Rightarrow> forwardRequest E request user_id))
           (\<lambda>_. respondJson E 503 (makeErr 50002 M_login_unavailable)))"

definition gw_route :: "genv \<Rightarrow> GatewayRequest \<Rightarrow> (gworld, GatewayResponse) comp" where
  "gw_route E request =
     (if req_method request = ''POST'' \<and> req_path request = ''/internal/payment/result''
      then handlePaymentResult E request
      else if \<not> isForwardApi (req_path request) then respondJson E 404 (makeErr 40400 M_no_api)
      else if requiresAuth (req_method request) (req_path request) then authRequest E request
      else forwardRequest E request [])"

definition gw_handleRequest :: "genv \<Rightarrow> GatewayRequest \<Rightarrow> (gworld, GatewayResponse) comp" where
  "gw_handleRequest E request =
     mbind (mlift (gw_paymentBackend (g_values E))) (\<lambda>backend.
     if req_client_ip request = gb_ip backend then gw_route E request
     else
     mbind (mlift (gw_paymentNginx (g_values E))) (\<lambda>nginx.
     if req_client_ip request = gn_ip nginx then gw_route E request
     else respondJson E 403 (makeErr 40302 M_bad_origin)))"

section \<open>A connection\<close>

definition gw_readHttpRequest :: "string \<Rightarrow> string list \<Rightarrow> exn + GatewayRequest option" where
  "gw_readHttpRequest client_ip blocks =
     ebind (readHttpRequest blocks) (\<lambda>r. Inr (map_option (\<lambda>r.
       \<lparr>req_method = req_method r, req_path = req_path r, req_query = req_query r,
        req_headers = req_headers r, req_body = req_body r, req_client_ip = client_ip\<rparr>) r))"

definition gw_writeHttpResponse :: "GatewayResponse \<Rightarrow> string" where
  "gw_writeHttpResponse response =
     response_text (gr_http_status response) (gr_extra_headers response) (gr_body response)"

text \<open>The text written to the client, \<open>None\<close> when the connection is closed without an answer.\<close>

definition handleHttpClientConnection :: "genv \<Rightarrow> string \<Rightarrow> string list \<Rightarrow> (gworld, string option) comp" where
  "handleHttpClientConnection E client_ip blocks =
     mbind (mlift (gw_readHttpRequest client_ip blocks)) (\<lambda>request. case request of
       None \<Rightarrow> mret None
     | Some req \<Rightarrow>
         mbind (gw_handleRequest E req) (\<lambda>response. mret (Some (gw_writeHttpResponse response))))"

end
