(* ===== verification/GatewayProps.thy ===== *)
theory GatewayProps
  imports Gateway
begin

text \<open>
  What the gateway lets through: the backend sees exactly the client's request, under the identity of its
  login session, and the client sees exactly the backend's answer.
\<close>

section \<open>The request that is forwarded\<close>

definition session_of :: "GatewayRequest \<Rightarrow> string" where
  "session_of req = cookieValue (headerValue req ''Cookie'') ''session_id''"

text \<open>The user a request is forwarded for: of the login session where one is required, none elsewhere.\<close>

definition forwarded_as :: "genv \<Rightarrow> gworld \<Rightarrow> GatewayRequest \<Rightarrow> string \<Rightarrow> bool" where
  "forwarded_as E w req uid \<longleftrightarrow>
     (if requiresAuth (req_method req) (req_path req)
      then session_of req \<noteq> [] \<and> login_view (r_store (gw_redis w)) (g_now E) (c_str (session_of req)) = Some uid
      else uid = [])"

definition allowed_origin :: "values \<Rightarrow> string \<Rightarrow> bool" where
  "allowed_origin cfg ip \<longleftrightarrow> (\<exists>b. gw_paymentBackend cfg = Inr b \<and> ip = gb_ip b) \<or>
     (\<exists>n. gw_paymentNginx cfg = Inr n \<and> ip = gn_ip n)"

text \<open>Everything but \<open>forwardRequest\<close> leaves the connections to the backend alone.\<close>

definition link_kept :: "gworld \<Rightarrow> gworld \<Rightarrow> bool" where
  "link_kept w w' \<longleftrightarrow> gw_link w' = gw_link w"

interpretation link_kept: frame link_kept
  by unfold_locales (auto simp: link_kept_def)

lemma respondJson_link_kept: "keeps link_kept (respondJson E st env)"
  unfolding respondJson_def by (rule link_kept.keeps_mlift)

lemma gw_push_link_kept: "keeps link_kept (gw_push sid msg)"
  by (auto simp: keeps_def link_kept_def gw_push_def split: prod.split)

lemma gw_redis_link_kept: "keeps link_kept (gw_redis_op m)"
  by (auto simp: keeps_def link_kept_def gw_redis_op_def run_simps split: prod.split)

lemma handlePaymentResult_link_kept: "keeps link_kept (handlePaymentResult E req)"
  unfolding handlePaymentResult_def gw_body_str_def
  by (intro link_kept.keeps_rules respondJson_link_kept gw_push_link_kept)

text \<open>A request leaves the connections to the backend alone, or is forwarded once.\<close>

definition passes ::
    "genv \<Rightarrow> GatewayRequest \<Rightarrow> gworld \<Rightarrow> exn + GatewayResponse \<Rightarrow> gworld \<Rightarrow> bool" where
  "passes E req w r w' \<longleftrightarrow> gw_link w' = gw_link w \<or>
     (\<exists>uid q. isForwardApi (req_path req) \<and> forwarded_as E w req uid \<and>
        forwardToBackend (g_values E) (toForwardRequest req) uid (gw_link w) = (q, gw_link w') \<and>
        (\<forall>x. q = Inr x \<longrightarrow> r = Inr (from_backend x)))"

lemma forwardRequest_passes:
  assumes "forwardRequest E req uid w = (r, w')" and "isForwardApi (req_path req)"
    and "gw_link w = gw_link v" and "forwarded_as E v req uid"
  shows "passes E req v r w'"
proof -
  obtain q l where f: "forwardToBackend (g_values E) (toForwardRequest req) uid (gw_link w) = (q, l)" by force
  with assms(1) have "gw_link w' = l" "\<forall>x. q = Inr x \<longrightarrow> r = Inr (from_backend x)"
    by (auto simp: forwardRequest_def gw_link_op_def run_simps split: sum.splits)
  with f assms(2-4) show ?thesis by (auto simp: passes_def)
qed

lemma link_kept_passes: "keeps link_kept m \<Longrightarrow> m w = (r, w') \<Longrightarrow> passes E req w r w'"
  by (auto simp: passes_def link_kept_def dest: keepsD)

lemma authRequest_passes:
  assumes run: "authRequest E req w = (r, w')" and "isForwardApi (req_path req)"
    and auth: "requiresAuth (req_method req) (req_path req)"
  shows "passes E req w r w'"
proof (cases "session_of req = []")
  case True
  with run have "respondJson E 401 (makeErr 40101 M_login_invalid) w = (r, w')"
    by (simp add: authRequest_def session_of_def)
  then show ?thesis by (rule link_kept_passes [OF respondJson_link_kept])
next
  case False
  obtain q s where u: "userIdOf (g_now E) (session_of req) (gw_redis w) = (q, s)" by force
  let ?w1 = "w\<lparr>gw_redis := s\<rparr>"
  have catch: "authRequest E req w = mcatch
      (mbind (gw_redis_op (userIdOf (g_now E) (session_of req))) (\<lambda>uid. case uid of
         None \<Rightarrow> respondJson E 401 (makeErr 40101 M_login_invalid)
       | Some user_id \<Rightarrow> forwardRequest E req user_id))
      (\<lambda>_. respondJson E 503 (makeErr 50002 M_login_unavailable)) w"
    using False by (simp add: authRequest_def session_of_def)
  show ?thesis
  proof (cases "\<exists>uid. q = Inr (Some uid)")
    case True
    then obtain uid where q: "q = Inr (Some uid)" by blast
    obtain f w2 where fw: "forwardRequest E req uid ?w1 = (f, w2)" by force
    have "forwarded_as E w req uid"
      using userIdOf_run [OF u] q False auth by (auto simp: forwarded_as_def split: if_splits)
    then have "passes E req w f w2" using assms(2) by (intro forwardRequest_passes [OF fw]) simp_all
    moreover have "gw_link w' = gw_link w2 \<and> (\<forall>x. f = Inr x \<longrightarrow> r = Inr x)"
      using run u q fw keepsD [OF respondJson_link_kept]
      unfolding catch by (fastforce simp: run_simps gw_redis_op_def link_kept_def split: sum.splits)
    ultimately show ?thesis by (auto simp: passes_def)
  next
    case False
    then have "gw_link w' = gw_link w"
      using run u keepsD [OF respondJson_link_kept]
      unfolding catch
      by (fastforce simp: run_simps gw_redis_op_def link_kept_def split: sum.splits option.splits prod.splits)
    then show ?thesis by (simp add: passes_def)
  qed
qed

lemma gw_route_passes:
  assumes run: "gw_route E req w = (r, w')"
  shows "passes E req w r w'"
proof -
  consider (result) "gw_route E req = handlePaymentResult E req"
    | (missing) "gw_route E req = respondJson E 404 (makeErr 40400 M_no_api)"
    | (auth) "gw_route E req = authRequest E req" "isForwardApi (req_path req)"
        "requiresAuth (req_method req) (req_path req)"
    | (plain) "gw_route E req = forwardRequest E req []" "isForwardApi (req_path req)"
        "\<not> requiresAuth (req_method req) (req_path req)"
    by (cases "req_method req = ''POST'' \<and> req_path req = ''/internal/payment/result''";
        cases "isForwardApi (req_path req)"; cases "requiresAuth (req_method req) (req_path req)")
       (simp_all add: gw_route_def)
  then show ?thesis
  proof cases
    case result
    with run link_kept_passes [OF handlePaymentResult_link_kept] show ?thesis by metis
  next
    case missing
    with run link_kept_passes [OF respondJson_link_kept] show ?thesis by metis
  next
    case auth
    with run authRequest_passes show ?thesis by metis
  next
    case plain
    with run have "forwardRequest E req [] w = (r, w')" by metis
    then show ?thesis by (rule forwardRequest_passes) (use plain in \<open>simp_all add: forwarded_as_def\<close>)
  qed
qed

lemma gw_handleRequest_cases:
  assumes "gw_handleRequest E req w = (r, w')"
  shows "allowed_origin (g_values E) (req_client_ip req) \<and> gw_route E req w = (r, w') \<or>
    w' = w \<and> (\<forall>x. r = Inr x \<longrightarrow> gr_http_status x = 403)"
proof (cases "gw_paymentBackend (g_values E)")
  case (Inl e)
  with assms show ?thesis by (auto simp: gw_handleRequest_def run_simps)
next
  case (Inr b)
  show ?thesis
  proof (cases "req_client_ip req = gb_ip b")
    case True
    with assms Inr show ?thesis by (auto simp: gw_handleRequest_def run_simps allowed_origin_def)
  next
    case False
    with assms Inr show ?thesis
      by (cases "gw_paymentNginx (g_values E)")
         (auto simp: gw_handleRequest_def run_simps allowed_origin_def respondJson_def ebind_def split: if_splits sum.splits)
  qed
qed

lemma gw_handleRequest_passes:
  assumes "gw_handleRequest E req w = (r, w')"
  shows "passes E req w r w' \<and> (gw_link w' \<noteq> gw_link w \<longrightarrow> allowed_origin (g_values E) (req_client_ip req))"
  using gw_handleRequest_cases [OF assms] gw_route_passes [of E req w r w'] by (auto simp: passes_def)

section \<open>Its headers\<close>

lemma map_of_map_put: "map_of (map_put k v m) x = (if x = k then Some v else map_of m x)"
  by (induction m) auto

lemma put_header_of:
  "header_or_empty (r\<lparr>req_headers := put_header n v m\<rparr>) x =
     (if x = n \<and> v \<noteq> [] then v else header_or_empty (r\<lparr>req_headers := m\<rparr>) x)"
  by (simp add: header_or_empty_def put_header_def map_of_map_put)

definition client_address :: "GatewayRequest \<Rightarrow> string" where
  "client_address req = (if headerValue req ''X-Forwarded-For'' = [] then headerValue req ''X-Real-IP''
     else headerValue req ''X-Forwarded-For'')"

lemma toForwardRequest_headers:
  "header_or_empty (toForwardRequest req) ''Cookie'' = headerValue req ''Cookie''"
  "header_or_empty (toForwardRequest req) ''User-Agent'' = headerValue req ''User-Agent''"
  "header_or_empty (toForwardRequest req) ''X-Forwarded-For'' = client_address req"
proof -
  let ?r = "\<lparr>req_method = req_method req, req_path = req_path req, req_query = req_query req,
    req_headers = [], req_body = req_body req\<rparr>"
  have r: "toForwardRequest req = ?r\<lparr>req_headers :=
      put_header ''User-Agent'' (headerValue req ''User-Agent'')
        (put_header ''X-Forwarded-For'' (client_address req)
          (put_header ''Cookie'' (headerValue req ''Cookie'')
            (put_header ''Content-Type'' (headerValue req ''Content-Type'') [])))\<rparr>"
    by (simp add: toForwardRequest_def client_address_def Let_def)
  show "header_or_empty (toForwardRequest req) ''Cookie'' = headerValue req ''Cookie''"
    "header_or_empty (toForwardRequest req) ''User-Agent'' = headerValue req ''User-Agent''"
    "header_or_empty (toForwardRequest req) ''X-Forwarded-For'' = client_address req"
    unfolding r put_header_of by (simp_all add: header_or_empty_def)
qed

lemma headerValue_clean:
  assumes "request_ok req"
  shows "clean_value (headerValue req n)"
proof -
  have "headerValue_loop k hs = [] \<or> (\<exists>kv\<in>set hs. snd kv = headerValue_loop k hs)" for k hs
    by (induction hs) force+
  from this [of "toLower n" "req_headers req"] show ?thesis
  proof
    assume "headerValue_loop (toLower n) (req_headers req) = []"
    moreover have "clean_value []" by code_simp
    ultimately show ?thesis by (simp add: headerValue_def)
  next
    assume "\<exists>kv\<in>set (req_headers req). snd kv = headerValue_loop (toLower n) (req_headers req)"
    with assms show ?thesis by (auto simp: headerValue_def request_ok_def)
  qed
qed

lemma toForwardRequest_ok:
  assumes "request_ok req"
  shows "request_ok (toForwardRequest req)"
proof -
  have put: "\<forall>(k, v)\<in>set (put_header n v m). clean_value v" if "clean_value v" "\<forall>(k, v)\<in>set m. clean_value v" for n v m
    using that map_put_entries [of n v m] by (auto simp: put_header_def)
  have "clean_value (client_address req)" using headerValue_clean [OF assms] by (simp add: client_address_def)
  then have "\<forall>(k, v)\<in>set (req_headers (toForwardRequest req)). clean_value v"
    unfolding toForwardRequest_def Let_def HttpRequest.select_convs client_address_def [symmetric]
    by (intro put headerValue_clean [OF assms]) simp_all
  with assms show ?thesis by (simp add: request_ok_def toForwardRequest_def Let_def)
qed

lemma gw_readHttpRequest_ok:
  assumes "gw_readHttpRequest ip blocks = Inr (Some req)"
  shows "request_ok req" and "req_client_ip req = ip"
proof -
  from assms obtain r where r: "readHttpRequest blocks = Inr (Some r)" and
    req: "req = \<lparr>req_method = req_method r, req_path = req_path r, req_query = req_query r,
        req_headers = req_headers r, req_body = req_body r, req_client_ip = ip\<rparr>"
    by (auto simp: gw_readHttpRequest_def run_iff)
  show "request_ok req" using readHttpRequest_ok [OF r] by (simp add: request_ok_def req)
  show "req_client_ip req = ip" by (simp add: req)
qed

lemma forward_path: "isForwardApi p \<Longrightarrow> p \<noteq> []"
  by (auto simp: isForwardApi_def is_prefix_iff)

section \<open>What the backend sees\<close>

text \<open>
  C12: whenever the gateway has sent anything to the backend for a request it read from a client, and the
  backend reads a request from what arrived (in any blocks, possibly cut short), then the client is an
  allowed peer, the path is one that is forwarded, and the backend sees the client's method, path, query,
  body, cookies and user agent. The user it sees in X-User-Id is the one the login session of the client's
  cookie belongs to, and none where no login is required: nothing the client sends can set it.
\<close>

theorem backend_sees_session_user:
  assumes "gw_readHttpRequest ip blocks = Inr (Some req)" and "gw_handleRequest E req w = (res, w')"
    and "ln_sent (gw_link w') = ln_sent (gw_link w) @ [t]"
    and "concat cs = t" and "readHttpRequest cs = Inr (Some r)"
    and "\<And>uid. forwarded_as E w req uid \<Longrightarrow> clean_value uid"
    and "\<And>b. gw_paymentBackend (g_values E) = Inr b \<Longrightarrow> clean_value (gb_ip b)"
    and "length (req_body req) < 2 ^ 64"
  shows "allowed_origin (g_values E) ip \<and> isForwardApi (req_path req) \<and>
    forwarded_as E w req (headerValue r ''X-User-Id'') \<and>
    req_method r = req_method req \<and> req_path r = req_path req \<and> req_query r = req_query req \<and>
    req_body r = req_body req \<and> headerValue r ''Cookie'' = headerValue req ''Cookie'' \<and>
    headerValue r ''User-Agent'' = headerValue req ''User-Agent'' \<and>
    headerValue r ''X-Forwarded-For'' = client_address req"
proof -
  let ?f = "toForwardRequest req"
  have ok: "request_ok ?f" using toForwardRequest_ok gw_readHttpRequest_ok(1) [OF assms(1)] by blast
  from gw_handleRequest_passes [OF assms(2)] assms(3) obtain uid q where api: "isForwardApi (req_path req)"
    and as: "forwarded_as E w req uid"
    and f: "forwardToBackend (g_values E) ?f uid (gw_link w) = (q, gw_link w')"
    by (auto simp: passes_def)
  from f assms(3) obtain b u where b: "gw_paymentBackend (g_values E) = Inr b" and u: "forward_text b ?f uid = t @ u"
    by (cases rule: forwardToBackend_cases) auto
  have same: "req_method ?f = req_method req" "req_path ?f = req_path req" "req_query ?f = req_query req"
      "req_body ?f = req_body req"
    by (simp_all add: toForwardRequest_def Let_def)
  have ne: "req_path ?f \<noteq> []" using forward_path [OF api] same by simp
  have "seen_request ?f uid r"
    using read_forwarded_sound [OF assms(5) _ ok ne assms(6) [OF as] assms(7) [OF b]] u assms(4,8) same by simp
  with api as same gw_handleRequest_passes [OF assms(2)] assms(3) gw_readHttpRequest_ok(2) [OF assms(1)]
  show ?thesis by (auto simp: seen_request_def toForwardRequest_headers)
qed

section \<open>What the client gets\<close>

lemma forwarded_as_unique: "forwarded_as E w req uid \<Longrightarrow> forwarded_as E w req uid' \<Longrightarrow> uid = uid'"
  by (auto simp: forwarded_as_def split: if_splits)

text \<open>An answer the backend can give: a status of three digits or so, and clean extra headers.\<close>

definition answer_ok :: "int \<Rightarrow> (string \<times> string) list \<Rightarrow> string \<Rightarrow> bool" where
  "answer_ok status extra body \<longleftrightarrow> 0 \<le> status \<and> status \<le> INT_MAX \<and>
     (\<forall>(k, v)\<in>set extra. clean_key k \<and> clean_value v \<and> k \<noteq> ''Content-Length'') \<and>
     head_length (answer_line status) (response_headers extra body) + 4100 \<le> 4194304 \<and> length body < 2 ^ 64"

lemma gateway_answer:
  assumes run: "gw_handleRequest E req w = (res, w')"
    and b: "gw_paymentBackend (g_values E) = Inr b" and as: "forwarded_as E w req uid"
    and msg: "s = forward_text b (toForwardRequest req) uid"
    and sent: "ln_sent (gw_link w') = ln_sent (gw_link w) @ [s]"
    and cs: "cs = ln_peer (gw_link w) (length (ln_sent (gw_link w))) s"
    and blocks: "blocks_ok cs" "concat cs = response_text status extra body"
    and ok: "answer_ok status extra body"
  shows "res = Inr \<lparr>gr_http_status = status, gr_body = body, gr_extra_headers = cookies extra\<rparr> \<and>
    ln_open (gw_link w') = ln_open (gw_link w)"
proof -
  have read: "readHttpResponse cs = Inr (Some \<lparr>fr_status = status, fr_body = body, fr_extra_headers = cookies extra\<rparr>)"
    using ok by (intro read_response blocks) (simp_all add: answer_ok_def)
  from gw_handleRequest_passes [OF run] sent obtain uid' q where "forwarded_as E w req uid'"
    and f: "forwardToBackend (g_values E) (toForwardRequest req) uid' (gw_link w) = (q, gw_link w')"
    and res: "\<And>x. q = Inr x \<Longrightarrow> res = Inr (from_backend x)"
    by (auto simp: passes_def)
  with forwarded_as_unique as have "uid' = uid" by blast
  with f sent b msg cs read obtain "q = Inr \<lparr>fr_status = status, fr_body = body, fr_extra_headers = cookies extra\<rparr>"
    and "ln_open (gw_link w') = ln_open (gw_link w)"
    by (cases rule: forwardToBackend_cases) auto
  with res show ?thesis by (simp add: from_backend_def)
qed

end
