(* ===== verification/BackendServer.thy ===== *)
theory BackendServer
  imports PaymentImpl HttpWire
begin

text \<open>
  One HTTP connection of the backend, from backend/main.cpp: \<open>writeHttpResponse\<close> and
  \<open>handleClientConnection\<close>; \<open>readHttpRequest\<close> is in \<open>HttpWire\<close>. An answer is written by one call of
  \<open>write\<close>, whose result the code ignores; the model has the text that is handed to it.
\<close>

definition writeHttpResponse :: "lib \<Rightarrow> HttpResponse \<Rightarrow> exn + string" where
  "writeHttpResponse L response =
     ebind (json_dump L (envelope response)) (\<lambda>body.
       Inr (response_text (http_status response) (extra_headers response) body))"

text \<open>The text written, \<open>None\<close> when the connection is closed without an answer.\<close>

definition handleClientConnection :: "env \<Rightarrow> string list \<Rightarrow> (world, string option) comp" where
  "handleClientConnection E blocks =
     mbind (mlift (readHttpRequest blocks)) (\<lambda>request. case request of
       None \<Rightarrow> mret None
     | Some req \<Rightarrow>
         mbind (handleRequest E req) (\<lambda>response.
         mbind (mlift (writeHttpResponse (e_lib E) response)) (\<lambda>payload.
           mret (Some payload))))"

section \<open>What a computation returns\<close>

text \<open>\<open>returns P m\<close>: every result of \<open>m\<close> satisfies \<open>P\<close>.\<close>

definition returns :: "('a \<Rightarrow> bool) \<Rightarrow> ('w, 'a) comp \<Rightarrow> bool" where
  "returns P m \<longleftrightarrow> (\<forall>w x w'. m w = (Inr x, w') \<longrightarrow> P x)"

lemma returnsD: "returns P m \<Longrightarrow> m w = (Inr x, w') \<Longrightarrow> P x"
  by (auto simp: returns_def)

named_theorems returns_rules \<open>what composed computations return\<close>

lemma returns_mret [returns_rules]: "P x \<Longrightarrow> returns P (mret x)"
  by (simp add: returns_def run_iff)

lemma returns_mthrow [returns_rules]: "returns P (mthrow e)"
  by (simp add: returns_def run_iff)

lemma returns_mbind: "returns Q m \<Longrightarrow> (\<And>x. Q x \<Longrightarrow> returns P (f x)) \<Longrightarrow> returns P (mbind m f)"
  unfolding returns_def by (auto simp: run_iff) blast

lemma returns_any: "returns (\<lambda>_. True) m"
  by (simp add: returns_def)

lemma returns_then [returns_rules]: "(\<And>x. returns P (f x)) \<Longrightarrow> returns P (mbind m f)"
  by (rule returns_mbind [OF returns_any])

lemma returns_mcatch [returns_rules]: "returns P m \<Longrightarrow> (\<And>e. returns P (h e)) \<Longrightarrow> returns P (mcatch m h)"
  unfolding returns_def by (auto simp: run_iff) blast

lemma returns_if [returns_rules]: "(c \<Longrightarrow> returns P m) \<Longrightarrow> (\<not> c \<Longrightarrow> returns P m') \<Longrightarrow> returns P (if c then m else m')"
  by simp

lemma returns_option [returns_rules]:
  "returns P m \<Longrightarrow> (\<And>x. returns P (f x)) \<Longrightarrow> returns P (case r of None \<Rightarrow> m | Some x \<Rightarrow> f x)"
  by (cases r) auto

lemma returns_sum [returns_rules]:
  "(\<And>e. returns P (f e)) \<Longrightarrow> (\<And>x. returns P (g x)) \<Longrightarrow> returns P (case r of Inl e \<Rightarrow> f e | Inr x \<Rightarrow> g x)"
  by (cases r) auto

lemma returns_pair [returns_rules]:
  "(\<And>x y. returns P (f x y)) \<Longrightarrow> returns P (case r of (x, y) \<Rightarrow> f x y)"
  by (cases r) auto

section \<open>The answers of the backend\<close>

definition proper :: "HttpResponse \<Rightarrow> bool" where
  "proper r \<longleftrightarrow> http_status r \<in> {200, 400, 401, 403, 404, 409, 500} \<and>
     (extra_headers r = [] \<or> (\<exists>v. extra_headers r = [(''Set-Cookie'', v)] \<and> clean_value v))"

lemma proper_respond: "st \<in> {200, 400, 401, 403, 404, 409, 500} \<Longrightarrow> proper (respond st env)"
  by (simp add: proper_def respond_def)

lemma returns_reply [returns_rules]:
  "st \<in> {200, 400, 401, 403, 404, 409, 500} \<Longrightarrow> returns proper (reply st env)"
  unfolding reply_def by (intro returns_mret proper_respond)

lemma toHex_no_feed: "CHR 0x0A \<notin> set (toHex bs)"
proof (induction bs)
  case Nil
  then show ?case by simp
next
  case (Cons b bs)
  have "code (hex_digit d) \<noteq> 10" if "d < 16" for d using that by (auto simp: hex_digit_def)
  moreover have "code b div 16 < 16" using code_less [of b] by (simp add: less_mult_imp_div_less)
  moreover have "code CHR 0x0A = 10" by code_simp
  ultimately have "hex_digit (code b div 16) \<noteq> CHR 0x0A" "hex_digit (code b mod 16) \<noteq> CHR 0x0A"
    by (metis mod_less_divisor zero_less_numeral)+
  with Cons show ?case by auto
qed

lemma cookie_clean: "clean_value (''session_id=SID'' @ toHex bs @ ''; Path=/; HttpOnly; SameSite=Lax'')"
proof -
  have "\<not> is_blank CHR ''s''" "\<not> is_blank CHR ''x''" by code_simp+
  then show ?thesis using toHex_no_feed by (simp add: clean_value_def trim_id)
qed

lemma returns_session_id: "returns (\<lambda>s. \<exists>bs. s = ''SID'' @ toHex bs) makeLoginSessionId"
  by (auto simp: returns_def makeLoginSessionId_def randomHex_def run_iff split: option.splits)

lemma handleLogin_proper: "returns proper (handleLogin E req)"
proof -
  have "proper ((respond 200 env)\<lparr>extra_headers := [(''Set-Cookie'',
      ''session_id='' @ session_id @ ''; Path=/; HttpOnly; SameSite=Lax'')]\<rparr>)"
    if "\<exists>bs. session_id = ''SID'' @ toHex bs" for env session_id
    using that cookie_clean by (auto simp: proper_def respond_def)
  then show ?thesis
    unfolding handleLogin_def
    by (intro returns_sum returns_then returns_if returns_option returns_reply
        returns_mbind [OF returns_session_id] returns_mret) auto
qed

lemma handleLogout_proper: "returns proper (handleLogout E req)"
proof -
  have "clean_value ''session_id=; Path=/; HttpOnly; SameSite=Lax; Max-Age=0''" by code_simp
  then show ?thesis
    unfolding handleLogout_def Let_def by (intro returns_rules) (simp_all add: proper_def respond_def)
qed

lemma handleGetOrder_proper: "returns proper (handleGetOrder E req)"
  unfolding handleGetOrder_def Let_def by (intro returns_rules) simp_all

lemma handleConfirm_proper: "returns proper (handleConfirm E req)"
  unfolding handleConfirm_def Let_def by (intro returns_rules) simp_all

lemma handleRealAuthComplete_proper: "returns proper (handleRealAuthComplete E req)"
  unfolding handleRealAuthComplete_def Let_def by (intro returns_rules) simp_all

lemma payable_session_proper:
  "returns (\<lambda>r. case r of Inl resp \<Rightarrow> proper resp | Inr _ \<Rightarrow> True) (payable_session E sid e1 e2)"
  unfolding payable_session_def by (intro returns_rules) (simp_all add: proper_respond)

lemma returns_payable [returns_rules]:
  assumes "\<And>s ord a. returns proper (f (s, ord, a))"
  shows "returns proper (mbind (payable_session E sid e1 e2)
    (\<lambda>checked. case checked of Inl response \<Rightarrow> mret response | Inr x \<Rightarrow> f x))"
  by (rule returns_mbind [OF payable_session_proper]) (auto intro!: returns_mret assms split: sum.splits)

lemma handlePaymentPage_proper: "returns proper (handlePaymentPage E req)"
  unfolding handlePaymentPage_def Let_def
  by (intro returns_if returns_reply returns_then returns_payable) (auto intro!: returns_rules)

lemma handleAttemptInit_proper: "returns proper (handleAttemptInit E req)"
  unfolding handleAttemptInit_def Let_def
  by (intro returns_sum returns_if returns_reply returns_then returns_payable) (auto intro!: returns_rules)

lemma pay_fail_proper: "st \<in> {200, 400, 401, 403, 404, 409, 500} \<Longrightarrow> returns proper (pay_fail E rid reason st err)"
  unfolding pay_fail_def by (intro returns_rules)

lemma pay_finalize_proper: "returns proper (pay_finalize E rid s ord a)"
  unfolding pay_finalize_def by (intro returns_rules pay_fail_proper) simp_all

lemma pay_authorize_proper: "returns proper (pay_authorize E rid pw s ord a)"
  unfolding pay_authorize_def by (intro returns_rules pay_fail_proper pay_finalize_proper) simp_all

lemma pay_check_proper: "returns proper (pay_check E rid pw t sid)"
  unfolding pay_check_def by (intro returns_rules pay_fail_proper pay_authorize_proper) simp_all

lemma pay_attempt_known_proper: "returns proper (pay_attempt_known E rid tok pw t)"
  unfolding pay_attempt_known_def Let_def by (intro returns_rules pay_fail_proper pay_check_proper) simp_all

lemma handlePay_proper: "returns proper (handlePay E req)"
  unfolding handlePay_def by (intro returns_rules pay_attempt_known_proper) simp_all

lemma dispatch_proper: "returns proper (dispatch E req)"
  unfolding dispatch_def
  by (intro returns_if returns_reply handleLogin_proper handleLogout_proper handleGetOrder_proper
      handleConfirm_proper handleRealAuthComplete_proper handlePaymentPage_proper handleAttemptInit_proper
      handlePay_proper) simp

lemma handleRequest_proper: "returns proper (handleRequest E req)"
  unfolding handleRequest_def by (intro returns_mcatch dispatch_proper returns_reply) simp

text \<open>
  C21: every request gets an answer, whatever fails below. handleRequest never lets an exception out; the
  status it answers with is one of seven, and the only extra header it ever sets is one Set-Cookie header
  without a line break, so an answer cannot inject further headers.
\<close>

theorem every_request_answered:
  "\<exists>resp w'. handleRequest E req w = (Inr resp, w') \<and> http_status resp \<in> {200, 400, 401, 403, 404, 409, 500} \<and>
     (extra_headers resp = [] \<or> (\<exists>v. extra_headers resp = [(''Set-Cookie'', v)] \<and> CHR 0x0A \<notin> set v))"
proof -
  obtain resp w' where run: "handleRequest E req w = (Inr resp, w')"
    by (cases "dispatch E req w"; cases "fst (dispatch E req w)")
       (auto simp: handleRequest_def mcatch_def reply_def run_simps)
  from returnsD [OF handleRequest_proper run] run show ?thesis
    by (auto simp: proper_def clean_value_def)
qed

end
