(* ===== verification/System.thy ===== *)
theory System
  imports GatewayProps BackendServer PayProps
begin

text \<open>
  Both processes together: a request that goes through the gateway to the backend and back, and a login
  that the gateway recognises. The network may cut what one process sends into any blocks.
\<close>

section \<open>Through both processes\<close>

text \<open>
  \<open>round_trip\<close>: the gateway serves a request, what it sends to the backend arrives as the blocks \<open>cs\<close>, the
  backend serves that connection and writes the text \<open>p\<close>, which arrives at the gateway as its peer's answer.
\<close>

definition round_trip ::
    "genv \<Rightarrow> env \<Rightarrow> GatewayRequest \<Rightarrow> gworld \<Rightarrow> world \<Rightarrow> exn + GatewayResponse \<Rightarrow> gworld \<Rightarrow> string \<Rightarrow> world \<Rightarrow> bool" where
  "round_trip G E req g v res g' p v' \<longleftrightarrow>
     gw_handleRequest G req g = (res, g') \<and>
     (\<exists>b uid s cs. gw_paymentBackend (g_values G) = Inr b \<and> forwarded_as G g req uid \<and>
        s = forward_text b (toForwardRequest req) uid \<and>
        ln_sent (gw_link g') = ln_sent (gw_link g) @ [s] \<and>
        clean_value uid \<and> clean_value (gb_ip b) \<and> fits_backend b (toForwardRequest req) uid \<and>
        blocks_ok cs \<and> concat cs = s \<and>
        handleClientConnection E cs v = (Inr (Some p), v') \<and>
        blocks_ok (ln_peer (gw_link g) (length (ln_sent (gw_link g))) s) \<and>
        concat (ln_peer (gw_link g) (length (ln_sent (gw_link g))) s) = p)"

text \<open>The sizes of an answer that the gateway can read.\<close>

definition fits_gateway :: "lib \<Rightarrow> HttpResponse \<Rightarrow> bool" where
  "fits_gateway L resp \<longleftrightarrow> (\<forall>body. json_dump L (envelope resp) = Inr body \<longrightarrow>
     head_length (answer_line (http_status resp)) (response_headers (extra_headers resp) body) + 4100 \<le> 4194304 \<and>
     length body < 2 ^ 64)"

definition answers_fit :: "env \<Rightarrow> GatewayRequest \<Rightarrow> world \<Rightarrow> bool" where
  "answers_fit E req v \<longleftrightarrow> (\<forall>uid r resp v'. seen_request (toForwardRequest req) uid r \<longrightarrow>
     handleRequest E r v = (Inr resp, v') \<longrightarrow> fits_gateway (e_lib E) resp)"

lemma proper_answer:
  assumes "proper resp" and "fits_gateway L resp" and "json_dump L (envelope resp) = Inr body"
  shows "answer_ok (http_status resp) (extra_headers resp) body"
    and "cookies (extra_headers resp) = extra_headers resp"
proof -
  have "clean_key ''Set-Cookie''" by code_simp
  moreover have "500 < INT_MAX" by (simp add: INT_MAX_def)
  ultimately show "answer_ok (http_status resp) (extra_headers resp) body"
    using assms by (auto simp: answer_ok_def proper_def fits_gateway_def)
  show "cookies (extra_headers resp) = extra_headers resp"
    using assms(1) by (auto simp: proper_def cookies_def)
qed

lemma round_trip_served:
  assumes req: "request_ok req" and rt: "round_trip G E req g v res g' p v'"
    and fits: "answers_fit E req v"
  obtains uid r resp body where "isForwardApi (req_path req)" and "forwarded_as G g req uid"
    and "allowed_origin (g_values G) (req_client_ip req)"
    and "seen_request (toForwardRequest req) uid r" and "handleRequest E r v = (Inr resp, v')"
    and "json_dump (e_lib E) (envelope resp) = Inr body"
    and "res = Inr \<lparr>gr_http_status = http_status resp, gr_body = body, gr_extra_headers = extra_headers resp\<rparr>"
proof -
  let ?f = "toForwardRequest req"
  from rt obtain b uid s cs where run: "gw_handleRequest G req g = (res, g')"
    and b: "gw_paymentBackend (g_values G) = Inr b" and as: "forwarded_as G g req uid"
    and s: "s = forward_text b ?f uid" and sent: "ln_sent (gw_link g') = ln_sent (gw_link g) @ [s]"
    and clean: "clean_value uid" "clean_value (gb_ip b)" "fits_backend b ?f uid"
    and cs: "blocks_ok cs" "concat cs = s" and conn: "handleClientConnection E cs v = (Inr (Some p), v')"
    and peer: "blocks_ok (ln_peer (gw_link g) (length (ln_sent (gw_link g))) s)"
      "concat (ln_peer (gw_link g) (length (ln_sent (gw_link g))) s) = p"
    unfolding round_trip_def by blast
  have ok: "request_ok ?f" by (rule toForwardRequest_ok [OF req])
  from gw_handleRequest_passes [OF run] sent have api: "isForwardApi (req_path req)"
    and origin: "allowed_origin (g_values G) (req_client_ip req)"
    by (auto simp: passes_def)
  have "req_path ?f \<noteq> []" using forward_path [OF api] by (simp add: toForwardRequest_def Let_def)
  then obtain r where r: "readHttpRequest cs = Inr (Some r)" "seen_request ?f uid r"
    using read_forwarded [OF ok _ clean cs(1)] cs(2) s by blast
  with conn obtain resp body where h: "handleRequest E r v = (Inr resp, v')"
    and j: "json_dump (e_lib E) (envelope resp) = Inr body"
    and p: "p = response_text (http_status resp) (extra_headers resp) body"
    by (auto simp: handleClientConnection_def writeHttpResponse_def run_iff)
  have pr: "proper resp" by (rule returnsD [OF handleRequest_proper h])
  have fit: "fits_gateway (e_lib E) resp" using fits r(2) h by (auto simp: answers_fit_def)
  have "res = Inr \<lparr>gr_http_status = http_status resp, gr_body = body, gr_extra_headers = extra_headers resp\<rparr>"
    using gateway_answer [OF run b as s sent refl peer(1) peer(2) [unfolded p] proper_answer(1) [OF pr fit j]]
      proper_answer(2) [OF pr fit j] by simp
  with that [OF api as origin r(2) h j] show thesis .
qed

text \<open>
  C20: the gateway is transparent. For a request it forwards, with any cutting of both messages into blocks,
  the client gets status, body and cookies of exactly the answer that \<open>handleRequest\<close> of the backend gives
  to a request with the client's method, path, query and body and with the user of the client's session.
\<close>

theorem gateway_is_transparent:
  assumes "gw_readHttpRequest ip blocks = Inr (Some req)" and "round_trip G E req g v res g' p v'"
    and "answers_fit E req v"
  shows "\<exists>uid r resp body. forwarded_as G g req uid \<and> allowed_origin (g_values G) ip \<and>
    req_method r = req_method req \<and> req_path r = req_path req \<and> req_query r = req_query req \<and>
    req_body r = req_body req \<and> headerValue r ''X-User-Id'' = uid \<and>
    handleRequest E r v = (Inr resp, v') \<and> json_dump (e_lib E) (envelope resp) = Inr body \<and>
    res = Inr \<lparr>gr_http_status = http_status resp, gr_body = body, gr_extra_headers = extra_headers resp\<rparr>"
proof -
  obtain uid r resp body where as: "forwarded_as G g req uid" "allowed_origin (g_values G) (req_client_ip req)"
    and seen: "seen_request (toForwardRequest req) uid r"
    and h: "handleRequest E r v = (Inr resp, v')" "json_dump (e_lib E) (envelope resp) = Inr body"
      "res = Inr \<lparr>gr_http_status = http_status resp, gr_body = body, gr_extra_headers = extra_headers resp\<rparr>"
    by (rule round_trip_served [OF gw_readHttpRequest_ok(1) [OF assms(1)] assms(2,3)])
  from seen have "req_method r = req_method req" "req_path r = req_path req" "req_query r = req_query req"
    "req_body r = req_body req" "headerValue r ''X-User-Id'' = uid"
    by (simp_all add: seen_request_def toForwardRequest_def Let_def)
  with as h gw_readHttpRequest_ok(2) [OF assms(1)] show ?thesis
    by (intro exI [of _ uid] exI [of _ r] exI [of _ resp] exI [of _ body]) simp
qed

section \<open>Orders\<close>

lemma handleRequest_200:
  assumes "handleRequest E req v = (Inr resp, v')" and "http_status resp = 200"
  shows "dispatch E req v = (Inr resp, v')"
  using assms by (auto simp: handleRequest_def mcatch_def reply_def run_simps split: sum.splits prod.splits)

lemma handleGetOrder_200:
  assumes "handleGetOrder E req v = (Inr resp, v')" and "http_status resp = 200"
    and "db_ok (e_lib E) (m_db (w_mysql v))"
  shows "\<exists>row\<in>set (orders (m_db (w_mysql v))).
    col_eq (e_lib E) (o_order_sn row) (extractOrderSn (req_path req)) \<and> o_buyer_id row = headerValue req ''X-User-Id''"
proof -
  have u: "headerValue req ''X-User-Id'' \<noteq> []"
    using assms(1,2) by (auto simp: handleGetOrder_def Let_def reply_def run_simps)
  with assms(1) obtain x w1 where g: "getOrderBySn (e_lib E) (extractOrderSn (req_path req)) (w_mysql v) = (Inr x, w1)"
    and rest: "(case x of
           None \<Rightarrow> reply 404 (makeErr 40401 M_order_missing)
         | Some ord \<Rightarrow>
             if oi_buyer_id ord \<noteq> headerValue req ''X-User-Id'' then reply 404 (makeErr 40401 M_order_missing)
             else
             mbind (sql (getAccountById (e_lib E) (oi_account_id ord))) (\<lambda>account. case account of
               None \<Rightarrow> reply 404 (makeErr 40402 M_account_missing)
             | Some a \<Rightarrow> reply 200 (makeOk (order_json ord a)))) (v\<lparr>w_mysql := w1\<rparr>) = (Inr resp, v')"
    unfolding handleGetOrder_def Let_def by (auto simp: mbind_Inr_iff sql_iff)
  from rest assms(2) obtain ord where "x = Some ord" "oi_buyer_id ord = headerValue req ''X-User-Id''"
    by (cases x) (auto simp: reply_def run_simps split: if_splits)
  with reads_find(3) [OF assms(3) g] show ?thesis by (auto simp: found_def order_view_def)
qed

text \<open>
  C13: an order is shown to nobody but its buyer. When a client's GET of an order goes through the gateway
  to the backend and is answered 200, there is an order of that number in the database, and its buyer is
  the user whose login session the client's cookie names; the client cannot choose another user.
\<close>

theorem order_shown_to_its_buyer:
  assumes "gw_readHttpRequest ip blocks = Inr (Some req)"
    and "req_method req = ''GET''" and "is_prefix ''/api/payment/orders/'' (req_path req)"
    and "round_trip G E req g v (Inr answer) g' p v'" and "gr_http_status answer = 200"
    and "answers_fit E req v"
    and "db_ok (e_lib E) (m_db (w_mysql v))"
  shows "\<exists>row\<in>set (orders (m_db (w_mysql v))).
    col_eq (e_lib E) (o_order_sn row) (extractOrderSn (req_path req)) \<and>
    login_view (r_store (gw_redis g)) (g_now G) (c_str (session_of req)) = Some (o_buyer_id row)"
proof -
  obtain uid r resp body where as: "forwarded_as G g req uid" and seen: "seen_request (toForwardRequest req) uid r"
    and h: "handleRequest E r v = (Inr resp, v')"
    and res: "Inr answer = (Inr \<lparr>gr_http_status = http_status resp, gr_body = body,
        gr_extra_headers = extra_headers resp\<rparr> :: exn + GatewayResponse)"
    by (rule round_trip_served [OF gw_readHttpRequest_ok(1) [OF assms(1)] assms(4,6)])
  have r: "req_method r = ''GET''" "req_path r = req_path req" "headerValue r ''X-User-Id'' = uid"
    using seen assms(2) by (simp_all add: seen_request_def toForwardRequest_def Let_def)
  have "dispatch E r v = (Inr resp, v')" using handleRequest_200 [OF h] res assms(5) by simp
  then have "handleGetOrder E r v = (Inr resp, v')" using r assms(3) by (simp add: dispatch_def)
  from handleGetOrder_200 [OF this _ assms(7)] res assms(5) r obtain row where
    "row \<in> set (orders (m_db (w_mysql v)))" "col_eq (e_lib E) (o_order_sn row) (extractOrderSn (req_path req))"
    "o_buyer_id row = uid" by auto
  moreover have "login_view (r_store (gw_redis g)) (g_now G) (c_str (session_of req)) = Some uid"
    using as assms(2,3) by (auto simp: forwarded_as_def requiresAuth_def)
  ultimately show ?thesis by blast
qed

section \<open>Login\<close>

lemma redis_op_iff [run_iff]:
  "redis_op m w = (Inr x, w') \<longleftrightarrow> (\<exists>s. m (w_redis w) = (Inr x, s) \<and> w' = w\<lparr>w_redis := s\<rparr>)"
  by (auto simp: redis_op_def mzoom_iff)

lemma toHex_plain: "c \<in> set (toHex bs) \<Longrightarrow> 48 \<le> code c \<and> (code c \<le> 57 \<or> 97 \<le> code c)"
proof (induction bs)
  case Nil
  then show ?case by simp
next
  case (Cons b bs)
  have d: "48 \<le> code (hex_digit d) \<and> (code (hex_digit d) \<le> 57 \<or> 97 \<le> code (hex_digit d))" if "d < 16" for d
    using that by (auto simp: hex_digit_def)
  have "code b div 16 < 16" using code_less [of b] by (simp add: less_mult_imp_div_less)
  then show ?case using Cons d [of "code b div 16"] d [of "code b mod 16"] by auto
qed

lemma session_id_valid: "valid_sid (''SID'' @ toHex bs)"
  using toHex_plain [of "CHR 0x00" bs] by (auto simp: valid_sid_def code_def)

lemma handleLogin_200:
  assumes run: "handleLogin E req v = (Inr resp, v')" and ok: "http_status resp = 200"
    and db: "db_ok (e_lib E) (m_db (w_mysql v))"
  obtains body name pw cfg ttl bs row w1 where "parseJsonBody (e_lib E) req = Inr body"
    and "json_value_str (e_lib E) body ''username'' [] = Inr name"
    and "json_value_str (e_lib E) body ''password'' [] = Inr pw"
    and "row \<in> set (users (m_db (w_mysql v)))" and "col_eq (e_lib E) (u_username row) name" and "u_status row = 0"
    and "passwordHash (e_values E) = Inr cfg"
    and "verifyLoginPasswordWithHash (e_lib E) pw (u_password_hash row) (pw_secret cfg)"
    and "saveSession (e_now E) (''SID'' @ toHex bs) (u_user_id row) ttl w1 = (Inr True, w_redis v')"
    and "extra_headers resp = [(''Set-Cookie'', ''session_id='' @ (''SID'' @ toHex bs) @ ''; Path=/; HttpOnly; SameSite=Lax'')]"
proof -
  define answer where "answer u session_id saved =
      (if \<not> saved then reply 500 (makeErr 50001 M_login_session_failed)
       else
         mret ((respond 200 (makeOk (JObject [(''user_id'', JString (ui_user_id u))])))
           \<lparr>extra_headers := [(''Set-Cookie'',
               ''session_id='' @ session_id @ ''; Path=/; HttpOnly; SameSite=Lax'')]\<rparr>))"
    for u :: UserInfo and session_id saved
  from run ok obtain body where body: "parseJsonBody (e_lib E) req = Inr body"
    by (auto simp: handleLogin_def reply_def run_simps split: sum.splits)
  from run ok body obtain name pw where names: "json_value_str (e_lib E) body ''username'' [] = Inr name"
      "json_value_str (e_lib E) body ''password'' [] = Inr pw" "name \<noteq> []" "pw \<noteq> []"
    by (auto simp: handleLogin_def reply_def body_str_def run_simps split: sum.splits if_splits)
  with run body obtain x w1 where g: "getUserByUsername (e_lib E) name (w_mysql v) = (Inr x, w1)"
    and rest: "(case x of
          None \<Rightarrow> reply 404 (makeErr 40403 M_user_gone)
        | Some u \<Rightarrow>
            if \<not> isNormal u then reply 404 (makeErr 40403 M_user_gone)
            else
            mbind (mlift (passwordHash (e_values E))) (\<lambda>hash_cfg.
            if \<not> verifyLoginPasswordWithHash (e_lib E) pw (ui_password_hash u) (pw_secret hash_cfg)
            then reply 401 (makeErr 40104 M_password_wrong)
            else
            mbind makeLoginSessionId (\<lambda>session_id.
            mbind (mlift (runtime (e_values E))) (\<lambda>rt.
            mbind (redis_op (saveSession (e_now E) session_id (ui_user_id u) (login_session_ttl_seconds rt))) (\<lambda>saved.
              answer u session_id saved)))))
          (v\<lparr>w_mysql := w1\<rparr>) = (Inr resp, v')"
    unfolding handleLogin_def answer_def by (auto simp: body_str_def mbind_Inr_iff sql_iff mlift_iff)
  from rest ok obtain u cfg where u: "x = Some u" "isNormal u" "passwordHash (e_values E) = Inr cfg"
      "verifyLoginPasswordWithHash (e_lib E) pw (ui_password_hash u) (pw_secret cfg)"
    by (cases x) (auto simp: reply_def run_simps split: if_splits sum.splits)
  with rest obtain sid w2 b w3 and rt :: PaymentRuntimeConfig where sid: "makeLoginSessionId (v\<lparr>w_mysql := w1\<rparr>) = (Inr sid, w2)"
    and saved: "saveSession (e_now E) sid (ui_user_id u) (login_session_ttl_seconds rt) (w_redis w2) = (Inr b, w3)"
    and last: "answer u sid b (w2\<lparr>w_redis := w3\<rparr>) = (Inr resp, v')"
    by (auto simp: mbind_Inr_iff mlift_iff redis_op_iff)
  obtain bs where bs: "sid = ''SID'' @ toHex bs" using returnsD [OF returns_session_id sid] by blast
  from last ok have b: "b" and v': "v' = w2\<lparr>w_redis := w3\<rparr>" and
    h: "extra_headers resp = [(''Set-Cookie'', ''session_id='' @ sid @ ''; Path=/; HttpOnly; SameSite=Lax'')]"
    by (auto simp: answer_def reply_def run_simps split: if_splits)
  from reads_find(2) [OF db g] u(1) obtain row where row: "row \<in> set (users (m_db (w_mysql v)))"
      "col_eq (e_lib E) (u_username row) name" "u = user_view (e_lib E) row"
    by (auto simp: found_def)
  have view: "u_status row = 0" "ui_password_hash u = u_password_hash row" "ui_user_id u = u_user_id row"
    using u(2) row(3) by (auto simp: isNormal_def user_view_def)
  show thesis
    using that [OF body names(1,2) row(1,2) view(1) u(3) u(4) [unfolded view(2)]] saved b v' h bs view(3) by simp
qed

text \<open>What the browser sends back as its cookie is read as the session id.\<close>

lemma cookie_read_back: "cookieValue (''session_id='' @ ''SID'' @ toHex bs) ''session_id'' = ''SID'' @ toHex bs"
proof -
  have "code CHR '';'' = 59" by code_simp
  have semi: "c \<noteq> CHR '';''" if "c \<in> set (toHex bs)" for c
    using toHex_plain [OF that] \<open>code CHR '';'' = 59\<close> by auto
  have "cookieValue (''session_id'' @ ''='' @ ''SID'' @ toHex bs) ''session_id'' = ''SID'' @ toHex bs"
    using semi by (intro cookieValue_first(1)) (auto simp: strip_spaces_def)
  then show ?thesis by simp
qed


end
