(* ===== verification/GatewayNotify.thy ===== *)
theory GatewayNotify
  imports SocketClient Config Library
begin

text \<open>
  backend/common/gateway_notify.hpp: the task that tells the gateway that a session is paid. It is an HTTP
  request over a socket of its own, of whose answer only the status is read.
\<close>

definition connectGatewayHttp :: "PaymentGatewayConfig \<Rightarrow> (link, bool) comp" where
  "connectGatewayHttp gateway = connect_link (gw_public_host gateway)"

text \<open>The status between the first two blanks of the first line, or \<open>-1\<close>.\<close>

definition status_text :: "string \<Rightarrow> string option" where
  "status_text line = (case cut CHR '' '' line of
      None \<Rightarrow> None
    | Some (_, r) \<Rightarrow> map_option fst (cut CHR '' '' r))"

definition readHttpStatus :: "string list \<Rightarrow> int" where
  "readHttpStatus blocks = (case read_head 65536 [] blocks of
      None \<Rightarrow> -1
    | Some (raw, _) \<Rightarrow>
        (case cut_str crlf raw of
           None \<Rightarrow> -1
         | Some (line, _) \<Rightarrow>
             (case status_text line of
                None \<Rightarrow> -1
              | Some t \<Rightarrow> (case stoi t of Inl _ \<Rightarrow> -1 | Inr (v, _) \<Rightarrow> v))))"

definition notify_json :: "string \<Rightarrow> string \<Rightarrow> json" where
  "notify_json payment_session_id order_sn =
     JObject [(''message'', JString M_pay_success), (''order_sn'', JString order_sn),
              (''payment_session_id'', JString payment_session_id),
              (''payment_status'', JString ''PAID''), (''type'', JString ''PAYMENT_RESULT'')]"

definition notify_headers :: "PaymentGatewayConfig \<Rightarrow> string \<Rightarrow> (string \<times> string) list" where
  "notify_headers gateway payload =
     [(''Host'', gw_public_host gateway @ '':'' @ to_string (gw_http_port gateway)),
      (''Content-Type'', ''application/json''), (''Content-Length'', to_string (int (length payload))),
      (''Connection'', ''close'')]"

definition notify_text :: "PaymentGatewayConfig \<Rightarrow> string \<Rightarrow> string" where
  "notify_text gateway payload =
     message_text (request_line ''POST'' ''/internal/payment/result'') (notify_headers gateway payload) payload"

definition notifyPaymentResult :: "lib \<Rightarrow> values \<Rightarrow> string \<Rightarrow> string \<Rightarrow> (link, bool) comp" where
  "notifyPaymentResult L cfg payment_session_id order_sn =
     mbind (mlift (paymentGateway cfg)) (\<lambda>gateway.
     mbind (connectGatewayHttp gateway) (\<lambda>connected.
     if \<not> connected then mret False
     else
     mbind (mlift (json_dump L (notify_json payment_session_id order_sn))) (\<lambda>payload.
     mbind (sendAll (notify_text gateway payload)) (\<lambda>sent.
     mbind (mread peer_blocks) (\<lambda>blocks.
     mbind close_link (\<lambda>_.
       mret (sent \<and> readHttpStatus blocks = 200)))))))"

section \<open>The request is read back\<close>

lemma notify_keys_clean:
  "clean_key ''Host''" "clean_key ''Content-Type''" "clean_key ''Content-Length''" "clean_key ''Connection''"
  "clean_value ''application/json''" "clean_value ''close''"
  by code_simp+

lemma parse_one_header:
  assumes "drop_cr l = header_line (k, v)" and "clean_key k" and "clean_value v"
  shows "parse_headers (l # ls) acc n =
    (if k = ''Content-Length'' then ebind (stoul v) (\<lambda>m. parse_headers ls (map_put k v acc) m)
     else parse_headers ls (map_put k v acc) n)"
  using clean_line [OF assms(2,3)] assms by (auto simp: Let_def line_ok_def clean_key_def)

lemma parse_notify_headers:
  assumes "clean_value (gw_public_host gateway @ '':'' @ to_string (gw_http_port gateway))"
    and "length payload < 2 ^ 64" and "map drop_cr ls = map header_line (notify_headers gateway payload)"
  shows "parse_headers ls [] 0 =
    Inr (fold (\<lambda>(k, v). map_put k v) (notify_headers gateway payload) [], length payload)"
proof -
  from assms(3) obtain a b c d where ls: "ls = [a, b, c, d]"
    and h: "drop_cr a = header_line (''Host'', gw_public_host gateway @ '':'' @ to_string (gw_http_port gateway))"
      "drop_cr b = header_line (''Content-Type'', ''application/json'')"
      "drop_cr c = header_line (''Content-Length'', to_string (int (length payload)))"
      "drop_cr d = header_line (''Connection'', ''close'')"
    by (auto simp: notify_headers_def map_eq_Cons_conv)
  show ?thesis
    using parse_one_header [OF h(1) _ assms(1)] parse_one_header [OF h(2)]
      parse_one_header [OF h(3) _ to_string_clean] parse_one_header [OF h(4)]
      notify_keys_clean stoul_to_string [OF assms(2)]
    by (simp add: ls notify_headers_def del: parse_headers.simps(2))
qed

definition notify_fits :: "PaymentGatewayConfig \<Rightarrow> string \<Rightarrow> bool" where
  "notify_fits gateway payload \<longleftrightarrow> length payload < 2 ^ 64 \<and>
     head_length (request_line ''POST'' ''/internal/payment/result'') (notify_headers gateway payload) + 4100 \<le> 1048576"

lemma read_notify:
  assumes "clean_value (gw_public_host gateway @ '':'' @ to_string (gw_http_port gateway))"
    and "notify_fits gateway payload" and "blocks_ok cs" and "concat cs = notify_text gateway payload"
  shows "\<exists>r. readHttpRequest cs = Inr (Some r) \<and> req_method r = ''POST'' \<and>
    req_path r = ''/internal/payment/result'' \<and> req_body r = payload"
proof -
  have w: "is_word ''POST''" "is_word ''/internal/payment/result''"
    "split_target ''/internal/payment/result'' = (''/internal/payment/result'', [])" by code_simp+
  have "\<forall>(k, v)\<in>set (notify_headers gateway payload). clean_key k \<and> clean_value v"
    using assms(1) notify_keys_clean to_string_clean by (simp add: notify_headers_def)
  from read_lines [OF w(1,2) this parse_notify_headers [OF assms(1)] assms(3) assms(4) [unfolded notify_text_def]]
  show ?thesis using assms(2) w(3) by (simp add: notify_fits_def)
qed

section \<open>The status is read back\<close>

lemma cut_first_line: "CHR 0x0A \<notin> set l \<Longrightarrow> cut_str crlf (l @ crlf @ s) = Some (l, s)"
proof (induction l)
  case Nil
  then show ?case by (simp add: crlf_def is_prefix_def)
next
  case (Cons x l)
  have "\<not> is_prefix crlf (x # l @ crlf @ s)"
    using Cons.prems by (cases l) (auto simp: crlf_def is_prefix_def)
  with Cons show ?case by simp
qed

lemma status_text_answer: "status_text (answer_line status) = Some (to_string status)"
proof -
  have b: "CHR '' '' \<notin> set (to_string status)"
  proof -
    have "is_digit c \<or> c = CHR ''-''" if "c \<in> set (to_string status)" for c
      using that nat_to_string_digits by (auto simp: to_string_def split: if_splits)
    moreover have "\<not> is_digit CHR '' ''" by code_simp
    ultimately show ?thesis by auto
  qed
  have "cut CHR '' '' (''HTTP/1.1'' @ CHR '' '' # to_string status @ '' OK'') = Some (''HTTP/1.1'', to_string status @ '' OK'')"
    by (intro cut_found) simp
  moreover have "cut CHR '' '' (to_string status @ CHR '' '' # ''OK'') = Some (to_string status, ''OK'')"
    using b by (intro cut_found)
  ultimately show ?thesis by (simp add: status_text_def answer_line_def)
qed

lemma read_status:
  assumes "INT_MIN \<le> status" and "status \<le> INT_MAX"
    and hs: "\<forall>(k, v)\<in>set extra. clean_key k \<and> clean_value v"
    and blocks: "blocks_ok cs" "concat cs = response_text status extra body"
    and size: "head_length (answer_line status) (response_headers extra body) + 4100 \<le> 65536"
  shows "readHttpStatus cs = status"
proof -
  let ?first = "answer_line status" and ?hs = "map header_line (response_headers extra body)"
  let ?head = "crlf_join (?first # ?hs)"
  have "line_ok ?first" using to_string_clean [of status] by (simp add: line_ok_def answer_line_def clean_value_def)
  moreover have "line_ok (header_line (k, v))" if "(k, v) \<in> set (response_headers extra body)" for k v
  proof -
    have "clean_value ''application/json; charset=utf-8''" by code_simp
    with that hs clean_line(1) notify_keys_clean to_string_clean show ?thesis
      by (fastforce simp: response_headers_def)
  qed
  ultimately have ok: "\<forall>l\<in>set (?first # ?hs). line_ok l" by auto
  have cut: "cut_str head_end ([] @ concat cs) = Some (?head, body)"
    using cut_head_lines [OF _ ok, of body] blocks(2) by (simp add: response_text_def message_text_def)
  obtain raw rest bp where read: "read_head 65536 [] cs = Some (raw, rest)" "cut_str head_end raw = Some (?head, bp)"
    using read_head_blocks [OF cut blocks(1) size [unfolded head_length_def]] by metis
  have "?head = ?first @ crlf @ crlf_join ?hs" by (simp add: response_headers_def)
  then have "raw = ?first @ crlf @ crlf_join ?hs @ head_end @ bp" using cut_str_Some [OF read(2)] by simp
  then have "cut_str crlf raw = Some (?first, crlf_join ?hs @ head_end @ bp)"
    using cut_first_line [of ?first] ok by (simp add: line_ok_def)
  with read(1) show ?thesis
    using status_text_answer stoi_to_string [OF assms(1,2)] by (simp add: readHttpStatus_def)
qed

section \<open>The task\<close>

lemma notify_sent:
  assumes run: "notifyPaymentResult L cfg psid sn l = (Inr told, l')"
    and g: "paymentGateway cfg = Inr gateway" and j: "json_dump L (notify_json psid sn) = Inr payload"
    and sent: "ln_sent l' = ln_sent l @ [notify_text gateway payload]"
  shows "told \<longleftrightarrow> readHttpStatus (ln_peer l (length (ln_sent l)) (notify_text gateway payload)) = 200"
proof (cases rule: connect_link_run [of "gw_public_host gateway" l])
  case (down es)
  with run g sent show ?thesis by (auto simp: notifyPaymentResult_def connectGatewayHttp_def run_simps)
next
  case (up es)
  let ?s = "notify_text gateway payload" and ?l1 = "l\<lparr>ln_connects := es, ln_open := Suc (ln_open l)\<rparr>"
  obtain t ns ok where w: "sendAll ?s ?l1 = (Inr ok, ?l1\<lparr>ln_writes := ns, ln_sent := ln_sent ?l1 @ [t]\<rparr>)"
    and t: "\<exists>u. ?s = t @ u" "ok \<longleftrightarrow> t = ?s" by (rule sendAll_run [of ?s ?l1]) blast
  let ?m = "?l1\<lparr>ln_writes := ns, ln_sent := ln_sent l @ [t]\<rparr>"
  have res: "told \<longleftrightarrow> ok \<and> readHttpStatus (peer_blocks ?m) = 200" "ln_sent l' = ln_sent l @ [t]"
    using run g j up w by (auto simp: notifyPaymentResult_def connectGatewayHttp_def run_simps close_link_def)
  then have "t = ?s" using sent by simp
  then have "peer_blocks ?m = ln_peer l (length (ln_sent l)) ?s" by (simp add: peer_blocks_def)
  with res t \<open>t = ?s\<close> show ?thesis by simp
qed

end
