(* ===== verification/PushPath.thy ===== *)
theory PushPath
  imports GatewayProps GatewayNotify
begin

text \<open>
  The way of a payment result: the backend's task \<open>notifyPaymentResult\<close>, the gateway's connection that reads
  its request, and the WebSocket of the session.
\<close>

lemma respondJson_ok:
  "json_dump (g_lib E) env = Inr s \<Longrightarrow> respondJson E status env w =
     (Inr \<lparr>gr_http_status = status, gr_body = s, gr_extra_headers = []\<rparr>, w)"
  by (simp add: respondJson_def run_simps)

text \<open>The push of a well-formed result to a session that is bound to \<open>fd\<close>.\<close>

lemma handlePaymentResult_pushes:
  assumes "gw_paymentBackend (g_values E) = Inr b" and "req_client_ip req = gb_ip b"
    and "json_parse (g_lib E) (req_body req) = Inr (notify_json psid sn)" and "psid \<noteq> []"
    and "json_fields_documented (g_lib E)" and "json_dump (g_lib E) (notify_json psid sn) = Inr msg"
    and "json_dump (g_lib E) (makeOk (JObject [])) = Inr okbody"
    and "map_of (session_to_fd (gw_registry w)) psid = Some fd" and "textFrame msg = Some bytes"
    and "ws_writes (gw_registry w) = []"
  shows "handlePaymentResult E req w =
    (Inr \<lparr>gr_http_status = 200, gr_body = okbody, gr_extra_headers = []\<rparr>,
     w\<lparr>gw_registry := (gw_registry w)\<lparr>ws_output := ws_output (gw_registry w) @ [(fd, bytes)]\<rparr>\<rparr>)"
proof -
  have f: "json_value_str (g_lib E) (notify_json psid sn) k [] = Inr v"
    if "map_of [(''message'', JString M_pay_success), (''order_sn'', JString sn), (''payment_session_id'', JString psid),
      (''payment_status'', JString ''PAID''), (''type'', JString ''PAYMENT_RESULT'')] k = Some (JString v)" for k v
    unfolding notify_json_def by (rule json_fieldsD(1) [OF assms(5) that])
  have fields: "json_value_str (g_lib E) (notify_json psid sn) ''payment_session_id'' [] = Inr psid"
    "json_value_str (g_lib E) (notify_json psid sn) ''order_sn'' [] = Inr sn"
    "json_value_str (g_lib E) (notify_json psid sn) ''payment_status'' [] = Inr ''PAID''"
    "json_value_str (g_lib E) (notify_json psid sn) ''message'' [] = Inr M_pay_success"
    by (rule f, simp)+
  have same: "result_json psid sn ''PAID'' M_pay_success = notify_json psid sn"
    by (simp add: result_json_def notify_json_def)
  have push: "gw_push psid msg w =
    (Inr True, w\<lparr>gw_registry := (gw_registry w)\<lparr>ws_output := ws_output (gw_registry w) @ [(fd, bytes)]\<rparr>\<rparr>)"
    using assms(8-10) by (simp add: gw_push_def ws_push_def sendTextFrame_def ws_write_def)
  show ?thesis
    using assms(1-4) fields same assms(6) push
    by (simp add: handlePaymentResult_def gw_body_str_def run_simps respondJson_ok [OF assms(7)])
qed

text \<open>
  C14: the result of a payment reaches the browser. When the backend's notification has been sent, arrives
  in any blocks at a gateway that accepts the backend's address, and the session is bound to a WebSocket
  that takes the bytes, then the gateway writes exactly the frame of the PAID message to that socket and
  answers 200; and when that answer arrives at the backend, in any blocks, the notification is successful.
\<close>

theorem payment_result_reaches_browser:
  assumes "notifyPaymentResult L cfg psid sn l = (Inr told, l')"
    and "paymentGateway cfg = Inr gateway" and "json_dump L (notify_json psid sn) = Inr payload"
    and "ln_sent l' = ln_sent l @ [notify_text gateway payload]"
    and "clean_value (gw_public_host gateway @ '':'' @ to_string (gw_http_port gateway))" and "notify_fits gateway payload"
    and "blocks_ok cs" and "concat cs = notify_text gateway payload"
    and "gw_paymentBackend (g_values E) = Inr b"
    and "json_parse (g_lib E) payload = Inr (notify_json psid sn)" and "psid \<noteq> []"
    and "json_fields_documented (g_lib E)" and "json_dump (g_lib E) (notify_json psid sn) = Inr msg"
    and "json_dump (g_lib E) (makeOk (JObject [])) = Inr okbody"
    and "map_of (session_to_fd (gw_registry w)) psid = Some fd" and "textFrame msg = Some bytes"
    and "ws_writes (gw_registry w) = []"
    and "head_length (answer_line 200) (response_headers [] okbody) + 4100 \<le> 65536"
  shows "\<exists>p. handleHttpClientConnection E (gb_ip b) cs w =
      (Inr (Some p), w\<lparr>gw_registry := (gw_registry w)\<lparr>ws_output := ws_output (gw_registry w) @ [(fd, bytes)]\<rparr>\<rparr>) \<and>
    (blocks_ok (ln_peer l (length (ln_sent l)) (notify_text gateway payload)) \<and>
     concat (ln_peer l (length (ln_sent l)) (notify_text gateway payload)) = p \<longrightarrow> told)"
proof -
  let ?s = "notify_text gateway payload"
  obtain r where r: "readHttpRequest cs = Inr (Some r)" "req_method r = ''POST''"
      "req_path r = ''/internal/payment/result''" "req_body r = payload"
    using read_notify [OF assms(5-8)] by blast
  define req where "req = \<lparr>req_method = req_method r, req_path = req_path r, req_query = req_query r,
        req_headers = req_headers r, req_body = req_body r, req_client_ip = gb_ip b\<rparr>"
  have h: "gw_handleRequest E req w = handlePaymentResult E req w"
    using assms(9) r by (simp add: gw_handleRequest_def gw_route_def run_simps req_def)
  let ?resp = "\<lparr>gr_http_status = 200, gr_body = okbody, gr_extra_headers = []\<rparr>"
  have gw: "handleHttpClientConnection E (gb_ip b) cs w =
      (Inr (Some (response_text 200 [] okbody)),
       w\<lparr>gw_registry := (gw_registry w)\<lparr>ws_output := ws_output (gw_registry w) @ [(fd, bytes)]\<rparr>\<rparr>)"
    using r(1) handlePaymentResult_pushes [of E b req psid sn msg okbody w fd bytes] h assms(9-17) r(4)
    by (simp add: handleHttpClientConnection_def gw_readHttpRequest_def run_simps req_def [symmetric]
        gw_writeHttpResponse_def)
      (simp add: req_def run_simps)
  have told: told if "blocks_ok (ln_peer l (length (ln_sent l)) ?s)"
    and "concat (ln_peer l (length (ln_sent l)) ?s) = response_text 200 [] okbody"
  proof -
    have st: "readHttpStatus (ln_peer l (length (ln_sent l)) ?s) = 200"
      using that assms(18) by (intro read_status) (simp_all add: INT_MIN_def INT_MAX_def)
    with notify_sent [OF assms(1-4)] show told by simp
  qed
  from gw told show ?thesis by blast
qed

end
