(* ===== verification/HttpServer.thy ===== *)
theory HttpServer
  imports ThreadPool Config "HOL-Library.Word" "HOL-Library.Multiset"
begin

text \<open>
  \<open>http_server::Server\<close> (backend/common/http_server.hpp and gateway/common/http_server.hpp, which are the
  same code): the accepting thread counts connections with an atomic counter and hands them to the worker
  pool. Threads are the interleaving of the atomic steps they make: an \<open>accept\<close>, one operation on the
  counter, a \<open>submit\<close>, a worker's turn, a \<open>close\<close>. Descriptors are the kernel's: it hands out one that is
  not open.
\<close>

section \<open>The listening socket\<close>

record Options =
  op_port :: "16 word"
  op_listen_backlog :: int
  op_worker_threads :: int
  op_max_concurrent_connections :: int
  op_read_timeout_seconds :: int

datatype listen_event = Listens | SocketFails | BindFails string | ListenFails

text \<open>\<open>createListenSocket\<close>, on the number of open descriptors; a socket that cannot be used is closed.\<close>

definition createListenSocket :: "listen_event \<Rightarrow> (nat, unit) comp" where
  "createListenSocket ev = (case ev of
      SocketFails \<Rightarrow> mthrow (StdException M_socket_failed)
    | BindFails err \<Rightarrow>
        mbind (mmodify Suc) (\<lambda>_. mbind (mmodify (\<lambda>n. n - 1)) (\<lambda>_. mthrow (StdException (M_bind_failed @ err))))
    | ListenFails \<Rightarrow>
        mbind (mmodify Suc) (\<lambda>_. mbind (mmodify (\<lambda>n. n - 1)) (\<lambda>_. mthrow (StdException M_listen_failed)))
    | Listens \<Rightarrow> mmodify Suc)"

datatype epoll_event = EpollWorks | CreateFails string | CtlFails string

text \<open>What \<open>run\<close> does before its loop: the descriptor of the listening socket and that of \<open>epoll\<close>.\<close>

definition run_setup :: "listen_event \<Rightarrow> epoll_event \<Rightarrow> (nat, unit) comp" where
  "run_setup lev eev =
     mbind (createListenSocket lev) (\<lambda>_. case eev of
       CreateFails err \<Rightarrow>
         mbind (mmodify (\<lambda>n. n - 1)) (\<lambda>_. mthrow (StdException (M_epoll_create_failed @ err)))
     | CtlFails err \<Rightarrow>
         mbind (mmodify Suc) (\<lambda>_. mbind (mmodify (\<lambda>n. n - 1)) (\<lambda>_. mbind (mmodify (\<lambda>n. n - 1)) (\<lambda>_.
           mthrow (StdException (M_epoll_ctl_failed @ err)))))
     | EpollWorks \<Rightarrow> mmodify Suc)"

text \<open>\<open>setReadTimeout\<close>: the time-out that is set on a connection, if any.\<close>

definition setReadTimeout :: "Options \<Rightarrow> int option" where
  "setReadTimeout options =
     (if op_read_timeout_seconds options \<le> 0 then None else Some (op_read_timeout_seconds options))"

section \<open>Connections\<close>

text \<open>
  The accepting thread: it waits, has accepted a descriptor, has counted it (with the value it read back),
  refuses it, or has admitted it.
\<close>

datatype acceptor = Waiting | Accepted int | Counted int int | Refused int | Admitted int

text \<open>A worker that runs a connection's task: in the handler, or after \<open>close\<close>.\<close>

datatype stage = Handling | Closed

record server =
  sv_max :: int
  sv_active :: int
  sv_acceptor :: acceptor
  sv_workers :: "int worker_pool"
  sv_running :: "(int \<times> stage) list"
  sv_open :: "int list"

datatype server_event =
    Accept int | CountUp | CheckSlot | RefuseConnection | SubmitTask
  | TakeTask | FinishHandler int | ReleaseSlot int

text \<open>\<open>tryAcquireConnectionSlot\<close>: the count after \<open>fetch_add\<close>, and what it decides.\<close>

definition count_up :: "server \<Rightarrow> int \<times> server" where
  "count_up s = (sv_active s + 1, s\<lparr>sv_active := sv_active s + 1\<rparr>)"

definition releaseConnectionSlot :: "server \<Rightarrow> server" where
  "releaseConnectionSlot s = s\<lparr>sv_active := sv_active s - 1\<rparr>"

definition check_slot :: "int \<Rightarrow> server \<Rightarrow> bool \<times> server" where
  "check_slot current s = (if current > sv_max s then (False, releaseConnectionSlot s) else (True, s))"

definition close_fd :: "int \<Rightarrow> server \<Rightarrow> server" where
  "close_fd fd s = s\<lparr>sv_open := remove1 fd (sv_open s)\<rparr>"

fun server_step :: "server_event \<Rightarrow> server \<Rightarrow> server option" where
  "server_step (Accept fd) s = (case sv_acceptor s of
      Waiting \<Rightarrow> if fd \<in> set (sv_open s) then None
        else Some (s\<lparr>sv_acceptor := Accepted fd, sv_open := fd # sv_open s\<rparr>)
    | _ \<Rightarrow> None)"
| "server_step CountUp s = (case sv_acceptor s of
      Accepted fd \<Rightarrow> (case count_up s of (n, s') \<Rightarrow> Some (s'\<lparr>sv_acceptor := Counted fd n\<rparr>))
    | _ \<Rightarrow> None)"
| "server_step CheckSlot s = (case sv_acceptor s of
      Counted fd n \<Rightarrow>
        (case check_slot n s of (ok, s') \<Rightarrow>
           Some (s'\<lparr>sv_acceptor := (if ok then Admitted fd else Refused fd)\<rparr>))
    | _ \<Rightarrow> None)"
| "server_step RefuseConnection s = (case sv_acceptor s of
      Refused fd \<Rightarrow> Some ((close_fd fd s)\<lparr>sv_acceptor := Waiting\<rparr>)
    | _ \<Rightarrow> None)"
| "server_step SubmitTask s = (case sv_acceptor s of
      Admitted fd \<Rightarrow> Some (s\<lparr>sv_workers := snd (worker_submit fd (sv_workers s)), sv_acceptor := Waiting\<rparr>)
    | _ \<Rightarrow> None)"
| "server_step TakeTask s =
     (if int (length (sv_running s)) < wk_count (sv_workers s)
      then (case wk_tasks (sv_workers s) of
          [] \<Rightarrow> None
        | fd # _ \<Rightarrow> Some (s\<lparr>sv_workers := snd (worker_turn (sv_workers s)), sv_running := (fd, Handling) # sv_running s\<rparr>))
      else None)"
| "server_step (FinishHandler fd) s =
     (if (fd, Handling) \<in> set (sv_running s)
      then Some ((close_fd fd s)\<lparr>sv_running := (fd, Closed) # remove1 (fd, Handling) (sv_running s)\<rparr>)
      else None)"
| "server_step (ReleaseSlot fd) s =
     (if (fd, Closed) \<in> set (sv_running s)
      then Some ((releaseConnectionSlot s)\<lparr>sv_running := remove1 (fd, Closed) (sv_running s)\<rparr>)
      else None)"

text \<open>A server before its first connection, on an initialised pool that is not stopped.\<close>

definition server_init :: "server \<Rightarrow> bool" where
  "server_init s \<longleftrightarrow> 0 < sv_max s \<and> sv_active s = 0 \<and> sv_acceptor s = Waiting \<and> sv_running s = [] \<and>
     sv_open s = [] \<and> wk_tasks (sv_workers s) = [] \<and> wk_initialized (sv_workers s) \<and>
     \<not> wk_stop (sv_workers s) \<and> 4 \<le> wk_count (sv_workers s)"

inductive server_reach :: "server \<Rightarrow> bool" where
  start: "server_init s \<Longrightarrow> server_reach s"
| step: "server_reach s \<Longrightarrow> server_step e s = Some s' \<Longrightarrow> server_reach s'"

section \<open>The invariant\<close>

fun counted :: "acceptor \<Rightarrow> nat" where
  "counted (Counted fd n) = 1"
| "counted (Admitted fd) = 1"
| "counted _ = 0"

fun acceptor_fds :: "acceptor \<Rightarrow> int list" where
  "acceptor_fds Waiting = []"
| "acceptor_fds (Accepted fd) = [fd]"
| "acceptor_fds (Counted fd n) = [fd]"
| "acceptor_fds (Refused fd) = [fd]"
| "acceptor_fds (Admitted fd) = [fd]"

text \<open>While a connection is being counted, the counter can only fall below what the acceptor read.\<close>

fun checked :: "acceptor \<Rightarrow> int \<Rightarrow> int \<Rightarrow> bool" where
  "checked (Counted fd n) active limit \<longleftrightarrow> active \<le> n"
| "checked (Admitted fd) active limit \<longleftrightarrow> active \<le> limit"
| "checked _ active limit \<longleftrightarrow> True"

lemma checked_mono: "checked a active limit \<Longrightarrow> active' \<le> active \<Longrightarrow> checked a active' limit"
  by (cases a) auto

definition handling :: "(int \<times> stage) list \<Rightarrow> int list" where
  "handling rs = map fst (filter (\<lambda>r. snd r = Handling) rs)"

text \<open>
  The counter is the number of connections that have been counted and not yet released; the descriptors
  that are open are those of the connections that wait, are handled or are being accepted.
\<close>

definition server_ok :: "server \<Rightarrow> bool" where
  "server_ok s \<longleftrightarrow>
     sv_active s = int (length (wk_tasks (sv_workers s)) + length (sv_running s) + counted (sv_acceptor s)) \<and>
     checked (sv_acceptor s) (sv_active s) (sv_max s) \<and>
     int (length (wk_tasks (sv_workers s)) + length (sv_running s)) \<le> sv_max s \<and>
     mset (sv_open s) = mset (wk_tasks (sv_workers s)) + mset (handling (sv_running s)) +
       mset (acceptor_fds (sv_acceptor s)) \<and>
     distinct (sv_open s) \<and>
     wk_initialized (sv_workers s) \<and> \<not> wk_stop (sv_workers s) \<and> 4 \<le> wk_count (sv_workers s)"

lemma handling_simps [simp]:
  "handling [] = []"
  "handling ((fd, st) # rs) = (if st = Handling then fd # handling rs else handling rs)"
  by (simp_all add: handling_def)

lemma mset_handling_remove:
  "(fd, st) \<in> set rs \<Longrightarrow>
     mset (handling (remove1 (fd, st) rs)) = mset (handling rs) - (if st = Handling then {#fd#} else {#})"
  by (induction rs) (auto simp: handling_def)

lemma handling_mem: "(fd, Handling) \<in> set rs \<Longrightarrow> fd \<in># mset (handling rs)"
  by (force simp: handling_def)

lemma server_step_ok:
  assumes "server_ok s" and "server_step e s = Some s'"
  shows "server_ok s'"
proof (cases e)
  case (Accept fd)
  with assms show ?thesis
    by (auto simp: server_ok_def split: acceptor.splits if_splits)
next
  case CountUp
  with assms show ?thesis by (auto simp: server_ok_def count_up_def split: acceptor.splits)
next
  case CheckSlot
  with assms show ?thesis
    by (auto simp: server_ok_def check_slot_def releaseConnectionSlot_def split: acceptor.splits if_splits)
next
  case RefuseConnection
  with assms show ?thesis
    by (auto simp: server_ok_def close_fd_def split: acceptor.splits)
next
  case SubmitTask
  with assms show ?thesis
    by (auto simp: server_ok_def worker_submit_def run_simps split: acceptor.splits)
next
  case TakeTask
  with assms show ?thesis
    by (auto simp: server_ok_def worker_turn_def split: if_splits list.splits)
next
  case (FinishHandler fd)
  with assms have m: "(fd, Handling) \<in> set (sv_running s)"
    and s': "s' = (close_fd fd s)\<lparr>sv_running := (fd, Closed) # remove1 (fd, Handling) (sv_running s)\<rparr>"
    by (auto split: if_splits)
  have l: "Suc (length (remove1 (fd, Handling) (sv_running s))) = length (sv_running s)"
    using m length_pos_if_in_set [OF m] by (simp add: length_remove1)
  have h: "mset (handling (sv_running s)) = add_mset fd (mset (handling (remove1 (fd, Handling) (sv_running s))))"
    using mset_handling_remove [OF m] handling_mem [OF m] by simp
  have "mset (remove1 fd (sv_open s)) = mset (sv_open s) - {#fd#}" by simp
  with assms(1) l h show ?thesis
    unfolding server_ok_def s' close_fd_def by auto
next
  case (ReleaseSlot fd)
  with assms have m: "(fd, Closed) \<in> set (sv_running s)"
    and s': "s' = (releaseConnectionSlot s)\<lparr>sv_running := remove1 (fd, Closed) (sv_running s)\<rparr>"
    by (auto split: if_splits)
  have l: "Suc (length (remove1 (fd, Closed) (sv_running s))) = length (sv_running s)"
    using m length_pos_if_in_set [OF m] by (simp add: length_remove1)
  have h: "mset (handling (remove1 (fd, Closed) (sv_running s))) = mset (handling (sv_running s))"
    using mset_handling_remove [OF m] by simp
  from assms(1) l h show ?thesis
    unfolding server_ok_def s' releaseConnectionSlot_def by (auto intro: checked_mono)
qed

lemma server_reach_ok: "server_reach s \<Longrightarrow> server_ok s"
proof (induction rule: server_reach.induct)
  case (start s)
  then show ?case by (simp add: server_init_def server_ok_def)
next
  case (step s e s')
  then show ?case using server_step_ok by blast
qed

lemma run_setup_closes: "run_setup lev eev n = (r, n') \<Longrightarrow> n' = (if isl r then n else n + 2)"
  by (auto simp: run_setup_def createListenSocket_def run_simps split: listen_event.splits epoll_event.splits)

section \<open>Bounds\<close>

lemma length_handling: "length (handling rs) \<le> length rs"
  by (simp add: handling_def)

lemma counted_fds: "counted a \<le> length (acceptor_fds a)" "length (acceptor_fds a) \<le> 1"
  by (cases a; simp)+

text \<open>
  C22: under any interleaving of the accepting thread and the workers, at most max_concurrent_connections
  connections are queued or handled, the counter stays between 0 and that number plus one (a connection
  that is about to be refused), and as many descriptors are open; they are distinct, and every connection
  that is handled has its own.
\<close>

theorem server_bounded:
  assumes "server_reach s"
  shows "int (length (wk_tasks (sv_workers s)) + length (sv_running s)) \<le> sv_max s \<and>
    0 \<le> sv_active s \<and> sv_active s \<le> sv_max s + 1 \<and>
    distinct (sv_open s) \<and> int (length (sv_open s)) \<le> sv_max s + 1 \<and>
    (\<forall>(fd, st)\<in>set (sv_running s). st = Handling \<longrightarrow> fd \<in> set (sv_open s))"
proof -
  have ok: "server_ok s" by (rule server_reach_ok [OF assms])
  have "counted (sv_acceptor s) \<le> 1" using counted_fds [of "sv_acceptor s"] by linarith
  with ok have "0 \<le> sv_active s" "sv_active s \<le> sv_max s + 1" by (auto simp: server_ok_def)
  moreover have "length (sv_open s) = length (wk_tasks (sv_workers s)) + length (handling (sv_running s)) +
      length (acceptor_fds (sv_acceptor s))"
    using ok by (metis server_ok_def size_mset size_union)
  then have "int (length (sv_open s)) \<le> sv_max s + 1"
    using ok length_handling [of "sv_running s"] counted_fds(2) [of "sv_acceptor s"] by (simp add: server_ok_def)
  moreover have "fd \<in> set (sv_open s)" if "(fd, Handling) \<in> set (sv_running s)" for fd
  proof -
    have "fd \<in># mset (sv_open s)" using ok handling_mem [OF that] by (simp add: server_ok_def)
    then show ?thesis by simp
  qed
  ultimately show ?thesis using ok by (auto simp: server_ok_def)
qed

section \<open>The server comes to rest\<close>

fun is_accept :: "server_event \<Rightarrow> bool" where
  "is_accept (Accept fd) = True"
| "is_accept _ = False"

fun server_run :: "server_event list \<Rightarrow> server \<Rightarrow> server option" where
  "server_run [] s = Some s"
| "server_run (e # es) s = (case server_step e s of None \<Rightarrow> None | Some s' \<Rightarrow> server_run es s')"

text \<open>The steps the threads have left to do for the connections there are.\<close>

fun acceptor_work :: "acceptor \<Rightarrow> nat" where
  "acceptor_work Waiting = 0"
| "acceptor_work (Refused fd) = 1"
| "acceptor_work (Admitted fd) = 4"
| "acceptor_work (Counted fd n) = 5"
| "acceptor_work (Accepted fd) = 6"

definition work :: "server \<Rightarrow> nat" where
  "work s = acceptor_work (sv_acceptor s) + 3 * length (wk_tasks (sv_workers s)) + length (sv_running s) +
     length (handling (sv_running s))"

definition idle :: "server \<Rightarrow> bool" where
  "idle s \<longleftrightarrow> sv_acceptor s = Waiting \<and> wk_tasks (sv_workers s) = [] \<and> sv_running s = [] \<and>
     sv_active s = 0 \<and> sv_open s = []"

lemma length_handling_remove:
  "(fd, st) \<in> set rs \<Longrightarrow>
     length (handling (remove1 (fd, st) rs)) + (if st = Handling then 1 else 0) = length (handling rs)"
  by (induction rs) (auto simp: handling_def)

lemma step_work:
  assumes "server_ok s" and "server_step e s = Some s'" and "\<not> is_accept e"
  shows "work s' < work s"
proof (cases e)
  case (FinishHandler fd)
  with assms have m: "(fd, Handling) \<in> set (sv_running s)"
    and s': "s' = (close_fd fd s)\<lparr>sv_running := (fd, Closed) # remove1 (fd, Handling) (sv_running s)\<rparr>"
    by (auto split: if_splits)
  then show ?thesis
    using length_handling_remove [OF m] length_pos_if_in_set [OF m]
    by (simp add: work_def close_fd_def length_remove1)
next
  case (ReleaseSlot fd)
  with assms have m: "(fd, Closed) \<in> set (sv_running s)"
    and s': "s' = (releaseConnectionSlot s)\<lparr>sv_running := remove1 (fd, Closed) (sv_running s)\<rparr>"
    by (auto split: if_splits)
  then show ?thesis
    using length_handling_remove [OF m] length_pos_if_in_set [OF m]
    by (simp add: work_def releaseConnectionSlot_def length_remove1)
qed (use assms in \<open>auto simp: work_def server_ok_def count_up_def check_slot_def releaseConnectionSlot_def close_fd_def
      worker_submit_def worker_turn_def run_simps split: acceptor.splits if_splits list.splits\<close>)

text \<open>As long as there is work, some thread can make a step.\<close>

lemma work_progress:
  assumes ok: "server_ok s" and stuck: "\<And>e. \<not> is_accept e \<Longrightarrow> server_step e s = None"
  shows "idle s"
proof -
  have acc: "sv_acceptor s = Waiting"
    using stuck [of CountUp] stuck [of CheckSlot] stuck [of RefuseConnection] stuck [of SubmitTask]
    by (auto simp: count_up_def check_slot_def split: acceptor.splits if_splits)
  have run: "sv_running s = []"
  proof (cases "sv_running s")
    case Nil
    then show ?thesis by simp
  next
    case (Cons r rs)
    obtain fd st where "r = (fd, st)" by force
    with Cons stuck [of "FinishHandler fd"] stuck [of "ReleaseSlot fd"] show ?thesis
      by (cases st) (auto split: if_splits)
  qed
  have "wk_tasks (sv_workers s) = []"
    using stuck [of TakeTask] run ok by (auto simp: server_ok_def split: list.splits)
  with ok acc run show ?thesis by (simp add: idle_def server_ok_def)
qed

lemma server_run_work:
  "server_run es s = Some s' \<Longrightarrow> server_ok s \<Longrightarrow> \<forall>e\<in>set es. \<not> is_accept e \<Longrightarrow>
     server_ok s' \<and> length es + work s' \<le> work s"
proof (induction es arbitrary: s)
  case Nil
  then show ?case by simp
next
  case (Cons e es)
  then obtain s1 where s1: "server_step e s = Some s1" "server_run es s1 = Some s'"
    by (auto split: option.splits)
  with Cons step_work [OF Cons.prems(2) s1(1)] server_step_ok [OF Cons.prems(2) s1(1)] show ?case by fastforce
qed

text \<open>
  C23: from every reachable state, if no new connection comes, the threads make at most \<open>work s\<close> more steps
  in whatever order they go, and when none of them can go on, every connection has been handled and closed,
  its slot has been given back and the counter is 0.
\<close>

theorem server_comes_to_rest:
  assumes "server_reach s" and "server_run es s = Some s'" and "\<forall>e\<in>set es. \<not> is_accept e"
  shows "length es \<le> work s \<and> ((\<forall>e. is_accept e \<or> server_step e s' = None) \<longrightarrow> idle s')"
  using server_run_work [OF assms(2) server_reach_ok [OF assms(1)] assms(3)] work_progress [of s'] by auto

end
