(* ===== verification/WsServer.thy ===== *)
theory WsServer
  imports WsHelpers HttpWire "HOL-Library.Code_Target_Numeral"
begin

text \<open>
  The WebSocket server of gateway/main.cpp: the accepting loop \<open>runWebSocketServer\<close>, one detached thread
  \<open>handleWebSocketClient\<close> per connection, and the registry they share. Threads are the interleaving of their
  steps; descriptors are the kernel's, which hands out any that is not open.
\<close>

section \<open>The listening socket\<close>

datatype ws_listen = WsListens | WsSocketFails | WsBindFails string | WsListenFails

text \<open>\<open>createListenSocket\<close> of gateway/main.cpp, on the number of open descriptors; it does not close.\<close>

definition ws_createListenSocket :: "ws_listen \<Rightarrow> (nat, unit) comp" where
  "ws_createListenSocket ev = (case ev of
      WsSocketFails \<Rightarrow> mthrow (StdException M_socket_failed)
    | WsBindFails err \<Rightarrow> mbind (mmodify Suc) (\<lambda>_. mthrow (StdException (M_bind_failed @ err)))
    | WsListenFails \<Rightarrow> mbind (mmodify Suc) (\<lambda>_. mthrow (StdException M_listen_failed))
    | WsListens \<Rightarrow> mmodify Suc)"

section \<open>A client\<close>

definition bind_success :: string where
  "bind_success = ''{\"type\":\"BIND_SUCCESS\"}''"

text \<open>
  From the first \<open>read\<close> to the frame that confirms the binding: the session, or \<open>None\<close> where the thread
  closes the connection. The result of sending that frame is ignored.
\<close>

definition ws_client_open :: "lib \<Rightarrow> int \<Rightarrow> string list \<Rightarrow> registry \<Rightarrow> string option \<times> registry" where
  "ws_client_open L client_fd blocks reg = (case read_head 65536 [] blocks of
      None \<Rightarrow> (None, reg)
    | Some (raw, _) \<Rightarrow>
        (case performHandshake L client_fd raw reg of ((ok, payment_session_id), reg1) \<Rightarrow>
           if \<not> ok then (None, reg1)
           else (Some payment_session_id,
                 snd (sendTextFrame client_fd bind_success (ws_bind payment_session_id client_fd reg1)))))"

section \<open>The server\<close>

datatype ws_stage = Spawned | Reading | Bound string | Unbound

record ws_server =
  wv_lib :: lib
  wv_max :: int
  wv_active :: int
  wv_registry :: registry
  wv_open :: "int list"
  wv_threads :: "(nat \<times> int \<times> ws_stage) list"
  wv_next :: nat

datatype ws_event = WsAccept int | WsStart nat | WsHandshake nat "string list" | WsReadEnds nat | WsClose nat

definition set_stage :: "nat \<Rightarrow> ws_stage \<Rightarrow> (nat \<times> int \<times> ws_stage) list \<Rightarrow> (nat \<times> int \<times> ws_stage) list" where
  "set_stage i st ts = map (\<lambda>(j, fd, st'). if j = i then (j, fd, st) else (j, fd, st')) ts"

definition end_thread :: "nat \<Rightarrow> int \<Rightarrow> ws_server \<Rightarrow> ws_server" where
  "end_thread i fd s = s\<lparr>wv_open := remove1 fd (wv_open s), wv_active := wv_active s - 1,
     wv_threads := filter (\<lambda>t. fst t \<noteq> i) (wv_threads s)\<rparr>"

text \<open>
  \<open>WsAccept\<close>: the loop accepts, compares the counter with the limit, and closes the connection or starts a
  thread. \<open>WsStart\<close>: the thread counts itself. \<open>WsHandshake\<close>: \<open>ws_client_open\<close>; \<open>bind\<close> may close the
  descriptor the session had before. \<open>WsReadEnds\<close>: the reading loop ends and \<open>unbind\<close> is called.
  \<open>WsClose\<close>: the thread closes its descriptor number, whatever it stands for by then, and ends.
\<close>

fun ws_step :: "ws_event \<Rightarrow> ws_server \<Rightarrow> ws_server option" where
  "ws_step (WsAccept fd) s =
     (if fd \<in> set (wv_open s) then None
      else if wv_active s \<ge> wv_max s then Some s
      else Some (s\<lparr>wv_open := fd # wv_open s, wv_threads := (wv_next s, fd, Spawned) # wv_threads s,
                  wv_next := Suc (wv_next s)\<rparr>))"
| "ws_step (WsStart i) s = (case map_of (wv_threads s) i of
      Some (fd, Spawned) \<Rightarrow>
        Some (s\<lparr>wv_active := wv_active s + 1, wv_threads := set_stage i Reading (wv_threads s)\<rparr>)
    | _ \<Rightarrow> None)"
| "ws_step (WsHandshake i blocks) s = (case map_of (wv_threads s) i of
      Some (fd, Reading) \<Rightarrow>
        (case ws_client_open (wv_lib s) fd blocks (wv_registry s) of
           (None, reg) \<Rightarrow> Some ((end_thread i fd s)\<lparr>wv_registry := reg\<rparr>)
         | (Some payment_session_id, reg) \<Rightarrow>
             Some (s\<lparr>wv_registry := reg, wv_threads := set_stage i (Bound payment_session_id) (wv_threads s),
                     wv_open := fold remove1 (drop (length (ws_closed (wv_registry s))) (ws_closed reg)) (wv_open s)\<rparr>))
    | _ \<Rightarrow> None)"
| "ws_step (WsReadEnds i) s = (case map_of (wv_threads s) i of
      Some (fd, Bound payment_session_id) \<Rightarrow>
        Some (s\<lparr>wv_registry := ws_unbind fd (wv_registry s), wv_threads := set_stage i Unbound (wv_threads s)\<rparr>)
    | _ \<Rightarrow> None)"
| "ws_step (WsClose i) s = (case map_of (wv_threads s) i of
      Some (fd, Unbound) \<Rightarrow> Some (end_thread i fd s)
    | _ \<Rightarrow> None)"

fun ws_run :: "ws_event list \<Rightarrow> ws_server \<Rightarrow> ws_server option" where
  "ws_run [] s = Some s"
| "ws_run (e # es) s = (case ws_step e s of None \<Rightarrow> None | Some s' \<Rightarrow> ws_run es s')"

definition ws_init :: "lib \<Rightarrow> int \<Rightarrow> ws_server" where
  "ws_init L limit = \<lparr>wv_lib = L, wv_max = limit, wv_active = 0,
     wv_registry = \<lparr>session_to_fd = [], fd_to_session = [], ws_closed = [], ws_output = [], ws_writes = []\<rparr>,
     wv_open = [], wv_threads = [], wv_next = 0\<rparr>"

section \<open>Sessions that are bound once at a time\<close>

text \<open>
  \<open>ws_fresh s e\<close>: a handshake does not bind a session that is bound already. \<open>ws_reach\<close> are the states that
  the server reaches under this condition.
\<close>

fun ws_fresh :: "ws_server \<Rightarrow> ws_event \<Rightarrow> bool" where
  "ws_fresh s (WsHandshake i blocks) = (case map_of (wv_threads s) i of
      Some (fd, Reading) \<Rightarrow>
        (case fst (ws_client_open (wv_lib s) fd blocks (wv_registry s)) of
           None \<Rightarrow> True
         | Some p \<Rightarrow> map_of (session_to_fd (wv_registry s)) p = None)
    | _ \<Rightarrow> True)"
| "ws_fresh s _ = True"

inductive ws_reach :: "ws_server \<Rightarrow> bool" where
  start: "ws_reach (ws_init L limit)"
| step: "ws_reach s \<Longrightarrow> ws_fresh s e \<Longrightarrow> ws_step e s = Some s' \<Longrightarrow> ws_reach s'"

definition reg_same :: "registry \<Rightarrow> registry \<Rightarrow> bool" where
  "reg_same r r' \<longleftrightarrow> session_to_fd r' = session_to_fd r \<and> fd_to_session r' = fd_to_session r \<and> ws_closed r' = ws_closed r"

lemma sendTextFrame_same: "reg_same r (snd (sendTextFrame fd msg r))"
  by (simp add: reg_same_def sendTextFrame_def ws_write_def Let_def split: option.split)

lemma performHandshake_same: "performHandshake L fd raw r = (x, r') \<Longrightarrow> reg_same r r'"
  by (auto simp: reg_same_def performHandshake_def ws_write_def Let_def split: option.splits)

text \<open>What the registry and the closed descriptors are after a handshake.\<close>

lemma ws_client_open_registry:
  assumes "ws_client_open L fd blocks r = (res, r')"
  shows "case res of None \<Rightarrow> reg_same r r'
    | Some p \<Rightarrow> reg_same (ws_bind p fd r) r'"
proof (cases "read_head 65536 [] blocks")
  case None
  with assms show ?thesis by (auto simp: ws_client_open_def reg_same_def)
next
  case (Some ab)
  obtain raw rest where ab: "ab = (raw, rest)" by force
  obtain x r1 where "performHandshake L fd raw r = (x, r1)" by (meson surj_pair)
  moreover obtain ok psid where "x = (ok, psid)" by (meson surj_pair)
  ultimately have h: "performHandshake L fd raw r = ((ok, psid), r1)" by simp
  have same: "reg_same r r1" by (rule performHandshake_same [OF h])
  then have "reg_same (ws_bind psid fd r) (ws_bind psid fd r1)"
    by (auto simp: reg_same_def ws_bind_def Let_def split: option.splits)
  moreover have "reg_same (ws_bind psid fd r1) (snd (sendTextFrame fd bind_success (ws_bind psid fd r1)))"
    by (rule sendTextFrame_same)
  ultimately show ?thesis
    using assms Some ab h same by (auto simp: ws_client_open_def reg_same_def split: if_splits)
qed

definition bound_threads :: "(nat \<times> int \<times> ws_stage) list \<Rightarrow> (string \<times> int) set" where
  "bound_threads ts = {(p, fd) | p fd. \<exists>i. (i, fd, Bound p) \<in> set ts}"

definition ws_server_ok :: "ws_server \<Rightarrow> bool" where
  "ws_server_ok s \<longleftrightarrow>
     distinct (map fst (wv_threads s)) \<and> (\<forall>t\<in>set (wv_threads s). fst t < wv_next s) \<and>
     distinct (map (\<lambda>t. fst (snd t)) (wv_threads s)) \<and>
     set (wv_open s) = (\<lambda>t. fst (snd t)) ` set (wv_threads s) \<and> distinct (wv_open s) \<and>
     wv_active s = int (length (filter (\<lambda>t. snd (snd t) \<noteq> Spawned) (wv_threads s))) \<and>
     (\<forall>p fd. map_of (session_to_fd (wv_registry s)) p = Some fd \<longleftrightarrow> (p, fd) \<in> bound_threads (wv_threads s)) \<and>
     (\<forall>p fd. map_of (fd_to_session (wv_registry s)) fd = Some p \<longleftrightarrow> (p, fd) \<in> bound_threads (wv_threads s))"

text \<open>One thread of a list of threads with distinct numbers.\<close>

lemma thread_split:
  assumes "distinct (map fst ts)" and "map_of ts i = Some (fd, st)"
  obtains xs ys where "ts = xs @ (i, fd, st) # ys" and "i \<notin> fst ` set xs" and "i \<notin> fst ` set ys"
proof -
  from assms(2) have "(i, fd, st) \<in> set ts" by (rule map_of_SomeD)
  then obtain xs ys where "ts = xs @ (i, fd, st) # ys" by (meson split_list)
  with assms(1) show thesis by (intro that) (auto simp: image_iff)
qed

lemma set_stage_split:
  assumes "i \<notin> fst ` set xs" and "i \<notin> fst ` set ys"
  shows "set_stage i st' (xs @ (i, fd, st) # ys) = xs @ (i, fd, st') # ys"
    and "filter (\<lambda>t. fst t \<noteq> i) (xs @ (i, fd, st) # ys) = xs @ ys"
proof -
  have "map (\<lambda>(j, fd, st''). if j = i then (j, fd, st') else (j, fd, st'')) zs = zs" if "i \<notin> fst ` set zs"
    for zs :: "(nat \<times> int \<times> ws_stage) list"
    using that by (induction zs) auto
  with assms show "set_stage i st' (xs @ (i, fd, st) # ys) = xs @ (i, fd, st') # ys"
    by (simp add: set_stage_def)
  have "filter (\<lambda>t. fst t \<noteq> i) zs = zs" if "i \<notin> fst ` set zs" for zs :: "(nat \<times> int \<times> ws_stage) list"
    using that by (induction zs) auto
  with assms show "filter (\<lambda>t. fst t \<noteq> i) (xs @ (i, fd, st) # ys) = xs @ ys" by simp
qed

lemma end_thread_split:
  assumes "wv_threads s = xs @ (i, fd, st) # ys" and "i \<notin> fst ` set xs" and "i \<notin> fst ` set ys"
  shows "end_thread i fd s = s\<lparr>wv_open := remove1 fd (wv_open s), wv_active := wv_active s - 1,
    wv_threads := xs @ ys\<rparr>"
  using set_stage_split(2) [OF assms(2,3)] by (simp add: end_thread_def assms(1) del: filter_append)

lemma bound_threads_simps:
  "bound_threads (xs @ (i, fd, st) # ys) =
     (case st of Bound p \<Rightarrow> insert (p, fd) (bound_threads (xs @ ys)) | _ \<Rightarrow> bound_threads (xs @ ys))"
  by (auto simp: bound_threads_def split: ws_stage.split)

lemma bound_fd: "(p, fd) \<in> bound_threads ts \<Longrightarrow> fd \<in> (\<lambda>t. fst (snd t)) ` set ts"
  by (force simp: bound_threads_def)

lemma free_unbind_maps:
  assumes "map_of (fd_to_session r) fd = Some p" and "map_of (session_to_fd r) p = Some fd"
  shows "map_of (session_to_fd (ws_unbind fd r)) = (map_of (session_to_fd r))(p := None)"
    and "map_of (fd_to_session (ws_unbind fd r)) = (map_of (fd_to_session r))(fd := None)"
  using assms by (simp_all add: ws_unbind_def Let_def AList.delete_conv')

lemma free_bind_maps:
  assumes "map_of (session_to_fd r) p = None"
  shows "map_of (session_to_fd (ws_bind p fd r)) = (map_of (session_to_fd r))(p \<mapsto> fd)"
    and "map_of (fd_to_session (ws_bind p fd r)) = (map_of (fd_to_session r))(fd \<mapsto> p)"
    and "ws_closed (ws_bind p fd r) = ws_closed r"
  using assms by (simp_all add: ws_bind_def AList.update_conv')

lemma ws_step_ok:
  assumes ok: "ws_server_ok s" and fresh: "ws_fresh s e" and run: "ws_step e s = Some s'"
  shows "ws_server_ok s'"
proof (cases e)
  case (WsAccept fd)
  show ?thesis
  proof (cases "wv_active s \<ge> wv_max s")
    case True
    with ok run WsAccept show ?thesis by (simp split: if_splits)
  next
    case False
    with run WsAccept have fd: "fd \<notin> set (wv_open s)"
      and s': "s' = s\<lparr>wv_open := fd # wv_open s, wv_threads := (wv_next s, fd, Spawned) # wv_threads s,
        wv_next := Suc (wv_next s)\<rparr>"
      by (auto split: if_splits)
    have "wv_next s \<notin> fst ` set (wv_threads s)" using ok by (auto simp: ws_server_ok_def)
    moreover have "\<forall>t\<in>set (wv_threads s). fst t < Suc (wv_next s)"
      using ok by (auto simp: ws_server_ok_def less_Suc_eq)
    ultimately show ?thesis
      using ok fd bound_threads_simps [of "[]" "wv_next s" fd Spawned "wv_threads s"]
      unfolding ws_server_ok_def s' by simp
  qed
next
  case (WsStart i)
  with run obtain fd where m: "map_of (wv_threads s) i = Some (fd, Spawned)"
    and s': "s' = s\<lparr>wv_active := wv_active s + 1, wv_threads := set_stage i Reading (wv_threads s)\<rparr>"
    by (auto split: option.splits ws_stage.splits)
  from thread_split [OF _ m] ok obtain xs ys where t: "wv_threads s = xs @ (i, fd, Spawned) # ys"
    and n: "i \<notin> fst ` set xs" "i \<notin> fst ` set ys" by (auto simp: ws_server_ok_def)
  show ?thesis
    using ok unfolding ws_server_ok_def s' t
    by (simp add: set_stage_split [OF n] bound_threads_simps)
next
  case (WsHandshake i blocks)
  with run obtain fd where m: "map_of (wv_threads s) i = Some (fd, Reading)"
    by (auto split: option.splits ws_stage.splits)
  obtain res reg where o': "ws_client_open (wv_lib s) fd blocks (wv_registry s) = (res, reg)" by force
  from thread_split [OF _ m] ok obtain xs ys where t: "wv_threads s = xs @ (i, fd, Reading) # ys"
    and n: "i \<notin> fst ` set xs" "i \<notin> fst ` set ys" by (auto simp: ws_server_ok_def)
  show ?thesis
  proof (cases res)
    case None
    then have "reg_same (wv_registry s) reg" using ws_client_open_registry [OF o'] by simp
    moreover have s': "s' = (end_thread i fd s)\<lparr>wv_registry := reg\<rparr>" using run WsHandshake m o' None by simp
    ultimately show ?thesis
      using ok unfolding ws_server_ok_def s' end_thread_split [OF t n] reg_same_def
      by (auto simp: t bound_threads_simps)
  next
    case (Some p)
    then have reg: "reg_same (ws_bind p fd (wv_registry s)) reg" using ws_client_open_registry [OF o'] by simp
    have none: "map_of (session_to_fd (wv_registry s)) p = None" using fresh WsHandshake m o' Some by simp
    have s': "s' = s\<lparr>wv_registry := reg, wv_threads := set_stage i (Bound p) (wv_threads s)\<rparr>"
      using run WsHandshake m o' Some reg free_bind_maps(3) [OF none] by (auto simp: reg_same_def)
    have nofd: "(q, fd) \<notin> bound_threads (xs @ ys)" for q
      using ok bound_fd [of q fd "xs @ ys"] unfolding ws_server_ok_def t by auto
    have nop: "(p, f) \<notin> bound_threads (xs @ ys)" for f
    proof
      assume "(p, f) \<in> bound_threads (xs @ ys)"
      then have "map_of (session_to_fd (wv_registry s)) p = Some f"
        using ok by (simp add: ws_server_ok_def t bound_threads_simps)
      with none show False by simp
    qed
    show ?thesis
      using ok reg free_bind_maps(1,2) [OF none, of fd] nofd nop
      unfolding ws_server_ok_def s' reg_same_def
      by (auto simp: t set_stage_split [OF n] bound_threads_simps)
  qed
next
  case (WsReadEnds i)
  with run obtain fd p where m: "map_of (wv_threads s) i = Some (fd, Bound p)"
    and s': "s' = s\<lparr>wv_registry := ws_unbind fd (wv_registry s), wv_threads := set_stage i Unbound (wv_threads s)\<rparr>"
    by (auto split: option.splits ws_stage.splits)
  from thread_split [OF _ m] ok obtain xs ys where t: "wv_threads s = xs @ (i, fd, Bound p) # ys"
    and n: "i \<notin> fst ` set xs" "i \<notin> fst ` set ys" by (auto simp: ws_server_ok_def)
  have maps: "map_of (session_to_fd (wv_registry s)) q = Some f \<longleftrightarrow> (q, f) \<in> insert (p, fd) (bound_threads (xs @ ys))"
    "map_of (fd_to_session (wv_registry s)) f = Some q \<longleftrightarrow> (q, f) \<in> insert (p, fd) (bound_threads (xs @ ys))" for q f
    using ok by (simp_all add: ws_server_ok_def t bound_threads_simps)
  have nofd: "(q, fd) \<notin> bound_threads (xs @ ys)" for q
    using ok bound_fd [of q fd "xs @ ys"] unfolding ws_server_ok_def t by auto
  have nop: "(p, f) \<notin> bound_threads (xs @ ys)" for f
    using maps(1) [of p f] maps(1) [of p fd] nofd [of p] by auto
  have u: "map_of (fd_to_session (wv_registry s)) fd = Some p" "map_of (session_to_fd (wv_registry s)) p = Some fd"
    by (simp_all add: maps)
  show ?thesis
    using ok nofd nop maps unfolding ws_server_ok_def s'
    by (simp add: t set_stage_split [OF n] bound_threads_simps free_unbind_maps [OF u])
next
  case (WsClose i)
  with run obtain fd where m: "map_of (wv_threads s) i = Some (fd, Unbound)" and s': "s' = end_thread i fd s"
    by (auto split: option.splits ws_stage.splits)
  from thread_split [OF _ m] ok obtain xs ys where t: "wv_threads s = xs @ (i, fd, Unbound) # ys"
    and n: "i \<notin> fst ` set xs" "i \<notin> fst ` set ys" by (auto simp: ws_server_ok_def)
  show ?thesis
    using ok unfolding ws_server_ok_def s' end_thread_split [OF t n]
    by (auto simp: t bound_threads_simps)
qed

lemma ws_reach_ok: "ws_reach s \<Longrightarrow> ws_server_ok s"
proof (induction rule: ws_reach.induct)
  case (start L limit)
  show ?case by (simp add: ws_server_ok_def ws_init_def bound_threads_def)
next
  case (step s e s')
  then show ?case using ws_step_ok by blast
qed

text \<open>
  C27: as long as no session is bound twice at a time, in every reachable state the threads have distinct
  descriptors, which are exactly the open ones, the counter is the number of threads that have started, and
  a push to a session writes to the open connection of the thread that has bound it, or fails when no
  thread has.
\<close>

theorem ws_push_reaches_thread:
  assumes "ws_reach s"
  shows "distinct (map (\<lambda>t. fst (snd t)) (wv_threads s)) \<and>
    set (wv_open s) = (\<lambda>t. fst (snd t)) ` set (wv_threads s) \<and>
    wv_active s = int (length (filter (\<lambda>t. snd (snd t) \<noteq> Spawned) (wv_threads s))) \<and>
    ((\<exists>i fd. (i, fd, Bound p) \<in> set (wv_threads s) \<and> fd \<in> set (wv_open s) \<and>
        ws_push p msg (wv_registry s) = sendTextFrame fd msg (wv_registry s)) \<or>
     (\<forall>i fd. (i, fd, Bound p) \<notin> set (wv_threads s)) \<and> ws_push p msg (wv_registry s) = (False, wv_registry s))"
proof -
  have ok: "ws_server_ok s" by (rule ws_reach_ok [OF assms])
  have "(\<exists>i fd. (i, fd, Bound p) \<in> set (wv_threads s) \<and> fd \<in> set (wv_open s) \<and>
        ws_push p msg (wv_registry s) = sendTextFrame fd msg (wv_registry s)) \<or>
     (\<forall>i fd. (i, fd, Bound p) \<notin> set (wv_threads s)) \<and> ws_push p msg (wv_registry s) = (False, wv_registry s)"
  proof (cases "map_of (session_to_fd (wv_registry s)) p")
    case None
    with ok have "\<forall>fd. (p, fd) \<notin> bound_threads (wv_threads s)"
      unfolding ws_server_ok_def by (metis option.distinct(1))
    with None show ?thesis by (simp add: bound_threads_def ws_push_def)
  next
    case (Some fd)
    with ok have b: "(p, fd) \<in> bound_threads (wv_threads s)" by (simp add: ws_server_ok_def)
    then have "fd \<in> set (wv_open s)" using bound_fd [OF b] ok by (simp add: ws_server_ok_def)
    with b Some show ?thesis by (auto simp: bound_threads_def ws_push_def)
  qed
  with ok show ?thesis by (simp add: ws_server_ok_def)
qed

section \<open>What can go wrong\<close>

text \<open>The upgrade request of a browser for a session.\<close>

definition ws_request :: "string \<Rightarrow> string" where
  "ws_request psid = ''GET /ws/payment?payment_session_id='' @ psid @ '' HTTP/1.1'' @ crlf @
     ''Sec-WebSocket-Key: dGhl'' @ crlf @ crlf"

lemma ws_client_open_accepts:
  assumes "read_head 65536 [] [raw] = Some (raw, [])" and "handshake_request raw = Some (psid, key)"
    and "ws_writes r = []"
  shows "\<exists>r'. ws_client_open L fd [raw] r = (Some psid, r') \<and> reg_same (ws_bind psid fd r) r' \<and> ws_writes r' = []"
proof -
  obtain r1 where h: "performHandshake L fd raw r = ((True, psid), r1)" "ws_writes r1 = []"
    using assms(2,3) by (auto simp: performHandshake_def ws_write_def)
  let ?r = "snd (sendTextFrame fd bind_success (ws_bind psid fd r1))"
  have run: "ws_client_open L fd [raw] r = (Some psid, ?r)"
    using assms(1) h by (simp add: ws_client_open_def)
  have "ws_writes ?r = []"
    using h(2) by (simp add: sendTextFrame_def ws_write_def ws_bind_def Let_def split: option.split)
  with run ws_client_open_registry [OF run] show ?thesis by auto
qed

lemma ws_request_read:
  "read_head 65536 [] [ws_request ''PS1''] = Some (ws_request ''PS1'', [])"
  "read_head 65536 [] [ws_request ''PS2''] = Some (ws_request ''PS2'', [])"
  "handshake_request (ws_request ''PS1'') = Some (''PS1'', ''dGhl'')"
  "handshake_request (ws_request ''PS2'') = Some (''PS2'', ''dGhl'')"
  by code_simp+

lemma ws_handshake_step:
  assumes "map_of (wv_threads s) i = Some (fd, Reading)" and "ws_writes (wv_registry s) = []"
    and "read_head 65536 [] [raw] = Some (raw, [])" and "handshake_request raw = Some (psid, key)"
  shows "\<exists>reg. ws_step (WsHandshake i [raw]) s = Some (s\<lparr>wv_registry := reg,
      wv_threads := set_stage i (Bound psid) (wv_threads s),
      wv_open := fold remove1 (drop (length (ws_closed (wv_registry s)))
        (ws_closed (ws_bind psid fd (wv_registry s)))) (wv_open s)\<rparr>) \<and>
    reg_same (ws_bind psid fd (wv_registry s)) reg \<and> ws_writes reg = []"
  using ws_client_open_accepts [OF assms(3,4,2), of "wv_lib s" fd] assms(1) by (auto simp: reg_same_def)

text \<open>
  C28: the server can close a stranger's connection. A browser that reconnects its session PS1 makes \<open>bind\<close>
  close the old descriptor number 5; a client of PS2 gets that number; then the old thread of PS1 unbinds and
  closes it. PS2's thread still waits on its connection, which is closed, and a push to PS2 fails.
\<close>

theorem ws_rebind_closes_stranger:
  "\<exists>s. ws_run [WsAccept 5, WsStart 0, WsHandshake 0 [ws_request ''PS1''],
      WsAccept 6, WsStart 1, WsHandshake 1 [ws_request ''PS1''],
      WsAccept 5, WsStart 2, WsHandshake 2 [ws_request ''PS2''], WsReadEnds 0, WsClose 0] (ws_init L 10) = Some s \<and>
    (2, 5, Bound ''PS2'') \<in> set (wv_threads s) \<and> 5 \<notin> set (wv_open s) \<and>
    ws_push ''PS2'' msg (wv_registry s) = (False, wv_registry s)"
proof -
  let ?t = "\<lambda>s ts op r. s\<lparr>wv_registry := r, wv_threads := ts, wv_open := op\<rparr>"
  define s1 where "s1 = (ws_init L 10)\<lparr>wv_open := [5], wv_threads := [(0, 5, Reading)], wv_next := 1, wv_active := 1\<rparr>"
  obtain r1 where r1: "ws_step (WsHandshake 0 [ws_request ''PS1'']) s1 =
      Some (s1\<lparr>wv_registry := r1, wv_threads := [(0, 5, Bound ''PS1'')], wv_open := [5]\<rparr>)"
    "session_to_fd r1 = [(''PS1'', 5)]" "fd_to_session r1 = [(5, ''PS1'')]" "ws_closed r1 = []" "ws_writes r1 = []"
    using ws_handshake_step [of s1 0 5 "ws_request ''PS1''", OF _ _ ws_request_read(1,3)]
    by (auto simp: s1_def ws_init_def reg_same_def ws_bind_def set_stage_def)
  define s2 where "s2 = s1\<lparr>wv_registry := r1, wv_open := [6, 5],
    wv_threads := [(1, 6, Reading), (0, 5, Bound ''PS1'')], wv_next := 2, wv_active := 2\<rparr>"
  obtain r2 where r2: "ws_step (WsHandshake 1 [ws_request ''PS1'']) s2 =
      Some (s2\<lparr>wv_registry := r2, wv_threads := [(1, 6, Bound ''PS1''), (0, 5, Bound ''PS1'')], wv_open := [6]\<rparr>)"
    "session_to_fd r2 = [(''PS1'', 6)]" "fd_to_session r2 = [(5, ''PS1''), (6, ''PS1'')]" "ws_closed r2 = [5]" "ws_writes r2 = []"
    using ws_handshake_step [of s2 1 6 "ws_request ''PS1''", OF _ _ ws_request_read(1,3)] r1(2-5)
    by (auto simp: s2_def reg_same_def ws_bind_def set_stage_def)
  define s3 where "s3 = s2\<lparr>wv_registry := r2, wv_open := [5, 6],
    wv_threads := [(2, 5, Reading), (1, 6, Bound ''PS1''), (0, 5, Bound ''PS1'')], wv_next := 3, wv_active := 3\<rparr>"
  obtain r3 where r3: "ws_step (WsHandshake 2 [ws_request ''PS2'']) s3 =
      Some (s3\<lparr>wv_registry := r3, wv_threads := [(2, 5, Bound ''PS2''), (1, 6, Bound ''PS1''), (0, 5, Bound ''PS1'')],
        wv_open := [5, 6]\<rparr>)"
    "session_to_fd r3 = [(''PS1'', 6), (''PS2'', 5)]" "fd_to_session r3 = [(5, ''PS2''), (6, ''PS1'')]"
    using ws_handshake_step [of s3 2 5 "ws_request ''PS2''", OF _ _ ws_request_read(2,4)] r2(2-5)
    by (auto simp: s3_def reg_same_def ws_bind_def set_stage_def)
  let ?r4 = "ws_unbind 5 r3"
  have r4: "map_of (session_to_fd ?r4) ''PS2'' = None" using r3(2,3) by (simp add: ws_unbind_def Let_def)
  define s4 where "s4 = s3\<lparr>wv_registry := ?r4, wv_open := [6],
    wv_threads := [(2, 5, Bound ''PS2''), (1, 6, Bound ''PS1'')], wv_active := 2\<rparr>"
  have run: "ws_run (WsAccept 5 # WsStart 0 # es) (ws_init L 10) = ws_run es s1"
    "ws_run (WsHandshake 0 [ws_request ''PS1''] # WsAccept 6 # WsStart 1 # es) s1 = ws_run es s2"
    "ws_run (WsHandshake 1 [ws_request ''PS1''] # WsAccept 5 # WsStart 2 # es) s2 = ws_run es s3" for es
    using r1(1) r2(1) by (simp_all add: s1_def s2_def s3_def ws_init_def set_stage_def
        numeral_2_eq_2 numeral_3_eq_3 del: ws_step.simps(3))
  have last: "ws_run [WsHandshake 2 [ws_request ''PS2''], WsReadEnds 0, WsClose 0] s3 = Some s4"
    using r3(1) by (simp add: s4_def s3_def s2_def set_stage_def end_thread_def del: ws_step.simps(3))
  have "ws_run [WsAccept 5, WsStart 0, WsHandshake 0 [ws_request ''PS1''],
      WsAccept 6, WsStart 1, WsHandshake 1 [ws_request ''PS1''],
      WsAccept 5, WsStart 2, WsHandshake 2 [ws_request ''PS2''], WsReadEnds 0, WsClose 0] (ws_init L 10) = Some s4"
    by (simp only: run last)
  moreover have "ws_push ''PS2'' msg ?r4 = (False, ?r4)" using r4 by (simp add: ws_push_def)
  ultimately show ?thesis by (auto simp: s4_def)
qed

text \<open>
  C29: the limit of WebSocket connections can be exceeded: the accepting loop compares a counter that the
  threads increase only when they have started, so any number of connections is accepted before the first
  of them is counted.
\<close>

theorem ws_limit_exceeded:
  "0 < limit \<Longrightarrow> \<exists>es s. ws_run es (ws_init L limit) = Some s \<and> wv_active s = int n"
proof -
  assume limit: "0 < limit"
  let ?ts = "\<lambda>m k. map (\<lambda>i. (i, int i, if i < m then Reading else Spawned)) (rev [0..<k])"
  let ?s = "\<lambda>m k. (ws_init L limit)\<lparr>wv_open := map int (rev [0..<k]), wv_threads := ?ts m k, wv_next := k,
    wv_active := int m\<rparr>"
  have append: "ws_run (es @ fs) s = (case ws_run es s of None \<Rightarrow> None | Some s' \<Rightarrow> ws_run fs s')" for es fs s
    by (induction es arbitrary: s) (auto split: option.split)
  have accept: "ws_run (map (\<lambda>i. WsAccept (int i)) [0..<k]) (ws_init L limit) = Some (?s 0 k)" for k
  proof (induction k)
    case 0
    then show ?case by (simp add: ws_init_def)
  next
    case (Suc k)
    then show ?case using limit by (auto simp: append ws_init_def)
  qed
  have start: "m \<le> n \<Longrightarrow> ws_run (map WsStart [0..<m]) (?s 0 n) = Some (?s m n)" for m
  proof (induction m)
    case 0
    then show ?case by simp
  next
    case (Suc m)
    have "distinct (map fst (?ts m n))" by (simp add: comp_def distinct_rev)
    moreover have "(m, int m, Spawned) \<in> set (?ts m n)" using Suc.prems by auto
    ultimately have "map_of (?ts m n) m = Some (int m, Spawned)" by simp
    moreover have "set_stage m Reading (?ts m n) = ?ts (Suc m) n" by (auto simp: set_stage_def less_Suc_eq)
    ultimately show ?case using Suc by (simp add: append del: map_of_eq_Some_iff)
  qed
  show ?thesis using start [of n] by (intro exI conjI, subst append, subst accept) auto
qed

end
