(* ===== verification/GatewayWitnesses.thy ===== *)
theory GatewayWitnesses
  imports Demo System PushPath HttpServer WsServer
begin

text \<open>
  The properties of the gateway, of the two processes together and of the servers that have hypotheses,
  each applied to a concrete input that satisfies them.
\<close>

section \<open>A gateway and a backend\<close>

definition gw_values_list :: "(string \<times> string) list" where
  "gw_values_list =
     [(''PAYMENT_BACKEND_IP'', ''127.0.0.1''), (''PAYMENT_BACKEND_HTTP_PORT'', ''8081''),
      (''PAYMENT_NGINX_IP'', ''127.0.0.2''), (''PAYMENT_NGINX_PORT'', ''80'')]"

definition order_envelope :: json where
  "order_envelope = envelope (respond 200 (makeOk (order_json (order_view L0 demo_order) (account_view L0 demo_account))))"

abbreviation L1 :: lib where
  "L1 \<equiv> demo_lib ((''{order}'', order_envelope) # demo_table)"

definition gw_env :: genv where
  "gw_env = \<lparr>g_lib = L1, g_values = map_of gw_values_list, g_now = 1100\<rparr>"

definition back_env :: env where
  "back_env = \<lparr>e_lib = L1, e_values = demo_values, e_now = 1100\<rparr>"

text \<open>A browser asks for order O1 and claims to be user U9; its session is that of user U1.\<close>

definition order_request :: string where
  "order_request = ''GET /api/payment/orders/O1 HTTP/1.1'' @ crlf @ ''Cookie: session_id=SIDab'' @ crlf @
     ''X-User-Id: U9'' @ crlf @ crlf"

definition gw_redis_demo :: redis where
  "gw_redis_demo = demo_redis\<lparr>r_store := [''payment:session:SIDab'' \<mapsto> (''U1'', 2000)]\<rparr>"

definition gw_world_demo :: gworld where
  "gw_world_demo = \<lparr>gw_redis = gw_redis_demo,
     gw_registry = \<lparr>session_to_fd = [], fd_to_session = [], ws_closed = [], ws_output = [], ws_writes = []\<rparr>,
     gw_link = \<lparr>ln_open = 0, ln_sent = [], ln_connects = [], ln_writes = [],
       ln_peer = (\<lambda>_ _. [response_text 200 [] ''{order}''])\<rparr>\<rparr>"

definition order_req :: GatewayRequest where
  "order_req = \<lparr>req_method = ''GET'', req_path = ''/api/payment/orders/O1'', req_query = [],
     req_headers = [(''Cookie'', ''session_id=SIDab''), (''X-User-Id'', ''U9'')], req_body = [],
     req_client_ip = ''127.0.0.2''\<rparr>"

definition gw_backend :: GwBackendConfig where
  "gw_backend = \<lparr>gb_ip = ''127.0.0.1'', gb_http_port = 8081\<rparr>"

definition order_sent :: string where
  "order_sent = forward_text gw_backend (toForwardRequest order_req) ''U1''"

definition order_answer :: GatewayResponse where
  "order_answer = \<lparr>gr_http_status = 200, gr_body = ''{order}'', gr_extra_headers = []\<rparr>"

lemma order_req_read: "gw_readHttpRequest ''127.0.0.2'' [order_request] = Inr (Some order_req)"
  by code_simp

lemma gw_backend_read: "gw_paymentBackend (g_values gw_env) = Inr gw_backend"
  by code_simp

lemma order_gateway_run:
  "(case gw_handleRequest gw_env order_req gw_world_demo of (r, w) \<Rightarrow> (r, ln_sent (gw_link w))) =
     (Inr order_answer, [order_sent])"
  by code_simp

lemma order_backend_run:
  "fst (handleClientConnection back_env [order_sent] (demo_world [])) = Inr (Some (response_text 200 [] ''{order}''))"
  by code_simp

lemma order_login: "login_view (r_store (gw_redis gw_world_demo)) (g_now gw_env) (c_str (session_of order_req)) = Some ''U1''"
  by code_simp

lemma order_auth: "forwarded_as gw_env gw_world_demo order_req uid \<longleftrightarrow> uid = ''U1''"
proof -
  have "requiresAuth (req_method order_req) (req_path order_req)" "session_of order_req \<noteq> []" by code_simp+
  with order_login show ?thesis by (auto simp: forwarded_as_def)
qed

lemma order_gateway:
  obtains g' where "gw_handleRequest gw_env order_req gw_world_demo = (Inr order_answer, g')"
    and "ln_sent (gw_link g') = ln_sent (gw_link gw_world_demo) @ [order_sent]"
proof -
  obtain r g' where "gw_handleRequest gw_env order_req gw_world_demo = (r, g')" by force
  with order_gateway_run that show thesis by (simp add: gw_world_demo_def)
qed

theorem backend_sees_session_user_witness:
  "\<exists>r. readHttpRequest [order_sent] = Inr (Some r) \<and> headerValue order_req ''X-User-Id'' = ''U9'' \<and>
     headerValue r ''X-User-Id'' = ''U1'' \<and> allowed_origin (g_values gw_env) ''127.0.0.2''"
proof -
  obtain g' where run: "gw_handleRequest gw_env order_req gw_world_demo = (Inr order_answer, g')"
    "ln_sent (gw_link g') = ln_sent (gw_link gw_world_demo) @ [order_sent]" by (rule order_gateway)
  have "(case readHttpRequest [order_sent] of Inr (Some r) \<Rightarrow> True | _ \<Rightarrow> False)" by code_simp
  then obtain r where r: "readHttpRequest [order_sent] = Inr (Some r)" by (auto split: sum.splits option.splits)
  have clean: "clean_value ''U1''" "clean_value (gb_ip gw_backend)" by code_simp+
  have as: "forwarded_as gw_env gw_world_demo order_req uid \<Longrightarrow> clean_value uid" for uid
    using order_auth clean(1) by simp
  have be: "gw_paymentBackend (g_values gw_env) = Inr b \<Longrightarrow> clean_value (gb_ip b)" for b
    using gw_backend_read clean(2) by simp
  have "headerValue order_req ''X-User-Id'' = ''U9''" by code_simp
  with backend_sees_session_user [OF order_req_read run _ r as be] r order_auth show ?thesis
    by (simp add: order_req_def)
qed

section \<open>There and back\<close>

definition plain :: "HttpResponse \<Rightarrow> bool" where
  "plain r \<longleftrightarrow> http_status r \<in> {200, 400, 401, 403, 404, 409, 500} \<and> extra_headers r = []"

lemma plain_reply: "st \<in> {200, 400, 401, 403, 404, 409, 500} \<Longrightarrow> returns plain (reply st env)"
  unfolding reply_def plain_def respond_def by (rule returns_mret) simp

lemma handleGetOrder_plain: "returns plain (handleGetOrder E req)"
  unfolding handleGetOrder_def Let_def
  by (intro returns_if returns_option returns_then plain_reply) simp_all

lemma order_plain:
  assumes "req_method r = ''GET''" and "req_path r = ''/api/payment/orders/O1''"
    and "handleRequest E r v = (Inr resp, v')"
  shows "plain resp"
proof -
  have "dispatch E r = handleGetOrder E r" using assms(1,2) by (simp add: dispatch_def is_prefix_def)
  then have "handleRequest E r = mcatch (handleGetOrder E r) (\<lambda>_. reply 500 (makeErr 50001 M_server_error))"
    by (simp add: handleRequest_def)
  then have "returns plain (handleRequest E r)"
    by (simp add: returns_mcatch [OF handleGetOrder_plain plain_reply])
  from returnsD [OF this assms(3)] show ?thesis .
qed

lemma demo_bodies: "json_dump L1 j = Inr body \<Longrightarrow> body \<in> {''{order}'', ''h'', ''b'', ''{pay}'', ''{bad}''}"
  by (auto simp: demo_lib_def demo_dump_def demo_table_def split: if_splits)

lemma plain_fits: "plain resp \<Longrightarrow> fits_gateway L1 resp"
proof -
  assume p: "plain resp"
  have all: "list_all (\<lambda>st. list_all (\<lambda>b. head_length (answer_line st) (response_headers [] b) + 4100 \<le> 4194304 \<and>
      length b < 2 ^ 64) [''{order}'', ''h'', ''b'', ''{pay}'', ''{bad}'']) [200, 400, 401, 403, 404, 409, 500]"
    by code_simp
  have "head_length (answer_line (http_status resp)) (response_headers [] body) + 4100 \<le> 4194304 \<and>
      length body < 2 ^ 64" if "json_dump L1 (envelope resp) = Inr body" for body
  proof -
    have "body \<in> set [''{order}'', ''h'', ''b'', ''{pay}'', ''{bad}'']" using demo_bodies [OF that] by simp
    moreover have "http_status resp \<in> set [200, 400, 401, 403, 404, 409, 500]" using p by (simp add: plain_def)
    ultimately show ?thesis using all unfolding list_all_iff by blast
  qed
  with p show ?thesis by (simp add: fits_gateway_def plain_def)
qed

lemma order_fits: "answers_fit back_env order_req v"
proof -
  have "fits_gateway L1 resp"
    if "seen_request (toForwardRequest order_req) uid r" and "handleRequest back_env r v = (Inr resp, v')" for uid r resp v'
  proof -
    have "req_method r = ''GET''" "req_path r = ''/api/payment/orders/O1''"
      using that(1) by (simp_all add: seen_request_def toForwardRequest_def order_req_def Let_def)
    from plain_fits [OF order_plain [OF this that(2)]] show ?thesis .
  qed
  then show ?thesis by (auto simp: answers_fit_def back_env_def)
qed

lemma order_round_trip:
  obtains g' p v' where
    "round_trip gw_env back_env order_req gw_world_demo (demo_world []) (Inr order_answer) g' p v'"
proof -
  obtain g' where run: "gw_handleRequest gw_env order_req gw_world_demo = (Inr order_answer, g')"
    "ln_sent (gw_link g') = ln_sent (gw_link gw_world_demo) @ [order_sent]" by (rule order_gateway)
  obtain x v' where "handleClientConnection back_env [order_sent] (demo_world []) = (x, v')" by force
  with order_backend_run
  have b: "handleClientConnection back_env [order_sent] (demo_world []) = (Inr (Some (response_text 200 [] ''{order}'')), v')"
    by simp
  have ok: "clean_value ''U1''" "clean_value (gb_ip gw_backend)" "blocks_ok [order_sent]"
    "fits_backend gw_backend (toForwardRequest order_req) ''U1''" "blocks_ok [response_text 200 [] ''{order}'']"
    by code_simp+
  have peer: "ln_peer (gw_link gw_world_demo) n s = [response_text 200 [] ''{order}'']" for n s
    by (simp add: gw_world_demo_def)
  have "gw_paymentBackend (g_values gw_env) = Inr gw_backend \<and> forwarded_as gw_env gw_world_demo order_req ''U1'' \<and>
      order_sent = forward_text gw_backend (toForwardRequest order_req) ''U1'' \<and>
      ln_sent (gw_link g') = ln_sent (gw_link gw_world_demo) @ [order_sent] \<and>
      clean_value ''U1'' \<and> clean_value (gb_ip gw_backend) \<and>
      fits_backend gw_backend (toForwardRequest order_req) ''U1'' \<and>
      blocks_ok [order_sent] \<and> concat [order_sent] = order_sent \<and>
      handleClientConnection back_env [order_sent] (demo_world []) = (Inr (Some (response_text 200 [] ''{order}'')), v')"
    using run(2) b ok gw_backend_read by (simp only: order_auth order_sent_def concat.simps append_Nil2 simp_thms)
  then have "round_trip gw_env back_env order_req gw_world_demo (demo_world []) (Inr order_answer) g'
      (response_text 200 [] ''{order}'') v'"
    using run(1) ok(5) unfolding round_trip_def peer by (metis concat.simps append_Nil2)
  with that show thesis .
qed

theorem gateway_is_transparent_witness:
  "\<exists>r resp v'. handleRequest back_env r (demo_world []) = (Inr resp, v') \<and> http_status resp = 200 \<and>
     headerValue r ''X-User-Id'' = ''U1''"
proof -
  obtain g' p v' where rt: "round_trip gw_env back_env order_req gw_world_demo (demo_world []) (Inr order_answer) g' p v'"
    by (rule order_round_trip)
  from gateway_is_transparent [OF order_req_read rt order_fits] order_auth show ?thesis
    by (auto simp: order_answer_def)
qed

theorem order_shown_to_its_buyer_witness:
  "o_buyer_id demo_order = ''U1'' \<and> col_eq L1 (o_order_sn demo_order) ''O1''"
proof -
  obtain g' p v' where rt: "round_trip gw_env back_env order_req gw_world_demo (demo_world []) (Inr order_answer) g' p v'"
    by (rule order_round_trip)
  have get: "req_method order_req = ''GET''" "is_prefix ''/api/payment/orders/'' (req_path order_req)"
    "gr_http_status order_answer = 200" "extractOrderSn (req_path order_req) = ''O1''" by code_simp+
  have db: "db_ok (e_lib back_env) (m_db (w_mysql (demo_world [])))" by code_simp
  have "m_db (w_mysql (demo_world [])) = demo_db" by (simp add: demo_world_def demo_mysql_def)
  with order_shown_to_its_buyer [OF order_req_read get(1,2) rt get(3) order_fits db] order_login get(4)
  show ?thesis by (simp add: demo_db_def back_env_def)
qed

section \<open>Login\<close>

abbreviation L2 :: lib where
  "L2 \<equiv> demo_lib [(''{login}'', JObject [(''password'', JString ''pw''), (''username'', JString ''ann'')])]"

definition login_env :: env where
  "login_env = \<lparr>e_lib = L2, e_values = demo_values, e_now = 1100\<rparr>"

definition login_req :: HttpRequest where
  "login_req = \<lparr>req_method = ''POST'', req_path = ''/api/auth/login'', req_query = [], req_headers = [],
     req_body = ''{login}''\<rparr>"

lemma login_run:
  "(case fst (handleLogin login_env login_req (demo_world [])) of Inr resp \<Rightarrow> http_status resp | Inl _ \<Rightarrow> 0) = 200"
  by code_simp


section \<open>The payment result\<close>

definition pay_gateway :: PaymentGatewayConfig where
  "pay_gateway = \<lparr>gw_public_host = ''127.0.0.1'', gw_websocket_port = 8083, gw_http_port = 8082\<rparr>"

definition notify_values :: "values" where
  "notify_values = map_of [(''PAYMENT_GATEWAY_IP'', ''127.0.0.1''),
     (''PAYMENT_GATEWAY_WEBSOCKET_PORT'', ''8083''), (''PAYMENT_GATEWAY_HTTP_PORT'', ''8082'')]"

abbreviation L3 :: lib where
  "L3 \<equiv> demo_lib [(''{n}'', notify_json ''PS1'' ''O1''), (''{ok}'', makeOk (JObject []))]"

definition push_env :: genv where
  "push_env = \<lparr>g_lib = L3, g_values = map_of gw_values_list, g_now = 1100\<rparr>"

definition push_link :: link where
  "push_link = \<lparr>ln_open = 0, ln_sent = [], ln_connects = [], ln_writes = [],
     ln_peer = (\<lambda>_ _. [response_text 200 [] ''{ok}''])\<rparr>"

definition push_world :: gworld where
  "push_world = \<lparr>gw_redis = gw_redis_demo,
     gw_registry = \<lparr>session_to_fd = [(''PS1'', 7)], fd_to_session = [(7, ''PS1'')], ws_closed = [], ws_output = [],
       ws_writes = []\<rparr>,
     gw_link = push_link\<rparr>"

text \<open>What the gateway writes to the WebSocket.\<close>

lemma push_facts:
  "paymentGateway notify_values = Inr pay_gateway" "json_dump L3 (notify_json ''PS1'' ''O1'') = Inr ''{n}''"
  "clean_value (gw_public_host pay_gateway @ '':'' @ to_string (gw_http_port pay_gateway))"
  "notify_fits pay_gateway ''{n}''" "blocks_ok [notify_text pay_gateway ''{n}'']"
  "gw_paymentBackend (g_values push_env) = Inr gw_backend" "json_parse L3 ''{n}'' = Inr (notify_json ''PS1'' ''O1'')"
  "json_dump L3 (makeOk (JObject [])) = Inr ''{ok}''" "textFrame ''{n}'' = Some [CHR 0x81, CHR 0x03, CHR ''{'', CHR ''n'', CHR ''}'']"
  "head_length (answer_line 200) (response_headers [] ''{ok}'') + 4100 \<le> 65536"
  by code_simp+

lemma push_run:
  "(case notifyPaymentResult L3 notify_values ''PS1'' ''O1'' push_link of (r, l) \<Rightarrow> (r, ln_sent l)) =
     (Inr True, [notify_text pay_gateway ''{n}''])"
  by code_simp

theorem payment_result_reaches_browser_witness:
  "\<exists>p w'. handleHttpClientConnection push_env ''127.0.0.1'' [notify_text pay_gateway ''{n}''] push_world = (Inr (Some p), w') \<and>
     ws_output (gw_registry w') = [(7, [CHR 0x81, CHR 0x03, CHR ''{'', CHR ''n'', CHR ''}''])]"
proof -
  obtain x l' where "notifyPaymentResult L3 notify_values ''PS1'' ''O1'' push_link = (x, l')" by force
  with push_run have run: "notifyPaymentResult L3 notify_values ''PS1'' ''O1'' push_link = (Inr True, l')"
    "ln_sent l' = ln_sent push_link @ [notify_text pay_gateway ''{n}'']" by (simp_all add: push_link_def)
  have lib: "g_lib push_env = L3" by (simp add: push_env_def)
  have reg: "map_of (session_to_fd (gw_registry push_world)) ''PS1'' = Some 7" "ws_writes (gw_registry push_world) = []"
    by (simp_all add: push_world_def)
  have docs: "json_fields_documented (g_lib push_env)" unfolding lib by (rule demo_documented(3))
  from payment_result_reaches_browser [OF run(1) push_facts(1,2) run(2) push_facts(3-5) _ push_facts(6)
      push_facts(7) [folded lib] _ docs push_facts(2) [folded lib] push_facts(8) [folded lib] reg(1) push_facts(9)
      reg(2) push_facts(10)]
  show ?thesis by (auto simp: gw_backend_def push_world_def)
qed

section \<open>The servers\<close>

definition idle_server :: server where
  "idle_server = \<lparr>sv_max = 2, sv_active = 0, sv_acceptor = Waiting,
     sv_workers = \<lparr>wk_count = 4, wk_initialized = True, wk_stop = False, wk_tasks = [], wk_started = []\<rparr>,
     sv_running = [], sv_open = []\<rparr>"

definition busy_server :: server where
  "busy_server = \<lparr>sv_max = 2, sv_active = 1, sv_acceptor = Waiting,
     sv_workers = \<lparr>wk_count = 4, wk_initialized = True, wk_stop = False, wk_tasks = [], wk_started = [7]\<rparr>,
     sv_running = [(7, Handling)], sv_open = [7]\<rparr>"

lemma server_reach_run: "server_run es s = Some s' \<Longrightarrow> server_reach s \<Longrightarrow> server_reach s'"
  by (induction es arbitrary: s) (auto split: option.splits intro: server_reach.step)

lemma busy_server_reach: "server_reach busy_server"
proof (rule server_reach_run)
  show "server_run [Accept 7, CountUp, CheckSlot, SubmitTask, TakeTask] idle_server = Some busy_server"
    by (simp add: idle_server_def busy_server_def count_up_def check_slot_def worker_submit_def worker_turn_def run_simps)
  show "server_reach idle_server" by (rule server_reach.start) (simp add: idle_server_def server_init_def)
qed

theorem server_bounded_witness: "7 \<in> set (sv_open busy_server) \<and> sv_active busy_server \<le> 3"
  using server_bounded [OF busy_server_reach] by (simp add: busy_server_def)

theorem server_comes_to_rest_witness:
  "\<exists>s'. server_run [FinishHandler 7, ReleaseSlot 7] busy_server = Some s' \<and>
     ((\<forall>e. is_accept e \<or> server_step e s' = None) \<longrightarrow> idle s')"
proof -
  obtain s' where "server_run [FinishHandler 7, ReleaseSlot 7] busy_server = Some s'"
    by (simp add: busy_server_def close_fd_def releaseConnectionSlot_def)
  with server_comes_to_rest [OF busy_server_reach this] show ?thesis by auto
qed

text \<open>A connection that has been bound to PS1.\<close>

lemma ws_reach_run: "ws_run es s = Some s' \<Longrightarrow> ws_reach s \<Longrightarrow> \<forall>e\<in>set es. \<forall>s. ws_fresh s e \<Longrightarrow> ws_reach s'"
  by (induction es arbitrary: s) (auto split: option.splits intro: ws_reach.step)

theorem ws_push_reaches_thread_witness:
  "\<exists>s fd. ws_reach s \<and> fd \<in> set (wv_open s) \<and>
     ws_push ''PS1'' ''hi'' (wv_registry s) = sendTextFrame fd ''hi'' (wv_registry s)"
proof -
  let ?s = "(ws_init L0 10)\<lparr>wv_open := [5], wv_threads := [(0, 5, Reading)], wv_next := 1, wv_active := 1\<rparr>"
  have "ws_run [WsAccept 5, WsStart 0] (ws_init L0 10) = Some ?s" by (simp add: ws_init_def set_stage_def)
  then have s: "ws_reach ?s" by (rule ws_reach_run) (auto intro: ws_reach.start)
  obtain reg where h: "ws_step (WsHandshake 0 [ws_request ''PS1'']) ?s =
      Some (?s\<lparr>wv_registry := reg, wv_threads := [(0, 5, Bound ''PS1'')], wv_open := [5]\<rparr>)"
    using ws_handshake_step [of ?s 0 5 "ws_request ''PS1''", OF _ _ ws_request_read(1,3)]
    by (auto simp: ws_init_def reg_same_def ws_bind_def set_stage_def)
  have "ws_fresh ?s (WsHandshake 0 [ws_request ''PS1''])" by (simp add: ws_init_def split: option.split)
  from ws_reach.step [OF s this h] ws_push_reaches_thread [OF ws_reach.step [OF s this h], of "''PS1''" "''hi''"]
  show ?thesis by auto
qed

theorem ws_limit_exceeded_witness:
  "\<exists>es s. ws_run es (ws_init L0 1) = Some s \<and> wv_active s = 1000"
  using ws_limit_exceeded [of 1 L0 1000] by simp

end
