(* ===== verification/PoolInit.thy ===== *)
theory PoolInit
  imports MySqlProps RedisPool SessionStore
begin

text \<open>
  The filling of the three connection pools at start-up, which is the same loop in
  backend/common/mysql_pool.hpp, backend/common/redis_pool.hpp and gateway/common/session_store.hpp. What
  the loop relies on is the locale \<open>pool_filling\<close>; it is interpreted with the three pools.
\<close>

section \<open>Initialised pools\<close>

text \<open>A pool that is ready: \<open>n\<close> idle connections, none borrowed.\<close>

definition pool_ready :: "nat \<Rightarrow> pool \<Rightarrow> bool" where
  "pool_ready n p \<longleftrightarrow> pl_initialized p \<and> \<not> pl_shutting_down p \<and> length (pl_idle p) = n \<and> borrowed p = {} \<and> pool_ok p"

text \<open>A pool nobody has used yet.\<close>

definition pool_fresh :: "pool \<Rightarrow> bool" where
  "pool_fresh p \<longleftrightarrow> \<not> pl_initialized p \<and> pl_idle p = [] \<and> pl_open p = []"

lemma fresh_ok: "pool_fresh p \<Longrightarrow> pool_ok (p\<lparr>pl_shutting_down := False\<rparr>) \<and> borrowed (p\<lparr>pl_shutting_down := False\<rparr>) = {}"
  by (simp add: pool_fresh_def pool_ok_def borrowed_def)

lemma ready_flag: "pool_ok p \<Longrightarrow> pool_ok (p\<lparr>pl_initialized := b\<rparr>)" "borrowed (p\<lparr>pl_initialized := b\<rparr>) = borrowed p"
  by (simp_all add: pool_ok_def borrowed_def)

section \<open>The loop\<close>

text \<open>\<open>create\<close> opens a fresh connection, \<open>put\<close> appends it to the queue, \<open>fill n\<close> does both \<open>n\<close> times.\<close>

locale pool_filling =
  fixes create :: "('w, nat) comp"
    and put :: "nat \<Rightarrow> ('w, unit) comp"
    and fill :: "nat \<Rightarrow> ('w, unit) comp"
    and pl :: "'w \<Rightarrow> pool"
  assumes create_opens: "create w = (Inr c, w') \<Longrightarrow> c = pl_next (pl w) \<and> pl w' = open_conn (pl w)"
    and put_pushes: "put c w = (Inr u, w') \<Longrightarrow> pl w' = push_conn c (pl w)"
    and fill_0: "fill 0 = mret ()"
    and fill_Suc: "fill (Suc n) = mbind create (\<lambda>c. mbind (put c) (\<lambda>_. fill n))"
begin

lemma filled:
  "fill n w = (Inr u, w') \<Longrightarrow> pool_ok (pl w) \<Longrightarrow>
     pool_ok (pl w') \<and> borrowed (pl w') = borrowed (pl w) \<and>
     length (pl_idle (pl w')) = length (pl_idle (pl w)) + n \<and>
     pl_initialized (pl w') = pl_initialized (pl w) \<and> pl_shutting_down (pl w') = pl_shutting_down (pl w)"
proof (induction n arbitrary: w)
  case 0
  then show ?case by (simp add: fill_0 run_iff)
next
  case (Suc n)
  then obtain c w1 w2 v where c: "create w = (Inr c, w1)" and p: "put c w1 = (Inr v, w2)"
    and f: "fill n w2 = (Inr u, w')"
    by (auto simp: fill_Suc run_iff)
  from create_opens [OF c] put_pushes [OF p]
  have w2: "pl w2 = push_conn (pl_next (pl w)) (open_conn (pl w))" by simp
  note opened = open_conn_ok [OF Suc.prems(2)] open_conn_borrowed [OF Suc.prems(2)] next_fresh [OF Suc.prems(2)]
  have "pool_ok (pl w2)" unfolding w2 using opened by (intro push_conn_ok) simp_all
  moreover have "borrowed (pl w2) = borrowed (pl w)" unfolding w2 push_conn_borrowed using opened by simp
  moreover have "length (pl_idle (pl w2)) = Suc (length (pl_idle (pl w)))"
    "pl_initialized (pl w2) = pl_initialized (pl w)" "pl_shutting_down (pl w2) = pl_shutting_down (pl w)"
    by (simp_all add: w2 push_conn_def open_conn_def)
  ultimately show ?case using Suc.IH [OF f] by simp
qed

lemma filled_ready:
  assumes "fill n w = (Inr u, w')" and "pl w = p\<lparr>pl_shutting_down := False\<rparr>" and "pool_fresh p"
  shows "pool_ready n ((pl w')\<lparr>pl_initialized := True\<rparr>)"
  using filled [OF assms(1)] fresh_ok [OF assms(3)] assms(2,3)
  by (simp add: pool_ready_def pool_fresh_def ready_flag)

end

interpretation my_filling: pool_filling my_createConnection "\<lambda>c. on_pool (push_conn c)" my_fill m_pool
proof unfold_locales
  fix w c w' assume "my_createConnection w = (Inr c, w')"
  then show "c = pl_next (m_pool w) \<and> m_pool w' = open_conn (m_pool w)"
    by (cases rule: createConnection_cases [of w]) auto
qed (auto simp: run_simps)

interpretation rd_filling: pool_filling rd_createConnection "\<lambda>c. on_rpool (push_conn c)" rd_fill r_pool
proof unfold_locales
  fix w c w' assume "rd_createConnection w = (Inr c, w')"
  from rd_create_pool [OF this] show "c = pl_next (r_pool w) \<and> r_pool w' = open_conn (r_pool w)" by simp
qed (auto simp: run_simps)

interpretation ss_filling: pool_filling ss_createConnection "\<lambda>c. on_rpool (push_conn c)" ss_fill r_pool
proof unfold_locales
  fix w c w' assume "ss_createConnection w = (Inr c, w')"
  from ss_create_pool [OF this] show "c = pl_next (r_pool w) \<and> r_pool w' = open_conn (r_pool w)" by simp
qed (auto simp: run_simps)

section \<open>The initialisation of the pools\<close>

lemma my_fill_size: "my_fill n w = (Inr u, w') \<Longrightarrow> m_pool_size w' = m_pool_size w"
proof (induction n arbitrary: w)
  case 0
  then show ?case by (simp add: run_iff)
next
  case (Suc n)
  then obtain c w1 where c: "my_createConnection w = (Inr c, w1)"
    and r: "my_fill n (w1\<lparr>m_pool := push_conn c (m_pool w1)\<rparr>) = (Inr u, w')"
    by (auto simp: mbind_Inr_iff on_pool_run)
  have "m_pool_size w1 = m_pool_size w" using c by (cases rule: createConnection_cases [of w]) auto
  with Suc.IH [OF r] show ?case by simp
qed

lemma my_init_ready:
  assumes "my_initFromConfig v w = (Inr u, w')" and "pool_fresh (m_pool w)"
  obtains cfg where "mysql_cfg v = Inr cfg" and "pool_ready (nat (my_pool_size cfg)) (m_pool w')"
    and "m_pool_size w' = my_pool_size cfg"
proof -
  from assms obtain cfg where cfg: "mysql_cfg v = Inr cfg" and i: "my_init cfg w = (Inr u, w')"
    by (auto simp: my_initFromConfig_def run_iff)
  let ?w1 = "w\<lparr>m_pool_size := my_pool_size cfg, m_pool := (m_pool w)\<lparr>pl_shutting_down := False\<rparr>\<rparr>"
  have "my_init cfg w = mbind (my_fill (nat (my_pool_size cfg))) (\<lambda>_. on_pool (\<lambda>p. p\<lparr>pl_initialized := True\<rparr>)) ?w1"
    using assms(2) by (simp add: my_init_def run_simps pool_fresh_def)
  with i obtain x w1 where f: "my_fill (nat (my_pool_size cfg)) ?w1 = (Inr x, w1)"
    and w': "w' = w1\<lparr>m_pool := (m_pool w1)\<lparr>pl_initialized := True\<rparr>\<rparr>"
    by (auto simp: mbind_Inr_iff on_pool_run)
  have "pool_ready (nat (my_pool_size cfg)) (m_pool w')"
    using my_filling.filled_ready [OF f _ assms(2)] by (simp add: w')
  with that [OF cfg] my_fill_size [OF f] show thesis by (simp add: w')
qed

lemma rd_init_ready:
  assumes "rd_initFromConfig v w = (Inr u, w')" and "pool_fresh (r_pool w)"
  obtains cfg where "redis_cfg v = Inr cfg" and "pool_ready (nat (rd_pool_size cfg)) (r_pool w')"
proof -
  from assms obtain cfg where cfg: "redis_cfg v = Inr cfg" and i: "rd_init cfg w = (Inr u, w')"
    by (auto simp: rd_initFromConfig_def run_iff)
  let ?w1 = "w\<lparr>r_cfg := cfg, r_pool := (r_pool w)\<lparr>pl_shutting_down := False\<rparr>\<rparr>"
  have "rd_init cfg w = mbind (rd_fill (nat (rd_pool_size cfg))) (\<lambda>_. on_rpool (\<lambda>p. p\<lparr>pl_initialized := True\<rparr>)) ?w1"
    using assms(2) by (simp add: rd_init_def run_simps pool_fresh_def)
  with i obtain x w1 where f: "rd_fill (nat (rd_pool_size cfg)) ?w1 = (Inr x, w1)"
    and w': "w' = w1\<lparr>r_pool := (r_pool w1)\<lparr>pl_initialized := True\<rparr>\<rparr>"
    by (auto simp: mbind_Inr_iff on_rpool_run)
  have "pool_ready (nat (rd_pool_size cfg)) (r_pool w')"
    using rd_filling.filled_ready [OF f _ assms(2)] by (simp add: w')
  with cfg show thesis by (rule that)
qed

lemma ss_init_ready:
  assumes "ss_initFromConfig v w = (Inr u, w')" and "pool_fresh (r_pool w)"
  obtains cfg where "gw_redis_cfg v = Inr cfg" and "pool_ready (nat (rd_pool_size cfg)) (r_pool w')"
proof -
  from assms obtain cfg where cfg: "gw_redis_cfg v = Inr cfg"
    by (cases "gw_redis_cfg v") (auto simp: ss_initFromConfig_def run_simps pool_fresh_def)
  let ?w1 = "w\<lparr>r_cfg := cfg, r_pool := (r_pool w)\<lparr>pl_shutting_down := False\<rparr>\<rparr>"
  have "ss_initFromConfig v w = mbind (ss_fill (nat (rd_pool_size cfg))) (\<lambda>_. on_rpool (\<lambda>p. p\<lparr>pl_initialized := True\<rparr>)) ?w1"
    using assms(2) cfg by (simp add: ss_initFromConfig_def run_simps pool_fresh_def)
  with assms(1) obtain x w1 where f: "ss_fill (nat (rd_pool_size cfg)) ?w1 = (Inr x, w1)"
    and w': "w' = w1\<lparr>r_pool := (r_pool w1)\<lparr>pl_initialized := True\<rparr>\<rparr>"
    by (auto simp: mbind_Inr_iff on_rpool_run)
  have "pool_ready (nat (rd_pool_size cfg)) (r_pool w')"
    using ss_filling.filled_ready [OF f _ assms(2)] by (simp add: w')
  with cfg show thesis by (rule that)
qed

end
