(* ===== verification/BackendMain.thy ===== *)
theory BackendMain
  imports PoolInit HttpServer BackendServer
begin

text \<open>
  The start of the backend, from backend/main.cpp: the command line, the configuration, the logger, the two
  pools, the workers, the signal handlers and the server. What the operating system contributes (the
  command line, the files, whether the logger's file opens, the results of \<open>sigaction\<close> and of the socket
  calls) is a \<open>boot\<close>. The accepting loop itself is \<open>server_step\<close> of \<open>HttpServer\<close>.
\<close>

section \<open>What both programs share\<close>

record boot =
  bt_argv :: "string list"
  bt_files :: "string \<Rightarrow> string option"
  bt_log_error :: "string option"
  bt_sigint_error :: "string option"
  bt_sigterm_error :: "string option"
  bt_listen :: listen_event
  bt_epoll :: epoll_event

record 'w process =
  pr_values :: "values"
  pr_world :: 'w
  pr_fds :: nat

definition on_values :: "(values, 'a) comp \<Rightarrow> ('w process, 'a) comp" where
  "on_values m = mzoom pr_values (\<lambda>s w. w\<lparr>pr_values := s\<rparr>) m"

definition on_world :: "('w, 'a) comp \<Rightarrow> ('w process, 'a) comp" where
  "on_world m = mzoom pr_world (\<lambda>s w. w\<lparr>pr_world := s\<rparr>) m"

definition on_fds :: "(nat, 'a) comp \<Rightarrow> ('w process, 'a) comp" where
  "on_fds m = mzoom pr_fds (\<lambda>s w. w\<lparr>pr_fds := s\<rparr>) m"

definition resolveEnvPath :: "string list \<Rightarrow> exn + string" where
  "resolveEnvPath argv =
     (if length argv < 2 then Inl (StdException M_env_path_missing)
      else if argv ! 1 = [] then Inl (StdException M_env_path_empty)
      else Inr (argv ! 1))"

definition logger_open :: "boot \<Rightarrow> exn + unit" where
  "logger_open B = (case bt_log_error B of None \<Rightarrow> Inr () | Some err \<Rightarrow> Inl (StdException err))"

text \<open>The second \<open>sigaction\<close> is called only if the first has succeeded.\<close>

definition installShutdownHandlers :: "boot \<Rightarrow> exn + unit" where
  "installShutdownHandlers B = (case bt_sigint_error B of
      Some err \<Rightarrow> Inl (StdException (M_signal_failed @ err))
    | None \<Rightarrow> (case bt_sigterm_error B of
        Some err \<Rightarrow> Inl (StdException (M_signal_failed @ err))
      | None \<Rightarrow> Inr ()))"

definition http_options :: "int \<Rightarrow> HttpServerConfig \<Rightarrow> Options" where
  "http_options port http_cfg =
     \<lparr>op_port = word_of_int port, op_listen_backlog = hs_listen_backlog http_cfg,
      op_worker_threads = hs_worker_threads http_cfg,
      op_max_concurrent_connections = hs_max_concurrent_connections http_cfg,
      op_read_timeout_seconds = hs_read_timeout_seconds http_cfg\<rparr>"

text \<open>\<open>server.run\<close> on the descriptors: set-up, and the end of the loop, which closes both.\<close>

definition run_server :: "boot \<Rightarrow> ('w process, unit) comp" where
  "run_server B = mbind (on_fds (run_setup (bt_listen B) (bt_epoll B))) (\<lambda>_. on_fds (mmodify (\<lambda>n. n - 2)))"

section \<open>The backend\<close>

definition on_workers :: "((string \<times> string) worker_pool \<Rightarrow> (string \<times> string) worker_pool) \<Rightarrow> (world, unit) comp" where
  "on_workers f = mmodify (\<lambda>w. w\<lparr>w_workers := f (w_workers w)\<rparr>)"

definition backend_boot :: "boot \<Rightarrow> (world process, Options) comp" where
  "backend_boot B =
     mbind (mlift (resolveEnvPath (bt_argv B))) (\<lambda>env_path.
     mbind (on_values (loadFromEnvFile env_path (bt_files B env_path))) (\<lambda>_.
     mbind (mread pr_values) (\<lambda>config.
     mbind (mlift (logger_cfg config)) (\<lambda>logger_config.
     mbind (mlift (logger_open B)) (\<lambda>_.
     mbind (on_world (sql (my_initFromConfig config))) (\<lambda>_.
     mbind (on_world (redis_op (rd_initFromConfig config))) (\<lambda>_.
     mbind (mlift (paymentBackend config)) (\<lambda>backend.
     mbind (mlift (httpServer config)) (\<lambda>http_cfg.
     mbind (on_world (on_workers (worker_init (hs_worker_threads http_cfg)))) (\<lambda>_.
     mbind (mlift (installShutdownHandlers B)) (\<lambda>_.
       mret (http_options (be_http_port backend) http_cfg))))))))))))"

text \<open>The exit status of the process.\<close>

definition backend_main :: "boot \<Rightarrow> world process \<Rightarrow> int \<times> world process" where
  "backend_main B p = (case mbind (backend_boot B) (\<lambda>options. run_server B) p of
      (Inl e, p') \<Rightarrow> (1, p')
    | (Inr _, p') \<Rightarrow> (0, p'))"

section \<open>What the start-up achieves\<close>

lemma on_world_iff [run_iff]:
  "on_world m p = (Inr x, p') \<longleftrightarrow> (\<exists>s. m (pr_world p) = (Inr x, s) \<and> p' = p\<lparr>pr_world := s\<rparr>)"
  by (auto simp: on_world_def mzoom_iff)

lemma on_values_iff [run_iff]:
  "on_values m p = (Inr x, p') \<longleftrightarrow> (\<exists>s. m (pr_values p) = (Inr x, s) \<and> p' = p\<lparr>pr_values := s\<rparr>)"
  by (auto simp: on_values_def mzoom_iff)

lemma on_fds_iff [run_iff]:
  "on_fds m p = (Inr x, p') \<longleftrightarrow> (\<exists>s. m (pr_fds p) = (Inr x, s) \<and> p' = p\<lparr>pr_fds := s\<rparr>)"
  by (auto simp: on_fds_def mzoom_iff)

text \<open>A process before \<open>main\<close>.\<close>

definition unstarted :: "world process \<Rightarrow> bool" where
  "unstarted p \<longleftrightarrow> pool_fresh (m_pool (w_mysql (pr_world p))) \<and> pool_fresh (r_pool (w_redis (pr_world p))) \<and>
     \<not> wk_initialized (w_workers (pr_world p)) \<and> \<not> wk_stop (w_workers (pr_world p))"

lemma redis_pool_positive: "redis_cfg v = Inr cfg \<Longrightarrow> 0 < rd_pool_size cfg"
  by (auto simp: redis_cfg_def run_iff split: if_splits)

lemma httpServer_positive:
  "httpServer v = Inr h \<Longrightarrow> 0 < hs_worker_threads h \<and> 0 < hs_listen_backlog h \<and>
     0 < hs_max_concurrent_connections h \<and> 0 < hs_read_timeout_seconds h"
  by (auto simp: httpServer_def run_iff)

lemma paymentBackend_port: "paymentBackend v = Inr b \<Longrightarrow> 0 < be_http_port b"
  by (auto simp: paymentBackend_def run_iff)

lemma worker_init_fresh:
  "\<not> wk_initialized w \<Longrightarrow> wk_initialized (worker_init n w) \<and> wk_stop (worker_init n w) = wk_stop w \<and>
     4 \<le> wk_count (worker_init n w) \<and> n \<le> wk_count (worker_init n w) \<and> wk_tasks (worker_init n w) = wk_tasks w"
  by (simp add: worker_init_def)


section \<open>How the process ends\<close>

text \<open>Everything before \<open>run\<close> leaves the descriptors of the server alone.\<close>

definition fds_kept :: "'w process \<Rightarrow> 'w process \<Rightarrow> bool" where
  "fds_kept p p' \<longleftrightarrow> pr_fds p' = pr_fds p"

interpretation fds_kept: frame fds_kept
  by unfold_locales (auto simp: fds_kept_def)

lemma on_world_fds: "keeps fds_kept (on_world m)"
  by (auto simp: keeps_def fds_kept_def on_world_def mzoom_def split: prod.split)

lemma on_values_fds: "keeps fds_kept (on_values m)"
  by (auto simp: keeps_def fds_kept_def on_values_def mzoom_def split: prod.split)

lemma backend_boot_fds: "keeps fds_kept (backend_boot B)"
  unfolding backend_boot_def by (intro fds_kept.keeps_rules on_world_fds on_values_fds)

lemma run_server_fds:
  assumes "run_server B p = (r, p')"
  shows "pr_fds p' = pr_fds p \<and> (isl r \<longleftrightarrow> bt_listen B \<noteq> Listens \<or> bt_epoll B \<noteq> EpollWorks)"
  using assms
  by (auto simp: run_server_def on_fds_def run_setup_def createListenSocket_def run_simps
      split: listen_event.splits epoll_event.splits)

text \<open>
  C36: the exit status of the backend is 1 exactly when the start-up or the set-up of its sockets fails, and
  0 otherwise; 2 never occurs, since every exception of the program is a std::exception. Whatever fails, no
  descriptor of the server is left open.
\<close>

theorem backend_exit_status:
  "fst (backend_main B p) =
     (if \<not> isl (fst (backend_boot B p)) \<and> bt_listen B = Listens \<and> bt_epoll B = EpollWorks then 0 else 1) \<and>
   pr_fds (snd (backend_main B p)) = pr_fds p"
proof -
  obtain r p1 where b: "backend_boot B p = (r, p1)" by force
  obtain q p2 where q: "run_server B p1 = (q, p2)" by force
  have "pr_fds p1 = pr_fds p" using keepsD [OF backend_boot_fds b] by (simp add: fds_kept_def)
  with b q run_server_fds [OF q] show ?thesis
    by (cases r; cases q) (auto simp: backend_main_def run_simps)
qed

end
