(* ===== verification/GatewayMain.thy ===== *)
theory GatewayMain
  imports BackendMain Gateway WsServer
begin

text \<open>
  The start of the gateway, from gateway/main.cpp. It differs from the backend's in its pools and in the
  second server: the WebSocket server runs in a thread of its own, which the main thread joins after its
  HTTP server has returned. An exception that leaves the function of a \<open>std::thread\<close>, and the destruction
  of a \<open>std::thread\<close> that has not been joined, end the process by \<open>std::terminate\<close>.
\<close>

section \<open>Start-up\<close>

record gateway_state =
  gs_world :: gworld
  gs_workers :: "(int \<times> string) worker_pool"

definition on_gworld :: "(gworld, 'a) comp \<Rightarrow> (gateway_state, 'a) comp" where
  "on_gworld m = mzoom gs_world (\<lambda>s w. w\<lparr>gs_world := s\<rparr>) m"

definition on_gworkers ::
    "((int \<times> string) worker_pool \<Rightarrow> (int \<times> string) worker_pool) \<Rightarrow> (gateway_state, unit) comp" where
  "on_gworkers f = mmodify (\<lambda>w. w\<lparr>gs_workers := f (gs_workers w)\<rparr>)"

text \<open>The options of the HTTP server, the port of the WebSocket server, its backlog and its limit.\<close>

record gateway_options =
  go_http :: Options
  go_ws_port :: "16 word"
  go_ws_backlog :: int
  go_ws_max_connections :: int

definition gateway_boot :: "boot \<Rightarrow> (gateway_state process, gateway_options) comp" where
  "gateway_boot B =
     mbind (mlift (resolveEnvPath (bt_argv B))) (\<lambda>env_path.
     mbind (on_values (loadFromEnvFile env_path (bt_files B env_path))) (\<lambda>_.
     mbind (mread pr_values) (\<lambda>config.
     mbind (mlift (logger_cfg config)) (\<lambda>logger_config.
     mbind (mlift (logger_open B)) (\<lambda>_.
     mbind (on_world (on_gworld (gw_redis_op (ss_initFromConfig config)))) (\<lambda>_.
     mbind (mlift (gw_paymentGateway config)) (\<lambda>gateway.
     mbind (mlift (httpServer config)) (\<lambda>http_cfg.
     mbind (mlift (wsMaxConnections config)) (\<lambda>ws_max_connections.
     mbind (on_world (on_gworkers (worker_init (hs_worker_threads http_cfg)))) (\<lambda>_.
     mbind (mlift (installShutdownHandlers B)) (\<lambda>_.
       mret \<lparr>go_http = http_options (gg_http_port gateway) http_cfg,
             go_ws_port = word_of_int (gg_websocket_port gateway),
             go_ws_backlog = hs_listen_backlog http_cfg,
             go_ws_max_connections = ws_max_connections\<rparr>)))))))))))"

datatype process_end = Exits int | Terminates

text \<open>
  \<open>main\<close>: once the thread of the WebSocket server has been started, a failure of either server's socket
  ends the process by \<open>std::terminate\<close>; the thread's own, because it has no handler, and that of the HTTP
  server, because the thread has not been joined when the stack is unwound to the handler of \<open>main\<close>.
\<close>

definition gateway_main :: "boot \<Rightarrow> ws_listen \<Rightarrow> gateway_state process \<Rightarrow> process_end" where
  "gateway_main B wsl p = (case gateway_boot B p of
      (Inl e, p') \<Rightarrow> Exits 1
    | (Inr options, p') \<Rightarrow>
        (case fst (ws_createListenSocket wsl (pr_fds p')) of
           Inl e \<Rightarrow> Terminates
         | Inr _ \<Rightarrow>
             (case fst (run_server B p') of
                Inl e \<Rightarrow> Terminates
              | Inr _ \<Rightarrow> Exits 0)))"

section \<open>What the start-up achieves\<close>

definition gateway_unstarted :: "gateway_state process \<Rightarrow> bool" where
  "gateway_unstarted p \<longleftrightarrow> pool_fresh (r_pool (gw_redis (gs_world (pr_world p)))) \<and>
     \<not> wk_initialized (gs_workers (pr_world p)) \<and> \<not> wk_stop (gs_workers (pr_world p))"

text \<open>
  C34: when the gateway starts its servers, the configuration is that of the file named on the command line,
  the session store is initialised with the configured number of idle connections, at least one, and lends
  none, at least four workers are initialised and the limits of both servers are positive. The ports are the
  configured ones modulo 65536.
\<close>

theorem gateway_ready_when_listening:
  assumes "gateway_boot B p = (Inr options, p')" and "gateway_unstarted p"
  shows "\<exists>content rd g. bt_files B (bt_argv B ! 1) = Some content \<and>
    load_lines (getlines content) (pr_values p) = (Inr (), pr_values p') \<and>
    gw_redis_cfg (pr_values p') = Inr rd \<and> 0 < rd_pool_size rd \<and>
    pool_ready (nat (rd_pool_size rd)) (r_pool (gw_redis (gs_world (pr_world p')))) \<and>
    wk_initialized (gs_workers (pr_world p')) \<and> \<not> wk_stop (gs_workers (pr_world p')) \<and>
    4 \<le> wk_count (gs_workers (pr_world p')) \<and>
    0 < op_max_concurrent_connections (go_http options) \<and> setReadTimeout (go_http options) \<noteq> None \<and>
    0 < go_ws_max_connections options \<and>
    gw_paymentGateway (pr_values p') = Inr g \<and> uint (op_port (go_http options)) = gg_http_port g mod 2 ^ 16 \<and>
    uint (go_ws_port options) = gg_websocket_port g mod 2 ^ 16"
proof -
  from assms(1) obtain path w0 lc w2 g h n where path: "resolveEnvPath (bt_argv B) = Inr path"
    and load: "loadFromEnvFile path (bt_files B path) (pr_values p) = (Inr (), pr_values p')"
    and w0: "pr_world p = w0" "logger_cfg (pr_values p') = Inr lc"
    and ss: "ss_initFromConfig (pr_values p') (gw_redis (gs_world w0)) = (Inr (), w2)"
    and g: "gw_paymentGateway (pr_values p') = Inr g" and h: "httpServer (pr_values p') = Inr h"
    and n: "wsMaxConnections (pr_values p') = Inr n"
    and w': "pr_world p' = w0\<lparr>gs_world := (gs_world w0)\<lparr>gw_redis := w2\<rparr>,
        gs_workers := worker_init (hs_worker_threads h) (gs_workers w0)\<rparr>"
    and opts: "options = \<lparr>go_http = http_options (gg_http_port g) h, go_ws_port = word_of_int (gg_websocket_port g),
        go_ws_backlog = hs_listen_backlog h, go_ws_max_connections = n\<rparr>"
    by (auto simp: gateway_boot_def run_iff on_gworld_def gw_redis_op_def on_gworkers_def)
  have path: "path = bt_argv B ! 1" using path by (auto simp: resolveEnvPath_def split: if_splits)
  from load obtain content where content: "bt_files B path = Some content"
    "load_lines (getlines content) (pr_values p) = (Inr (), pr_values p')"
    by (auto simp: loadFromEnvFile_def run_iff split: option.splits)
  have fresh: "pool_fresh (r_pool (gw_redis (gs_world w0)))" "\<not> wk_initialized (gs_workers w0)"
    "\<not> wk_stop (gs_workers w0)"
    using assms(2) w0 by (simp_all add: gateway_unstarted_def)
  obtain rc where rc: "gw_redis_cfg (pr_values p') = Inr rc" "pool_ready (nat (rd_pool_size rc)) (r_pool w2)"
    using ss_init_ready [OF ss fresh(1)] by blast
  have "0 < rd_pool_size rc" using rc(1) by (auto simp: gw_redis_cfg_def run_iff split: if_splits)
  moreover have "0 < n" using n by (auto simp: wsMaxConnections_def run_iff)
  ultimately show ?thesis
    using content path rc g worker_init_fresh [OF fresh(2), of "hs_worker_threads h"] fresh(3) httpServer_positive [OF h]
    by (intro exI [of _ content] exI [of _ rc] exI [of _ g])
       (simp add: w' opts http_options_def setReadTimeout_def uint_word_of_int)
qed

section \<open>How the process ends\<close>


end
