(* ===== verification/Cluster.thy ===== *)
theory Cluster
  imports ThreadPool "HOL-Library.Multiset"
begin

text \<open>
  The worker pools of both processes together. A gateway worker that has forwarded a request reads from its
  connection to the backend until the answer has come, and a backend worker that notifies the gateway reads
  from its connection to the gateway until the status has come; neither connection has a time-out
  (gateway/common/http_forwarder.hpp and backend/common/gateway_notify.hpp). The task that notifies runs in
  the same pool as the connections of the backend (backend/payment_impl.hpp), and the request of the
  notification is a connection of the gateway like any other. The queues are those of \<open>ThreadPool\<close>; a
  request that is served without waiting is one step.
\<close>

section \<open>The two processes\<close>

text \<open>
  A task of the gateway is the connection of a browser, or of the \<open>k\<close>-th notification; a task of the backend
  is the \<open>k\<close>-th forwarded connection, or \<open>notifyPaymentResult\<close>.
\<close>

datatype gateway_task = Browser | Result nat

datatype backend_task = Forwarded nat | Notify

record cluster =
  cl_gw :: "gateway_task worker_pool"
  cl_be :: "backend_task worker_pool"
  cl_gw_wait :: "nat list"
  cl_be_wait :: "nat list"
  cl_gw_limit :: int
  cl_be_limit :: int
  cl_next :: nat

definition gw_submit :: "gateway_task \<Rightarrow> cluster \<Rightarrow> cluster" where
  "gw_submit t s = s\<lparr>cl_gw := snd (worker_submit t (cl_gw s))\<rparr>"

definition be_submit :: "backend_task \<Rightarrow> cluster \<Rightarrow> cluster" where
  "be_submit t s = s\<lparr>cl_be := snd (worker_submit t (cl_be s))\<rparr>"

definition gw_take :: "cluster \<Rightarrow> cluster" where
  "gw_take s = s\<lparr>cl_gw := snd (worker_turn (cl_gw s))\<rparr>"

definition be_take :: "cluster \<Rightarrow> cluster" where
  "be_take s = s\<lparr>cl_be := snd (worker_turn (cl_be s))\<rparr>"

text \<open>A worker that does not wait for an answer, and a connection slot that is free.\<close>

definition gw_free :: "cluster \<Rightarrow> bool" where
  "gw_free s \<longleftrightarrow> int (length (cl_gw_wait s)) < wk_count (cl_gw s)"

definition be_free :: "cluster \<Rightarrow> bool" where
  "be_free s \<longleftrightarrow> int (length (cl_be_wait s)) < wk_count (cl_be s)"

definition gw_admits :: "cluster \<Rightarrow> bool" where
  "gw_admits s \<longleftrightarrow> int (length (wk_tasks (cl_gw s)) + length (cl_gw_wait s)) < cl_gw_limit s"

definition be_admits :: "cluster \<Rightarrow> bool" where
  "be_admits s \<longleftrightarrow> int (length (cl_gw_wait s)) < cl_be_limit s"

text \<open>
  \<open>GwTake forwards\<close>: a free gateway worker takes the next connection; that of a browser it forwards, or
  answers itself; a notification it answers, which ends the wait of a backend worker. \<open>BeTake pays\<close>: a free
  backend worker takes the next task; a forwarded request it answers, which ends the wait of a gateway
  worker, and submits a notification if it was a payment; a notification it sends, and waits. A connection
  that is refused is closed and keeps nobody waiting.
\<close>

datatype cluster_event = ClientConnects | GwTake bool | BeTake bool

fun cluster_step :: "cluster_event \<Rightarrow> cluster \<Rightarrow> cluster option" where
  "cluster_step ClientConnects s = Some (if gw_admits s then gw_submit Browser s else s)"
| "cluster_step (GwTake forwards) s =
     (if \<not> gw_free s then None
      else case wk_tasks (cl_gw s) of
          [] \<Rightarrow> None
        | Browser # _ \<Rightarrow>
            Some (if forwards \<and> be_admits s
                  then be_submit (Forwarded (cl_next s))
                    ((gw_take s)\<lparr>cl_gw_wait := cl_next s # cl_gw_wait s, cl_next := Suc (cl_next s)\<rparr>)
                  else gw_take s)
        | Result k # _ \<Rightarrow> Some ((gw_take s)\<lparr>cl_be_wait := remove1 k (cl_be_wait s)\<rparr>))"
| "cluster_step (BeTake pays) s =
     (if \<not> be_free s then None
      else case wk_tasks (cl_be s) of
          [] \<Rightarrow> None
        | Forwarded k # _ \<Rightarrow>
            Some (if pays then be_submit Notify ((be_take s)\<lparr>cl_gw_wait := remove1 k (cl_gw_wait s)\<rparr>)
                  else (be_take s)\<lparr>cl_gw_wait := remove1 k (cl_gw_wait s)\<rparr>)
        | Notify # _ \<Rightarrow>
            Some (if gw_admits s
                  then gw_submit (Result (cl_next s))
                    ((be_take s)\<lparr>cl_be_wait := cl_next s # cl_be_wait s, cl_next := Suc (cl_next s)\<rparr>)
                  else be_take s))"

fun cluster_run :: "cluster_event list \<Rightarrow> cluster \<Rightarrow> cluster option" where
  "cluster_run [] s = Some s"
| "cluster_run (e # es) s = (case cluster_step e s of None \<Rightarrow> None | Some s' \<Rightarrow> cluster_run es s')"

text \<open>Both processes started, with \<open>n\<close> and \<open>m\<close> workers.\<close>

definition cluster_init :: "int \<Rightarrow> int \<Rightarrow> int \<Rightarrow> int \<Rightarrow> cluster" where
  "cluster_init n m gw_limit be_limit =
     \<lparr>cl_gw = worker_init n \<lparr>wk_count = 0, wk_initialized = False, wk_stop = False, wk_tasks = [], wk_started = []\<rparr>,
      cl_be = worker_init m \<lparr>wk_count = 0, wk_initialized = False, wk_stop = False, wk_tasks = [], wk_started = []\<rparr>,
      cl_gw_wait = [], cl_be_wait = [], cl_gw_limit = gw_limit, cl_be_limit = be_limit, cl_next = 0\<rparr>"

inductive cluster_reach :: "cluster \<Rightarrow> bool" where
  start: "cluster_reach (cluster_init n m gl bl)"
| step: "cluster_reach s \<Longrightarrow> cluster_step e s = Some s' \<Longrightarrow> cluster_reach s'"

section \<open>The invariant\<close>

fun forwarded :: "backend_task list \<Rightarrow> nat list" where
  "forwarded [] = []"
| "forwarded (Forwarded k # ts) = k # forwarded ts"
| "forwarded (Notify # ts) = forwarded ts"

fun results :: "gateway_task list \<Rightarrow> nat list" where
  "results [] = []"
| "results (Result k # ts) = k # results ts"
| "results (Browser # ts) = results ts"

lemma forwarded_append [simp]: "forwarded (xs @ ys) = forwarded xs @ forwarded ys"
  by (induction xs rule: forwarded.induct) auto

lemma results_append [simp]: "results (xs @ ys) = results xs @ results ys"
  by (induction xs rule: results.induct) auto

text \<open>
  The gateway workers wait exactly for the forwarded connections in the backend's queue, and the backend
  workers exactly for the notifications in the gateway's queue.
\<close>

definition cluster_ok :: "cluster \<Rightarrow> bool" where
  "cluster_ok s \<longleftrightarrow> wk_initialized (cl_gw s) \<and> \<not> wk_stop (cl_gw s) \<and> 0 < wk_count (cl_gw s) \<and>
     wk_initialized (cl_be s) \<and> \<not> wk_stop (cl_be s) \<and> 0 < wk_count (cl_be s) \<and>
     mset (cl_gw_wait s) = mset (forwarded (wk_tasks (cl_be s))) \<and>
     mset (cl_be_wait s) = mset (results (wk_tasks (cl_gw s))) \<and>
     int (length (cl_gw_wait s)) \<le> wk_count (cl_gw s) \<and> int (length (cl_be_wait s)) \<le> wk_count (cl_be s)"

named_theorems cluster_defs \<open>the parts of a step\<close>

lemmas [cluster_defs] = gw_submit_def be_submit_def gw_take_def be_take_def gw_free_def be_free_def
  worker_submit_def worker_turn_def

lemma remove1_fits: "int (length xs) \<le> n \<Longrightarrow> int (length (remove1 x xs)) \<le> n"
proof -
  assume "int (length xs) \<le> n"
  moreover have "length (remove1 x xs) \<le> length xs" by (simp add: length_remove1)
  ultimately show ?thesis by linarith
qed

lemma cluster_step_ok: "cluster_ok s \<Longrightarrow> cluster_step e s = Some s' \<Longrightarrow> cluster_ok s'"
proof (cases e)
  case ClientConnects
  assume "cluster_ok s" "cluster_step e s = Some s'"
  with ClientConnects show ?thesis
    by (cases "gw_admits s") (auto simp: cluster_ok_def cluster_defs run_simps)
next
  case (GwTake fwd)
  assume "cluster_ok s" "cluster_step e s = Some s'"
  with GwTake show ?thesis
    by (auto simp: cluster_ok_def cluster_defs run_simps split: if_splits list.splits gateway_task.splits
        intro: remove1_fits)
next
  case (BeTake pays)
  assume "cluster_ok s" "cluster_step e s = Some s'"
  with BeTake show ?thesis
    by (auto simp: cluster_ok_def cluster_defs run_simps split: if_splits list.splits backend_task.splits
        intro: remove1_fits)
qed

lemma cluster_reach_ok: "cluster_reach s \<Longrightarrow> cluster_ok s"
proof (induction rule: cluster_reach.induct)
  case (start n m gl bl)
  show ?case by (simp add: cluster_ok_def cluster_init_def worker_init_def)
next
  case (step s e s')
  then show ?case using cluster_step_ok by blast
qed

section \<open>Rest, or a circular wait\<close>

definition cluster_idle :: "cluster \<Rightarrow> bool" where
  "cluster_idle s \<longleftrightarrow> wk_tasks (cl_gw s) = [] \<and> wk_tasks (cl_be s) = [] \<and> cl_gw_wait s = [] \<and> cl_be_wait s = []"

text \<open>Every worker of either process waits for the other process.\<close>

definition circular_wait :: "cluster \<Rightarrow> bool" where
  "circular_wait s \<longleftrightarrow> int (length (cl_gw_wait s)) = wk_count (cl_gw s) \<and> int (length (cl_be_wait s)) = wk_count (cl_be s)"

text \<open>No worker can make a step.\<close>

definition cluster_stuck :: "cluster \<Rightarrow> bool" where
  "cluster_stuck s \<longleftrightarrow> (\<forall>e. e \<noteq> ClientConnects \<longrightarrow> cluster_step e s = None)"

lemma gw_take_stuck: "cluster_step (GwTake True) s = None \<longleftrightarrow> \<not> gw_free s \<or> wk_tasks (cl_gw s) = []"
  by (auto split: list.split gateway_task.split)

lemma be_take_stuck: "cluster_step (BeTake True) s = None \<longleftrightarrow> \<not> be_free s \<or> wk_tasks (cl_be s) = []"
  by (auto split: list.split backend_task.split)

lemma circular_wait_stuck: "circular_wait s \<Longrightarrow> cluster_stuck s"
proof -
  assume c: "circular_wait s"
  have "cluster_step e s = None" if "e \<noteq> ClientConnects" for e
    using c that by (cases e) (simp_all add: circular_wait_def gw_free_def be_free_def)
  then show ?thesis by (simp add: cluster_stuck_def)
qed

lemma stuck_cases:
  assumes ok: "cluster_ok s" and stuck: "cluster_stuck s"
  shows "cluster_idle s \<or> circular_wait s"
proof -
  have "cluster_step (GwTake True) s = None" "cluster_step (BeTake True) s = None"
    using stuck unfolding cluster_stuck_def by blast+
  then have g: "\<not> gw_free s \<or> wk_tasks (cl_gw s) = []" and b: "\<not> be_free s \<or> wk_tasks (cl_be s) = []"
    unfolding gw_take_stuck be_take_stuck by blast+
  have gw: "mset (cl_gw_wait s) = mset (forwarded (wk_tasks (cl_be s)))" "0 < wk_count (cl_gw s)"
    and be: "mset (cl_be_wait s) = mset (results (wk_tasks (cl_gw s)))" "0 < wk_count (cl_be s)"
    using ok by (simp_all add: cluster_ok_def)
  have gw_none: "gw_free s" "cl_gw_wait s = []" if "wk_tasks (cl_be s) = []" using that gw by (simp_all add: gw_free_def)
  have be_none: "be_free s" "cl_be_wait s = []" if "wk_tasks (cl_gw s) = []" using that be by (simp_all add: be_free_def)
  show ?thesis
  proof (cases "gw_free s \<or> be_free s")
    case True
    then have "wk_tasks (cl_gw s) = []" "wk_tasks (cl_be s) = []" using g b gw_none(1) be_none(1) by blast+
    then show ?thesis using gw_none(2) be_none(2) by (simp add: cluster_idle_def)
  next
    case False
    with ok show ?thesis by (auto simp: circular_wait_def gw_free_def be_free_def cluster_ok_def)
  qed
qed

fun gw_work :: "gateway_task \<Rightarrow> nat" where
  "gw_work Browser = 4"
| "gw_work (Result k) = 1"

fun be_work :: "backend_task \<Rightarrow> nat" where
  "be_work (Forwarded k) = 3"
| "be_work Notify = 2"

text \<open>The steps the workers have left to do for the connections there are.\<close>

definition cluster_work :: "cluster \<Rightarrow> nat" where
  "cluster_work s = sum_list (map gw_work (wk_tasks (cl_gw s))) + sum_list (map be_work (wk_tasks (cl_be s)))"

lemma cluster_step_work:
  assumes "cluster_ok s" and "cluster_step e s = Some s'" and "e \<noteq> ClientConnects"
  shows "cluster_work s' < cluster_work s"
proof (cases e)
  case (GwTake fwd)
  with assms show ?thesis
    by (auto simp: cluster_ok_def cluster_work_def cluster_defs run_simps split: if_splits list.splits gateway_task.splits)
next
  case (BeTake pays)
  with assms show ?thesis
    by (auto simp: cluster_ok_def cluster_work_def cluster_defs run_simps split: if_splits list.splits backend_task.splits)
qed (use assms in simp)

lemma cluster_run_work:
  "cluster_run es s = Some s' \<Longrightarrow> cluster_ok s \<Longrightarrow> ClientConnects \<notin> set es \<Longrightarrow>
     cluster_ok s' \<and> length es + cluster_work s' \<le> cluster_work s"
proof (induction es arbitrary: s)
  case Nil
  then show ?case by simp
next
  case (Cons e es)
  then obtain s1 where s1: "cluster_step e s = Some s1" "cluster_run es s1 = Some s'"
    by (auto split: option.splits)
  with Cons cluster_step_work [OF Cons.prems(2) s1(1)] cluster_step_ok [OF Cons.prems(2) s1(1)] show ?case by fastforce
qed

text \<open>
  C31: the workers of both processes never run for ever and stop for one of two reasons only. Without new
  clients they make at most \<open>cluster_work s\<close> steps in whatever order they go; and when none can go on, either
  every connection has been served, or all gateway workers wait for the backend while all backend workers
  wait for the gateway. In particular nothing is lost as long as fewer notifications are under way than the
  backend has workers.
\<close>

theorem cluster_rests_or_waits:
  assumes "cluster_reach s" and "cluster_run es s = Some s'" and "ClientConnects \<notin> set es"
  shows "length es \<le> cluster_work s \<and>
    (cluster_stuck s' \<longrightarrow> cluster_idle s' \<or> circular_wait s') \<and>
    (cluster_stuck s' \<and> int (length (cl_be_wait s')) < wk_count (cl_be s') \<longrightarrow> cluster_idle s')"
proof -
  have "cluster_ok s'" "length es \<le> cluster_work s"
    using cluster_run_work [OF assms(2) cluster_reach_ok [OF assms(1)] assms(3)] by auto
  with stuck_cases [of s'] show ?thesis by (auto simp: circular_wait_def)
qed

section \<open>The circular wait can happen\<close>

text \<open>\<open>leads_to s P\<close>: some run leads from \<open>s\<close> to a state with \<open>P\<close>.\<close>

definition leads_to :: "cluster \<Rightarrow> (cluster \<Rightarrow> bool) \<Rightarrow> bool" where
  "leads_to s P \<longleftrightarrow> (\<exists>es s'. cluster_run es s = Some s' \<and> P s')"

lemma leads_here: "P s \<Longrightarrow> leads_to s P"
  unfolding leads_to_def by (intro exI [of _ "[]"]) simp

lemma leads_step: "cluster_step e s = Some s' \<Longrightarrow> leads_to s' P \<Longrightarrow> leads_to s P"
  unfolding leads_to_def by (metis cluster_run.simps(2) option.simps(5))

text \<open>\<open>n\<close> gateway and \<open>m\<close> backend workers, both queues and who waits.\<close>

definition shape ::
    "nat \<Rightarrow> nat \<Rightarrow> gateway_task list \<Rightarrow> backend_task list \<Rightarrow> nat list \<Rightarrow> nat list \<Rightarrow> cluster \<Rightarrow> bool" where
  "shape n m gts bts gw bw s \<longleftrightarrow>
     wk_initialized (cl_gw s) \<and> \<not> wk_stop (cl_gw s) \<and> wk_count (cl_gw s) = int n \<and> wk_tasks (cl_gw s) = gts \<and>
     wk_initialized (cl_be s) \<and> \<not> wk_stop (cl_be s) \<and> wk_count (cl_be s) = int m \<and> wk_tasks (cl_be s) = bts \<and>
     cl_gw_wait s = gw \<and> cl_be_wait s = bw \<and> int (n + 2 * m) \<le> cl_gw_limit s \<and> int n \<le> cl_be_limit s"

lemma leads_connect:
  assumes "shape n m gts bts gw bw s" and "length gts + length gw < n + 2 * m"
    and "\<And>s. shape n m (gts @ [Browser]) bts gw bw s \<Longrightarrow> leads_to s P"
  shows "leads_to s P"
proof (rule leads_step)
  have "gw_admits s" using assms(1,2) by (simp add: shape_def gw_admits_def)
  then show "cluster_step ClientConnects s = Some (gw_submit Browser s)" by simp
  show "leads_to (gw_submit Browser s) P"
    using assms(1) by (intro assms(3)) (simp add: shape_def cluster_defs run_simps)
qed

lemma leads_forward:
  assumes "shape n m (Browser # gts) bts gw bw s" and "length gw < n"
    and "\<And>s k. shape n m gts (bts @ [Forwarded k]) (k # gw) bw s \<Longrightarrow> leads_to s P"
  shows "leads_to s P"
proof (rule leads_step)
  let ?s = "be_submit (Forwarded (cl_next s))
    ((gw_take s)\<lparr>cl_gw_wait := cl_next s # cl_gw_wait s, cl_next := Suc (cl_next s)\<rparr>)"
  show "cluster_step (GwTake True) s = Some ?s"
    using assms(1,2) by (simp add: shape_def gw_free_def be_admits_def)
  show "leads_to ?s P" using assms(1) by (intro assms(3)) (simp add: shape_def cluster_defs run_simps)
qed

lemma leads_pay:
  assumes "shape n m gts (Forwarded k # bts) gw bw s" and "length bw < m"
    and "\<And>s. shape n m gts (bts @ [Notify]) (remove1 k gw) bw s \<Longrightarrow> leads_to s P"
  shows "leads_to s P"
proof (rule leads_step)
  let ?s = "be_submit Notify ((be_take s)\<lparr>cl_gw_wait := remove1 k (cl_gw_wait s)\<rparr>)"
  show "cluster_step (BeTake True) s = Some ?s"
    using assms(1,2) by (simp add: shape_def be_free_def)
  show "leads_to ?s P" using assms(1) by (intro assms(3)) (simp add: shape_def cluster_defs run_simps)
qed

lemma leads_notify:
  assumes "shape n m gts (Notify # bts) gw bw s" and "length bw < m" and "length gts + length gw < n + 2 * m"
    and "\<And>s k. shape n m (gts @ [Result k]) bts gw (k # bw) s \<Longrightarrow> leads_to s P"
  shows "leads_to s P"
proof (rule leads_step)
  let ?s = "gw_submit (Result (cl_next s))
    ((be_take s)\<lparr>cl_be_wait := cl_next s # cl_be_wait s, cl_next := Suc (cl_next s)\<rparr>)"
  show "cluster_step (BeTake True) s = Some ?s"
    using assms(1-3) by (simp add: shape_def be_free_def gw_admits_def)
  show "leads_to ?s P" using assms(1) by (intro assms(4)) (simp add: shape_def cluster_defs run_simps)
qed

text \<open>The last phase: \<open>b\<close> more requests are forwarded behind the last notification, which is then sent.\<close>

lemma leads_fill:
  assumes "shape n m (replicate b Browser @ rs) (Notify # bts) gw bw s" and "length gw + b = n"
    and "Suc (length bw) = m" and "length rs < m"
  shows "leads_to s circular_wait"
  using assms
proof (induction b arbitrary: s bts gw)
  case 0
  show ?case
    by (rule leads_notify [OF 0(1)]) (use 0 in \<open>auto simp: shape_def circular_wait_def intro!: leads_here\<close>)
next
  case (Suc b)
  show ?case
  proof (rule leads_forward)
    show "shape n m (Browser # replicate b Browser @ rs) (Notify # bts) gw bw s" using Suc.prems(1) by simp
    show "length gw < n" using Suc.prems(2) by simp
    fix s k assume "shape n m (replicate b Browser @ rs) ((Notify # bts) @ [Forwarded k]) (k # gw) bw s"
    then have "shape n m (replicate b Browser @ rs) (Notify # (bts @ [Forwarded k])) (k # gw) bw s" by simp
    then show "leads_to s circular_wait" by (rule Suc.IH) (use Suc.prems in simp_all)
  qed
qed

text \<open>
  The phase before: one payment after the other, whose notification is taken by a free backend worker only
  after the next request has been forwarded, and waits behind the browsers.
\<close>

lemma leads_pay_round:
  assumes "shape n m (replicate (n + d) Browser @ rs) [Notify] [] bw s" and "Suc (length bw) + d = m"
    and "length rs = length bw" and "0 < n"
  shows "leads_to s circular_wait"
  using assms
proof (induction d arbitrary: s rs bw)
  case 0
  then show ?case by (intro leads_fill [of n m n rs "[]" "[]" bw s]) simp_all
next
  case (Suc d)
  show ?case
  proof (rule leads_forward)
    show "shape n m (Browser # replicate (n + d) Browser @ rs) [Notify] [] bw s" using Suc.prems(1) by simp
    show "length ([] :: nat list) < n" using Suc.prems(4) by simp
    fix s k assume s: "shape n m (replicate (n + d) Browser @ rs) ([Notify] @ [Forwarded k]) (k # []) bw s"
    show "leads_to s circular_wait"
    proof (rule leads_notify)
      show "shape n m (replicate (n + d) Browser @ rs) (Notify # [Forwarded k]) [k] bw s" using s by simp
      show "length bw < m" "length (replicate (n + d) Browser @ rs) + length [k] < n + 2 * m"
        using Suc.prems(2,3) by simp_all
      fix s j assume s: "shape n m ((replicate (n + d) Browser @ rs) @ [Result j]) [Forwarded k] [k] (j # bw) s"
      show "leads_to s circular_wait"
      proof (rule leads_pay [OF s])
        show "length (j # bw) < m" using Suc.prems(2) by simp
        fix s assume "shape n m ((replicate (n + d) Browser @ rs) @ [Result j]) ([] @ [Notify]) (remove1 k [k]) (j # bw) s"
        then have "shape n m (replicate (n + d) Browser @ (rs @ [Result j])) [Notify] [] (j # bw) s" by simp
        then show "leads_to s circular_wait" by (rule Suc.IH) (use Suc.prems in simp_all)
      qed
    qed
  qed
qed

text \<open>The first phase: clients connect, and the first request is forwarded and paid.\<close>

lemma leads_connects:
  assumes "shape n (Suc m) (replicate b Browser) [] [] [] s" and "b + c = n + Suc m" and "0 < n"
  shows "leads_to s circular_wait"
  using assms
proof (induction c arbitrary: s b)
  case 0
  then have s: "shape n (Suc m) (Browser # replicate (n + m) Browser) [] [] [] s" by simp
  show ?case
  proof (rule leads_forward [OF s])
    show "length ([] :: nat list) < n" using 0 by simp
    fix s k assume "shape n (Suc m) (replicate (n + m) Browser) ([] @ [Forwarded k]) (k # []) [] s"
    then have s: "shape n (Suc m) (replicate (n + m) Browser) [Forwarded k] [k] [] s" by simp
    show "leads_to s circular_wait"
    proof (rule leads_pay [OF s])
      fix s assume "shape n (Suc m) (replicate (n + m) Browser) ([] @ [Notify]) (remove1 k [k]) [] s"
      then show "leads_to s circular_wait" by (intro leads_pay_round [of n "Suc m" m "[]" "[]" s]) (use 0 in simp_all)
    qed simp
  qed
next
  case (Suc c)
  show ?case
  proof (rule leads_connect [OF Suc.prems(1)])
    show "length (replicate b Browser) + length ([] :: nat list) < n + 2 * Suc m" using Suc.prems(2) by simp
    fix s assume "shape n (Suc m) (replicate b Browser @ [Browser]) [] [] [] s"
    then have "shape n (Suc m) (replicate (Suc b) Browser) [] [] [] s" by (simp add: replicate_append_same)
    then show "leads_to s circular_wait" by (rule Suc.IH) (use Suc.prems in simp_all)
  qed
qed

lemma circular_wait_kept: "circular_wait s \<Longrightarrow> cluster_run es s = Some s' \<Longrightarrow> circular_wait s'"
proof (induction es arbitrary: s)
  case Nil
  then show ?case by simp
next
  case (Cons e es)
  then have e: "e = ClientConnects" using circular_wait_stuck [OF Cons.prems(1)]
    by (auto simp: cluster_stuck_def split: option.splits)
  have "circular_wait (if gw_admits s then gw_submit Browser s else s)"
    using Cons.prems(1) by (auto simp: circular_wait_def cluster_defs run_simps)
  with Cons e show ?case by simp
qed


end
