(* ===== verification/Logger.thy ===== *)
theory Logger
  imports Messages "HOL-Library.Sublist"
begin

text \<open>
  The loggers of both processes (backend/common/logger.hpp and gateway/common/logger.hpp, which differ in
  the name of the logger only): \<open>sanitize\<close>, which every message goes through, and the states of the logger.
  \<open>std::regex\<close> is modelled as far as the patterns use it: the ECMAScript grammar with its backtracking order.
  What spdlog does with a line is not represented; \<open>fmt::format\<close> is a function of the logger's state.
\<close>

section \<open>Regular expressions\<close>

datatype re = Eps | Chr "char \<Rightarrow> bool" | Seq re re | Alt re re | Star re | Group nat re | Backref nat | WordBoundary

text \<open>A position in the text: the character before it, the text after it, and the groups captured so far.\<close>

record position =
  ps_before :: "char option"
  ps_rest :: string
  ps_groups :: "nat \<Rightarrow> string"

definition is_word_char :: "char \<Rightarrow> bool" where
  "is_word_char c \<longleftrightarrow> is_digit c \<or> 65 \<le> code c \<and> code c \<le> 90 \<or> 97 \<le> code c \<and> code c \<le> 122 \<or> c = CHR ''_''"

definition at_boundary :: "char option \<Rightarrow> string \<Rightarrow> bool" where
  "at_boundary p s \<longleftrightarrow> (case p of None \<Rightarrow> False | Some c \<Rightarrow> is_word_char c) \<noteq> (case s of [] \<Rightarrow> False | c # _ \<Rightarrow> is_word_char c)"

text \<open>The greedy loop: as many rounds as possible first, a round that consumes nothing is not made.\<close>

fun rounds :: "(position \<Rightarrow> position list) \<Rightarrow> nat \<Rightarrow> position \<Rightarrow> position list" where
  "rounds f 0 x = [x]"
| "rounds f (Suc n) x =
     concat (map (\<lambda>y. if length (ps_rest y) < length (ps_rest x) then rounds f n y else []) (f x)) @ [x]"

text \<open>
  All positions where a match from the given position can end, in the order in which backtracking tries
  them; \<open>Star\<close> needs no more rounds than there are characters left.
\<close>

primrec re_match :: "re \<Rightarrow> position \<Rightarrow> position list" where
  "re_match Eps x = [x]"
| "re_match (Chr P) x = (case ps_rest x of
      [] \<Rightarrow> []
    | c # cs \<Rightarrow> if P c then [x\<lparr>ps_before := Some c, ps_rest := cs\<rparr>] else [])"
| "re_match (Seq a b) x = concat (map (re_match b) (re_match a x))"
| "re_match (Alt a b) x = re_match a x @ re_match b x"
| "re_match (Star a) x = rounds (re_match a) (length (ps_rest x)) x"
| "re_match (Group n a) x =
     map (\<lambda>y. y\<lparr>ps_groups := (ps_groups y)(n := take (length (ps_rest x) - length (ps_rest y)) (ps_rest x))\<rparr>)
       (re_match a x)"
| "re_match (Backref n) x =
     (let w = ps_groups x n
      in if is_prefix w (ps_rest x)
         then [x\<lparr>ps_before := (if w = [] then ps_before x else Some (last w)), ps_rest := drop (length w) (ps_rest x)\<rparr>]
         else [])"
| "re_match WordBoundary x = (if at_boundary (ps_before x) (ps_rest x) then [x] else [])"

text \<open>
  \<open>std::regex_replace\<close>: from left to right, the first match at the leftmost position, \<open>fmt\<close> of its groups for
  the text it covers. The patterns of the logger match no empty text (\<open>patterns_consume\<close>).
\<close>

function regex_replace :: "re \<Rightarrow> ((nat \<Rightarrow> string) \<Rightarrow> string) \<Rightarrow> char option \<Rightarrow> string \<Rightarrow> string" where
  "regex_replace r fmt p s =
     (case filter (\<lambda>y. length (ps_rest y) < length s)
         (re_match r \<lparr>ps_before = p, ps_rest = s, ps_groups = (\<lambda>_. [])\<rparr>) of
        y # _ \<Rightarrow> fmt (ps_groups y) @ regex_replace r fmt (ps_before y) (ps_rest y)
      | [] \<Rightarrow> (case s of [] \<Rightarrow> [] | c # cs \<Rightarrow> c # regex_replace r fmt (Some c) cs))"
  by pat_completeness auto

termination
proof (relation "measure (\<lambda>(r, fmt, p, s). length s)")
  fix r :: re and fmt :: "(nat \<Rightarrow> string) \<Rightarrow> string" and p s y ys
  assume "filter (\<lambda>y. length (ps_rest y) < length s)
      (re_match r \<lparr>ps_before = p, ps_rest = s, ps_groups = (\<lambda>_. [])\<rparr>) = y # ys"
  then have "y \<in> set (filter (\<lambda>y. length (ps_rest y) < length s)
      (re_match r \<lparr>ps_before = p, ps_rest = s, ps_groups = (\<lambda>_. [])\<rparr>))" by simp
  then show "((r, fmt, ps_before y, ps_rest y), (r, fmt, p, s)) \<in> measure (\<lambda>(r, fmt, p, s). length s)" by simp
qed auto

declare regex_replace.simps [simp del]

text \<open>Abbreviated forms: \<open>times n a\<close> is \<open>a{n}\<close>, \<open>up_to n a\<close> is \<open>a{0,n}\<close>.\<close>

definition opt :: "re \<Rightarrow> re" where
  "opt a = Alt a Eps"

fun times :: "nat \<Rightarrow> re \<Rightarrow> re \<Rightarrow> re" where
  "times 0 a r = r"
| "times (Suc n) a r = Seq a (times n a r)"

fun up_to :: "nat \<Rightarrow> re \<Rightarrow> re" where
  "up_to 0 a = Eps"
| "up_to (Suc n) a = opt (Seq a (up_to n a))"

fun literal :: "string \<Rightarrow> re" where
  "literal [] = Eps"
| "literal (c # cs) = Seq (Chr (\<lambda>x. x = c)) (literal cs)"

fun one_of :: "string list \<Rightarrow> re" where
  "one_of [] = Chr (\<lambda>_. False)"
| "one_of [w] = literal w"
| "one_of (w # ws) = Alt (literal w) (one_of ws)"

section \<open>The patterns\<close>

definition token_char :: "char \<Rightarrow> bool" where
  "token_char c \<longleftrightarrow> is_word_char c \<or> c = CHR ''-''"

definition token_part :: re where
  "token_part = times 10 (Chr token_char) (Star (Chr token_char))"

definition jwt_pattern :: re where
  "jwt_pattern = Seq (Group 1 token_part) (Seq (Chr (\<lambda>c. c = CHR ''.''))
     (Seq (Group 2 token_part) (Seq (Chr (\<lambda>c. c = CHR ''.'')) (Group 3 token_part))))"

definition is_hex_char :: "char \<Rightarrow> bool" where
  "is_hex_char c \<longleftrightarrow> is_digit c \<or> 65 \<le> code c \<and> code c \<le> 70 \<or> 97 \<le> code c \<and> code c \<le> 102"

definition hash_pattern :: re where
  "hash_pattern = Seq WordBoundary (times 48 (Chr is_hex_char) (Seq (up_to 80 (Chr is_hex_char)) WordBoundary))"

definition is_space_char :: "char \<Rightarrow> bool" where
  "is_space_char c \<longleftrightarrow> c \<in> set [CHR '' '', CHR 0x09, CHR 0x0A, CHR 0x0B, CHR 0x0C, CHR 0x0D]"

definition spaces :: re where
  "spaces = Star (Chr is_space_char)"

definition plus :: "re \<Rightarrow> re" where
  "plus a = Seq a (Star a)"

definition sensitive_keys :: "string list" where
  "sensitive_keys = [''password'', ''login_password'', ''pay_password'', ''token'', ''qr_token'', ''payment_auth_token'',
     ''secret'', ''id_card'', ''id_card_hash'', ''email_hash'']"

definition key_value_sensitive_pattern :: re where
  "key_value_sensitive_pattern =
     Seq (Group 1 (Seq (Group 2 (opt (Chr (\<lambda>c. c = CHR 0x22)))) (Seq (Group 3 (one_of sensitive_keys)) (Seq (Backref 2)
       (Seq spaces (Seq (Chr (\<lambda>c. c \<in> set ''=:'')) (Seq spaces (opt (Chr (\<lambda>c. c = CHR 0x22))))))))))
       (plus (Chr (\<lambda>c. c \<notin> set [CHR '','', CHR 0x22, CHR ''}'', CHR '']''] \<and> \<not> is_space_char c)))"

definition header_sensitive_pattern :: re where
  "header_sensitive_pattern =
     Seq (Group 1 (Seq (Group 2 (one_of [''Authorization'', ''Cookie'']))
       (Seq spaces (Seq (Chr (\<lambda>c. c = CHR '':'')) spaces))))
       (plus (Chr (\<lambda>c. c \<notin> set [CHR 0x0D, CHR 0x0A, CHR '','']))) "

definition sanitize :: "string \<Rightarrow> string" where
  "sanitize inp =
     (let out = regex_replace jwt_pattern (\<lambda>_. ''<JWT_REDACTED>'') None inp;
          out = regex_replace hash_pattern (\<lambda>_. ''<HASH_REDACTED>'') None out;
          out = regex_replace key_value_sensitive_pattern (\<lambda>g. g 1 @ ''<REDACTED>'') None out
      in regex_replace header_sensitive_pattern (\<lambda>g. g 1 @ ''<REDACTED>'') None out)"

section \<open>The logger\<close>

datatype level = Debug | Info | Warn | Err

text \<open>\<open>lo_sink\<close> are the lines handed to spdlog; \<open>lo_format\<close> is \<open>fmt::format\<close>, with the text of its exception.\<close>

record logger =
  lo_format :: "string \<Rightarrow> string list \<Rightarrow> string + string"
  lo_initialized :: bool
  lo_open :: bool
  lo_debug :: bool
  lo_sink :: "(level \<times> string) list"

definition format_error :: string where
  "format_error = utf8 [230, 151, 165, 229, 191, 151, 230, 160, 188, 229, 188, 143, 229, 140, 150, 233, 148, 153, 232, 175, 175, 58, 32]"

definition format_original :: string where
  "format_original = utf8 [59, 32, 229, 142, 159, 229, 167, 139, 230, 160, 188, 229, 188, 143, 61]"

definition formatMessage :: "logger \<Rightarrow> string \<Rightarrow> string list \<Rightarrow> string" where
  "formatMessage lo fmt_text args = (case lo_format lo fmt_text args of
      Inr message \<Rightarrow> message
    | Inl what \<Rightarrow> format_error @ what @ format_original @ fmt_text)"

text \<open>\<open>init\<close>; \<open>failure\<close> is the exception of spdlog when the file cannot be opened or the name is taken.\<close>

definition logger_init :: "bool \<Rightarrow> string option \<Rightarrow> (logger, bool) comp" where
  "logger_init debug failure =
     mbind (mread lo_initialized) (\<lambda>initialized.
       if initialized then mret False
       else mbind (mmodify (\<lambda>lo. lo\<lparr>lo_debug := debug\<rparr>)) (\<lambda>_. case failure of
           Some err \<Rightarrow> mthrow (StdException err)
         | None \<Rightarrow> mbind (mmodify (\<lambda>lo. lo\<lparr>lo_open := True, lo_initialized := True\<rparr>)) (\<lambda>_. mret True)))"

definition logger_shutdown :: "(logger, unit) comp" where
  "logger_shutdown = mmodify (\<lambda>lo. lo\<lparr>lo_open := False, lo_initialized := False\<rparr>)"

definition logger_write :: "level \<Rightarrow> string \<Rightarrow> string list \<Rightarrow> (logger, unit) comp" where
  "logger_write level fmt_text args =
     mbind (mread lo_debug) (\<lambda>debug.
       if level = Debug \<and> \<not> debug then mret ()
       else
       mbind (mread (\<lambda>lo. sanitize (formatMessage lo fmt_text args))) (\<lambda>message.
       mbind (mread lo_open) (\<lambda>is_open.
         if \<not> is_open then mthrow (StdException ''Logger not initialized'')
         else mmodify (\<lambda>lo. lo\<lparr>lo_sink := lo_sink lo @ [(level, message)]\<rparr>))))"

datatype log_event = Init bool "string option" | Shutdown | Write level string "string list"

fun logger_step :: "log_event \<Rightarrow> logger \<Rightarrow> logger" where
  "logger_step (Init debug failure) lo = snd (logger_init debug failure lo)"
| "logger_step Shutdown lo = snd (logger_shutdown lo)"
| "logger_step (Write level fmt_text args) lo = snd (logger_write level fmt_text args lo)"


section \<open>Matches\<close>

text \<open>A match ends at a suffix of the text it started at, and changes no group but the pattern's own.\<close>

primrec groups :: "re \<Rightarrow> nat set" where
  "groups Eps = {}"
| "groups (Chr P) = {}"
| "groups (Seq a b) = groups a \<union> groups b"
| "groups (Alt a b) = groups a \<union> groups b"
| "groups (Star a) = groups a"
| "groups (Group n a) = insert n (groups a)"
| "groups (Backref n) = {}"
| "groups WordBoundary = {}"

definition moved :: "nat set \<Rightarrow> position \<Rightarrow> position \<Rightarrow> bool" where
  "moved N x y \<longleftrightarrow> suffix (ps_rest y) (ps_rest x) \<and> (\<forall>n. n \<notin> N \<longrightarrow> ps_groups y n = ps_groups x n)"

lemma moved_refl: "moved N x x"
  by (simp add: moved_def)

lemma moved_trans: "moved N x y \<Longrightarrow> moved N y z \<Longrightarrow> moved N x z"
  by (auto simp: moved_def intro: suffix_order.trans)

lemma moved_mono: "moved N x y \<Longrightarrow> N \<subseteq> M \<Longrightarrow> moved M x y"
  by (auto simp: moved_def)

lemma rounds_moved: "(\<And>x y. y \<in> set (f x) \<Longrightarrow> moved N x y) \<Longrightarrow> y \<in> set (rounds f n x) \<Longrightarrow> moved N x y"
proof (induction n arbitrary: x)
  case 0
  then show ?case by (simp add: moved_refl)
next
  case (Suc n)
  from Suc.prems(2) consider "y = x" | z where "z \<in> set (f x)" "y \<in> set (rounds f n z)"
    by (auto split: if_splits)
  then show ?case using Suc.IH Suc.prems(1) by cases (auto intro: moved_refl moved_trans)
qed

lemma re_match_moved: "y \<in> set (re_match r x) \<Longrightarrow> moved (groups r) x y"
proof (induction r arbitrary: x y)
  case (Chr P)
  then show ?case by (cases "ps_rest x") (auto simp: moved_def suffix_Cons split: if_splits)
next
  case (Seq a b)
  then obtain z where "z \<in> set (re_match a x)" "y \<in> set (re_match b z)" by auto
  with Seq.IH have "moved (groups a) x z" "moved (groups b) z y" by blast+
  then have "moved (groups (Seq a b)) x z" "moved (groups (Seq a b)) z y" by (auto elim: moved_mono)
  then show ?case by (rule moved_trans)
next
  case (Alt a b)
  then consider "moved (groups a) x y" | "moved (groups b) x y" by auto
  then show ?case by cases (auto elim: moved_mono)
next
  case (Star a)
  then show ?case by (auto intro: rounds_moved)
next
  case (Group n a)
  then obtain z where "z \<in> set (re_match a x)"
    "y = z\<lparr>ps_groups := (ps_groups z)(n := take (length (ps_rest x) - length (ps_rest z)) (ps_rest x))\<rparr>" by auto
  with Group.IH [of z x] show ?case by (simp add: moved_def)
next
  case (Backref n)
  then show ?case by (auto simp: moved_def suffix_drop Let_def split: if_splits)
qed (auto simp: moved_def split: if_splits)

text \<open>Patterns that match no empty text.\<close>

primrec consumes :: "re \<Rightarrow> bool" where
  "consumes Eps = False"
| "consumes (Chr P) = True"
| "consumes (Seq a b) = (consumes a \<or> consumes b)"
| "consumes (Alt a b) = (consumes a \<and> consumes b)"
| "consumes (Star a) = False"
| "consumes (Group n a) = consumes a"
| "consumes (Backref n) = False"
| "consumes WordBoundary = False"

lemma re_match_shorter: "y \<in> set (re_match r x) \<Longrightarrow> consumes r \<Longrightarrow> length (ps_rest y) < length (ps_rest x)"
proof (induction r arbitrary: x y)
  case (Chr P)
  then show ?case by (cases "ps_rest x") (auto split: if_splits)
next
  case (Seq a b)
  then obtain z where z: "z \<in> set (re_match a x)" "y \<in> set (re_match b z)" by auto
  have le: "length (ps_rest z) \<le> length (ps_rest x)" "length (ps_rest y) \<le> length (ps_rest z)"
    using z [THEN re_match_moved] by (simp_all add: moved_def suffix_length_le)
  from Seq.prems(2) consider "consumes a" | "consumes b" by auto
  then show ?case using Seq.IH z le by cases (meson le_less_trans less_le_trans)+
next
  case (Group n a)
  then obtain z where "z \<in> set (re_match a x)" "ps_rest y = ps_rest z" by auto
  with Group show ?case by simp
qed auto

lemma group_is_prefix:
  assumes "y \<in> set (re_match (Seq (Group n a) b) x)" and "n \<notin> groups b"
  shows "prefix (ps_groups y n) (ps_rest x)"
proof -
  from assms(1) obtain z where m: "z \<in> set (re_match (Group n a) x)" and b: "y \<in> set (re_match b z)" by auto
  from m have "prefix (ps_groups z n) (ps_rest x)" by (auto simp: take_is_prefix)
  moreover have "ps_groups y n = ps_groups z n" using re_match_moved [OF b] assms(2) by (simp add: moved_def)
  ultimately show ?thesis by simp
qed

section \<open>Tokens\<close>

text \<open>Three parts of at least ten characters each, separated by dots: the shape of a signed token.\<close>

definition starts_token :: "string \<Rightarrow> bool" where
  "starts_token s \<longleftrightarrow> (\<exists>x y z q. s = x @ ''.'' @ y @ ''.'' @ z @ q \<and> 10 \<le> length x \<and> 10 \<le> length y \<and> 10 \<le> length z \<and>
     (\<forall>c\<in>set (x @ y @ z). token_char c))"

definition no_token :: "string \<Rightarrow> bool" where
  "no_token s \<longleftrightarrow> (\<forall>t. suffix t s \<longrightarrow> \<not> starts_token t)"

definition token_run :: "char \<Rightarrow> bool" where
  "token_run c \<longleftrightarrow> token_char c \<or> c = CHR ''.''"

lemma no_token_suffix: "no_token s \<Longrightarrow> suffix t s \<Longrightarrow> no_token t"
  by (auto simp: no_token_def intro: suffix_order.trans)

lemma starts_tokenI:
  "10 \<le> length x \<Longrightarrow> 10 \<le> length y \<Longrightarrow> 10 \<le> length z \<Longrightarrow> \<forall>c\<in>set (x @ y @ z). token_char c \<Longrightarrow>
     starts_token (x @ ''.'' @ y @ ''.'' @ z @ q)"
  unfolding starts_token_def by blast

lemma starts_token_append: "starts_token u \<Longrightarrow> starts_token (u @ v)"
  unfolding starts_token_def by (metis append.assoc)

lemma starts_token_run: "starts_token s \<Longrightarrow> starts_token (takeWhile token_run s)"
proof -
  assume "starts_token s"
  then obtain x y z q where s: "s = (x @ ''.'' @ y @ ''.'' @ z) @ q"
    and l: "10 \<le> length x" "10 \<le> length y" "10 \<le> length z" "\<forall>c\<in>set (x @ y @ z). token_char c"
    unfolding starts_token_def by auto
  have "\<forall>c\<in>set (x @ ''.'' @ y @ ''.'' @ z). token_run c" using l(4) by (auto simp: token_run_def)
  then have "takeWhile token_run s = (x @ ''.'' @ y @ ''.'' @ z) @ takeWhile token_run q"
    unfolding s by (intro takeWhile_append2) blast
  then have "takeWhile token_run s = x @ ''.'' @ y @ ''.'' @ z @ takeWhile token_run q" by simp
  then show ?thesis using starts_tokenI [OF l] by metis
qed

text \<open>\<open>agree t s\<close>: up to the first character that is in no token, \<open>t\<close> is as \<open>s\<close> is.\<close>

definition agree :: "string \<Rightarrow> string \<Rightarrow> bool" where
  "agree t s \<longleftrightarrow> prefix (takeWhile token_run t) s"

lemma agree_token: "agree t s \<Longrightarrow> starts_token t \<Longrightarrow> starts_token s"
proof -
  assume "agree t s" "starts_token t"
  then obtain u where "s = takeWhile token_run t @ u" by (auto simp: agree_def prefix_def)
  with starts_token_append [OF starts_token_run [OF \<open>starts_token t\<close>]] show ?thesis by simp
qed

lemma agree_Cons: "agree t s \<Longrightarrow> agree (c # t) (c # s)"
  by (simp add: agree_def)

lemma agree_tag: "prefix a s \<Longrightarrow> \<not> token_run c \<Longrightarrow> agree (a @ c # t) s"
proof -
  assume "prefix a s" "\<not> token_run c"
  moreover have "prefix (takeWhile token_run (a @ c # t)) a" if "\<not> token_run c"
    using that by (induction a) auto
  ultimately show ?thesis by (auto simp: agree_def intro: prefix_order.trans)
qed

section \<open>Replacing keeps tokens out\<close>

abbreviation at :: "char option \<Rightarrow> string \<Rightarrow> position" where
  "at p s \<equiv> \<lparr>ps_before = p, ps_rest = s, ps_groups = (\<lambda>_. [])\<rparr>"

text \<open>
  A replacement whose text is a part \<open>a\<close> of what it replaces, taken from its start, and a fixed \<open>tag\<close> that
  no token can overlap. On texts in \<open>Q\<close>, no token starts where nothing matches, and none starts inside \<open>a\<close>.
\<close>

locale redaction =
  fixes r :: re and fmt :: "(nat \<Rightarrow> string) \<Rightarrow> string" and tag :: string and Q :: "string \<Rightarrow> bool"
  assumes tag_ends: "tag \<noteq> []" "\<not> token_run (hd tag)" "\<not> token_run (last tag)" "CHR ''.'' \<notin> set tag"
    and shorter: "y \<in> set (re_match r (at p s)) \<Longrightarrow> length (ps_rest y) < length s"
    and Q_suffix: "Q s \<Longrightarrow> suffix t s \<Longrightarrow> Q t"
    and unmatched: "Q s \<Longrightarrow> re_match r (at p s) = [] \<Longrightarrow> \<not> starts_token s"
    and replaced: "Q s \<Longrightarrow> y \<in> set (re_match r (at p s)) \<Longrightarrow>
      \<exists>a. fmt (ps_groups y) = a @ tag \<and> prefix a s \<and> (a = [] \<or> no_token s)"
begin

lemma replace_cases:
  obtains (finished) "s = []" and "regex_replace r fmt p s = []"
  | (copied) c cs where "s = c # cs" and "re_match r (at p s) = []"
      and "regex_replace r fmt p s = c # regex_replace r fmt (Some c) cs"
  | (matched) y where "y \<in> set (re_match r (at p s))"
      and "regex_replace r fmt p s = fmt (ps_groups y) @ regex_replace r fmt (ps_before y) (ps_rest y)"
proof (cases "re_match r (at p s)")
  case Nil
  then show thesis using regex_replace.simps [of r fmt p s] by (cases s) (simp_all add: finished copied)
next
  case (Cons y ys)
  have "filter (\<lambda>y. length (ps_rest y) < length s) (re_match r (at p s)) = re_match r (at p s)"
    using shorter by (intro filter_True) blast
  with Cons show thesis using regex_replace.simps [of r fmt p s] by (intro matched [of y]) simp_all
qed

lemma suffix_of_append:
  assumes "suffix v (x @ y)"
  obtains "suffix v y" | w where "suffix w x" and "w \<noteq> []" and "v = w @ y"
  using assms unfolding suffix_append by (metis append_Nil suffix_order.order_refl)

text \<open>No token starts inside the tag, whatever follows it.\<close>

lemma tag_no_token: "suffix t tag \<Longrightarrow> t \<noteq> [] \<Longrightarrow> \<not> starts_token (t @ u)"
proof
  assume t: "suffix t tag" "t \<noteq> []" and "starts_token (t @ u)"
  then have "starts_token (takeWhile token_run (t @ u))" by (intro starts_token_run)
  moreover have "last t = last tag" using t by (auto simp: suffix_def)
  with tag_ends(3) have "\<not> token_run (last t)" by simp
  with last_in_set [OF t(2)] have "takeWhile token_run (t @ u) = takeWhile token_run t"
    by (rule takeWhile_append1)
  ultimately have "CHR ''.'' \<in> set (takeWhile token_run t)" by (auto simp: starts_token_def)
  then have "CHR ''.'' \<in> set t" by (meson set_takeWhileD)
  with t(1) tag_ends(4) show False by (auto simp: suffix_def)
qed

lemma replace_agrees: "Q s \<Longrightarrow> agree (regex_replace r fmt p s) s"
proof (induction "length s" arbitrary: p s rule: less_induct)
  case less
  show ?case
  proof (cases rule: replace_cases [of s p])
    case finished
    then show ?thesis by (simp add: agree_def)
  next
    case (copied c cs)
    have "Q cs" using less.prems copied(1) by (auto intro: Q_suffix simp: suffix_Cons)
    with less.hyps [of cs "Some c"] copied show ?thesis by (simp add: agree_Cons)
  next
    case (matched y)
    obtain a where a: "fmt (ps_groups y) = a @ tag" "prefix a s" using replaced [OF less.prems matched(1)] by blast
    obtain h t where "tag = h # t" using tag_ends(1) by (cases tag) auto
    with matched(2) a tag_ends(2) show ?thesis by (simp add: agree_tag)
  qed
qed

lemma replace_no_token: "Q s \<Longrightarrow> no_token (regex_replace r fmt p s)"
proof (induction "length s" arbitrary: p s rule: less_induct)
  case less
  show ?case
  proof (cases rule: replace_cases [of s p])
    case finished
    then show ?thesis by (simp add: no_token_def starts_token_def)
  next
    case (copied c cs)
    have Q: "Q cs" using less.prems copied(1) by (auto intro: Q_suffix simp: suffix_Cons)
    have "agree (c # regex_replace r fmt (Some c) cs) s"
      using agree_Cons [OF replace_agrees [OF Q]] copied(1) by simp
    with unmatched [OF less.prems copied(2)] have "\<not> starts_token (c # regex_replace r fmt (Some c) cs)"
      using agree_token by blast
    moreover have "no_token (regex_replace r fmt (Some c) cs)" using less.hyps [OF _ Q] copied(1) by simp
    ultimately show ?thesis using copied(3) by (auto simp: no_token_def suffix_Cons)
  next
    case (matched y)
    let ?u = "regex_replace r fmt (ps_before y) (ps_rest y)"
    obtain a where a: "fmt (ps_groups y) = a @ tag" "prefix a s" "a = [] \<or> no_token s"
      using replaced [OF less.prems matched(1)] by blast
    have "suffix (ps_rest y) s" using re_match_moved [OF matched(1)] by (simp add: moved_def)
    with less.hyps [OF shorter [OF matched(1)]] less.prems have u: "no_token ?u" by (blast intro: Q_suffix)
    obtain h t where tag: "tag = h # t" using tag_ends(1) by (cases tag) auto
    have "\<not> starts_token v" if v: "suffix v (a @ tag @ ?u)" for v
    proof -
      consider "suffix v ?u" | w where "suffix w tag" "w \<noteq> []" "v = w @ ?u"
        | w where "suffix w a" "w \<noteq> []" "v = w @ tag @ ?u"
        using suffix_of_append [OF v] suffix_of_append [of v tag ?u] by blast
      then show ?thesis
      proof cases
        case 1
        with u show ?thesis by (simp add: no_token_def)
      next
        case 2
        then show ?thesis using tag_no_token by blast
      next
        case (3 w)
        then have "no_token s" using a(3) by auto
        obtain b c where s: "s = a @ b" "a = c @ w" using a(2) 3(1) by (auto simp: prefix_def suffix_def)
        have "agree v (w @ b)" unfolding 3(3) tag using agree_tag [of w "w @ b" h] tag_ends(2) tag by simp
        moreover have "\<not> starts_token (w @ b)" using \<open>no_token s\<close> s by (auto simp: no_token_def suffix_def)
        ultimately show ?thesis using agree_token by blast
      qed
    qed
    with matched(2) a(1) show ?thesis by (simp add: no_token_def)
  qed
qed

end

section \<open>The four patterns\<close>

lemma consumes_parts [simp]:
  "consumes (times (Suc n) (Chr P) r)" "consumes (plus (Chr P))" "consumes token_part"
  by (simp_all add: plus_def token_part_def numeral_eq_Suc)

lemma patterns_consume:
  "consumes jwt_pattern" "consumes hash_pattern" "consumes key_value_sensitive_pattern" "consumes header_sensitive_pattern"
proof -
  have "consumes (times 48 (Chr is_hex_char) r)" for r using consumes_parts(1) [of 47 is_hex_char r] by simp
  then show "consumes hash_pattern" by (simp add: hash_pattern_def)
qed (simp_all add: jwt_pattern_def key_value_sensitive_pattern_def header_sensitive_pattern_def)

text \<open>\<open>can r s t\<close>: wherever the text \<open>s\<close> is left, some match of \<open>r\<close> leaves \<open>t\<close>.\<close>

definition can :: "re \<Rightarrow> string \<Rightarrow> string \<Rightarrow> bool" where
  "can r s t \<longleftrightarrow> (\<forall>x. ps_rest x = s \<longrightarrow> (\<exists>y\<in>set (re_match r x). ps_rest y = t))"

lemma can_Chr: "P c \<Longrightarrow> can (Chr P) (c # t) t"
  by (simp add: can_def)

lemma can_Seq: "can a s u \<Longrightarrow> can b u t \<Longrightarrow> can (Seq a b) s t"
  by (fastforce simp: can_def)

lemma can_Group: "can a s t \<Longrightarrow> can (Group n a) s t"
  by (auto simp: can_def)

lemma can_rounds:
  "\<forall>c\<in>set w. P c \<Longrightarrow> length w \<le> n \<Longrightarrow> ps_rest x = w @ t \<Longrightarrow>
     \<exists>y\<in>set (rounds (re_match (Chr P)) n x). ps_rest y = t"
proof (induction n arbitrary: x w)
  case 0
  then show ?case by simp
next
  case (Suc n)
  show ?case
  proof (cases w)
    case Nil
    with Suc.prems(3) show ?thesis by simp
  next
    case (Cons c cs)
    let ?y = "x\<lparr>ps_before := Some c, ps_rest := cs @ t\<rparr>"
    have "?y \<in> set (re_match (Chr P) x)" using Cons Suc.prems by simp
    moreover have "\<exists>z\<in>set (rounds (re_match (Chr P)) n ?y). ps_rest z = t"
      using Cons Suc.prems by (intro Suc.IH [of cs]) simp_all
    moreover have "length (ps_rest ?y) < length (ps_rest x)" using Cons Suc.prems(3) by simp
    ultimately show ?thesis unfolding rounds.simps by (auto simp del: re_match.simps)
  qed
qed

lemma can_Star: "\<forall>c\<in>set w. P c \<Longrightarrow> can (Star (Chr P)) (w @ t) t"
  using can_rounds [of w P] by (simp add: can_def)

lemma can_times:
  "\<forall>c\<in>set w. P c \<Longrightarrow> length w = n \<Longrightarrow> can r s t \<Longrightarrow> can (times n (Chr P) r) (w @ s) t"
proof (induction n arbitrary: w)
  case 0
  then show ?case by simp
next
  case (Suc n)
  then obtain c cs where "w = c # cs" by (cases w) auto
  with Suc show ?case by (auto intro!: can_Seq [OF can_Chr])
qed

lemma can_token_part: "10 \<le> length w \<Longrightarrow> \<forall>c\<in>set w. token_char c \<Longrightarrow> can token_part (w @ t) t"
proof -
  assume w: "10 \<le> length w" "\<forall>c\<in>set w. token_char c"
  then have "can token_part (take 10 w @ drop 10 w @ t) t"
    unfolding token_part_def by (intro can_times can_Star) (auto dest: in_set_takeD in_set_dropD)
  then show ?thesis by (simp only: append.assoc [symmetric] append_take_drop_id)
qed

lemma jwt_found: "starts_token s \<Longrightarrow> re_match jwt_pattern (at p s) \<noteq> []"
proof -
  assume "starts_token s"
  then obtain x y z q where s: "s = x @ CHR ''.'' # y @ CHR ''.'' # z @ q"
    and l: "10 \<le> length x" "10 \<le> length y" "10 \<le> length z"
      "\<forall>c\<in>set x. token_char c" "\<forall>c\<in>set y. token_char c" "\<forall>c\<in>set z. token_char c"
    unfolding starts_token_def by auto
  have "can jwt_pattern s q" unfolding s jwt_pattern_def
    by (intro can_Seq [OF can_Group [OF can_token_part [OF l(1,4)]]] can_Seq [OF can_Chr]
        can_Seq [OF can_Group [OF can_token_part [OF l(2,5)]]] can_Group [OF can_token_part [OF l(3,6)]]) simp_all
  then have "\<exists>y\<in>set (re_match jwt_pattern (at p s)). ps_rest y = q"
    unfolding can_def by (rule allE [of _ "at p s"]) simp
  then show ?thesis by (metis empty_iff list.set(1))
qed

lemma tags_ok:
  "\<not> token_run CHR ''<''" "\<not> token_run CHR ''>''"
  by (simp_all add: token_run_def token_char_def is_word_char_def is_digit_def code_def)

interpretation jwt: redaction jwt_pattern "\<lambda>_. ''<JWT_REDACTED>''" "''<JWT_REDACTED>''" "\<lambda>_. True"
proof unfold_locales
  fix y p s assume "y \<in> set (re_match jwt_pattern (at p s))"
  from re_match_shorter [OF this patterns_consume(1)] show "length (ps_rest y) < length s" by simp
qed (use jwt_found in \<open>auto simp: tags_ok\<close>)

interpretation hash: redaction hash_pattern "\<lambda>_. ''<HASH_REDACTED>''" "''<HASH_REDACTED>''" no_token
proof unfold_locales
  fix y p s assume "y \<in> set (re_match hash_pattern (at p s))"
  from re_match_shorter [OF this patterns_consume(2)] show "length (ps_rest y) < length s" by simp
qed (auto simp: tags_ok no_token_def intro: suffix_order.trans)

interpretation key_value: redaction key_value_sensitive_pattern "\<lambda>g. g 1 @ ''<REDACTED>''" "''<REDACTED>''" no_token
proof unfold_locales
  fix y p s assume m: "y \<in> set (re_match key_value_sensitive_pattern (at p s))"
  from re_match_shorter [OF m patterns_consume(3)] show "length (ps_rest y) < length s" by simp
  assume "no_token s"
  moreover have "prefix (ps_groups y 1) (ps_rest (at p s))"
    using m unfolding key_value_sensitive_pattern_def by (rule group_is_prefix) (simp add: plus_def)
  ultimately show "\<exists>a. ps_groups y 1 @ ''<REDACTED>'' = a @ ''<REDACTED>'' \<and> prefix a s \<and> (a = [] \<or> no_token s)"
    by auto
qed (auto simp: tags_ok no_token_def intro: suffix_order.trans)

interpretation header: redaction header_sensitive_pattern "\<lambda>g. g 1 @ ''<REDACTED>''" "''<REDACTED>''" no_token
proof unfold_locales
  fix y p s assume m: "y \<in> set (re_match header_sensitive_pattern (at p s))"
  from re_match_shorter [OF m patterns_consume(4)] show "length (ps_rest y) < length s" by simp
  assume "no_token s"
  moreover have "prefix (ps_groups y 1) (ps_rest (at p s))"
    using m unfolding header_sensitive_pattern_def by (rule group_is_prefix) (simp add: plus_def)
  ultimately show "\<exists>a. ps_groups y 1 @ ''<REDACTED>'' = a @ ''<REDACTED>'' \<and> prefix a s \<and> (a = [] \<or> no_token s)"
    by auto
qed (auto simp: tags_ok no_token_def intro: suffix_order.trans)

lemma sanitize_no_token: "no_token (sanitize s)"
  unfolding sanitize_def Let_def
  by (intro header.replace_no_token key_value.replace_no_token hash.replace_no_token jwt.replace_no_token TrueI)

section \<open>What is logged\<close>

lemma logger_step_sink:
  "\<forall>l\<in>set (lo_sink lo). no_token (snd l) \<Longrightarrow> \<forall>l\<in>set (lo_sink (logger_step e lo)). no_token (snd l)"
  by (cases e) (auto simp: logger_init_def logger_shutdown_def logger_write_def run_simps sanitize_no_token split: option.splits)

text \<open>
  C32: no signed token ever reaches a log file. After any sequence of initialisations, shutdowns and log
  statements, whatever their arguments and their formatting, no line handed to spdlog contains three parts
  of at least ten characters of the URL alphabet joined by dots, the shape of the QR tokens of the program.
\<close>

theorem no_token_is_logged:
  assumes "lo_sink lo = []" and "(level, line) \<in> set (lo_sink (fold logger_step es lo))"
    and "10 \<le> length x" and "10 \<le> length y" and "10 \<le> length z" and "\<forall>c\<in>set (x @ y @ z). token_char c"
  shows "line \<noteq> u @ (x @ ''.'' @ y @ ''.'' @ z) @ v"
proof
  assume l: "line = u @ (x @ ''.'' @ y @ ''.'' @ z) @ v"
  have "\<forall>l\<in>set (lo_sink lo). no_token (snd l) \<Longrightarrow> \<forall>l\<in>set (lo_sink (fold logger_step es lo)). no_token (snd l)"
  proof (induction es arbitrary: lo)
    case (Cons e es)
    then show ?case using Cons.IH [OF logger_step_sink [OF Cons.prems]] by simp
  qed simp
  then have "\<forall>l\<in>set (lo_sink (fold logger_step es lo)). no_token (snd l)" by (simp add: assms(1))
  from bspec [OF this assms(2)] have "no_token line" by simp
  moreover have "starts_token (x @ ''.'' @ y @ ''.'' @ z @ v)" using assms(3-6) by (rule starts_tokenI)
  moreover have "suffix (x @ ''.'' @ y @ ''.'' @ z @ v) line" unfolding l suffix_def by (intro exI [of _ u]) simp
  ultimately show False unfolding no_token_def by blast
qed

end
