(* ===== verification/StartWitnesses.thy ===== *)
theory StartWitnesses
  imports BackendMain GatewayMain Cluster Logger "HOL-Library.Code_Target_Numeral"
begin

text \<open>
  The properties of the start-up, of the worker pools of both processes and of the logger that have
  hypotheses, each applied to a concrete input that satisfies them.
\<close>

section \<open>Start-up\<close>

definition env_lines :: "string list" where
  "env_lines = [''# demo'', ''LOG_FILE=l'', ''LOG_MAX_FILE_SIZE=9'', ''LOG_MAX_FILES=3'', ''LOG_CONSOLE_ENABLED=no'',
     ''MYSQL_HOST=h'', ''MYSQL_PORT=3306'', ''MYSQL_USER=u'', ''MYSQL_PASSWORD=p'', ''MYSQL_DATABASE=d'',
     ''MYSQL_CONNECT_TIMEOUT_SECONDS=3'', ''MYSQL_READ_TIMEOUT_SECONDS=3'', ''MYSQL_WRITE_TIMEOUT_SECONDS=3'',
     ''MYSQL_POOL_SIZE = 2  # connections'', ''REDIS_HOST=h'', ''REDIS_PORT=6379'', ''REDIS_DB=0'',
     ''REDIS_BACKEND_USERNAME=b'', ''REDIS_BACKEND_PASSWORD=p'', ''REDIS_GATEWAY_USERNAME=g'', ''REDIS_GATEWAY_PASSWORD=p'',
     ''REDIS_CONNECT_TIMEOUT_SECONDS=3'', ''REDIS_COMMAND_TIMEOUT_SECONDS=3'', ''REDIS_POOL_SIZE=2'',
     ''PAYMENT_BACKEND_IP=127.0.0.1'', ''PAYMENT_BACKEND_HTTP_PORT=8081'', ''PAYMENT_BACKEND_WEBSOCKET_PORT=8084'',
     ''PAYMENT_GATEWAY_HTTP_PORT=73618'', ''PAYMENT_GATEWAY_WEBSOCKET_PORT=8083'']"

definition demo_boot :: boot where
  "demo_boot = \<lparr>bt_argv = [''payment'', ''.env''],
     bt_files = [''.env'' \<mapsto> concat (map (\<lambda>l. l @ [CHR 0x0A]) env_lines)],
     bt_log_error = None, bt_sigint_error = None, bt_sigterm_error = None, bt_listen = Listens, bt_epoll = EpollWorks\<rparr>"

definition fresh_redis :: redis where
  "fresh_redis = \<lparr>r_pool = empty_pool,
     r_cfg = \<lparr>rd_host = [], rd_port = 0, rd_db = 0, rd_username = [], rd_password = [], rd_connect_timeout_seconds = 0,
       rd_command_timeout_seconds = 0, rd_pool_size = 0\<rparr>,
     r_store = (\<lambda>_. None), r_events = [], r_connects = []\<rparr>"

definition fresh_backend :: "world process" where
  "fresh_backend = \<lparr>pr_values = (\<lambda>_. None),
     pr_world = \<lparr>w_mysql = \<lparr>m_pool = empty_pool, m_pool_size = 0,
         m_db = \<lparr>users = [], accounts = [], orders = [], sessions = [], attempts = [], session_seq = 1, attempt_seq = 1\<rparr>,
         m_txn = None, m_pings = [], m_connects = [], m_events = []\<rparr>,
       w_redis = fresh_redis,
       w_workers = \<lparr>wk_count = 0, wk_initialized = False, wk_stop = False, wk_tasks = [], wk_started = []\<rparr>,
       w_random = (\<lambda>k n. None), w_draws = 0\<rparr>,
     pr_fds = 0\<rparr>"

definition fresh_gateway :: "gateway_state process" where
  "fresh_gateway = \<lparr>pr_values = (\<lambda>_. None),
     pr_world = \<lparr>gs_world = \<lparr>gw_redis = fresh_redis,
         gw_registry = \<lparr>session_to_fd = [], fd_to_session = [], ws_closed = [], ws_output = [], ws_writes = []\<rparr>,
         gw_link = \<lparr>ln_open = 0, ln_sent = [], ln_connects = [], ln_writes = [], ln_peer = (\<lambda>_ _. [])\<rparr>\<rparr>,
       gs_workers = \<lparr>wk_count = 0, wk_initialized = False, wk_stop = False, wk_tasks = [], wk_started = []\<rparr>\<rparr>,
     pr_fds = 0\<rparr>"

lemma backend_starts: "\<not> isl (fst (backend_boot demo_boot fresh_backend))"
  by code_simp

lemma gateway_starts: "\<not> isl (fst (gateway_boot demo_boot fresh_gateway))"
  by code_simp

lemma fresh_unstarted: "unstarted fresh_backend" "gateway_unstarted fresh_gateway"
  by (simp_all add: unstarted_def gateway_unstarted_def fresh_backend_def fresh_gateway_def fresh_redis_def
      pool_fresh_def empty_pool_def)


text \<open>The port 73618 of the configuration becomes 8082.\<close>

theorem gateway_ready_when_listening_witness:
  "\<exists>options p' g. gateway_boot demo_boot fresh_gateway = (Inr options, p') \<and> gw_paymentGateway (pr_values p') = Inr g \<and>
     uint (op_port (go_http options)) = gg_http_port g mod 2 ^ 16"
proof -
  obtain options p' where run: "gateway_boot demo_boot fresh_gateway = (Inr options, p')"
    using gateway_starts by (cases "gateway_boot demo_boot fresh_gateway"; cases "fst (gateway_boot demo_boot fresh_gateway)") auto
  from gateway_ready_when_listening [OF run fresh_unstarted(2)] run show ?thesis by blast
qed

section \<open>The worker pools of both processes\<close>

text \<open>A browser's payment, its notification and the answer to it.\<close>

theorem cluster_rests_or_waits_witness:
  "\<exists>s. cluster_run [GwTake True, BeTake True, BeTake True, GwTake True]
      (gw_submit Browser (cluster_init 4 4 20 20)) = Some s \<and> (cluster_stuck s \<longrightarrow> cluster_idle s \<or> circular_wait s)"
proof -
  let ?s = "gw_submit Browser (cluster_init 4 4 20 20)"
  have "cluster_step ClientConnects (cluster_init 4 4 20 20) = Some ?s"
    by (simp add: gw_admits_def cluster_init_def worker_init_def)
  then have s: "cluster_reach ?s" by (rule cluster_reach.step [OF cluster_reach.start])
  have "cluster_run [GwTake True, BeTake True, BeTake True, GwTake True] ?s \<noteq> None" by code_simp
  then obtain t where run: "cluster_run [GwTake True, BeTake True, BeTake True, GwTake True] ?s = Some t" by blast
  from cluster_rests_or_waits [OF s run] run show ?thesis by simp
qed


section \<open>The logger\<close>

definition demo_logger :: logger where
  "demo_logger = \<lparr>lo_format = (\<lambda>f args. Inr (f @ concat args)), lo_initialized = False, lo_open = False, lo_debug = False,
     lo_sink = []\<rparr>"

theorem no_token_is_logged_witness:
  "lo_sink (fold logger_step [Init True None, Write Info ''t='' [''aaaaaaaaaa.bbbbbbbbbb.cccccccccc'']] demo_logger) =
     [(Info, ''t=<JWT_REDACTED>'')] \<and>
   ''t=<JWT_REDACTED>'' \<noteq> ''t='' @ (''aaaaaaaaaa'' @ ''.'' @ ''bbbbbbbbbb'' @ ''.'' @ ''cccccccccc'') @ []"
proof -
  have sink: "lo_sink (fold logger_step [Init True None, Write Info ''t='' [''aaaaaaaaaa.bbbbbbbbbb.cccccccccc'']] demo_logger) =
      [(Info, ''t=<JWT_REDACTED>'')]"
    by code_simp
  then have m: "(Info, ''t=<JWT_REDACTED>'') \<in> set (lo_sink (fold logger_step
      [Init True None, Write Info ''t='' [''aaaaaaaaaa.bbbbbbbbbb.cccccccccc'']] demo_logger))" by simp
  have c: "\<forall>c\<in>set (''aaaaaaaaaa'' @ ''bbbbbbbbbb'' @ ''cccccccccc''). token_char c" by code_simp
  have "lo_sink demo_logger = []" by (simp add: demo_logger_def)
  from no_token_is_logged [OF this m _ _ _ c, of "''t=''" "[]"] sink show ?thesis by simp
qed

end
