(* ===== verification/Shutdown.thy ===== *)
theory Shutdown
  imports HttpServer
begin

text \<open>
  The end of a process, from the signal (\<open>onShutdownSignal\<close>) to its last step: the accepting thread leaves
  the loop of \<open>run\<close>, \<open>main\<close> returns, and the objects with static storage duration are destroyed, the most
  recently constructed first. The destructor of the worker pool waits until its threads have served what
  they were handed. The threads are interleaved with the steps of \<open>HttpServer\<close>.

  An object is represented by its name only: what matters is whether it still exists when it is used.
\<close>

section \<open>The state of a process\<close>

text \<open>
  The singletons (\<open>instance()\<close>), the regular expressions of the logger and the constant text of
  \<open>extractOrderSn\<close>, which are constructed when they are first used.
\<close>

datatype static_object =
    ConfigInst | LoggerInst | RedactionRegexes | MySqlInst | RedisInst | StoreInst | WorkersInst
  | PrefixText | RegistryInst

text \<open>Where \<open>main\<close> is: in \<open>run\<close>, behind it, in \<open>exit\<close>, in the destructor of the worker pool, at its end.\<close>

datatype phase = Running | Returned | Exiting | Joining | Ended

text \<open>
  \<open>pc_passed\<close>: the accepting thread has seen \<open>g_running\<close> set and is in \<open>accept\<close>; \<open>pc_statics\<close>: the objects that
  have been constructed, the last one first; \<open>pc_dangling\<close>: an object was used after its destruction.
\<close>

record lifecycle =
  pc_server :: server
  pc_running :: bool
  pc_passed :: bool
  pc_phase :: phase
  pc_statics :: "static_object list"
  pc_dead :: "static_object list"
  pc_dangling :: bool

section \<open>Its steps\<close>

datatype process_event =
    Signal
  | CheckRunning
  | NoConnection
  | Server server_event
  | Touch int static_object
  | LeaveLoop
  | EpollFails
  | LeaveMain
  | DestroyStatic
  | JoinWorkers

definition onShutdownSignal :: "lifecycle \<Rightarrow> lifecycle" where
  "onShutdownSignal p = p\<lparr>pc_running := False\<rparr>"

text \<open>\<open>http_server::Server\<close> is a local variable of \<open>main\<close>; the tasks of connections hold a pointer to it.\<close>

definition server_gone :: "lifecycle \<Rightarrow> bool" where
  "server_gone p \<longleftrightarrow> pc_phase p \<in> {Exiting, Joining, Ended}"

fun touches_server :: "server_event \<Rightarrow> bool" where
  "touches_server (ReleaseSlot fd) = True"
| "touches_server _ = False"

text \<open>The test of both loops of \<open>run\<close>, and the two ways out of them.\<close>

definition at_loop_test :: "lifecycle \<Rightarrow> bool" where
  "at_loop_test p \<longleftrightarrow> pc_phase p = Running \<and> sv_acceptor (pc_server p) = Waiting \<and> \<not> pc_passed p"

text \<open>A handler uses a function-local or global object: it is constructed if that is its first use.\<close>

definition touch :: "static_object \<Rightarrow> lifecycle \<Rightarrow> lifecycle" where
  "touch x p =
     (if x \<in> set (pc_dead p) then p\<lparr>pc_dangling := True\<rparr>
      else if x \<in> set (pc_statics p) then p
      else p\<lparr>pc_statics := x # pc_statics p\<rparr>)"

text \<open>
  One step of \<open>exit\<close>: the most recently constructed object is destroyed. \<open>~WorkerPool\<close> sets \<open>stop_\<close> and joins.
\<close>

definition destroy_static :: "lifecycle \<Rightarrow> lifecycle" where
  "destroy_static p = (case pc_statics p of
      [] \<Rightarrow> p\<lparr>pc_phase := Ended\<rparr>
    | x # xs \<Rightarrow>
        if x = WorkersInst
        then p\<lparr>pc_statics := xs, pc_phase := Joining,
               pc_server := (pc_server p)\<lparr>sv_workers := worker_stop (sv_workers (pc_server p))\<rparr>\<rparr>
        else p\<lparr>pc_statics := xs, pc_dead := x # pc_dead p\<rparr>)"

definition workers_left :: "server \<Rightarrow> bool" where
  "workers_left s \<longleftrightarrow> wk_tasks (sv_workers s) = [] \<and> sv_running s = []"

fun process_step :: "process_event \<Rightarrow> lifecycle \<Rightarrow> lifecycle option" where
  "process_step Signal p = Some (onShutdownSignal p)"
| "process_step CheckRunning p = (if at_loop_test p \<and> pc_running p then Some (p\<lparr>pc_passed := True\<rparr>) else None)"
| "process_step NoConnection p = (if pc_passed p then Some (p\<lparr>pc_passed := False\<rparr>) else None)"
| "process_step (Server e) p =
     (if is_accept e \<and> \<not> pc_passed p then None
      else map_option (\<lambda>s. p\<lparr>pc_server := s, pc_passed := (pc_passed p \<and> \<not> is_accept e),
          pc_dangling := (pc_dangling p \<or> touches_server e \<and> server_gone p)\<rparr>) (server_step e (pc_server p)))"
| "process_step (Touch fd x) p =
     (if (fd, Handling) \<in> set (sv_running (pc_server p)) \<and> x \<noteq> WorkersInst then Some (touch x p) else None)"
| "process_step LeaveLoop p = (if at_loop_test p \<and> \<not> pc_running p then Some (p\<lparr>pc_phase := Returned\<rparr>) else None)"
| "process_step EpollFails p = (if at_loop_test p then Some (p\<lparr>pc_phase := Returned\<rparr>) else None)"
| "process_step LeaveMain p = (if pc_phase p = Returned then Some (p\<lparr>pc_phase := Exiting\<rparr>) else None)"
| "process_step DestroyStatic p = (if pc_phase p = Exiting then Some (destroy_static p) else None)"
| "process_step JoinWorkers p =
     (if pc_phase p = Joining \<and> workers_left (pc_server p)
      then Some (p\<lparr>pc_phase := Exiting, pc_dead := WorkersInst # pc_dead p\<rparr>) else None)"

fun process_run :: "process_event list \<Rightarrow> lifecycle \<Rightarrow> lifecycle option" where
  "process_run [] p = Some p"
| "process_run (e # es) p = (case process_step e p of None \<Rightarrow> None | Some p' \<Rightarrow> process_run es p')"

text \<open>
  What \<open>main\<close> of either process has constructed, in this order, before the worker pool
  (backend/main.cpp and gateway/main.cpp).
\<close>

definition backend_statics :: "static_object list" where
  "backend_statics = [ConfigInst, LoggerInst, RedactionRegexes, MySqlInst, RedisInst]"

definition gateway_statics :: "static_object list" where
  "gateway_statics = [ConfigInst, LoggerInst, RedactionRegexes, StoreInst]"

definition process_init :: "static_object list \<Rightarrow> server \<Rightarrow> lifecycle" where
  "process_init early s =
     \<lparr>pc_server = s, pc_running = True, pc_passed = False, pc_phase = Running,
      pc_statics = WorkersInst # rev early, pc_dead = [], pc_dangling = False\<rparr>"

inductive process_reach :: "static_object list \<Rightarrow> lifecycle \<Rightarrow> bool" for early where
  start: "server_init s \<Longrightarrow> early \<in> {backend_statics, gateway_statics} \<Longrightarrow> process_reach early (process_init early s)"
| step: "process_reach early p \<Longrightarrow> process_step e p = Some p' \<Longrightarrow> process_reach early p'"


section \<open>The invariant\<close>

text \<open>The server as if its worker pool had not been stopped: the threads serve the queue all the same.\<close>

definition unstopped :: "server \<Rightarrow> server" where
  "unstopped s = s\<lparr>sv_workers := (sv_workers s)\<lparr>wk_stop := False\<rparr>\<rparr>"

lemma unstopped_simps [simp]:
  "sv_acceptor (unstopped s) = sv_acceptor s" "sv_running (unstopped s) = sv_running s"
  "sv_open (unstopped s) = sv_open s" "sv_active (unstopped s) = sv_active s"
  "wk_tasks (sv_workers (unstopped s)) = wk_tasks (sv_workers s)"
  "wk_count (sv_workers (unstopped s)) = wk_count (sv_workers s)"
  "work (unstopped s) = work s" "workers_left (unstopped s) = workers_left s"
  "\<not> wk_stop (sv_workers s) \<Longrightarrow> unstopped s = s"
  by (simp_all add: unstopped_def work_def workers_left_def)

lemma unstopped_stop [simp]: "unstopped (s\<lparr>sv_workers := worker_stop (sv_workers s)\<rparr>) = unstopped s"
  by (simp add: unstopped_def worker_stop_def)

text \<open>While nobody accepts, only the workers can make a step, and they do not look at the stop.\<close>

lemma worker_event:
  assumes "server_step e s = Some s'" and "sv_acceptor s = Waiting" and "\<not> is_accept e"
  shows "server_step e (unstopped s) = Some (unstopped s') \<and> sv_acceptor s' = Waiting \<and>
    (workers_left s \<longrightarrow> workers_left s')"
  using assms
  by (cases e) (auto simp: unstopped_def workers_left_def worker_turn_def close_fd_def releaseConnectionSlot_def
      split: if_splits list.splits)

lemma server_step_stop: "server_step e s = Some s' \<Longrightarrow> wk_stop (sv_workers s') = wk_stop (sv_workers s)"
  by (cases e) (auto simp: worker_turn_def close_fd_def releaseConnectionSlot_def count_up_def check_slot_def
      worker_submit_def run_simps split: if_splits list.splits acceptor.splits)

text \<open>The objects that are still to be destroyed after the worker pool.\<close>

definition statics_ok :: "static_object list \<Rightarrow> lifecycle \<Rightarrow> bool" where
  "statics_ok early p \<longleftrightarrow>
     distinct (pc_statics p) \<and> set (pc_statics p) \<inter> set (pc_dead p) = {} \<and>
     (if WorkersInst \<in> set (pc_dead p)
      then pc_phase p \<in> {Exiting, Ended} \<and> WorkersInst \<notin> set (pc_statics p) \<and> workers_left (pc_server p)
      else pc_phase p \<noteq> Ended \<and> (\<exists>ys. pc_statics p = ys @ (if pc_phase p = Joining then [] else [WorkersInst]) @ rev early \<and>
        WorkersInst \<notin> set ys))"

definition process_ok :: "static_object list \<Rightarrow> lifecycle \<Rightarrow> bool" where
  "process_ok early p \<longleftrightarrow> WorkersInst \<notin> set early \<and> statics_ok early p \<and> server_ok (unstopped (pc_server p)) \<and>
     (if pc_phase p = Running then \<not> wk_stop (sv_workers (pc_server p)) else sv_acceptor (pc_server p) = Waiting) \<and>
     (pc_passed p \<longrightarrow> pc_phase p = Running \<and> sv_acceptor (pc_server p) = Waiting)"

lemma statics_ok_cong:
  "statics_ok early p \<Longrightarrow> pc_statics p' = pc_statics p \<Longrightarrow> pc_dead p' = pc_dead p \<Longrightarrow> pc_phase p' = pc_phase p \<Longrightarrow>
     (workers_left (pc_server p) \<longrightarrow> pc_phase p \<in> {Exiting, Ended} \<longrightarrow> workers_left (pc_server p')) \<Longrightarrow> statics_ok early p'"
  by (auto simp: statics_ok_def)

lemma statics_ok_phase:
  "statics_ok early p \<Longrightarrow> pc_phase p \<in> {Running, Returned} \<Longrightarrow> ph \<in> {Returned, Exiting} \<Longrightarrow>
     statics_ok early (p\<lparr>pc_phase := ph\<rparr>)"
  by (auto simp: statics_ok_def split: if_splits)

lemma statics_ok_join:
  assumes "statics_ok early p" and "WorkersInst \<notin> set early" and "pc_phase p = Joining" and "workers_left (pc_server p)"
  shows "statics_ok early (p\<lparr>pc_phase := Exiting, pc_dead := WorkersInst # pc_dead p\<rparr>)"
proof -
  from assms have "WorkersInst \<notin> set (pc_statics p)" by (auto simp: statics_ok_def split: if_splits)
  with assms show ?thesis by (simp add: statics_ok_def)
qed

lemma touch_ok:
  assumes "statics_ok early p" and "x \<noteq> WorkersInst"
  shows "statics_ok early (touch x p)"
proof (cases "x \<in> set (pc_dead p) \<or> x \<in> set (pc_statics p)")
  case True
  with assms(1) show ?thesis by (auto simp: touch_def intro: statics_ok_cong)
next
  case new: False
  show ?thesis
  proof (cases "WorkersInst \<in> set (pc_dead p)")
    case True
    with new assms show ?thesis by (auto simp: statics_ok_def touch_def)
  next
    case False
    with assms obtain ys where ys: "pc_statics p = ys @ (if pc_phase p = Joining then [] else [WorkersInst]) @ rev early"
      "WorkersInst \<notin> set ys"
      by (auto simp: statics_ok_def)
    then have "pc_statics (touch x p) = (x # ys) @ (if pc_phase p = Joining then [] else [WorkersInst]) @ rev early"
      "WorkersInst \<notin> set (x # ys)"
      using new assms(2) by (auto simp: touch_def)
    moreover have "set (pc_statics (touch x p)) \<inter> set (pc_dead p) = {}" "distinct (pc_statics (touch x p))"
      "pc_phase (touch x p) = pc_phase p" "pc_dead (touch x p) = pc_dead p" "pc_phase p \<noteq> Ended"
      using new assms(1) False by (auto simp: touch_def statics_ok_def)
    ultimately show ?thesis using False unfolding statics_ok_def by metis
  qed
qed

lemma destroy_static_ok:
  assumes "statics_ok early p" and "pc_phase p = Exiting"
  shows "statics_ok early (destroy_static p)"
proof (cases "WorkersInst \<in> set (pc_dead p)")
  case True
  with assms show ?thesis
    by (auto simp: statics_ok_def destroy_static_def split: list.split)
next
  case False
  with assms obtain ys where ys: "pc_statics p = ys @ WorkersInst # rev early" "WorkersInst \<notin> set ys"
    by (auto simp: statics_ok_def)
  with False assms show ?thesis
    by (cases ys) (auto simp: statics_ok_def destroy_static_def)
qed

lemma server_event_ok:
  assumes ok: "process_ok early p" and run: "server_step e (pc_server p) = Some s'"
    and pass: "is_accept e \<longrightarrow> pc_passed p"
  shows "server_ok (unstopped s') \<and>
    (if pc_phase p = Running then \<not> wk_stop (sv_workers s') else sv_acceptor s' = Waiting) \<and>
    (workers_left (pc_server p) \<longrightarrow> pc_phase p \<noteq> Running \<longrightarrow> workers_left s') \<and>
    (pc_passed p \<and> \<not> is_accept e \<longrightarrow> sv_acceptor s' = Waiting)"
proof (cases "pc_phase p = Running")
  case True
  with ok run server_step_stop [OF run] have s: "\<not> wk_stop (sv_workers (pc_server p))" "\<not> wk_stop (sv_workers s')"
    by (auto simp: process_ok_def)
  with ok run have "server_ok s'" using server_step_ok [of "pc_server p" e s'] by (simp add: process_ok_def)
  moreover have "sv_acceptor s' = Waiting" if "pc_passed p" "\<not> is_accept e"
    using that ok worker_event [OF run] by (simp add: process_ok_def)
  ultimately show ?thesis using True s by simp
next
  case False
  with ok pass have w: "sv_acceptor (pc_server p) = Waiting" "\<not> is_accept e" by (auto simp: process_ok_def)
  from worker_event [OF run w] ok False server_step_ok [of "unstopped (pc_server p)" e "unstopped s'"] show ?thesis
    by (auto simp: process_ok_def)
qed

lemma process_ok_cong:
  assumes ok: "process_ok early p" and eq: "pc_server p' = pc_server p" "pc_phase p' = pc_phase p"
      "pc_statics p' = pc_statics p" "pc_dead p' = pc_dead p"
    and passed: "pc_passed p' \<Longrightarrow> pc_passed p \<or> at_loop_test p"
  shows "process_ok early p'"
proof -
  have "statics_ok early p'" using ok eq by (simp add: process_ok_def statics_ok_cong [of early p])
  moreover have "pc_passed p' \<longrightarrow> pc_phase p = Running \<and> sv_acceptor (pc_server p) = Waiting"
  proof
    assume "pc_passed p'"
    from passed [OF this] show "pc_phase p = Running \<and> sv_acceptor (pc_server p) = Waiting"
      using ok by (auto simp only: process_ok_def at_loop_test_def)
  qed
  ultimately show ?thesis using ok by (simp add: process_ok_def eq)
qed

lemma process_step_ok:
  assumes ok: "process_ok early p" and run: "process_step e p = Some p'"
  shows "process_ok early p'"
proof (cases e)
  case (Server se)
  with run obtain s' where s': "server_step se (pc_server p) = Some s'" and pass: "is_accept se \<longrightarrow> pc_passed p"
    and p': "pc_server p' = s'" "pc_phase p' = pc_phase p" "pc_statics p' = pc_statics p" "pc_dead p' = pc_dead p"
      "pc_passed p' \<longleftrightarrow> pc_passed p \<and> \<not> is_accept se"
    by (auto split: if_splits)
  note sv = server_event_ok [OF ok s' pass]
  have "statics_ok early p'"
    using ok sv p' by (auto simp: process_ok_def intro!: statics_ok_cong [of early p])
  with sv p' ok show ?thesis by (auto simp: process_ok_def)
next
  case DestroyStatic
  with run have ph: "pc_phase p = Exiting" and p': "p' = destroy_static p" by (auto split: if_splits)
  with ok destroy_static_ok [of early p] show ?thesis
    by (auto simp: process_ok_def destroy_static_def split: list.split)
next
  case (Touch fd x)
  with run have p': "p' = touch x p" and "x \<noteq> WorkersInst" by (auto split: if_splits)
  with ok touch_ok [of early p x] show ?thesis by (auto simp: process_ok_def touch_def)
next
  case JoinWorkers
  with run ok statics_ok_join [of early p] show ?thesis by (auto simp: process_ok_def split: if_splits)
next
  case LeaveMain
  with run ok statics_ok_phase [of early p Exiting] show ?thesis by (auto simp: process_ok_def split: if_splits)
next
  case LeaveLoop
  with run have p': "p' = p\<lparr>pc_phase := Returned\<rparr>" and t: "at_loop_test p" by (auto split: if_splits)
  then have "statics_ok early p'" using ok statics_ok_phase [of early p Returned]
    by (simp add: process_ok_def at_loop_test_def)
  with p' t ok show ?thesis by (auto simp: process_ok_def at_loop_test_def)
next
  case EpollFails
  with run have p': "p' = p\<lparr>pc_phase := Returned\<rparr>" and t: "at_loop_test p" by (auto split: if_splits)
  then have "statics_ok early p'" using ok statics_ok_phase [of early p Returned]
    by (simp add: process_ok_def at_loop_test_def)
  with p' t ok show ?thesis by (auto simp: process_ok_def at_loop_test_def)
next
  case Signal
  with run have "pc_server p' = pc_server p" "pc_phase p' = pc_phase p" "pc_statics p' = pc_statics p"
    "pc_dead p' = pc_dead p" "pc_passed p' \<Longrightarrow> pc_passed p \<or> at_loop_test p"
    by (auto simp: onShutdownSignal_def split: if_splits)
  with ok show ?thesis by (rule process_ok_cong)
next
  case CheckRunning
  with run have "pc_server p' = pc_server p" "pc_phase p' = pc_phase p" "pc_statics p' = pc_statics p"
    "pc_dead p' = pc_dead p" "pc_passed p' \<Longrightarrow> pc_passed p \<or> at_loop_test p"
    by (auto simp: onShutdownSignal_def split: if_splits)
  with ok show ?thesis by (rule process_ok_cong)
next
  case NoConnection
  with run have "pc_server p' = pc_server p" "pc_phase p' = pc_phase p" "pc_statics p' = pc_statics p"
    "pc_dead p' = pc_dead p" "pc_passed p' \<Longrightarrow> pc_passed p \<or> at_loop_test p"
    by (auto simp: onShutdownSignal_def split: if_splits)
  with ok show ?thesis by (rule process_ok_cong)
qed

lemma process_init_ok:
  assumes "server_init s" and "early \<in> {backend_statics, gateway_statics}"
  shows "process_ok early (process_init early s)"
proof -
  have "server_ok s" using assms(1) by (simp add: server_init_def server_ok_def)
  with assms show ?thesis
    by (auto simp: process_ok_def statics_ok_def process_init_def server_init_def backend_statics_def
        gateway_statics_def)
qed

lemma process_reach_ok: "process_reach early p \<Longrightarrow> process_ok early p"
  by (induction rule: process_reach.induct) (auto intro: process_init_ok process_step_ok)

text \<open>While a connection waits or is handled, what \<open>main\<close> constructed before the worker pool exists.\<close>

lemma early_alive:
  assumes "process_ok early p" and "\<not> workers_left (pc_server p)"
  shows "set early \<inter> set (pc_dead p) = {} \<and> pc_phase p \<noteq> Ended"
  using assms by (auto simp: process_ok_def statics_ok_def split: if_splits)

section \<open>The steps that are left\<close>

text \<open>Steps that do not bring the end nearer: a signal, and what a handler does while it runs.\<close>

fun idles :: "process_event \<Rightarrow> bool" where
  "idles Signal = True"
| "idles (Touch fd x) = True"
| "idles _ = False"

fun phase_work :: "phase \<Rightarrow> nat" where
  "phase_work Running = 3"
| "phase_work Returned = 2"
| "phase_work Exiting = 1"
| "phase_work Joining = 0"
| "phase_work Ended = 0"

definition remaining :: "lifecycle \<Rightarrow> static_object set" where
  "remaining p = - set (pc_dead p)"

text \<open>An accepted connection is 6 steps away from being served, and \<open>accept\<close> may return one more.\<close>

definition exit_work :: "lifecycle \<Rightarrow> nat" where
  "exit_work p = work (pc_server p) + (if pc_passed p then 7 else 0) + phase_work (pc_phase p) + 2 * card (remaining p)"

definition ending :: "lifecycle \<Rightarrow> bool" where
  "ending p \<longleftrightarrow> pc_phase p \<noteq> Running \<or> \<not> pc_running p"

lemma finite_statics: "finite (S :: static_object set)"
proof -
  have "UNIV = {ConfigInst, LoggerInst, RedactionRegexes, MySqlInst, RedisInst, StoreInst, WorkersInst, PrefixText, RegistryInst}"
    by (auto intro: static_object.exhaust)
  then have "finite (UNIV :: static_object set)" by (metis finite.emptyI finite.insertI)
  then show ?thesis by (rule rev_finite_subset) simp
qed

lemma card_remaining: "x \<notin> set (pc_dead p) \<Longrightarrow> Suc (card (- set (x # pc_dead p))) = card (remaining p)"
proof -
  assume "x \<notin> set (pc_dead p)"
  moreover have "- set (x # pc_dead p) = remaining p - {x}" by (auto simp: remaining_def)
  ultimately show ?thesis
    by (simp only:) (rule card.remove [symmetric, OF finite_statics], simp add: remaining_def)
qed


lemma destroy_static_work:
  assumes "process_ok early p" and "pc_phase p = Exiting"
  shows "exit_work (destroy_static p) < exit_work p"
proof (cases "pc_statics p")
  case Nil
  with assms(2) show ?thesis by (simp add: destroy_static_def exit_work_def remaining_def)
next
  case (Cons x xs)
  with assms have "x \<notin> set (pc_dead p)" by (simp add: process_ok_def statics_ok_def)
  with Cons assms(2) card_remaining [OF this] show ?thesis
    by (auto simp: destroy_static_def exit_work_def remaining_def work_def worker_stop_def)
qed

lemma accept_work: "server_step e s = Some s' \<Longrightarrow> is_accept e \<Longrightarrow> work s' = work s + 6"
  by (cases e) (auto simp: work_def split: acceptor.splits if_splits)

lemma server_event_work:
  assumes ok: "process_ok early p" and run: "server_step e (pc_server p) = Some s'" and pass: "is_accept e \<longrightarrow> pc_passed p"
  shows "work s' + (if pc_passed p \<and> \<not> is_accept e then 7 else 0) < work (pc_server p) + (if pc_passed p then 7 else 0)"
proof (cases "is_accept e")
  case True
  with accept_work [OF run] pass show ?thesis by simp
next
  case False
  have "work s' < work (pc_server p)"
  proof (cases "pc_phase p = Running")
    case True
    with ok have "server_ok (pc_server p)" by (auto simp: process_ok_def)
    then show ?thesis using run False by (rule step_work)
  next
    case nr: False
    with ok have w: "sv_acceptor (pc_server p) = Waiting" by (simp add: process_ok_def)
    from worker_event [OF run w False] ok step_work [of "unstopped (pc_server p)" e "unstopped s'"] False show ?thesis
      by (simp add: process_ok_def)
  qed
  with False show ?thesis by simp
qed

lemma process_step_work:
  assumes ok: "process_ok early p" and run: "process_step e p = Some p'" and "ending p" and "\<not> idles e"
  shows "exit_work p' < exit_work p \<and> ending p'"
proof (cases e)
  case (Server se)
  with run obtain s' where s': "server_step se (pc_server p) = Some s'" and pass: "is_accept se \<longrightarrow> pc_passed p"
    and p': "pc_server p' = s'" "pc_phase p' = pc_phase p" "pc_dead p' = pc_dead p" "pc_running p' = pc_running p"
      "pc_passed p' \<longleftrightarrow> pc_passed p \<and> \<not> is_accept se"
    by (auto split: if_splits)
  from server_event_work [OF ok s' pass] p' assms(3) show ?thesis by (simp add: exit_work_def ending_def remaining_def)
next
  case DestroyStatic
  with run have "pc_phase p = Exiting" "p' = destroy_static p" by (auto split: if_splits)
  moreover have "pc_phase (destroy_static p) \<noteq> Running" if "pc_phase p = Exiting"
    using that by (auto simp: destroy_static_def split: list.split)
  ultimately show ?thesis using destroy_static_work [OF ok] by (simp add: ending_def)
next
  case JoinWorkers
  with run have ph: "pc_phase p = Joining"
    and p': "p' = p\<lparr>pc_phase := Exiting, pc_dead := WorkersInst # pc_dead p\<rparr>" by (auto split: if_splits)
  with ok have "WorkersInst \<notin> set (pc_dead p)" by (auto simp: process_ok_def statics_ok_def split: if_splits)
  from card_remaining [OF this] ph show ?thesis unfolding p' by (simp add: exit_work_def ending_def remaining_def)
qed (use assms in \<open>auto simp: exit_work_def ending_def remaining_def at_loop_test_def split: if_splits\<close>)

lemma idle_step_work:
  assumes "process_step e p = Some p'" and "idles e" and "ending p"
  shows "exit_work p' = exit_work p \<and> ending p'"
  using assms by (cases e) (auto simp: exit_work_def ending_def remaining_def onShutdownSignal_def touch_def split: if_splits)

lemma process_run_work:
  "process_run es p = Some p' \<Longrightarrow> process_ok early p \<Longrightarrow> ending p \<Longrightarrow>
     process_ok early p' \<and> ending p' \<and> length (filter (\<lambda>e. \<not> idles e) es) + exit_work p' \<le> exit_work p"
proof (induction es arbitrary: p)
  case Nil
  then show ?case by simp
next
  case (Cons e es)
  then obtain p1 where p1: "process_step e p = Some p1" "process_run es p1 = Some p'"
    by (auto split: option.splits)
  show ?case
  proof (cases "idles e")
    case True
    from idle_step_work [OF p1(1) True Cons.prems(3)] Cons.IH [OF p1(2) process_step_ok [OF Cons.prems(2) p1(1)]] True
    show ?thesis by simp
  next
    case False
    from process_step_work [OF Cons.prems(2) p1(1) Cons.prems(3) False]
      Cons.IH [OF p1(2) process_step_ok [OF Cons.prems(2) p1(1)]] False
    show ?thesis by simp
  qed
qed

section \<open>The process ends\<close>

text \<open>No thread can make a step, handlers and signals apart.\<close>

definition halted :: "lifecycle \<Rightarrow> bool" where
  "halted p \<longleftrightarrow> (\<forall>e. idles e \<or> process_step e p = None)"

lemma halted_server:
  assumes "halted p" and "process_ok early p" and "ending p"
  shows "idle (unstopped (pc_server p))"
proof -
  have step: "process_step e p = None" if "\<not> idles e" for e using assms(1) that by (auto simp: halted_def)
  have none: "server_step e (unstopped (pc_server p)) = None" if "\<not> is_accept e" for e
  proof (cases "pc_phase p = Running")
    case True
    with assms(2) step [of "Server e"] that show ?thesis by (auto simp: process_ok_def split: if_splits)
  next
    case False
    with assms(2) have "sv_acceptor (pc_server p) = Waiting" by (simp add: process_ok_def)
    moreover have "server_step e (pc_server p) = None" using step [of "Server e"] that by (auto split: if_splits)
    ultimately show ?thesis using that
      by (cases e) (auto simp: unstopped_def worker_turn_def split: if_splits list.splits)
  qed
  with assms(2) work_progress [of "unstopped (pc_server p)"] show ?thesis by (simp add: process_ok_def)
qed

lemma halted_ended:
  assumes "halted p" and "process_ok early p" and "ending p"
  shows "pc_phase p = Ended \<and> idle (unstopped (pc_server p))"
proof -
  have step: "process_step e p = None" if "\<not> idles e" for e using assms(1) that by (auto simp: halted_def)
  have i: "idle (unstopped (pc_server p))" by (rule halted_server [OF assms])
  then have "workers_left (pc_server p)" "sv_acceptor (pc_server p) = Waiting"
    by (simp_all add: idle_def workers_left_def)
  moreover have "\<not> pc_passed p" using step [of NoConnection] by (auto split: if_splits)
  ultimately have "pc_phase p = Ended"
    using step [of LeaveLoop] step [of LeaveMain] step [of DestroyStatic] step [of JoinWorkers] assms(3)
    by (cases "pc_phase p") (auto simp: at_loop_test_def ending_def split: if_splits)
  with i show ?thesis by simp
qed


text \<open>
  C25: once the signal has come (or epoll has failed), the process makes at most \<open>exit_work\<close> more steps, in
  whatever order its threads go and whatever the handlers use; when no thread can go on, it has ended, and
  every connection it had accepted has been handled, closed and counted down. As long as a connection
  waits or is handled, everything \<open>main\<close> constructed before the worker pool (the configuration, the logger
  and the connection pools) still exists.
\<close>

theorem shutdown_serves_all:
  assumes "process_reach early p" and "ending p" and "process_run es p = Some p'"
  shows "length (filter (\<lambda>e. \<not> idles e) es) \<le> exit_work p \<and>
    (halted p' \<longrightarrow> pc_phase p' = Ended \<and> idle (unstopped (pc_server p'))) \<and>
    (\<not> workers_left (pc_server p') \<longrightarrow> set early \<inter> set (pc_dead p') = {})"
proof -
  note run = process_run_work [OF assms(3) process_reach_ok [OF assms(1)] assms(2)]
  then have "length (filter (\<lambda>e. \<not> idles e) es) \<le> exit_work p" by linarith
  with run halted_ended [of p' early] early_alive [of early p'] show ?thesis by blast
qed

section \<open>The server dies before its workers\<close>

lemma worker_event_left:
  assumes "server_step e s = Some s'" and "sv_acceptor s = Waiting" and "\<not> is_accept e"
    and "\<not> workers_left s" and "workers_left s'"
  shows "touches_server e"
  using assms by (cases e) (auto simp: workers_left_def worker_turn_def close_fd_def split: if_splits list.splits)

lemma dangling_step: "process_step e p = Some p' \<Longrightarrow> pc_dangling p \<Longrightarrow> pc_dangling p'"
  by (cases e) (auto simp: onShutdownSignal_def touch_def destroy_static_def split: if_splits list.splits)

lemma late_step:
  assumes ok: "process_ok early p" and run: "process_step e p = Some p'"
    and late: "server_gone p" "\<not> workers_left (pc_server p) \<or> pc_dangling p"
  shows "server_gone p' \<and> (\<not> workers_left (pc_server p') \<or> pc_dangling p')"
proof (cases e)
  case (Server se)
  with run obtain s' where s': "server_step se (pc_server p) = Some s'" and pass: "is_accept se \<longrightarrow> pc_passed p"
    and p': "pc_server p' = s'" "pc_phase p' = pc_phase p"
      "pc_dangling p' \<longleftrightarrow> pc_dangling p \<or> touches_server se \<and> server_gone p"
    by (auto split: if_splits)
  from ok late(1) have w: "sv_acceptor (pc_server p) = Waiting" "\<not> pc_passed p"
    by (auto simp: process_ok_def server_gone_def split: if_splits)
  with pass have "\<not> is_accept se" by simp
  with worker_event_left [OF s' w(1)] p' late show ?thesis by (auto simp: server_gone_def)
next
  case DestroyStatic
  with run have "p' = destroy_static p" "pc_phase p = Exiting" by (auto split: if_splits)
  with late show ?thesis
    by (auto simp: server_gone_def destroy_static_def workers_left_def worker_stop_def split: list.splits)
qed (use run late in \<open>auto simp: server_gone_def onShutdownSignal_def touch_def at_loop_test_def split: if_splits\<close>)

lemma late_run:
  "process_run es p = Some p' \<Longrightarrow> process_ok early p \<Longrightarrow> server_gone p \<Longrightarrow>
     \<not> workers_left (pc_server p) \<or> pc_dangling p \<Longrightarrow>
     server_gone p' \<and> (\<not> workers_left (pc_server p') \<or> pc_dangling p')"
proof (induction es arbitrary: p)
  case Nil
  then show ?case by simp
next
  case (Cons e es)
  then obtain p1 where p1: "process_step e p = Some p1" "process_run es p1 = Some p'"
    by (auto split: option.splits)
  with Cons.IH [OF p1(2) process_step_ok [OF Cons.prems(2) p1(1)]] late_step [OF Cons.prems(2) p1(1) Cons.prems(3,4)]
  show ?case by simp
qed

text \<open>
  C26: a connection that is queued or handled when \<open>main\<close> returns makes its worker count down in a server
  that no longer exists: every run that serves it uses the destroyed object.
\<close>

theorem late_connection_uses_dead_server:
  assumes "process_reach early p" and "pc_phase p \<in> {Exiting, Joining}" and "\<not> workers_left (pc_server p)"
    and "process_run es p = Some p'" and "workers_left (pc_server p')"
  shows "pc_dangling p'"
  using late_run [OF assms(4) process_reach_ok [OF assms(1)]] assms(2,3,5) by (auto simp: server_gone_def)


text \<open>While the pool is being joined, a task that a handler submits, such as the notification of a payment, is dropped.\<close>

lemma joining_stopped: "process_reach early p \<Longrightarrow> pc_phase p = Joining \<Longrightarrow> wk_stop (sv_workers (pc_server p))"
proof (induction rule: process_reach.induct)
  case (start s)
  then show ?case by (simp add: process_init_def)
next
  case (step p e p')
  show ?case
  proof (cases e)
    case (Server se)
    with step show ?thesis using server_step_stop by (fastforce split: if_splits)
  next
    case DestroyStatic
    with step show ?thesis
      by (auto simp: destroy_static_def worker_stop_def split: if_splits list.splits)
  qed (use step in \<open>auto simp: onShutdownSignal_def touch_def at_loop_test_def split: if_splits\<close>)
qed

lemma joining_drops_tasks:
  "process_reach early p \<Longrightarrow> pc_phase p = Joining \<Longrightarrow>
     snd (worker_submit t (sv_workers (pc_server p))) = sv_workers (pc_server p)"
  using joining_stopped [of early p] by (simp add: worker_submit_def run_simps)

end
