(* ===== verification/PoolThreads.thy ===== *)
theory PoolThreads
  imports PoolInit "HOL-Library.Multiset"
begin

text \<open>
  The three connection pools under threads: the sections of \<open>acquire\<close>, \<open>release\<close> and \<open>shutdown\<close> between two
  points where other threads can run, the waiting on the condition variable, and the guards
  (\<open>ConnectionGuard\<close>) as objects that are moved and destroyed. The pools differ in three points, which
  \<open>pool_kind\<close> names: \<open>MySqlPool\<close> pings and reconnects under its mutex, \<open>RedisPool\<close> may leave \<open>acquire\<close> by an
  exception of \<open>ping\<close> or of the authentication without closing the connection, \<open>SessionStore\<close> does neither.
\<close>

section \<open>Guards\<close>

text \<open>\<open>gd_pool\<close>: \<open>pool_\<close> is not null.\<close>

record guard =
  gd_pool :: bool
  gd_conn :: "nat option"

definition guard_new :: "nat \<Rightarrow> guard" where
  "guard_new c = \<lparr>gd_pool = True, gd_conn = Some c\<rparr>"

definition guard_null :: guard where
  "guard_null = \<lparr>gd_pool = False, gd_conn = None\<rparr>"

definition guard_get :: "guard \<Rightarrow> nat option" where
  "guard_get x = gd_conn x"

definition guard_bool :: "guard \<Rightarrow> bool" where
  "guard_bool x \<longleftrightarrow> gd_conn x \<noteq> None"

section \<open>The pool and its threads\<close>

datatype pool_kind = MySqlKind | RedisKind | StoreKind

text \<open>
  A thread is outside of \<open>acquire\<close>, asleep in \<open>wait_for\<close>, woken and about to test the condition, or has left
  the wait with a connection that it pings, or replaces.
\<close>

datatype thread_state = Outside | Asleep | Woken | Pinging nat | Connecting

text \<open>
  \<open>ps_lock\<close>: the thread that holds \<open>mutex_\<close> between two steps; \<open>ps_guards\<close>: the guard at each address, if
  there is one; \<open>ps_lost\<close>: connections that no variable refers to any more (for the proofs only).
\<close>

record pool_sys =
  ps_pool :: pool
  ps_lock :: "nat option"
  ps_threads :: "thread_state list"
  ps_guards :: "guard option list"
  ps_lost :: "nat list"

definition thread_at :: "nat \<Rightarrow> pool_sys \<Rightarrow> thread_state option" where
  "thread_at t s = (if t < length (ps_threads s) then Some (ps_threads s ! t) else None)"

definition guard_at :: "nat \<Rightarrow> pool_sys \<Rightarrow> guard option" where
  "guard_at g s = (if g < length (ps_guards s) then ps_guards s ! g else None)"

definition free_address :: "nat \<Rightarrow> pool_sys \<Rightarrow> bool" where
  "free_address g s \<longleftrightarrow> g < length (ps_guards s) \<and> ps_guards s ! g = None"

definition set_thread :: "nat \<Rightarrow> thread_state \<Rightarrow> pool_sys \<Rightarrow> pool_sys" where
  "set_thread t x s = s\<lparr>ps_threads := (ps_threads s)[t := x]\<rparr>"

definition set_guard :: "nat \<Rightarrow> guard option \<Rightarrow> pool_sys \<Rightarrow> pool_sys" where
  "set_guard g x s = s\<lparr>ps_guards := (ps_guards s)[g := x]\<rparr>"

definition on_sys_pool :: "(pool \<Rightarrow> pool) \<Rightarrow> pool_sys \<Rightarrow> pool_sys" where
  "on_sys_pool f s = s\<lparr>ps_pool := f (ps_pool s)\<rparr>"

section \<open>Releasing\<close>

text \<open>\<open>notify_one\<close> wakes a thread that waits, if one does; which one is not specified.\<close>

definition notify_one :: "nat option \<Rightarrow> pool_sys \<Rightarrow> pool_sys option" where
  "notify_one wake s = (case wake of
      None \<Rightarrow> if Asleep \<in> set (ps_threads s) then None else Some s
    | Some t \<Rightarrow> if thread_at t s = Some Asleep then Some (set_thread t Woken s) else None)"

definition notify_all :: "pool_sys \<Rightarrow> pool_sys" where
  "notify_all s = s\<lparr>ps_threads := map (\<lambda>x. if x = Asleep then Woken else x) (ps_threads s)\<rparr>"

definition pool_release :: "nat \<Rightarrow> nat option \<Rightarrow> pool_sys \<Rightarrow> pool_sys option" where
  "pool_release c wake s =
     (if ps_lock s \<noteq> None then None
      else if pl_shutting_down (ps_pool s) then Some (on_sys_pool (close_conn c) s)
      else notify_one wake (on_sys_pool (push_conn c) s))"

definition guard_reset :: "nat \<Rightarrow> nat option \<Rightarrow> pool_sys \<Rightarrow> pool_sys option" where
  "guard_reset g wake s = (case guard_at g s of
      None \<Rightarrow> None
    | Some x \<Rightarrow> map_option (set_guard g (Some guard_null))
        (case gd_conn x of
           Some c \<Rightarrow> if gd_pool x then pool_release c wake s else Some s
         | None \<Rightarrow> Some s))"

definition guard_destroy :: "nat \<Rightarrow> nat option \<Rightarrow> pool_sys \<Rightarrow> pool_sys option" where
  "guard_destroy g wake s = map_option (set_guard g None) (guard_reset g wake s)"

text \<open>\<open>ConnectionGuard g(std::move(h))\<close> and \<open>g = std::move(h)\<close>.\<close>

definition move_from :: "nat \<Rightarrow> nat \<Rightarrow> pool_sys \<Rightarrow> pool_sys" where
  "move_from g h s = set_guard h (Some guard_null) (set_guard g (guard_at h s) s)"

definition guard_move_construct :: "nat \<Rightarrow> nat \<Rightarrow> pool_sys \<Rightarrow> pool_sys option" where
  "guard_move_construct g h s =
     (if free_address g s \<and> guard_at h s \<noteq> None then Some (move_from g h s) else None)"

definition guard_move_assign :: "nat \<Rightarrow> nat \<Rightarrow> nat option \<Rightarrow> pool_sys \<Rightarrow> pool_sys option" where
  "guard_move_assign g h wake s =
     (if guard_at g s = None \<or> guard_at h s = None then None
      else if g = h then Some s
      else map_option (move_from g h) (guard_reset g wake s))"

section \<open>Acquiring\<close>

text \<open>The head of the queue is taken; \<open>MySqlPool\<close> keeps the mutex while it pings.\<close>

definition take_conn :: "pool_kind \<Rightarrow> nat \<Rightarrow> pool_sys \<Rightarrow> pool_sys" where
  "take_conn kind t s = (case pl_idle (ps_pool s) of
      [] \<Rightarrow> s
    | c # _ \<Rightarrow> (on_sys_pool pop_conn (set_thread t (Pinging c) s))
        \<lparr>ps_lock := (if kind = MySqlKind then Some t else None)\<rparr>)"

text \<open>The condition of \<open>wait_for\<close> under the mutex, and what follows the wait.\<close>

definition test_wait :: "pool_kind \<Rightarrow> nat \<Rightarrow> bool \<Rightarrow> pool_sys \<Rightarrow> pool_sys" where
  "test_wait kind t timed_out s =
     (if pl_shutting_down (ps_pool s) then set_thread t Outside s
      else if pl_idle (ps_pool s) \<noteq> [] then take_conn kind t s
      else set_thread t (if timed_out then Outside else Asleep) s)"

text \<open>\<open>return ConnectionGuard(this, conn)\<close>, which also gives the mutex back.\<close>

definition return_guard :: "nat \<Rightarrow> nat \<Rightarrow> nat \<Rightarrow> pool_sys \<Rightarrow> pool_sys" where
  "return_guard t g c s = (set_guard g (Some (guard_new c)) (set_thread t Outside s))\<lparr>ps_lock := None\<rparr>"

text \<open>An exception leaves \<open>acquire\<close>; \<open>lost\<close> are the connections nothing refers to any more.\<close>

definition leave :: "nat \<Rightarrow> nat list \<Rightarrow> pool_sys \<Rightarrow> pool_sys" where
  "leave t lost s = (set_thread t Outside s)\<lparr>ps_lock := None, ps_lost := lost @ ps_lost s\<rparr>"

definition sys_shutdown :: "pool_kind \<Rightarrow> pool_sys \<Rightarrow> pool_sys" where
  "sys_shutdown kind s =
     (if kind \<noteq> StoreKind \<and> \<not> pl_initialized (ps_pool s) \<and> pl_idle (ps_pool s) = [] then s
      else notify_all (on_sys_pool (\<lambda>p. (close_idle (p\<lparr>pl_shutting_down := True\<rparr>))\<lparr>pl_initialized := False\<rparr>) s))"

datatype pool_event =
    Enter nat
  | Wake nat
  | Retest nat bool
  | PingAlive nat nat
  | PingDead nat
  | PingThrows nat
  | Connected nat nat
  | ConnectFails nat bool
  | DestroyGuard nat "nat option"
  | MoveConstruct nat nat
  | MoveAssign nat nat "nat option"
  | ShutdownPool

fun pool_step :: "pool_kind \<Rightarrow> pool_event \<Rightarrow> pool_sys \<Rightarrow> pool_sys option" where
  "pool_step kind (Enter t) s =
     (if thread_at t s = Some Outside \<and> ps_lock s = None
      then Some (if pl_initialized (ps_pool s) then test_wait kind t False s else s) else None)"
| "pool_step kind (Wake t) s = (if thread_at t s = Some Asleep then Some (set_thread t Woken s) else None)"
| "pool_step kind (Retest t timed_out) s =
     (if thread_at t s = Some Woken \<and> ps_lock s = None then Some (test_wait kind t timed_out s) else None)"
| "pool_step kind (PingAlive t g) s = (case thread_at t s of
      Some (Pinging c) \<Rightarrow> if free_address g s then Some (return_guard t g c s) else None
    | _ \<Rightarrow> None)"
| "pool_step kind (PingDead t) s = (case thread_at t s of
      Some (Pinging c) \<Rightarrow> Some (on_sys_pool (close_conn c) (set_thread t Connecting s))
    | _ \<Rightarrow> None)"
| "pool_step kind (PingThrows t) s = (case thread_at t s of
      Some (Pinging c) \<Rightarrow> if kind = RedisKind then Some (leave t [c] s) else None
    | _ \<Rightarrow> None)"
| "pool_step kind (Connected t g) s =
     (if thread_at t s = Some Connecting \<and> free_address g s
      then Some (return_guard t g (pl_next (ps_pool s)) (on_sys_pool open_conn s)) else None)"
| "pool_step kind (ConnectFails t leaked) s =
     (if thread_at t s = Some Connecting \<and> (leaked \<longrightarrow> kind = RedisKind)
      then Some (if leaked then leave t [pl_next (ps_pool s)] (on_sys_pool open_conn s) else leave t [] s) else None)"
| "pool_step kind (DestroyGuard g wake) s = guard_destroy g wake s"
| "pool_step kind (MoveConstruct g h) s = guard_move_construct g h s"
| "pool_step kind (MoveAssign g h wake) s = guard_move_assign g h wake s"
| "pool_step kind ShutdownPool s = (if ps_lock s = None then Some (sys_shutdown kind s) else None)"

fun pool_run :: "pool_kind \<Rightarrow> pool_event list \<Rightarrow> pool_sys \<Rightarrow> pool_sys option" where
  "pool_run kind [] s = Some s"
| "pool_run kind (e # es) s = (case pool_step kind e s of None \<Rightarrow> None | Some s' \<Rightarrow> pool_run kind es s')"

text \<open>A pool that has been filled with \<open>n\<close> connections, \<open>m\<close> threads and \<open>k\<close> addresses for guards.\<close>

definition sys_init :: "pool \<Rightarrow> nat \<Rightarrow> nat \<Rightarrow> pool_sys" where
  "sys_init p m k = \<lparr>ps_pool = p, ps_lock = None, ps_threads = replicate m Outside, ps_guards = replicate k None,
     ps_lost = []\<rparr>"

inductive pool_reach :: "pool_kind \<Rightarrow> nat \<Rightarrow> pool_sys \<Rightarrow> bool" for kind n where
  start: "pool_ready n p \<Longrightarrow> pool_reach kind n (sys_init p m k)"
| step: "pool_reach kind n s \<Longrightarrow> pool_step kind e s = Some s' \<Longrightarrow> pool_reach kind n s'"


section \<open>Who has which connection\<close>

fun thread_conns :: "thread_state \<Rightarrow> nat list" where
  "thread_conns (Pinging c) = [c]"
| "thread_conns _ = []"

definition guard_conns :: "guard option \<Rightarrow> nat list" where
  "guard_conns x = (case x of
      None \<Rightarrow> []
    | Some g \<Rightarrow> if gd_pool g then (case gd_conn g of None \<Rightarrow> [] | Some c \<Rightarrow> [c]) else [])"

definition held :: "pool_sys \<Rightarrow> nat list" where
  "held s = concat (map guard_conns (ps_guards s)) @ concat (map thread_conns (ps_threads s))"

definition threads_in :: "thread_state \<Rightarrow> pool_sys \<Rightarrow> nat" where
  "threads_in x s = length (filter (\<lambda>y. y = x) (ps_threads s))"

text \<open>A guard has both pointers or none.\<close>

definition guard_ok :: "guard option \<Rightarrow> bool" where
  "guard_ok x \<longleftrightarrow> (case x of None \<Rightarrow> True | Some g \<Rightarrow> gd_pool g \<longleftrightarrow> gd_conn g \<noteq> None)"

lemma mset_concat_update:
  "i < length xs \<Longrightarrow>
     mset (concat (map f (xs[i := v]))) + mset (f (xs ! i)) = mset (concat (map f xs)) + mset (f v)"
  by (induction xs arbitrary: i) (auto simp: nth_Cons' split: nat.split)

lemma length_filter_update:
  "i < length xs \<Longrightarrow>
     length (filter P (xs[i := v])) + (if P (xs ! i) then 1 else 0) = length (filter P xs) + (if P v then 1 else 0)"
proof (induction xs arbitrary: i)
  case (Cons x xs)
  then show ?case using Cons.IH [of "i - 1"] by (cases i) simp_all
qed simp

lemma set_guard_held:
  "g < length (ps_guards s) \<Longrightarrow>
     mset (held (set_guard g x s)) + mset (guard_conns (ps_guards s ! g)) = mset (held s) + mset (guard_conns x)"
  using mset_concat_update [of g "ps_guards s" guard_conns x] by (simp add: held_def set_guard_def)

lemma set_thread_held:
  "t < length (ps_threads s) \<Longrightarrow>
     mset (held (set_thread t x s)) + mset (thread_conns (ps_threads s ! t)) = mset (held s) + mset (thread_conns x)"
  using mset_concat_update [of t "ps_threads s" thread_conns x] by (simp add: held_def set_thread_def)

lemma set_thread_in:
  "thread_at t s = Some y \<Longrightarrow>
     threads_in x (set_thread t z s) + (if y = x then 1 else 0) = threads_in x s + (if z = x then 1 else 0)"
  using length_filter_update [of t "ps_threads s" "\<lambda>y. y = x" z]
  by (auto simp: threads_in_def set_thread_def thread_at_def split: if_splits)

lemma thread_atD: "thread_at t s = Some x \<Longrightarrow> t < length (ps_threads s) \<and> ps_threads s ! t = x"
  by (simp add: thread_at_def split: if_splits)

lemma guard_atD: "guard_at g s = Some x \<Longrightarrow> g < length (ps_guards s) \<and> ps_guards s ! g = Some x"
  by (simp add: guard_at_def split: if_splits)

lemma sys_simps [simp]:
  "ps_pool (set_thread t x s) = ps_pool s" "ps_guards (set_thread t x s) = ps_guards s"
  "ps_lost (set_thread t x s) = ps_lost s" "ps_lock (set_thread t x s) = ps_lock s"
  "ps_pool (set_guard g y s) = ps_pool s" "ps_threads (set_guard g y s) = ps_threads s"
  "ps_lost (set_guard g y s) = ps_lost s" "ps_lock (set_guard g y s) = ps_lock s"
  "ps_pool (on_sys_pool f s) = f (ps_pool s)" "ps_threads (on_sys_pool f s) = ps_threads s"
  "ps_guards (on_sys_pool f s) = ps_guards s" "ps_lost (on_sys_pool f s) = ps_lost s"
  "ps_lock (on_sys_pool f s) = ps_lock s" "held (on_sys_pool f s) = held s"
  "threads_in z (set_guard g y s) = threads_in z s" "threads_in z (on_sys_pool f s) = threads_in z s"
  "ps_threads (set_thread t x s) = (ps_threads s)[t := x]" "ps_guards (set_guard g y s) = (ps_guards s)[g := y]"
  "held (s\<lparr>ps_lock := l\<rparr>) = held s" "held (s\<lparr>ps_lost := l'\<rparr>) = held s"
  "threads_in z (s\<lparr>ps_lock := l\<rparr>) = threads_in z s" "threads_in z (s\<lparr>ps_lost := l'\<rparr>) = threads_in z s"
  "thread_at t (on_sys_pool f s) = thread_at t s"
  by (simp_all add: set_thread_def set_guard_def on_sys_pool_def held_def threads_in_def thread_at_def)

section \<open>The invariant\<close>

text \<open>
  Every open connection is idle, held by one guard or one thread in \<open>acquire\<close>, or lost; no connection is
  created beyond the \<open>n\<close> the pool was filled with; the mutex is held by a thread that pings or connects only;
  and as long as a thread sleeps, at least as many threads have been woken as there are idle connections.
\<close>

definition balanced :: "pool_sys \<Rightarrow> bool" where
  "balanced s \<longleftrightarrow> mset (pl_open (ps_pool s)) = mset (pl_idle (ps_pool s)) + mset (held s) + mset (ps_lost s) \<and>
     distinct (pl_open (ps_pool s)) \<and> (\<forall>c\<in>set (pl_open (ps_pool s)). c < pl_next (ps_pool s))"

definition within :: "nat \<Rightarrow> pool_sys \<Rightarrow> bool" where
  "within n s \<longleftrightarrow> length (pl_open (ps_pool s)) + threads_in Connecting s \<le> n"

definition locked_by :: "pool_sys \<Rightarrow> bool" where
  "locked_by s \<longleftrightarrow> (case ps_lock s of
      None \<Rightarrow> True
    | Some t \<Rightarrow> case thread_at t s of Some Connecting \<Rightarrow> True | Some (Pinging c) \<Rightarrow> True | _ \<Rightarrow> False)"

definition wakeful :: "pool_sys \<Rightarrow> bool" where
  "wakeful s \<longleftrightarrow> (Asleep \<in> set (ps_threads s) \<longrightarrow>
     \<not> pl_shutting_down (ps_pool s) \<and> length (pl_idle (ps_pool s)) \<le> threads_in Woken s)"

definition shut :: "pool_sys \<Rightarrow> bool" where
  "shut s \<longleftrightarrow> (pl_shutting_down (ps_pool s) \<longrightarrow> pl_idle (ps_pool s) = [])"

definition sys_ok :: "pool_kind \<Rightarrow> nat \<Rightarrow> pool_sys \<Rightarrow> bool" where
  "sys_ok kind n s \<longleftrightarrow> balanced s \<and> within n s \<and> locked_by s \<and> wakeful s \<and> shut s \<and>
     (\<forall>x\<in>set (ps_guards s). guard_ok x) \<and> (kind \<noteq> RedisKind \<longrightarrow> ps_lost s = [])"

lemma sys_init_ok: "pool_ready n p \<Longrightarrow> sys_ok kind n (sys_init p m k)"
proof -
  assume r: "pool_ready n p"
  then have "mset (pl_open p) = mset (pl_idle p)"
    by (auto simp: pool_ready_def pool_ok_def borrowed_def set_eq_iff_mset_eq_distinct [symmetric])
  moreover from this have "length (pl_open p) = length (pl_idle p)" by (metis size_mset)
  moreover have "concat (map guard_conns (replicate k None)) = []" "concat (map thread_conns (replicate m Outside)) = []"
    by (induction k; simp add: guard_conns_def) (induction m; simp)
  ultimately show ?thesis using r
    by (auto simp: sys_ok_def sys_init_def balanced_def within_def locked_by_def wakeful_def shut_def guard_ok_def
        pool_ready_def pool_ok_def held_def threads_in_def)
qed


lemma asleep_update: "Asleep \<in> set (ps_threads (set_thread t x s)) \<Longrightarrow> x = Asleep \<or> Asleep \<in> set (ps_threads s)"
  using set_update_subset_insert [of "ps_threads s" t x] by (auto simp: set_thread_def)

lemma thread_held:
  "thread_at t s = Some y \<Longrightarrow>
     mset (held (set_thread t x s)) + mset (thread_conns y) = mset (held s) + mset (thread_conns x)"
  using set_thread_held [of t s x] thread_atD [of t s y] by simp

lemma guards_ok_update:
  "\<forall>x\<in>set xs. guard_ok x \<Longrightarrow> guard_ok y \<Longrightarrow> x \<in> set (xs[i := y]) \<Longrightarrow> guard_ok x"
  using set_update_subset_insert [of xs i y] by auto

lemma held_open: "balanced s \<Longrightarrow> c \<in> set (held s) \<Longrightarrow> c \<in> set (pl_open (ps_pool s))"
  by (metis balanced_def mset_eq_setD set_mset_mset union_iff)

lemma sys_ok_quiet:
  assumes "sys_ok kind n s" and "thread_at t s = Some y" and "y \<in> {Outside, Woken}" and "x \<in> {Outside, Asleep}"
    and "pl_shutting_down (ps_pool s) \<longrightarrow> x = Outside" and "pl_shutting_down (ps_pool s) \<or> pl_idle (ps_pool s) = []"
    and "ps_lock s = None"
  shows "sys_ok kind n (set_thread t x s)"
proof -
  have c: "thread_conns y = []" "thread_conns x = []" "y \<noteq> Connecting" "x \<noteq> Connecting" using assms(3,4) by auto
  have "mset (held (set_thread t x s)) = mset (held s)" using thread_held [OF assms(2), of x] c by simp
  then have "balanced (set_thread t x s)" using assms(1) by (simp add: sys_ok_def balanced_def)
  moreover have "within n (set_thread t x s)"
    using set_thread_in [OF assms(2), of Connecting x] c assms(1) by (simp add: sys_ok_def within_def)
  moreover have "wakeful (set_thread t x s)"
    using assms asleep_update [of t x s] by (auto simp: sys_ok_def wakeful_def)
  ultimately show ?thesis using assms(1,7) by (simp add: sys_ok_def locked_by_def shut_def)
qed

lemma take_conn_ok:
  assumes ok: "sys_ok kind n s" and t: "thread_at t s = Some y" "y \<in> {Outside, Woken}"
    and idle: "pl_idle (ps_pool s) = c # cs"
  shows "sys_ok kind n (take_conn kind t s)"
proof -
  let ?s = "take_conn kind t s"
  have y: "thread_conns y = []" "y \<noteq> Connecting" using t(2) by auto
  have s': "ps_pool ?s = pop_conn (ps_pool s)" "held ?s = held (set_thread t (Pinging c) s)"
    "ps_threads ?s = (ps_threads s)[t := Pinging c]" "ps_lost ?s = ps_lost s" "ps_guards ?s = ps_guards s"
    "threads_in x ?s = threads_in x (set_thread t (Pinging c) s)"
    "ps_lock ?s = (if kind = MySqlKind then Some t else None)" for x
    using idle by (simp_all add: take_conn_def)
  have "mset (held ?s) = add_mset c (mset (held s))" using thread_held [OF t(1), of "Pinging c"] y s' by simp
  then have "balanced ?s" using ok idle s' by (simp add: sys_ok_def balanced_def pop_conn_def)
  moreover have "within n ?s"
    using set_thread_in [OF t(1), of Connecting "Pinging c"] y ok s' by (simp add: sys_ok_def within_def pop_conn_def)
  moreover have "locked_by ?s"
    using thread_atD [OF t(1)] idle by (simp add: locked_by_def thread_at_def take_conn_def)
  moreover have "wakeful ?s" unfolding wakeful_def
  proof
    assume "Asleep \<in> set (ps_threads ?s)"
    then have "Asleep \<in> set (ps_threads s)" using asleep_update [of t "Pinging c" s] s' by simp
    with ok have w: "\<not> pl_shutting_down (ps_pool s)" "length (pl_idle (ps_pool s)) \<le> threads_in Woken s"
      by (simp_all add: sys_ok_def wakeful_def)
    with set_thread_in [OF t(1), of Woken "Pinging c"] t(2) idle s'
    show "\<not> pl_shutting_down (ps_pool ?s) \<and> length (pl_idle (ps_pool ?s)) \<le> threads_in Woken ?s"
      by (auto simp: pop_conn_def)
  qed
  moreover have "shut ?s" using ok idle s' by (auto simp: sys_ok_def shut_def pop_conn_def)
  ultimately show ?thesis using ok s' by (simp add: sys_ok_def)
qed

lemma test_wait_ok:
  assumes "sys_ok kind n s" and "thread_at t s = Some y" "y \<in> {Outside, Woken}" and "ps_lock s = None"
  shows "sys_ok kind n (test_wait kind t b s)"
  using assms sys_ok_quiet [OF assms(1-3), of Outside] sys_ok_quiet [OF assms(1-3), of Asleep]
    take_conn_ok [OF assms(1-3)]
  by (cases "pl_idle (ps_pool s)") (auto simp: test_wait_def)

lemma wake_ok:
  assumes "sys_ok kind n s" and t: "thread_at t s = Some Asleep"
  shows "sys_ok kind n (set_thread t Woken s)"
proof -
  have "mset (held (set_thread t Woken s)) = mset (held s)" using thread_held [OF t, of Woken] by simp
  then have "balanced (set_thread t Woken s)" using assms(1) by (simp add: sys_ok_def balanced_def)
  moreover have "within n (set_thread t Woken s)"
    using set_thread_in [OF t, of Connecting Woken] assms(1) by (simp add: sys_ok_def within_def)
  moreover have "wakeful (set_thread t Woken s)"
    using set_thread_in [OF t, of Woken Woken] asleep_update [of t Woken s] assms(1)
    by (auto simp: sys_ok_def wakeful_def)
  moreover have "locked_by (set_thread t Woken s)"
    using assms thread_atD [OF t]
    by (auto simp: sys_ok_def locked_by_def thread_at_def nth_list_update split: option.splits thread_state.splits if_splits)
  ultimately show ?thesis using assms(1) by (simp add: sys_ok_def shut_def)
qed


text \<open>A thread gives its connection, or the one it has just opened, to a new guard.\<close>

lemma return_guard_held:
  assumes "thread_at t s = Some y" and "free_address g s"
  shows "mset (held (return_guard t g c s)) + mset (thread_conns y) = add_mset c (mset (held s))"
proof -
  have g: "g < length (ps_guards (set_thread t Outside s))" "ps_guards (set_thread t Outside s) ! g = None"
    using assms(2) by (simp_all add: free_address_def)
  have "mset (held (return_guard t g c s)) = add_mset c (mset (held (set_thread t Outside s)))"
    using set_guard_held [OF g(1), of "Some (guard_new c)"] g(2) by (simp add: return_guard_def guard_conns_def guard_new_def)
  with thread_held [OF assms(1), of Outside] show ?thesis by simp
qed

lemma return_guard_simps [simp]:
  "ps_pool (return_guard t g c s) = ps_pool s" "ps_lost (return_guard t g c s) = ps_lost s"
  "ps_lock (return_guard t g c s) = None" "ps_threads (return_guard t g c s) = (ps_threads s)[t := Outside]"
  "threads_in x (return_guard t g c s) = threads_in x (set_thread t Outside s)"
  "ps_guards (return_guard t g c s) = (ps_guards s)[g := Some (guard_new c)]"
  by (simp_all add: return_guard_def)

lemma leave_simps [simp]:
  "ps_pool (leave t cs s) = ps_pool s" "ps_lost (leave t cs s) = cs @ ps_lost s"
  "ps_lock (leave t cs s) = None" "ps_threads (leave t cs s) = (ps_threads s)[t := Outside]"
  "threads_in x (leave t cs s) = threads_in x (set_thread t Outside s)" "ps_guards (leave t cs s) = ps_guards s"
  "held (leave t cs s) = held (set_thread t Outside s)"
  by (simp_all add: leave_def)

lemma wakeful_leaves:
  assumes "wakeful s" and t: "thread_at t s = Some y" "y \<noteq> Woken"
    and "ps_threads s' = (ps_threads s)[t := Outside]" and "pl_idle (ps_pool s') = pl_idle (ps_pool s)"
    and "pl_shutting_down (ps_pool s') = pl_shutting_down (ps_pool s)"
  shows "wakeful s'"
  unfolding wakeful_def
proof
  assume "Asleep \<in> set (ps_threads s')"
  then have "Asleep \<in> set (ps_threads s)"
    using assms(4) asleep_update [of t Outside s] by (simp add: set_thread_def)
  moreover have "threads_in Woken s' = threads_in Woken s"
    using set_thread_in [OF t(1), of Woken Outside] t(2) assms(4) by (simp add: threads_in_def set_thread_def)
  ultimately show "\<not> pl_shutting_down (ps_pool s') \<and> length (pl_idle (ps_pool s')) \<le> threads_in Woken s'"
    using assms(1,5,6) by (simp add: wakeful_def)
qed

lemma ping_alive_ok:
  assumes ok: "sys_ok kind n s" and t: "thread_at t s = Some (Pinging c)" and g: "free_address g s"
  shows "sys_ok kind n (return_guard t g c s)"
proof -
  let ?s = "return_guard t g c s"
  have "mset (held ?s) = mset (held s)" using return_guard_held [OF t g, of c] by simp
  then have "balanced ?s" using ok by (simp add: sys_ok_def balanced_def)
  moreover have "within n ?s" using set_thread_in [OF t, of Connecting Outside] ok by (simp add: sys_ok_def within_def)
  moreover have "wakeful ?s" by (rule wakeful_leaves [OF _ t]) (use ok in \<open>simp_all add: sys_ok_def\<close>)
  moreover have "guard_ok (Some (guard_new c))" by (simp add: guard_ok_def guard_new_def)
  ultimately show ?thesis using ok guards_ok_update [of "ps_guards s" "Some (guard_new c)"]
    by (auto simp: sys_ok_def locked_by_def shut_def)
qed

lemma connected_ok:
  assumes ok: "sys_ok kind n s" and t: "thread_at t s = Some Connecting" and g: "free_address g s"
  shows "sys_ok kind n (return_guard t g (pl_next (ps_pool s)) (on_sys_pool open_conn s))"
proof -
  let ?s = "return_guard t g (pl_next (ps_pool s)) (on_sys_pool open_conn s)"
  let ?s1 = "on_sys_pool open_conn s"
  have t1: "thread_at t ?s1 = Some Connecting" and g1: "free_address g ?s1"
    using t g by (simp_all add: free_address_def)
  have "mset (held ?s) = add_mset (pl_next (ps_pool s)) (mset (held s))"
    using return_guard_held [OF t1 g1, of "pl_next (ps_pool s)"] by simp
  then have "balanced ?s" using ok by (auto simp: sys_ok_def balanced_def open_conn_def less_Suc_eq)
  moreover have "within n ?s"
    using set_thread_in [OF t1, of Connecting Outside] ok by (simp add: sys_ok_def within_def open_conn_def)
  moreover have "wakeful ?s" by (rule wakeful_leaves [OF _ t]) (use ok in \<open>simp_all add: sys_ok_def open_conn_def\<close>)
  moreover have "guard_ok (Some (guard_new (pl_next (ps_pool s))))" by (simp add: guard_ok_def guard_new_def)
  ultimately show ?thesis using ok guards_ok_update [of "ps_guards s" "Some (guard_new (pl_next (ps_pool s)))"]
    by (auto simp: sys_ok_def locked_by_def shut_def open_conn_def)
qed

lemma length_Suc_remove1: "c \<in> set xs \<Longrightarrow> length xs = Suc (length (remove1 c xs))"
  by (induction xs) auto

lemma ping_dead_ok:
  assumes ok: "sys_ok kind n s" and t: "thread_at t s = Some (Pinging c)"
  shows "sys_ok kind n (on_sys_pool (close_conn c) (set_thread t Connecting s))"
proof -
  let ?s = "on_sys_pool (close_conn c) (set_thread t Connecting s)"
  have h: "mset (held s) = add_mset c (mset (held (set_thread t Connecting s)))"
    using thread_held [OF t, of Connecting] by simp
  then have "c \<in># mset (held s)" by simp
  with ok have c: "c \<in> set (pl_open (ps_pool s))" using held_open [of s c] by (simp add: sys_ok_def)
  have "balanced ?s" using ok h by (auto simp: sys_ok_def balanced_def close_conn_def dest: notin_set_remove1)
  moreover have "within n ?s"
    using set_thread_in [OF t, of Connecting Connecting] ok length_Suc_remove1 [OF c]
    by (simp add: sys_ok_def within_def close_conn_def)
  moreover have "locked_by ?s"
    using ok thread_atD [OF t]
    by (auto simp: sys_ok_def locked_by_def thread_at_def nth_list_update split: option.splits thread_state.splits if_splits)
  moreover have "wakeful ?s"
    using ok set_thread_in [OF t, of Woken Connecting] asleep_update [of t Connecting s]
    by (auto simp: sys_ok_def wakeful_def close_conn_def)
  ultimately show ?thesis using ok by (simp add: sys_ok_def shut_def close_conn_def)
qed

lemma ping_throws_ok:
  assumes ok: "sys_ok RedisKind n s" and t: "thread_at t s = Some (Pinging c)"
  shows "sys_ok RedisKind n (leave t [c] s)"
proof -
  have "add_mset c (mset (held (set_thread t Outside s))) = mset (held s)"
    using thread_held [OF t, of Outside] by simp
  then have "balanced (leave t [c] s)" using ok by (simp add: sys_ok_def balanced_def)
  moreover have "within n (leave t [c] s)"
    using set_thread_in [OF t, of Connecting Outside] ok by (simp add: sys_ok_def within_def)
  moreover have "wakeful (leave t [c] s)" by (rule wakeful_leaves [OF _ t]) (use ok in \<open>simp_all add: sys_ok_def\<close>)
  ultimately show ?thesis using ok by (simp add: sys_ok_def locked_by_def shut_def)
qed

lemma connect_fails_ok:
  assumes ok: "sys_ok kind n s" and t: "thread_at t s = Some Connecting"
  shows "sys_ok kind n (leave t [] s)"
    and "kind = RedisKind \<Longrightarrow> sys_ok kind n (leave t [pl_next (ps_pool s)] (on_sys_pool open_conn s))"
proof -
  have h: "mset (held (set_thread t Outside s)) = mset (held s)"
    "mset (held (set_thread t Outside (on_sys_pool open_conn s))) = mset (held s)"
    using thread_held [OF t, of Outside] thread_held [of t "on_sys_pool open_conn s" Connecting Outside] t by simp_all
  have n: "Suc (threads_in Connecting (set_thread t Outside s)) = threads_in Connecting s"
    "Suc (threads_in Connecting (set_thread t Outside (on_sys_pool open_conn s))) = threads_in Connecting s"
    using set_thread_in [OF t, of Connecting Outside]
      set_thread_in [of t "on_sys_pool open_conn s" Connecting Connecting Outside] t by simp_all
  have "wakeful (leave t [] s)" by (rule wakeful_leaves [OF _ t]) (use ok in \<open>simp_all add: sys_ok_def\<close>)
  with ok h n show "sys_ok kind n (leave t [] s)"
    by (simp add: sys_ok_def balanced_def within_def locked_by_def shut_def)
  have "wakeful (leave t [pl_next (ps_pool s)] (on_sys_pool open_conn s))"
    by (rule wakeful_leaves [OF _ t]) (use ok in \<open>simp_all add: sys_ok_def open_conn_def\<close>)
  with ok h n show "sys_ok kind n (leave t [pl_next (ps_pool s)] (on_sys_pool open_conn s))" if "kind = RedisKind"
    using that by (auto simp: sys_ok_def balanced_def within_def locked_by_def shut_def open_conn_def less_Suc_eq)
qed


text \<open>Guards that change among themselves.\<close>

lemma sys_ok_guards:
  assumes "sys_ok kind n s" and "ps_pool s' = ps_pool s" "ps_threads s' = ps_threads s" "ps_lock s' = ps_lock s"
    "ps_lost s' = ps_lost s" and "mset (held s') = mset (held s)" and "\<forall>x\<in>set (ps_guards s'). guard_ok x"
  shows "sys_ok kind n s'"
proof -
  have "threads_in x s' = threads_in x s" "thread_at t s' = thread_at t s" for x t
    using assms(3) by (simp_all add: threads_in_def thread_at_def)
  moreover from this have "locked_by s' \<longleftrightarrow> locked_by s"
    using assms(4) by (cases "ps_lock s") (simp_all add: locked_by_def)
  ultimately show ?thesis using assms
    by (simp add: sys_ok_def balanced_def within_def wakeful_def shut_def)
qed

lemma null_conns [simp]: "guard_conns (Some guard_null) = []" "guard_conns None = []"
  "guard_ok (Some guard_null)" "guard_ok None"
  by (simp_all add: guard_conns_def guard_null_def guard_ok_def)

lemma set_guard_ok:
  assumes ok: "sys_ok kind n s" and g: "g < length (ps_guards s)" "guard_conns (ps_guards s ! g) = []"
    and y: "guard_conns y = []" "guard_ok y"
  shows "sys_ok kind n (set_guard g y s)"
proof (rule sys_ok_guards [OF ok])
  show "mset (held (set_guard g y s)) = mset (held s)" using set_guard_held [OF g(1), of y] g(2) y(1) by simp
  show "\<forall>x\<in>set (ps_guards (set_guard g y s)). guard_ok x"
    using ok y(2) guards_ok_update [of "ps_guards s" y] by (auto simp: sys_ok_def)
qed simp_all

lemma move_from_ok:
  assumes ok: "sys_ok kind n s" and g: "g < length (ps_guards s)" "guard_conns (ps_guards s ! g) = []"
    and h: "guard_at h s = Some x" and ne: "g \<noteq> h"
  shows "sys_ok kind n (move_from g h s)"
proof (rule sys_ok_guards [OF ok])
  have hl: "h < length (ps_guards s)" "ps_guards s ! h = Some x" using guard_atD [OF h] by simp_all
  let ?s1 = "set_guard g (Some x) s"
  have "mset (held ?s1) = mset (held s) + mset (guard_conns (Some x))"
    using set_guard_held [OF g(1), of "Some x"] g(2) by simp
  moreover have "mset (held (set_guard h (Some guard_null) ?s1)) + mset (guard_conns (Some x)) = mset (held ?s1)"
    using set_guard_held [of h ?s1 "Some guard_null"] hl ne by simp
  ultimately show "mset (held (move_from g h s)) = mset (held s)" using h by (simp add: move_from_def)
  have "guard_ok (Some x)" using ok hl by (metis nth_mem sys_ok_def)
  moreover have "\<forall>z\<in>set (ps_guards s). guard_ok z" using ok by (simp add: sys_ok_def)
  ultimately have "\<forall>z\<in>set ((ps_guards s)[g := Some x]). guard_ok z" using guards_ok_update by blast
  moreover have "ps_guards (move_from g h s) = (ps_guards s)[g := Some x, h := Some guard_null]"
    using h by (simp add: move_from_def)
  ultimately show "\<forall>z\<in>set (ps_guards (move_from g h s)). guard_ok z"
    using guards_ok_update null_conns(3) by metis
qed (simp_all add: move_from_def)

text \<open>A connection that nobody holds any more is put back or closed.\<close>

lemma pool_release_ok:
  assumes s1: "sys_ok kind n s" and run: "pool_release c wake s = Some s2" and g: "guard_at g s = Some x"
    and x: "guard_conns (Some x) = [c]"
  shows "sys_ok kind n (set_guard g (Some guard_null) s2)"
proof -
  have gl: "g < length (ps_guards s)" "ps_guards s ! g = Some x" using guard_atD [OF g] by simp_all
  let ?f = "set_guard g (Some guard_null)"
  have h: "mset (held s) = add_mset c (mset (held (?f s)))"
    using set_guard_held [OF gl(1), of "Some guard_null"] gl(2) x by simp
  have "c \<in># mset (held s)" unfolding h by simp
  then have c: "c \<in> set (pl_open (ps_pool s))" using held_open [of s c] s1 by (simp add: sys_ok_def)
  have gs: "\<forall>z\<in>set (ps_guards (?f s)). guard_ok z"
    using s1 guards_ok_update [of "ps_guards s" "Some guard_null"] by (auto simp: sys_ok_def)
  show ?thesis
  proof (cases "pl_shutting_down (ps_pool s)")
    case True
    with run have s2: "s2 = on_sys_pool (close_conn c) s" and l: "ps_lock s = None" by (auto simp: pool_release_def split: if_splits)
    have eq: "held (?f s2) = held (?f s)" by (simp add: s2 held_def)
    have "balanced (?f s2)"
      using s1 h eq by (auto simp: s2 sys_ok_def balanced_def close_conn_def dest: notin_set_remove1)
    moreover have "within n (?f s2)" using s1 length_Suc_remove1 [OF c] by (simp add: s2 sys_ok_def within_def close_conn_def)
    ultimately show ?thesis using s1 gs l
      by (simp add: s2 sys_ok_def locked_by_def wakeful_def shut_def close_conn_def thread_at_def)
  next
    case False
    let ?sp = "on_sys_pool (push_conn c) s"
    from run False have n: "notify_one wake ?sp = Some s2" and l: "ps_lock s = None"
      by (auto simp: pool_release_def split: if_splits)
    consider "s2 = ?sp" "Asleep \<notin> set (ps_threads s)"
      | t where "thread_at t s = Some Asleep" "s2 = set_thread t Woken ?sp"
      using n by (auto simp: notify_one_def split: option.splits if_splits)
    then show ?thesis
    proof cases
      case 1
      have "held (?f s2) = held (?f s)" by (simp add: 1 held_def)
      with s1 h l gs 1(2) False show ?thesis
        by (simp add: 1(1) sys_ok_def balanced_def within_def locked_by_def wakeful_def shut_def push_conn_def)
    next
      case 2
      have "mset (held (?f s2)) = mset (held (?f s))"
        using mset_concat_update [of t "ps_threads s" thread_conns Woken] thread_atD [OF 2(1)]
        by (simp add: 2(2) held_def)
      moreover have "threads_in Woken (?f s2) = Suc (threads_in Woken s)"
        "threads_in Connecting (?f s2) = threads_in Connecting s"
        using set_thread_in [of t ?sp Asleep Woken Woken] set_thread_in [of t ?sp Asleep Connecting Woken] 2 by simp_all
      moreover have "Asleep \<in> set (ps_threads s)" using thread_atD [OF 2(1)] by (metis nth_mem)
      ultimately show ?thesis using s1 h l gs False
        by (simp add: 2(2) sys_ok_def balanced_def within_def locked_by_def wakeful_def shut_def push_conn_def)
    qed
  qed
qed

lemma guard_reset_ok:
  assumes ok: "sys_ok kind n s" and run: "guard_reset g wake s = Some s'"
  shows "sys_ok kind n s' \<and> guard_at g s' = Some guard_null \<and> length (ps_guards s') = length (ps_guards s) \<and>
    (\<forall>h. h \<noteq> g \<longrightarrow> guard_at h s' = guard_at h s)"
proof -
  from run obtain x where x: "guard_at g s = Some x" by (auto simp: guard_reset_def split: option.splits)
  have gl: "g < length (ps_guards s)" "ps_guards s ! g = Some x" using guard_atD [OF x] by simp_all
  have gk: "guard_ok (Some x)" using ok gl by (metis nth_mem sys_ok_def)
  show ?thesis
  proof (cases "gd_conn x")
    case None
    with x run have s': "s' = set_guard g (Some guard_null) s" by (simp add: guard_reset_def)
    have "guard_conns (Some x) = []" using None by (simp add: guard_conns_def)
    with set_guard_ok [OF ok gl(1)] gl show ?thesis by (auto simp: s' guard_at_def)
  next
    case (Some c)
    with gk have p: "gd_pool x" "guard_conns (Some x) = [c]" by (simp_all add: guard_ok_def guard_conns_def)
    with Some x run obtain s2 where s2: "pool_release c wake s = Some s2" and s': "s' = set_guard g (Some guard_null) s2"
      by (auto simp: guard_reset_def)
    have "ps_guards s2 = ps_guards s"
      using s2 by (auto simp: pool_release_def notify_one_def split: if_splits option.splits)
    with pool_release_ok [OF ok s2 x p(2)] gl show ?thesis by (auto simp: s' guard_at_def)
  qed
qed


lemma guard_destroy_ok: "sys_ok kind n s \<Longrightarrow> guard_destroy g wake s = Some s' \<Longrightarrow> sys_ok kind n s'"
proof -
  assume ok: "sys_ok kind n s" and run: "guard_destroy g wake s = Some s'"
  then obtain s1 where s1: "guard_reset g wake s = Some s1" "s' = set_guard g None s1"
    by (auto simp: guard_destroy_def)
  with guard_reset_ok [OF ok s1(1)] guard_atD [of g s1 guard_null] set_guard_ok [of kind n s1 g None] show ?thesis
    by simp
qed

lemma guard_move_assign_ok: "sys_ok kind n s \<Longrightarrow> guard_move_assign g h wake s = Some s' \<Longrightarrow> sys_ok kind n s'"
proof -
  assume ok: "sys_ok kind n s" and run: "guard_move_assign g h wake s = Some s'"
  show ?thesis
  proof (cases "g = h")
    case True
    with ok run show ?thesis by (simp add: guard_move_assign_def split: if_splits)
  next
    case False
    with run obtain s1 x where s1: "guard_reset g wake s = Some s1" "s' = move_from g h s1" and x: "guard_at h s = Some x"
      by (auto simp: guard_move_assign_def split: if_splits)
    note r = guard_reset_ok [OF ok s1(1)]
    with x False have "guard_at h s1 = Some x" "guard_at g s1 = Some guard_null" by auto
    with r False guard_atD [of g s1 guard_null] show ?thesis unfolding s1(2) by (intro move_from_ok) auto
  qed
qed

lemma guard_move_construct_ok: "sys_ok kind n s \<Longrightarrow> guard_move_construct g h s = Some s' \<Longrightarrow> sys_ok kind n s'"
proof -
  assume ok: "sys_ok kind n s" and run: "guard_move_construct g h s = Some s'"
  then obtain x where x: "guard_at h s = Some x" and g: "g < length (ps_guards s)" "ps_guards s ! g = None"
    and s': "s' = move_from g h s"
    by (auto simp: guard_move_construct_def free_address_def split: if_splits)
  then have "g \<noteq> h" using guard_atD [OF x] by auto
  with ok x g show ?thesis unfolding s' by (intro move_from_ok) auto
qed

lemma mset_fold_remove1: "mset (fold remove1 cs xs) = mset xs - mset cs"
  by (induction cs arbitrary: xs) (auto simp: diff_diff_add_mset)

lemma shutdown_ok:
  assumes ok: "sys_ok kind n s" and l: "ps_lock s = None"
  shows "sys_ok kind n (sys_shutdown kind s)"
proof -
  let ?f = "\<lambda>p. (close_idle (p\<lparr>pl_shutting_down := True\<rparr>))\<lparr>pl_initialized := False\<rparr>"
  let ?s = "notify_all (on_sys_pool ?f s)"
  have p: "pl_idle (?f p) = []" "pl_open (?f p) = fold remove1 (pl_idle p) (pl_open p)" "pl_next (?f p) = pl_next p" for p
    by (simp_all add: close_idle_def fold_close_conn)
  have "thread_conns \<circ> (\<lambda>x. if x = Asleep then Woken else x) = thread_conns" by (rule ext) simp
  then have h: "held ?s = held s" by (simp add: held_def notify_all_def)
  have c: "threads_in Connecting ?s = threads_in Connecting s"
    by (auto simp: threads_in_def notify_all_def filter_map intro!: arg_cong [where f = length] filter_cong split: if_splits)
  have m: "mset (fold remove1 (pl_idle (ps_pool s)) (pl_open (ps_pool s))) = mset (held s) + mset (ps_lost s)"
    using ok by (simp add: sys_ok_def balanced_def mset_fold_remove1)
  have d: "distinct (pl_open (ps_pool s))" and lt: "\<forall>c\<in>set (pl_open (ps_pool s)). c < pl_next (ps_pool s)"
    using ok by (simp_all add: sys_ok_def balanced_def)
  have "balanced ?s"
    using m h d lt by (simp add: balanced_def p notify_all_def distinct_fold_remove1 set_fold_remove1)
  moreover have "length (fold remove1 (pl_idle (ps_pool s)) (pl_open (ps_pool s))) \<le> length (pl_open (ps_pool s))"
    by (metis diff_subset_eq_self mset_fold_remove1 size_mset size_mset_mono)
  then have "within n ?s" using ok c by (simp add: sys_ok_def within_def p notify_all_def)
  moreover have "wakeful ?s" by (auto simp: wakeful_def notify_all_def)
  ultimately have "sys_ok kind n ?s"
    using ok l p by (simp add: sys_ok_def locked_by_def shut_def notify_all_def)
  with ok show ?thesis by (simp add: sys_shutdown_def)
qed

lemma pool_step_ok:
  assumes ok: "sys_ok kind n s" and run: "pool_step kind e s = Some s'"
  shows "sys_ok kind n s'"
proof (cases e)
  case (Enter t)
  with run ok test_wait_ok [OF ok, of t Outside False] show ?thesis by (auto split: if_splits)
next
  case (Wake t)
  with run ok wake_ok [OF ok, of t] show ?thesis by (auto split: if_splits)
next
  case (Retest t b)
  with run ok test_wait_ok [OF ok, of t Woken b] show ?thesis by (auto split: if_splits)
next
  case (PingAlive t g)
  with run ping_alive_ok [OF ok, of t _ g] show ?thesis by (auto split: option.splits thread_state.splits if_splits)
next
  case (PingDead t)
  with run ping_dead_ok [OF ok, of t] show ?thesis by (auto split: option.splits thread_state.splits)
next
  case (PingThrows t)
  with run ok ping_throws_ok [of n s t] show ?thesis by (auto split: option.splits thread_state.splits if_splits)
next
  case (Connected t g)
  with run connected_ok [OF ok, of t g] show ?thesis by (auto split: if_splits)
next
  case (ConnectFails t leaked)
  with run connect_fails_ok [OF ok, of t] show ?thesis by (auto split: if_splits)
next
  case (DestroyGuard g wake)
  with run guard_destroy_ok [OF ok] show ?thesis by simp
next
  case (MoveConstruct g h)
  with run guard_move_construct_ok [OF ok] show ?thesis by simp
next
  case (MoveAssign g h wake)
  with run guard_move_assign_ok [OF ok] show ?thesis by simp
next
  case ShutdownPool
  with run shutdown_ok [OF ok] show ?thesis by (auto split: if_splits)
qed

lemma pool_reach_ok: "pool_reach kind n s \<Longrightarrow> sys_ok kind n s"
  by (induction rule: pool_reach.induct) (auto intro: sys_init_ok pool_step_ok)


section \<open>One owner for each connection\<close>

lemma distinct_concat_index:
  "distinct (concat (map f xs)) \<Longrightarrow> i < length xs \<Longrightarrow> j < length xs \<Longrightarrow> c \<in> set (f (xs ! i)) \<Longrightarrow>
     c \<in> set (f (xs ! j)) \<Longrightarrow> i = j"
proof (induction xs arbitrary: i j)
  case (Cons x xs)
  have ne: "c \<notin> set (f (xs ! k))" if "k < length xs" "c \<in> set (f x)" for k
    using that Cons.prems(1) nth_mem [OF that(1)] by fastforce
  show ?case
  proof (cases i)
    case 0
    with Cons.prems ne show ?thesis by (cases j) auto
  next
    case (Suc k)
    with Cons.prems ne [of k] Cons.IH [of k "j - 1"] show ?thesis by (cases j) auto
  qed
qed simp

lemma held_distinct:
  "balanced s \<Longrightarrow> distinct (held s) \<and> set (held s) \<inter> set (pl_idle (ps_pool s)) = {} \<and>
     set (held s) \<subseteq> set (pl_open (ps_pool s))"
proof -
  assume b: "balanced s"
  then have eq: "mset (pl_open (ps_pool s)) = mset (pl_idle (ps_pool s) @ held s @ ps_lost s)"
    and d: "distinct (pl_open (ps_pool s))"
    by (simp_all add: balanced_def)
  from mset_eq_imp_distinct_iff [OF eq] d have "distinct (pl_idle (ps_pool s) @ held s @ ps_lost s)" by simp
  moreover from mset_eq_setD [OF eq] have "set (held s) \<subseteq> set (pl_open (ps_pool s))" by auto
  ultimately show ?thesis by auto
qed

lemma guard_get_held: "guard_at g s = Some x \<Longrightarrow> guard_ok (Some x) \<Longrightarrow> guard_get x = Some c \<Longrightarrow>
    g < length (ps_guards s) \<and> c \<in> set (guard_conns (ps_guards s ! g))"
  using guard_atD [of g s x] by (auto simp: guard_ok_def guard_get_def guard_conns_def)


section \<open>No wake-up is lost\<close>

fun goes_on :: "pool_event \<Rightarrow> bool" where
  "goes_on (Wake t) = True"
| "goes_on (Retest t b) = True"
| "goes_on (PingDead t) = True"
| "goes_on (ConnectFails t b) = True"
| "goes_on _ = False"

lemma acquire_goes_on:
  assumes ok: "sys_ok kind n s" and x: "x \<in> set (ps_threads s)" "x \<noteq> Outside"
  shows "\<exists>e s'. goes_on e \<and> pool_step kind e s = Some s'"
proof -
  have busy: "\<exists>e s'. goes_on e \<and> pool_step kind e s = Some s'"
    if "thread_at t s = Some (Pinging c) \<or> thread_at t s = Some Connecting" for t c
    using that by (auto intro: exI [of _ "PingDead t"] exI [of _ "ConnectFails t False"])
  obtain t where "t < length (ps_threads s)" "ps_threads s ! t = x" using x(1) by (auto simp: in_set_conv_nth)
  then have t: "thread_at t s = Some x" by (simp add: thread_at_def)
  show ?thesis
  proof (cases x)
    case Asleep
    with t show ?thesis by (intro exI [of _ "Wake t"]) simp
  next
    case Woken
    show ?thesis
    proof (cases "ps_lock s")
      case None
      with t Woken show ?thesis by (intro exI [of _ "Retest t False"]) simp
    next
      case (Some u)
      with ok obtain c where "thread_at u s = Some (Pinging c) \<or> thread_at u s = Some Connecting"
        by (auto simp: sys_ok_def locked_by_def split: option.splits thread_state.splits)
      with busy show ?thesis by blast
    qed
  qed (use t busy x(2) in auto)
qed

text \<open>
  C24: no thread sleeps in \<open>acquire\<close> while a connection is idle, unless at least as many other threads have been
  woken and are about to take it; nobody sleeps after a shutdown; and as long as a thread is in \<open>acquire\<close>, a
  thread can go on, so the mutex and the condition variable never block all of them.
\<close>

theorem no_lost_wakeup:
  assumes "pool_reach kind n s"
  shows "(Asleep \<in> set (ps_threads s) \<longrightarrow>
      \<not> pl_shutting_down (ps_pool s) \<and> length (pl_idle (ps_pool s)) \<le> threads_in Woken s) \<and>
    ((\<exists>x\<in>set (ps_threads s). x \<noteq> Outside) \<longrightarrow> (\<exists>e s'. goes_on e \<and> pool_step kind e s = Some s'))"
  using pool_reach_ok [OF assms] acquire_goes_on [of kind n s] by (auto simp: sys_ok_def wakeful_def)


section \<open>The sequential operations are runs of the sections\<close>

text \<open>
  What a call of \<open>acquire\<close> that returns does to the pool, in the models that run it as a whole. One thread
  that makes the steps of this theory alone has the same effect, and destroying the guard is \<open>release\<close>.
\<close>

definition takes :: "pool \<Rightarrow> nat \<Rightarrow> pool \<Rightarrow> bool" where
  "takes p c p' \<longleftrightarrow> pl_initialized p \<and> \<not> pl_shutting_down p \<and> (\<exists>c0 cs. pl_idle p = c0 # cs \<and>
     (c = c0 \<and> p' = pop_conn p \<or> c = pl_next p \<and> p' = open_conn (close_conn c0 (pop_conn p))))"

definition holding :: "pool \<Rightarrow> nat \<Rightarrow> pool_sys" where
  "holding p c = \<lparr>ps_pool = p, ps_lock = None, ps_threads = [Outside], ps_guards = [Some (guard_new c)], ps_lost = []\<rparr>"

lemmas solo_simps = thread_at_def guard_at_def free_address_def set_thread_def set_guard_def on_sys_pool_def
  test_wait_def take_conn_def return_guard_def sys_init_def holding_def

lemma run_append:
  "pool_run kind es s = Some s1 \<Longrightarrow> pool_run kind (es @ fs) s = pool_run kind fs s1"
  by (induction es arbitrary: s) (auto split: option.splits)

lemma takes_steps:
  assumes "takes p c p'"
  shows "\<exists>es. pool_run kind es (sys_init p 1 1) = Some (holding p' c)"
proof -
  from assms obtain c0 cs where idle: "pl_idle p = c0 # cs" and i: "pl_initialized p" "\<not> pl_shutting_down p"
    and "c = c0 \<and> p' = pop_conn p \<or> c = pl_next p \<and> p' = open_conn (close_conn c0 (pop_conn p))"
    by (auto simp: takes_def)
  then consider "c = c0" "p' = pop_conn p" | "c = pl_next p" "p' = open_conn (close_conn c0 (pop_conn p))" by blast
  then show ?thesis
  proof cases
    case 1
    then show ?thesis using idle i by (intro exI [of _ "[Enter 0, PingAlive 0 0]"]) (simp add: solo_simps)
  next
    case 2
    then show ?thesis using idle i
      by (intro exI [of _ "[Enter 0, PingDead 0, Connected 0 0]"])
         (simp add: solo_simps open_conn_def close_conn_def pop_conn_def)
  qed
qed

lemma destroy_releases:
  "pool_step kind (DestroyGuard 0 None) (holding p c) = Some (sys_init (release_conn c p) 1 1)"
  by (simp add: guard_destroy_def guard_reset_def pool_release_def notify_one_def release_conn_def solo_simps guard_new_def)

locale acquire_sections =
  fixes acquire :: "('w, nat) comp"
    and release :: "nat \<Rightarrow> 'w \<Rightarrow> 'w"
    and pl :: "'w \<Rightarrow> pool"
  assumes acquire_takes: "acquire w = (Inr c, w') \<Longrightarrow> takes (pl w) c (pl w')"
    and release_puts: "pl (release c w) = release_conn c (pl w)"
begin

lemma guarded_sections:
  assumes "acquire w = (Inr c, w1)" and "f c w1 = (r, w2)" and "pl w2 = pl w1"
  shows "\<exists>es. with_guard acquire release f w = (r, release c w2) \<and>
    pool_run kind es (sys_init (pl w) 1 1) = Some (sys_init (pl (release c w2)) 1 1)"
proof -
  obtain es where "pool_run kind es (sys_init (pl w) 1 1) = Some (holding (pl w1) c)"
    using takes_steps [OF acquire_takes [OF assms(1)]] by blast
  from run_append [OF this, of "[DestroyGuard 0 None]"]
  have "pool_run kind (es @ [DestroyGuard 0 None]) (sys_init (pl w) 1 1) = Some (sys_init (pl (release c w2)) 1 1)"
    by (simp add: destroy_releases release_puts assms(3) del: pool_step.simps)
  moreover have "with_guard acquire release f w = (r, release c w2)"
    using assms by (simp add: with_guard_def run_simps)
  ultimately show ?thesis by blast
qed

end

interpretation my_sections: acquire_sections my_acquire my_release m_pool
proof unfold_locales
  fix w c w' assume run: "my_acquire w = (Inr c, w')"
  then have i: "pl_initialized (m_pool w)" "\<not> pl_shutting_down (m_pool w)" "pl_idle (m_pool w) \<noteq> []"
    by (auto simp: my_acquire_def run_iff split: if_splits list.splits)
  then obtain c0 cs where idle: "pl_idle (m_pool w) = c0 # cs" by (cases "pl_idle (m_pool w)") auto
  let ?w1 = "w\<lparr>m_pool := pop_conn (m_pool w)\<rparr>"
  obtain b w2 where p: "next_ping ?w1 = (Inr b, w2)" "m_pool w2 = pop_conn (m_pool w)"
    by (cases "m_pings w") (auto simp: next_ping_def)
  show "takes (m_pool w) c (m_pool w')"
  proof (cases b)
    case True
    with run i idle p show ?thesis by (auto simp: my_acquire_def takes_def run_simps)
  next
    case False
    with run i idle p have "my_createConnection (w2\<lparr>m_pool := close_conn c0 (m_pool w2)\<rparr>) = (Inr c, w')"
      by (auto simp: my_acquire_def run_simps)
    from my_filling.create_opens [OF this] p i idle show ?thesis
      by (auto simp: takes_def close_conn_def pop_conn_def)
  qed
qed (simp add: my_release_def)

interpretation rd_sections: acquire_sections rd_acquire rd_release r_pool
proof unfold_locales
  fix w c w' assume run: "rd_acquire w = (Inr c, w')"
  then have i: "pl_initialized (r_pool w)" "\<not> pl_shutting_down (r_pool w)" "pl_idle (r_pool w) \<noteq> []"
    by (auto simp: rd_acquire_def run_iff split: if_splits list.splits)
  then obtain c0 cs where idle: "pl_idle (r_pool w) = c0 # cs" by (cases "pl_idle (r_pool w)") auto
  let ?w1 = "w\<lparr>r_pool := pop_conn (r_pool w)\<rparr>"
  obtain q w2 where p: "rd_ping ?w1 = (q, w2)" by force
  have w2: "r_pool w2 = pop_conn (r_pool w)" using rd_ping_pool [OF p] by simp
  with run i idle p obtain b where q: "q = Inr b" by (cases q) (auto simp: rd_acquire_def run_simps)
  show "takes (r_pool w) c (r_pool w')"
  proof (cases b)
    case True
    with run i idle p q w2 show ?thesis by (auto simp: rd_acquire_def takes_def run_simps)
  next
    case False
    with run i idle p q have "rd_createConnection (w2\<lparr>r_pool := close_conn c0 (r_pool w2)\<rparr>) = (Inr c, w')"
      by (auto simp: rd_acquire_def run_simps)
    from rd_filling.create_opens [OF this] w2 i idle show ?thesis
      by (auto simp: takes_def close_conn_def pop_conn_def)
  qed
qed (simp add: rd_release_def)


interpretation ss_sections: acquire_sections ss_acquire ss_release r_pool
proof unfold_locales
  fix w c w' assume run: "ss_acquire w = (Inr c, w')"
  then have i: "pl_initialized (r_pool w)" "\<not> pl_shutting_down (r_pool w)" "pl_idle (r_pool w) \<noteq> []"
    by (auto simp: ss_acquire_def run_iff split: if_splits list.splits)
  then obtain c0 cs where idle: "pl_idle (r_pool w) = c0 # cs" by (cases "pl_idle (r_pool w)") auto
  let ?w1 = "w\<lparr>r_pool := pop_conn (r_pool w)\<rparr>"
  obtain q w2 where p: "ss_ping ?w1 = (q, w2)" by force
  obtain b where q: "q = Inr b" and w2: "r_pool w2 = pop_conn (r_pool w)" using ss_ping_pool [OF p] by auto
  show "takes (r_pool w) c (r_pool w')"
  proof (cases b)
    case True
    with run i idle p q w2 show ?thesis by (auto simp: ss_acquire_def takes_def run_simps)
  next
    case False
    with run i idle p q have "ss_createConnection (w2\<lparr>r_pool := close_conn c0 (r_pool w2)\<rparr>) = (Inr c, w')"
      by (auto simp: ss_acquire_def run_simps)
    from ss_filling.create_opens [OF this] w2 i idle show ?thesis
      by (auto simp: takes_def close_conn_def pop_conn_def)
  qed
qed (simp add: ss_release_def)

end
