(* ===== verification/EndWitnesses.thy ===== *)
theory EndWitnesses
  imports Shutdown PoolThreads
begin

text \<open>
  The properties of \<open>Shutdown\<close> and \<open>PoolThreads\<close> applied to concrete runs: a process that is told to stop
  while a connection waits in the queue, and two threads that share a pool of one connection.
\<close>

section \<open>The end of a process\<close>

definition small_server :: server where
  "small_server = \<lparr>sv_max = 256, sv_active = 0, sv_acceptor = Waiting,
     sv_workers = \<lparr>wk_count = 4, wk_initialized = True, wk_stop = False, wk_tasks = [], wk_started = []\<rparr>,
     sv_running = [], sv_open = []\<rparr>"

lemma process_reach_run:
  "process_reach early p \<Longrightarrow> process_run es p = Some p' \<Longrightarrow> process_reach early p'"
  by (induction es arbitrary: p) (auto split: option.splits intro: process_reach.step)

lemma small_server_starts: "process_reach backend_statics (process_init backend_statics small_server)"
  by (rule process_reach.start) (simp_all add: server_init_def small_server_def)

text \<open>A connection is accepted and handed over, the signal comes, and \<open>main\<close> returns before it is served.\<close>

definition before_exit :: "process_event list" where
  "before_exit = [CheckRunning, Server (Accept 7), Server CountUp, Server CheckSlot, Server SubmitTask, Signal, LeaveLoop,
     LeaveMain]"

definition at_exit :: lifecycle where
  "at_exit =
     \<lparr>pc_server = small_server\<lparr>sv_active := 1, sv_workers := (sv_workers small_server)\<lparr>wk_tasks := [7]\<rparr>, sv_open := [7]\<rparr>,
      pc_running = False, pc_passed = False, pc_phase = Exiting, pc_statics = WorkersInst # rev backend_statics,
      pc_dead = [], pc_dangling = False\<rparr>"

lemma at_exit_reached: "process_reach backend_statics at_exit"
proof (rule process_reach_run [OF small_server_starts])
  show "process_run before_exit (process_init backend_statics small_server) = Some at_exit"
    by (simp add: before_exit_def process_init_def small_server_def at_exit_def at_loop_test_def count_up_def
        check_slot_def worker_submit_def run_simps onShutdownSignal_def)
qed

definition drain :: "process_event list" where
  "drain = [DestroyStatic, Server TakeTask, Server (FinishHandler 7), Server (ReleaseSlot 7), JoinWorkers]"

definition after_drain :: lifecycle where
  "after_drain =
     at_exit\<lparr>pc_server := small_server\<lparr>sv_workers := (sv_workers small_server)\<lparr>wk_stop := True, wk_started := [7]\<rparr>\<rparr>,
       pc_statics := rev backend_statics, pc_dead := [WorkersInst], pc_dangling := True\<rparr>"

lemma drain_run: "process_run drain at_exit = Some after_drain"
  by (simp add: drain_def at_exit_def after_drain_def small_server_def destroy_static_def worker_stop_def
      worker_turn_def close_fd_def releaseConnectionSlot_def workers_left_def server_gone_def)

theorem shutdown_serves_all_witness:
  "length (filter (\<lambda>e. \<not> idles e) drain) \<le> exit_work at_exit"
proof -
  have "ending at_exit" by (simp add: ending_def at_exit_def)
  from shutdown_serves_all [OF at_exit_reached this drain_run] show ?thesis by simp
qed

theorem late_connection_uses_dead_server_witness:
  "process_run drain at_exit = Some after_drain \<and> pc_dangling after_drain"
proof -
  have "pc_phase at_exit \<in> {Exiting, Joining}" "\<not> workers_left (pc_server at_exit)"
    "workers_left (pc_server after_drain)"
    by (simp_all add: at_exit_def after_drain_def workers_left_def small_server_def)
  from late_connection_uses_dead_server [OF at_exit_reached this(1,2) drain_run this(3)] drain_run
  show ?thesis by simp
qed

text \<open>
  The constant text of \<open>extractOrderSn\<close> is constructed by the first handler that needs it, so it is
  destroyed before the workers are joined; the next connection uses it all the same.
\<close>

lemma prefix_dies_before_workers:
  "map_option pc_dangling (process_run
     ([CheckRunning, Server (Accept 7), Server CountUp, Server CheckSlot, Server SubmitTask, Server TakeTask,
       Touch 7 PrefixText, Server (FinishHandler 7), Server (ReleaseSlot 7),
       CheckRunning, Server (Accept 7), Server CountUp, Server CheckSlot, Server SubmitTask, Signal, LeaveLoop,
       LeaveMain, DestroyStatic, DestroyStatic, Server TakeTask, Touch 7 PrefixText])
     (process_init backend_statics small_server)) = Some True"
  by (simp add: process_init_def small_server_def at_loop_test_def count_up_def check_slot_def worker_submit_def
      worker_turn_def close_fd_def releaseConnectionSlot_def run_simps onShutdownSignal_def server_gone_def touch_def
      destroy_static_def worker_stop_def backend_statics_def)

section \<open>A pool of one connection\<close>

definition one_conn :: pool where
  "one_conn = \<lparr>pl_idle = [0], pl_open = [0], pl_next = 1, pl_initialized = True, pl_shutting_down = False\<rparr>"

text \<open>
  The first thread takes the connection and moves its guard, the second waits, and is woken when the guard
  is destroyed.
\<close>

definition hand_over :: "pool_event list" where
  "hand_over = [Enter 0, Enter 1, PingAlive 0 0, MoveConstruct 1 0, DestroyGuard 0 None, DestroyGuard 1 (Some 1)]"

definition handed_over :: pool_sys where
  "handed_over = \<lparr>ps_pool = one_conn, ps_lock = None, ps_threads = [Outside, Woken], ps_guards = [None, None], ps_lost = []\<rparr>"

lemma pool_reach_run: "pool_reach kind n s \<Longrightarrow> pool_run kind es s = Some s' \<Longrightarrow> pool_reach kind n s'"
  by (induction es arbitrary: s) (auto split: option.splits intro: pool_reach.step)

lemma one_conn_starts: "pool_reach kind 1 (sys_init one_conn 2 2)"
  by (rule pool_reach.start) (simp add: pool_ready_def one_conn_def borrowed_def pool_ok_def)

lemma handed_over_reached: "pool_reach StoreKind 1 handed_over"
proof (rule pool_reach_run [OF one_conn_starts])
  show "pool_run StoreKind hand_over (sys_init one_conn 2 2) = Some handed_over"
    by (simp add: hand_over_def one_conn_def handed_over_def solo_simps guard_move_construct_def move_from_def
        guard_destroy_def guard_reset_def guard_null_def guard_new_def pool_release_def notify_one_def pop_conn_def
        push_conn_def numeral_2_eq_2)
qed

theorem no_lost_wakeup_witness:
  "\<exists>e s'. goes_on e \<and> pool_step StoreKind e handed_over = Some s'"
  using no_lost_wakeup [OF handed_over_reached] by (simp add: handed_over_def)

text \<open>The moved guard is the only one that refers to the connection.\<close>

definition moved_guard :: pool_sys where
  "moved_guard = \<lparr>ps_pool = one_conn\<lparr>pl_idle := []\<rparr>, ps_lock = None, ps_threads = [Outside, Asleep],
     ps_guards = [Some guard_null, Some (guard_new 0)], ps_lost = []\<rparr>"

lemma moved_guard_reached: "pool_reach StoreKind 1 moved_guard"
proof (rule pool_reach_run [OF one_conn_starts])
  show "pool_run StoreKind [Enter 0, Enter 1, PingAlive 0 0, MoveConstruct 1 0] (sys_init one_conn 2 2) = Some moved_guard"
    by (simp add: one_conn_def moved_guard_def solo_simps guard_move_construct_def move_from_def
        guard_null_def guard_new_def pop_conn_def numeral_2_eq_2)
qed


end
