(* ===== verification/Interleaving.thy ===== *)
theory Interleaving
  imports Prelude
begin

text \<open>
  Programs that other threads may interrupt. A \<open>comp\<close> of the prelude runs in one go; a \<open>prog\<close> is the
  same computation cut into its actions: each \<open>Act\<close> is one access to the state that the threads share,
  and between two actions any other thread may act. \<open>interleave\<close> runs a list of programs on one state,
  a schedule says whose turn it is. \<open>alone\<close> is the run without interruption.

  The locale \<open>interference\<close> proves the rely-guarantee rules once, for one relation \<open>G\<close> that every
  action of every thread keeps: \<open>holds G Q p w\<close> says that \<open>p\<close>, started in \<open>w\<close> and interrupted by any
  steps in \<open>G\<close>, takes steps in \<open>G\<close> only and ends in a result that \<open>Q\<close> allows, also later.
\<close>

section \<open>Programs\<close>

datatype ('w, 'a) prog =
    Ended "exn + 'a"
  | Act "'w \<Rightarrow> ('w, 'a) prog \<times> 'w"

text \<open>Induction along the actions: what holds after every action holds before it.\<close>

lemma prog_induct [case_names Ended Act, induct type: prog]:
  fixes P :: "('w, 'a) prog \<Rightarrow> bool"
  assumes "\<And>r. P (Ended r)"
    and "\<And>g. (\<And>w p w'. g w = (p, w') \<Longrightarrow> P p) \<Longrightarrow> P (Act g)"
  shows "P p"
proof (rule prog.induct)
  fix g :: "'w \<Rightarrow> ('w, 'a) prog \<times> 'w"
  assume "\<And>x p. x \<in> range g \<Longrightarrow> p \<in> Basic_BNFs.fsts x \<Longrightarrow> P p"
  then have "P p" if "g w = (p, w')" for w p w'
    using that by (metis fst_conv fsts.intros rangeI)
  then show "P (Act g)" by (rule assms(2))
qed (rule assms(1))

definition act :: "('w, 'a) comp \<Rightarrow> ('w, 'a) prog" where
  "act m = Act (\<lambda>w. case m w of (r, w') \<Rightarrow> (Ended r, w'))"

primrec pbind :: "('w, 'a) prog \<Rightarrow> ('a \<Rightarrow> ('w, 'b) prog) \<Rightarrow> ('w, 'b) prog" where
  "pbind (Ended r) f = (case r of Inl e \<Rightarrow> Ended (Inl e) | Inr x \<Rightarrow> f x)"
| "pbind (Act g) f = Act (\<lambda>w. map_prod (\<lambda>p. pbind p f) id (g w))"

primrec pcatch :: "('w, 'a) prog \<Rightarrow> (exn \<Rightarrow> ('w, 'a) prog) \<Rightarrow> ('w, 'a) prog" where
  "pcatch (Ended r) h = (case r of Inl e \<Rightarrow> h e | Inr x \<Rightarrow> Ended (Inr x))"
| "pcatch (Act g) h = Act (\<lambda>w. map_prod (\<lambda>p. pcatch p h) id (g w))"

primrec alone :: "('w, 'a) prog \<Rightarrow> 'w \<Rightarrow> (exn + 'a) \<times> 'w" where
  "alone (Ended r) = (\<lambda>w. (r, w))"
| "alone (Act g) = (\<lambda>w. case map_prod alone id (g w) of (run, w') \<Rightarrow> run w')"

text \<open>Without interruption a program is the computation it was cut from.\<close>

lemma alone_act: "alone (act m) = m"
  by (auto simp: act_def split: prod.split)

lemma alone_pbind: "alone (pbind p f) = mbind (alone p) (\<lambda>x. alone (f x))"
proof (induction p)
  case (Ended r)
  then show ?case by (auto simp: mbind_def split: sum.split)
next
  case (Act g)
  show ?case
  proof
    fix w
    obtain p w' where g: "g w = (p, w')" by force
    from Act [OF g] have "alone (pbind p f) = mbind (alone p) (\<lambda>x. alone (f x))" .
    with g show "alone (pbind (Act g) f) w = mbind (alone (Act g)) (\<lambda>x. alone (f x)) w"
      by (simp add: mbind_def)
  qed
qed

lemma alone_pcatch: "alone (pcatch p h) = mcatch (alone p) (\<lambda>e. alone (h e))"
proof (induction p)
  case (Ended r)
  then show ?case by (auto simp: mcatch_def split: sum.split)
next
  case (Act g)
  show ?case
  proof
    fix w
    obtain p w' where g: "g w = (p, w')" by force
    from Act [OF g] have "alone (pcatch p h) = mcatch (alone p) (\<lambda>e. alone (h e))" .
    with g show "alone (pcatch (Act g) h) w = mcatch (alone (Act g)) (\<lambda>e. alone (h e)) w"
      by (simp add: mcatch_def)
  qed
qed

text \<open>The same as introduction rules, to compare a program with a computation step by step.\<close>

definition cuts :: "('w, 'a) prog \<Rightarrow> ('w, 'a) comp \<Rightarrow> bool" where
  "cuts p m \<longleftrightarrow> alone p = m"

lemma cuts_act: "cuts (act m) m"
  by (simp add: cuts_def alone_act)

lemma cuts_lift: "cuts (Ended r) (mlift r)"
  by (simp add: cuts_def mlift_def)

lemma cuts_ret: "cuts (Ended (Inr x)) (mret x)"
  by (simp add: cuts_def mret_def)

lemma cuts_bind: "cuts p m \<Longrightarrow> (\<And>x. cuts (f x) (g x)) \<Longrightarrow> cuts (pbind p f) (mbind m g)"
  by (simp add: cuts_def alone_pbind)

lemma cuts_catch: "cuts p m \<Longrightarrow> (\<And>e. cuts (f e) (g e)) \<Longrightarrow> cuts (pcatch p f) (mcatch m g)"
  by (simp add: cuts_def alone_pcatch)

lemma cuts_if: "cuts p m \<Longrightarrow> cuts q n \<Longrightarrow> cuts (if b then p else q) (if b then m else n)"
  by simp

lemma cuts_option:
  "cuts p m \<Longrightarrow> (\<And>x. cuts (f x) (g x)) \<Longrightarrow>
   cuts (case c of None \<Rightarrow> p | Some x \<Rightarrow> f x) (case c of None \<Rightarrow> m | Some x \<Rightarrow> g x)"
  by (simp split: option.split)

lemma cuts_sum:
  "(\<And>x. cuts (p x) (m x)) \<Longrightarrow> (\<And>x. cuts (f x) (g x)) \<Longrightarrow>
   cuts (case c of Inl x \<Rightarrow> p x | Inr x \<Rightarrow> f x) (case c of Inl x \<Rightarrow> m x | Inr x \<Rightarrow> g x)"
  by (simp split: sum.split)

lemma cuts_prod:
  "(\<And>x y. cuts (f x y) (g x y)) \<Longrightarrow> cuts (case c of (x, y) \<Rightarrow> f x y) (case c of (x, y) \<Rightarrow> g x y)"
  by (simp split: prod.split)

lemma cuts_let: "(\<And>x. cuts (f x) (g x)) \<Longrightarrow> cuts (let x = t in f x) (let x = t in g x)"
  by simp

lemmas cuts_rules = cuts_act cuts_ret cuts_lift cuts_bind cuts_catch cuts_if cuts_option cuts_sum
  cuts_prod cuts_let

section \<open>Schedules\<close>

text \<open>One turn: thread \<open>k\<close> takes its next action, if it has one.\<close>

definition take_turn :: "nat \<Rightarrow> ('w, 'a) prog list \<times> 'w \<Rightarrow> ('w, 'a) prog list \<times> 'w" where
  "take_turn k c = (case c of (ps, w) \<Rightarrow>
     if k < length ps
     then (case ps ! k of Ended r \<Rightarrow> (ps, w) | Act g \<Rightarrow> (case g w of (p, w') \<Rightarrow> (ps[k := p], w')))
     else (ps, w))"

primrec interleave :: "nat list \<Rightarrow> ('w, 'a) prog list \<times> 'w \<Rightarrow> ('w, 'a) prog list \<times> 'w" where
  "interleave [] c = c"
| "interleave (k # ks) c = interleave ks (take_turn k c)"

section \<open>Rely and guarantee\<close>

primrec holds :: "('w \<Rightarrow> 'w \<Rightarrow> bool) \<Rightarrow> (exn + 'a \<Rightarrow> 'w \<Rightarrow> bool) \<Rightarrow> ('w, 'a) prog \<Rightarrow> 'w \<Rightarrow> bool" where
  "holds G Q (Ended r) = (\<lambda>w. \<forall>w'. G w w' \<longrightarrow> Q r w')"
| "holds G Q (Act g) = (\<lambda>w. \<forall>w'. G w w' \<longrightarrow>
     G w' (snd (g w')) \<and> (case map_prod (holds G Q) id (g w') of (after, w1) \<Rightarrow> after w1))"

lemma holds_Act:
  "holds G Q (Act g) w \<longleftrightarrow>
     (\<forall>w' p w1. G w w' \<longrightarrow> g w' = (p, w1) \<longrightarrow> G w' w1 \<and> holds G Q p w1)"
  by (auto simp: split_beta prod_eq_iff)

declare holds.simps(2) [simp del]

locale interference = frame G for G :: "'w \<Rightarrow> 'w \<Rightarrow> bool"
begin

lemma holds_later: "holds G Q p w \<Longrightarrow> G w w' \<Longrightarrow> holds G Q p w'"
  by (cases p) (auto simp: holds_Act intro: frame_trans)

lemma holds_end: "holds G Q (Ended r) w \<Longrightarrow> Q r w"
  by (simp add: frame_refl)

lemma holds_bind:
  assumes "holds G (\<lambda>r w. case r of Inl e \<Rightarrow> Q (Inl e) w | Inr x \<Rightarrow> holds G Q (f x) w) p w"
  shows "holds G Q (pbind p f) w"
  using assms
proof (induction p arbitrary: w)
  case (Ended r)
  then show ?case by (cases r) (auto simp: frame_refl dest: spec [of _ w])
next
  case (Act g)
  let ?Q = "\<lambda>r w. case r of Inl e \<Rightarrow> Q (Inl e) w | Inr x \<Rightarrow> holds G Q (f x) w"
  show ?case unfolding pbind.simps holds_Act
  proof (intro allI impI)
    fix w' q w1
    assume G: "G w w'" and q: "map_prod (\<lambda>p. pbind p f) id (g w') = (q, w1)"
    then obtain p where p: "g w' = (p, w1)" "q = pbind p f" by (cases "g w'") simp
    with Act.prems [unfolded holds_Act] G have s: "G w' w1" "holds G ?Q p w1" by blast+
    with Act.IH [OF p(1) s(2)] p show "G w' w1 \<and> holds G Q q w1" by simp
  qed
qed

lemma holds_catch:
  assumes "holds G (\<lambda>r w. case r of Inl e \<Rightarrow> holds G Q (h e) w | Inr x \<Rightarrow> Q (Inr x) w) p w"
  shows "holds G Q (pcatch p h) w"
  using assms
proof (induction p arbitrary: w)
  case (Ended r)
  then show ?case by (cases r) (auto simp: frame_refl dest: spec [of _ w])
next
  case (Act g)
  let ?Q = "\<lambda>r w. case r of Inl e \<Rightarrow> holds G Q (h e) w | Inr x \<Rightarrow> Q (Inr x) w"
  show ?case unfolding pcatch.simps holds_Act
  proof (intro allI impI)
    fix w' q w1
    assume G: "G w w'" and q: "map_prod (\<lambda>p. pcatch p h) id (g w') = (q, w1)"
    then obtain p where p: "g w' = (p, w1)" "q = pcatch p h" by (cases "g w'") simp
    with Act.prems [unfolded holds_Act] G have s: "G w' w1" "holds G ?Q p w1" by blast+
    with Act.IH [OF p(1) s(2)] p show "G w' w1 \<and> holds G Q q w1" by simp
  qed
qed

lemma holds_act:
  assumes "\<And>w' r w1. G w w' \<Longrightarrow> m w' = (r, w1) \<Longrightarrow> G w' w1"
    and "\<And>w' r w1 w2. G w w' \<Longrightarrow> m w' = (r, w1) \<Longrightarrow> G w1 w2 \<Longrightarrow> Q r w2"
  shows "holds G Q (act m) w"
  using assms by (auto simp: act_def holds_Act split: prod.splits)

lemma holds_mono:
  assumes "holds G Q p w" and "\<And>r w'. G w w' \<Longrightarrow> Q r w' \<Longrightarrow> Q' r w'"
  shows "holds G Q' p w"
  using assms
proof (induction p arbitrary: w)
  case (Ended r)
  then show ?case by auto
next
  case (Act g)
  show ?case unfolding holds_Act
  proof (intro allI impI)
    fix w' q w1
    assume G: "G w w'" and q: "g w' = (q, w1)"
    with Act.prems(1) [unfolded holds_Act] have s: "G w' w1" "holds G Q q w1" by blast+
    have "G w w1" using G s(1) by (rule frame_trans)
    then have "holds G Q' q w1"
      using Act.IH [OF q s(2)] Act.prems(2) frame_trans by blast
    with s show "G w' w1 \<and> holds G Q' q w1" by simp
  qed
qed

text \<open>The parallel rule: what every thread holds, it holds under every schedule.\<close>

lemma turn_holds:
  assumes "list_all2 (\<lambda>Q p. holds G Q p w) Qs ps" and "take_turn k (ps, w) = (ps', w')"
  shows "G w w' \<and> list_all2 (\<lambda>Q p. holds G Q p w') Qs ps'"
proof (cases "k < length ps \<and> (\<exists>g. ps ! k = Act g)")
  case True
  then obtain g where k: "k < length ps" and g: "ps ! k = Act g" by auto
  obtain p w1 where run: "g w = (p, w1)" by force
  with assms(2) k g have res: "ps' = ps[k := p]" "w' = w1" by (auto simp: take_turn_def)
  have "holds G (Qs ! k) (Act g) w" using assms(1) k g by (metis list_all2_nthD2)
  with run have s: "G w w1" "holds G (Qs ! k) p w1" using frame_refl [of w] unfolding holds_Act by blast+
  have "list_all2 (\<lambda>Q p. holds G Q p w1) Qs ps"
    using assms(1) by (rule list_all2_mono) (rule holds_later [OF _ s(1)])
  with s res have "list_all2 (\<lambda>Q p. holds G Q p w') Qs ps'"
    using k by (auto simp: list_all2_conv_all_nth nth_list_update)
  with s res show ?thesis by simp
next
  case False
  with assms show ?thesis by (auto simp: take_turn_def frame_refl split: prog.splits if_splits)
qed

lemma interleave_holds:
  assumes "list_all2 (\<lambda>Q p. holds G Q p w) Qs ps" and "interleave ks (ps, w) = (ps', w')"
  shows "G w w' \<and> list_all2 (\<lambda>Q p. holds G Q p w') Qs ps'"
  using assms
proof (induction ks arbitrary: ps w)
  case Nil
  then show ?case by (simp add: frame_refl)
next
  case (Cons k ks)
  obtain ps1 w1 where t: "take_turn k (ps, w) = (ps1, w1)" by force
  from turn_holds [OF Cons.prems(1) t] Cons.IH [of w1 ps1] Cons.prems(2) t show ?case
    by (auto intro: frame_trans)
qed

text \<open>Programs without a condition on the result: every action keeps \<open>G\<close>.\<close>

abbreviation acts :: "('w, 'a) prog \<Rightarrow> bool" where
  "acts p \<equiv> \<forall>w. holds G (\<lambda>_ _. True) p w"

lemma acts_act: "keeps G m \<Longrightarrow> acts (act m)"
  by (auto intro: holds_act dest: keepsD)

lemma acts_end: "acts (Ended r)"
  by simp

lemma acts_bind:
  fixes p :: "('w, 'a) prog" and f :: "'a \<Rightarrow> ('w, 'b) prog"
  assumes "acts p" and "\<And>x. acts (f x)"
  shows "acts (pbind p f)"
  by (rule allI, rule holds_bind, rule holds_mono [OF spec [OF assms(1)]]) (simp add: assms(2) split: sum.split)

lemma acts_catch:
  assumes "acts p" and "\<And>e. acts (h e)"
  shows "acts (pcatch p h)"
  by (rule allI, rule holds_catch, rule holds_mono [OF spec [OF assms(1)]]) (simp add: assms(2) split: sum.split)

lemma acts_if: "acts p \<Longrightarrow> acts q \<Longrightarrow> acts (if b then p else q)"
  by simp

lemma acts_option: "acts p \<Longrightarrow> (\<And>x. acts (f x)) \<Longrightarrow> acts (case c of None \<Rightarrow> p | Some x \<Rightarrow> f x)"
  by (simp split: option.split)

lemma acts_sum: "(\<And>x. acts (p x)) \<Longrightarrow> (\<And>x. acts (f x)) \<Longrightarrow> acts (case c of Inl x \<Rightarrow> p x | Inr x \<Rightarrow> f x)"
  by (simp split: sum.split)

lemma acts_prod: "(\<And>x y. acts (f x y)) \<Longrightarrow> acts (case c of (x, y) \<Rightarrow> f x y)"
  by (simp split: prod.split)

lemma acts_let: "(\<And>x. acts (f x)) \<Longrightarrow> acts (let x = t in f x)"
  by simp

lemmas acts_rules = acts_end acts_bind acts_catch acts_if acts_option acts_sum acts_prod acts_let

end

end
