(* ===== verification/PaymentThreads.thy ===== *)
theory PaymentThreads
  imports PaymentProps Interleaving
begin

text \<open>
  The handlers of backend/payment_impl.hpp once more, as programs that run in several worker threads
  at once. The text of each handler is the one of \<open>PaymentImpl\<close>; its accesses to what the threads share
  are the actions: one call of \<open>MySqlPool\<close> or \<open>RedisPool\<close>, one call of the random generator, one
  \<open>submit\<close> to the worker pool. Each of these is atomic for the others: a call of \<open>MySqlPool\<close> sends one
  statement, except \<open>finalizePaymentSuccess\<close>, whose transaction locks the rows of session, order,
  account and attempt (\<open>FOR UPDATE\<close>) until it ends, and which is taken as one action together with the
  marking of the attempt after a rollback. The user is read without a lock, but no handler makes a
  user that may pay into one that may not.

  \<open>handleRequest_alone\<close>: a program that is not interrupted is the handler of \<open>PaymentImpl\<close>.
\<close>

section \<open>The actions\<close>

abbreviation pret :: "'a \<Rightarrow> (world, 'a) prog" where
  "pret x \<equiv> Ended (Inr x)"

definition psql :: "(mysql, 'a) comp \<Rightarrow> (world, 'a) prog" where
  "psql m = act (sql m)"

definition predis :: "(redis, 'a) comp \<Rightarrow> (world, 'a) prog" where
  "predis m = act (redis_op m)"

definition psubmit :: "string \<times> string \<Rightarrow> (world, unit) prog" where
  "psubmit task = act (submit task)"

definition preply :: "int \<Rightarrow> json \<Rightarrow> (world, HttpResponse) prog" where
  "preply status env = pret (respond status env)"

definition pbody_str :: "env \<Rightarrow> json \<Rightarrow> string \<Rightarrow> (world, string) prog" where
  "pbody_str E body key = Ended (json_value_str (e_lib E) body key [])"

section \<open>Login and logout\<close>

definition handleLogin_prog :: "env \<Rightarrow> HttpRequest \<Rightarrow> (world, HttpResponse) prog" where
  "handleLogin_prog E req = (case parseJsonBody (e_lib E) req of
      Inl _ \<Rightarrow> preply 400 (makeErr 40001 M_body_not_json)
    | Inr body \<Rightarrow>
        pbind (pbody_str E body ''username'') (\<lambda>username.
        pbind (pbody_str E body ''password'') (\<lambda>password.
        if username = [] \<or> password = [] then preply 400 (makeErr 40001 M_login_empty)
        else
        pbind (psql (getUserByUsername (e_lib E) username)) (\<lambda>user. case user of
          None \<Rightarrow> preply 404 (makeErr 40403 M_user_gone)
        | Some u \<Rightarrow>
            if \<not> isNormal u then preply 404 (makeErr 40403 M_user_gone)
            else
            pbind (Ended (passwordHash (e_values E))) (\<lambda>hash_cfg.
            if \<not> verifyLoginPasswordWithHash (e_lib E) password (ui_password_hash u) (pw_secret hash_cfg)
            then preply 401 (makeErr 40104 M_password_wrong)
            else
            pbind (act makeLoginSessionId) (\<lambda>session_id.
            pbind (Ended (runtime (e_values E))) (\<lambda>rt.
            pbind (predis (saveSession (e_now E) session_id (ui_user_id u) (login_session_ttl_seconds rt))) (\<lambda>saved.
            if \<not> saved then preply 500 (makeErr 50001 M_login_session_failed)
            else
              pret ((respond 200 (makeOk (JObject [(''user_id'', JString (ui_user_id u))])))
                \<lparr>extra_headers := [(''Set-Cookie'',
                    ''session_id='' @ session_id @ ''; Path=/; HttpOnly; SameSite=Lax'')]\<rparr>)))))))))"

definition handleLogout_prog :: "env \<Rightarrow> HttpRequest \<Rightarrow> (world, HttpResponse) prog" where
  "handleLogout_prog E req =
     (let session_id = cookieValue (headerValue req ''Cookie'') ''session_id'';
          ok = (respond 200 (makeOk (JObject [])))
                 \<lparr>extra_headers := [(''Set-Cookie'',
                     ''session_id=; Path=/; HttpOnly; SameSite=Lax; Max-Age=0'')]\<rparr>
      in if session_id \<noteq> []
         then pbind (predis (removeSession (e_now E) session_id)) (\<lambda>_. pret ok)
         else pret ok)"

section \<open>Orders and confirmation\<close>

definition handleGetOrder_prog :: "env \<Rightarrow> HttpRequest \<Rightarrow> (world, HttpResponse) prog" where
  "handleGetOrder_prog E req =
     (let order_sn = extractOrderSn (req_path req);
          user_id = headerValue req ''X-User-Id''
      in if user_id = [] then preply 400 (makeErr 40001 M_missing_user_id)
         else
         pbind (psql (getOrderBySn (e_lib E) order_sn)) (\<lambda>order. case order of
           None \<Rightarrow> preply 404 (makeErr 40401 M_order_missing)
         | Some ord \<Rightarrow>
             if oi_buyer_id ord \<noteq> user_id then preply 404 (makeErr 40401 M_order_missing)
             else
             pbind (psql (getAccountById (e_lib E) (oi_account_id ord))) (\<lambda>account. case account of
               None \<Rightarrow> preply 404 (makeErr 40402 M_account_missing)
             | Some a \<Rightarrow> preply 200 (makeOk (order_json ord a)))))"

definition confirm_session_prog ::
    "env \<Rightarrow> string \<Rightarrow> string \<Rightarrow> UserInfo \<Rightarrow> OrderInfo \<Rightarrow> PaymentRuntimeConfig \<Rightarrow> (world, string) prog" where
  "confirm_session_prog E order_sn user_id user order rt =
     pbind (psql (getActivePaymentSessionByOrderSn (e_lib E) (e_now E) order_sn)) (\<lambda>session. case session of
       Some s \<Rightarrow> pret (si_payment_session_id s)
     | None \<Rightarrow>
         pbind (act (makePaymentSessionId E)) (\<lambda>payment_session_id.
         pbind (psql (createPaymentSession (e_lib E) (e_now E)
             \<lparr>cs_payment_session_id = payment_session_id, cs_order_sn = order_sn,
              cs_account_id = oi_account_id order, cs_buyer_id = user_id,
              cs_buyer_contact_masked = ui_email_masked user,
              cs_ttl_seconds = payment_session_ttl_seconds rt\<rparr>)) (\<lambda>_.
           pret payment_session_id)))"

definition handleConfirm_prog :: "env \<Rightarrow> HttpRequest \<Rightarrow> (world, HttpResponse) prog" where
  "handleConfirm_prog E req =
     (let user_id = headerValue req ''X-User-Id''
      in if user_id = [] then preply 400 (makeErr 40001 M_missing_user_id)
         else (case parseJsonBody (e_lib E) req of
           Inl _ \<Rightarrow> preply 400 (makeErr 40001 M_json_illegal)
         | Inr body \<Rightarrow>
             pbind (pbody_str E body ''order_sn'') (\<lambda>order_sn.
             pbind (Ended (json_value_bool (e_lib E) body ''agreement_checked'' False)) (\<lambda>agreement_checked.
             if order_sn = [] \<or> \<not> agreement_checked then preply 400 (makeErr 40001 M_confirm_params)
             else
             pbind (psql (getUserByUserId (e_lib E) user_id)) (\<lambda>user. case user of
               None \<Rightarrow> preply 403 (makeErr 40301 M_user_abnormal)
             | Some u \<Rightarrow>
                 if \<not> isNormal u then preply 403 (makeErr 40301 M_user_abnormal)
                 else if \<not> isRealAuthCompleted u then preply 409 (makeErr 40910 M_real_auth_missing)
                 else
                 pbind (psql (getOrderBySn (e_lib E) order_sn)) (\<lambda>order. case order of
                   None \<Rightarrow> preply 404 (makeErr 40401 M_order_not_owned)
                 | Some ord \<Rightarrow>
                     if oi_buyer_id ord \<noteq> user_id then preply 404 (makeErr 40401 M_order_not_owned)
                     else if oi_status ord \<noteq> order_code PendingPay then preply 409 (makeErr 40901 M_order_unpayable)
                     else
                     pbind (psql (getAccountById (e_lib E) (oi_account_id ord))) (\<lambda>account. case account of
                       None \<Rightarrow> preply 409 (makeErr 40903 M_account_untradable)
                     | Some a \<Rightarrow>
                         if \<not> accountPayable (ai_status a) then preply 409 (makeErr 40903 M_account_untradable)
                         else
                         pbind (Ended (runtime (e_values E))) (\<lambda>rt.
                         pbind (Ended (paymentNginx (e_values E))) (\<lambda>nginx.
                         pbind (Ended (jwt_fromConfig (e_values E))) (\<lambda>jwt_service.
                         pbind (confirm_session_prog E order_sn user_id u ord rt) (\<lambda>payment_session_id.
                         pbind (act (draw 16)) (\<lambda>entropy.
                         pbind (Ended (issuePaymentQrToken (e_lib E) jwt_service (e_now E) entropy
                             (empty_payload\<lparr>qr_payment_session_id := payment_session_id\<rparr>))) (\<lambda>qr_token.
                           preply 200 (makeOk (confirm_json nginx payment_session_id qr_token)))))))))))))))"

definition real_auth_update_prog :: "env \<Rightarrow> string \<Rightarrow> string \<Rightarrow> string \<Rightarrow> (world, bool) prog" where
  "real_auth_update_prog E user_id email id_card =
     pbind (Ended (hash_cfg (e_values E))) (\<lambda>hash_service.
     pbind (Ended (normalizeEmail email)) (\<lambda>email_norm.
     pbind (Ended (normalizeIdCard id_card)) (\<lambda>id_card_norm.
     pbind (Ended (hashEmail (e_lib E) hash_service email_norm)) (\<lambda>email_hash.
     pbind (Ended (hashIdCard (e_lib E) hash_service id_card_norm)) (\<lambda>id_card_hash.
       psql (updateUserRealAuthProfile (e_lib E)
         \<lparr>ru_user_id = user_id, ru_email_hash = email_hash, ru_email_masked = maskEmail email_norm,
          ru_id_card_hash = id_card_hash, ru_id_card_masked = maskIdCard id_card_norm\<rparr>))))))"

definition handleRealAuthComplete_prog :: "env \<Rightarrow> HttpRequest \<Rightarrow> (world, HttpResponse) prog" where
  "handleRealAuthComplete_prog E req =
     (let user_id = headerValue req ''X-User-Id''
      in if user_id = [] then preply 400 (makeErr 40001 M_missing_user_id)
         else (case parseJsonBody (e_lib E) req of
           Inl _ \<Rightarrow> preply 400 (makeErr 40001 M_json_illegal)
         | Inr body \<Rightarrow>
             pbind (pbody_str E body ''email'') (\<lambda>email.
             pbind (pbody_str E body ''id_card'') (\<lambda>id_card.
             pbind (pbody_str E body ''return_url'') (\<lambda>return_url.
             if email = [] \<or> id_card = [] \<or> return_url = [] then preply 400 (makeErr 40001 M_params_incomplete)
             else
               pcatch
                 (pbind (real_auth_update_prog E user_id email id_card) (\<lambda>updated.
                    if \<not> updated then preply 500 (makeErr 50001 M_real_auth_failed)
                    else preply 200 (makeOk (JObject [(''redirect_url'', JString return_url)]))))
                 (\<lambda>ex. preply 400 (makeErr 40001 (ex_what ex))))))))"

section \<open>The payment page and attempts\<close>

definition payable_session_prog ::
    "env \<Rightarrow> string \<Rightarrow> int \<Rightarrow> int \<Rightarrow>
     (world, HttpResponse + PaymentSessionInfo \<times> OrderInfo \<times> AccountInfo) prog" where
  "payable_session_prog E payment_session_id session_err account_err =
     pbind (psql (getPaymentSessionById (e_lib E) payment_session_id)) (\<lambda>session. case session of
       None \<Rightarrow> pret (Inl (respond 409 (makeErr session_err M_session_invalid)))
     | Some s \<Rightarrow>
         if si_status s \<noteq> session_code WaitingPay
         then pret (Inl (respond 409 (makeErr session_err M_session_invalid)))
         else
         pbind (psql (getOrderBySn (e_lib E) (si_order_sn s))) (\<lambda>order. case order of
           None \<Rightarrow> pret (Inl (respond 409 (makeErr 40901 M_order_unpayable)))
         | Some ord \<Rightarrow>
             if oi_status ord \<noteq> order_code PendingPay
             then pret (Inl (respond 409 (makeErr 40901 M_order_unpayable)))
             else
             pbind (psql (getAccountById (e_lib E) (si_account_id s))) (\<lambda>account. case account of
               None \<Rightarrow> pret (Inl (respond 409 (makeErr account_err M_account_untradable)))
             | Some a \<Rightarrow>
                 if \<not> accountPayable (ai_status a)
                 then pret (Inl (respond 409 (makeErr account_err M_account_untradable)))
                 else pret (Inr (s, ord, a)))))"

definition handlePaymentPage_prog :: "env \<Rightarrow> HttpRequest \<Rightarrow> (world, HttpResponse) prog" where
  "handlePaymentPage_prog E req =
     (let token = queryParam (req_query req) ''token''
      in if token = [] then preply 400 (makeErr 40001 M_missing_token)
         else
         pbind (Ended (jwt_fromConfig (e_values E))) (\<lambda>jwt_service.
         let verified = verifyPaymentQrToken (e_lib E) jwt_service (e_now E) token
         in if \<not> qv_valid verified then preply 401 (makeErr 40101 (qv_error_message verified))
            else
            pbind (payable_session_prog E (qr_payment_session_id (qv_payload verified)) 40903 40902) (\<lambda>checked.
            case checked of
              Inl response \<Rightarrow> pret response
            | Inr (s, ord, a) \<Rightarrow>
                preply 200 (makeOk (JObject
                  [(''game_name'', JString (ai_game_name a)), (''order_sn'', JString (oi_order_sn ord)),
                   (''payment_session_id'', JString (si_payment_session_id s)), (''price'', JInt (oi_price ord)),
                   (''status'', JString ''WAITING_PAY'')])))))"

definition handleAttemptInit_prog :: "env \<Rightarrow> HttpRequest \<Rightarrow> (world, HttpResponse) prog" where
  "handleAttemptInit_prog E req = (case parseJsonBody (e_lib E) req of
      Inl _ \<Rightarrow> preply 400 (makeErr 40001 M_json_illegal)
    | Inr body \<Rightarrow>
        pbind (pbody_str E body ''qr_token'') (\<lambda>qr_token.
        if qr_token = [] then preply 400 (makeErr 40001 M_missing_qr_token)
        else
        pbind (Ended (jwt_fromConfig (e_values E))) (\<lambda>jwt_service.
        let verified = verifyPaymentQrToken (e_lib E) jwt_service (e_now E) qr_token
        in if \<not> qv_valid verified then preply 401 (makeErr 40102 (qv_error_message verified))
           else
           pbind (payable_session_prog E (qr_payment_session_id (qv_payload verified)) 40911 40903) (\<lambda>checked.
           case checked of
             Inl response \<Rightarrow> pret response
           | Inr (s, ord, a) \<Rightarrow>
               pbind (act (makeRequestId E)) (\<lambda>request_id.
               pbind (psql (createPaymentAttemptProcessing (e_lib E) (e_now E)
                   \<lparr>ca_request_id = request_id, ca_payment_session_id = si_payment_session_id s,
                    ca_order_sn = si_order_sn s, ca_account_id = si_account_id s,
                    ca_buyer_id = si_buyer_id s, ca_client_ip = headerValue req ''X-Forwarded-For'',
                    ca_user_agent = headerValue req ''User-Agent''\<rparr>)) (\<lambda>_.
                 preply 200 (makeOk (JObject [(''request_id'', JString request_id)]))))))))"

section \<open>The payment\<close>

definition pay_fail_prog :: "env \<Rightarrow> string \<Rightarrow> string \<Rightarrow> int \<Rightarrow> json \<Rightarrow> (world, HttpResponse) prog" where
  "pay_fail_prog E request_id reason status err =
     pbind (psql (updatePaymentAttemptResult (e_lib E) (e_now E) request_id AttemptFailed reason)) (\<lambda>_.
       preply status err)"

definition pay_finalize_prog ::
    "env \<Rightarrow> string \<Rightarrow> PaymentSessionInfo \<Rightarrow> OrderInfo \<Rightarrow> AccountInfo \<Rightarrow> (world, HttpResponse) prog" where
  "pay_finalize_prog E request_id session order account =
     pbind (psql (finalizePaymentSuccess (e_lib E) (e_now E)
         \<lparr>pf_payment_session_id = si_payment_session_id session, pf_order_sn = oi_order_sn order,
          pf_account_id = ai_account_id account, pf_buyer_id = si_buyer_id session,
          pf_price = oi_price order, pf_request_id = request_id\<rparr>)) (\<lambda>done.
       if \<not> done then pay_fail_prog E request_id ''FINALIZE_TXN_FAILED'' 409 (makeErr 40904 M_pay_txn_failed)
       else
         pbind (psql (updatePaymentAttemptResult (e_lib E) (e_now E) request_id AttemptSuccess [])) (\<lambda>_.
         pbind (psubmit (si_payment_session_id session, oi_order_sn order)) (\<lambda>_.
           preply 200 (paid_json request_id))))"

definition pay_authorize_prog ::
    "env \<Rightarrow> string \<Rightarrow> string \<Rightarrow> PaymentSessionInfo \<Rightarrow> OrderInfo \<Rightarrow> AccountInfo \<Rightarrow> (world, HttpResponse) prog" where
  "pay_authorize_prog E request_id login_password session order account =
     pbind (psql (getUserByUserId (e_lib E) (si_buyer_id session))) (\<lambda>user. case user of
       None \<Rightarrow> pay_fail_prog E request_id ''USER_INVALID'' 403 (makeErr 40301 M_user_abnormal)
     | Some u \<Rightarrow>
         if \<not> isNormal u then pay_fail_prog E request_id ''USER_INVALID'' 403 (makeErr 40301 M_user_abnormal)
         else
         pbind (Ended (passwordHash (e_values E))) (\<lambda>cfg.
         if \<not> verifyLoginPasswordWithHash (e_lib E) login_password (ui_password_hash u) (pw_secret cfg)
         then pay_fail_prog E request_id ''PASSWORD_INVALID'' 401 (makeErr 40104 M_pay_password_wrong)
         else pay_finalize_prog E request_id session order account))"

definition pay_check_prog ::
    "env \<Rightarrow> string \<Rightarrow> string \<Rightarrow> PaymentAttemptInfo \<Rightarrow> string \<Rightarrow> (world, HttpResponse) prog" where
  "pay_check_prog E request_id login_password attempt payment_session_id =
     pbind (psql (getPaymentSessionById (e_lib E) payment_session_id)) (\<lambda>session. case session of
       None \<Rightarrow> pay_fail_prog E request_id ''SESSION_INVALID'' 409 (makeErr 40905 M_session_invalid)
     | Some s \<Rightarrow>
         if si_status s \<noteq> session_code WaitingPay
         then pay_fail_prog E request_id ''SESSION_INVALID'' 409 (makeErr 40905 M_session_invalid)
         else if ti_payment_session_id attempt \<noteq> si_payment_session_id s
         then pay_fail_prog E request_id ''SESSION_MISMATCH'' 409 (makeErr 40905 M_session_mismatch)
         else
         pbind (psql (getOrderBySn (e_lib E) (si_order_sn s))) (\<lambda>order. case order of
           None \<Rightarrow> pay_fail_prog E request_id ''ORDER_NOT_PAYABLE'' 409 (makeErr 40901 M_order_unpayable)
         | Some ord \<Rightarrow>
             if oi_status ord \<noteq> order_code PendingPay
             then pay_fail_prog E request_id ''ORDER_NOT_PAYABLE'' 409 (makeErr 40901 M_order_unpayable)
             else
             pbind (psql (getAccountById (e_lib E) (si_account_id s))) (\<lambda>account. case account of
               None \<Rightarrow> pay_fail_prog E request_id ''ACCOUNT_NOT_PAYABLE'' 409 (makeErr 40903 M_account_untradable)
             | Some a \<Rightarrow>
                 if \<not> accountPayable (ai_status a)
                 then pay_fail_prog E request_id ''ACCOUNT_NOT_PAYABLE'' 409 (makeErr 40903 M_account_untradable)
                 else pay_authorize_prog E request_id login_password s ord a)))"

definition pay_attempt_known_prog ::
    "env \<Rightarrow> string \<Rightarrow> string \<Rightarrow> string \<Rightarrow> PaymentAttemptInfo \<Rightarrow> (world, HttpResponse) prog" where
  "pay_attempt_known_prog E request_id qr_token login_password attempt =
     (if ti_result attempt = attempt_code AttemptSuccess then preply 200 (paid_json request_id)
      else if ti_result attempt = attempt_code AttemptFailed
      then preply 409 (makeErr 40904 (if ti_fail_reason attempt = [] then M_pay_failed else ti_fail_reason attempt))
      else
      pbind (Ended (jwt_fromConfig (e_values E))) (\<lambda>jwt_service.
      let verified = verifyPaymentQrToken (e_lib E) jwt_service (e_now E) qr_token
      in if \<not> qv_valid verified
         then pay_fail_prog E request_id ''INVALID_QR_TOKEN'' 401 (makeErr 40102 (qv_error_message verified))
         else pay_check_prog E request_id login_password attempt (qr_payment_session_id (qv_payload verified))))"

definition handlePay_prog :: "env \<Rightarrow> HttpRequest \<Rightarrow> (world, HttpResponse) prog" where
  "handlePay_prog E req = (case parseJsonBody (e_lib E) req of
      Inl _ \<Rightarrow> preply 400 (makeErr 40001 M_json_illegal)
    | Inr body \<Rightarrow>
        pbind (pbody_str E body ''request_id'') (\<lambda>request_id.
        pbind (pbody_str E body ''qr_token'') (\<lambda>qr_token.
        pbind (pbody_str E body ''login_password'') (\<lambda>login_password.
        if request_id = [] \<or> qr_token = [] \<or> login_password = []
        then preply 400 (makeErr 40001 M_params_incomplete)
        else
        pbind (psql (getPaymentAttemptByRequestId (e_lib E) request_id)) (\<lambda>attempt. case attempt of
          None \<Rightarrow> preply 404 (makeErr 40404 M_attempt_missing)
        | Some t \<Rightarrow> pay_attempt_known_prog E request_id qr_token login_password t)))))"

section \<open>Dispatch\<close>

definition dispatch_prog :: "env \<Rightarrow> HttpRequest \<Rightarrow> (world, HttpResponse) prog" where
  "dispatch_prog E req =
     (if req_method req = ''POST'' \<and> req_path req = ''/api/auth/login'' then handleLogin_prog E req
      else if req_method req = ''POST'' \<and> req_path req = ''/api/auth/logout'' then handleLogout_prog E req
      else if req_method req = ''GET'' \<and> is_prefix ''/api/payment/orders/'' (req_path req) then handleGetOrder_prog E req
      else if req_method req = ''POST'' \<and> req_path req = ''/api/payment/confirm'' then handleConfirm_prog E req
      else if req_method req = ''POST'' \<and> req_path req = ''/api/users/real-auth/complete''
        then handleRealAuthComplete_prog E req
      else if req_method req = ''GET'' \<and> req_path req = ''/api/payment/page'' then handlePaymentPage_prog E req
      else if req_method req = ''POST'' \<and> req_path req = ''/api/payment/attempt/init'' then handleAttemptInit_prog E req
      else if req_method req = ''POST'' \<and> req_path req = ''/api/payment/pay'' then handlePay_prog E req
      else preply 404 (makeErr 40400 M_no_route))"

definition handleRequest_prog :: "env \<Rightarrow> HttpRequest \<Rightarrow> (world, HttpResponse) prog" where
  "handleRequest_prog E req = pcatch (dispatch_prog E req) (\<lambda>_. preply 500 (makeErr 50001 M_server_error))"

section \<open>Uninterrupted\<close>

lemma cuts_psql: "cuts (psql m) (sql m)"
  unfolding psql_def by (rule cuts_act)

lemma cuts_predis: "cuts (predis m) (redis_op m)"
  unfolding predis_def by (rule cuts_act)

lemma cuts_psubmit: "cuts (psubmit task) (submit task)"
  unfolding psubmit_def by (rule cuts_act)

lemma cuts_preply: "cuts (preply status env) (reply status env)"
  unfolding preply_def reply_def by (rule cuts_ret)

lemma cuts_pbody_str: "cuts (pbody_str E body key) (body_str E body key)"
  unfolding pbody_str_def body_str_def by (rule cuts_lift)

lemmas cut_rules = cuts_psql cuts_predis cuts_psubmit cuts_preply cuts_pbody_str cuts_rules

lemma cuts_handleLogin: "cuts (handleLogin_prog E req) (handleLogin E req)"
  unfolding handleLogin_prog_def handleLogin_def
  by (intro cut_rules)

lemma cuts_handleLogout: "cuts (handleLogout_prog E req) (handleLogout E req)"
  unfolding handleLogout_prog_def handleLogout_def
  by (intro cut_rules)

lemma cuts_handleGetOrder: "cuts (handleGetOrder_prog E req) (handleGetOrder E req)"
  unfolding handleGetOrder_prog_def handleGetOrder_def
  by (intro cut_rules)

lemma cuts_confirm_session: "cuts (confirm_session_prog E order_sn user_id user order rt) (confirm_session E order_sn user_id user order rt)"
  unfolding confirm_session_prog_def confirm_session_def
  by (intro cut_rules)

lemma cuts_handleConfirm: "cuts (handleConfirm_prog E req) (handleConfirm E req)"
  unfolding handleConfirm_prog_def handleConfirm_def
  by (intro cut_rules cuts_confirm_session)

lemma cuts_real_auth_update: "cuts (real_auth_update_prog E user_id email id_card) (real_auth_update E user_id email id_card)"
  unfolding real_auth_update_prog_def real_auth_update_def
  by (intro cut_rules)

lemma cuts_handleRealAuthComplete: "cuts (handleRealAuthComplete_prog E req) (handleRealAuthComplete E req)"
  unfolding handleRealAuthComplete_prog_def handleRealAuthComplete_def
  by (intro cut_rules cuts_real_auth_update)

lemma cuts_payable_session: "cuts (payable_session_prog E payment_session_id session_err account_err) (payable_session E payment_session_id session_err account_err)"
  unfolding payable_session_prog_def payable_session_def
  by (intro cut_rules)

lemma cuts_handlePaymentPage: "cuts (handlePaymentPage_prog E req) (handlePaymentPage E req)"
  unfolding handlePaymentPage_prog_def handlePaymentPage_def
  by (intro cut_rules cuts_payable_session)

lemma cuts_handleAttemptInit: "cuts (handleAttemptInit_prog E req) (handleAttemptInit E req)"
  unfolding handleAttemptInit_prog_def handleAttemptInit_def
  by (intro cut_rules cuts_payable_session)

lemma cuts_pay_fail: "cuts (pay_fail_prog E request_id reason status err) (pay_fail E request_id reason status err)"
  unfolding pay_fail_prog_def pay_fail_def
  by (intro cut_rules)

lemma cuts_pay_finalize: "cuts (pay_finalize_prog E request_id session order account) (pay_finalize E request_id session order account)"
  unfolding pay_finalize_prog_def pay_finalize_def
  by (intro cut_rules cuts_pay_fail)

lemma cuts_pay_authorize: "cuts (pay_authorize_prog E request_id login_password session order account) (pay_authorize E request_id login_password session order account)"
  unfolding pay_authorize_prog_def pay_authorize_def
  by (intro cut_rules cuts_pay_fail cuts_pay_finalize)

lemma cuts_pay_check: "cuts (pay_check_prog E request_id login_password attempt payment_session_id) (pay_check E request_id login_password attempt payment_session_id)"
  unfolding pay_check_prog_def pay_check_def
  by (intro cut_rules cuts_pay_fail cuts_pay_authorize)

lemma cuts_pay_attempt_known: "cuts (pay_attempt_known_prog E request_id qr_token login_password attempt) (pay_attempt_known E request_id qr_token login_password attempt)"
  unfolding pay_attempt_known_prog_def pay_attempt_known_def
  by (intro cut_rules cuts_pay_fail cuts_pay_check)

lemma cuts_handlePay: "cuts (handlePay_prog E req) (handlePay E req)"
  unfolding handlePay_prog_def handlePay_def
  by (intro cut_rules cuts_pay_attempt_known)

lemma cuts_dispatch: "cuts (dispatch_prog E req) (dispatch E req)"
  unfolding dispatch_prog_def dispatch_def
  by (intro cut_rules cuts_handleLogin cuts_handleLogout cuts_handleGetOrder cuts_handleConfirm cuts_handleRealAuthComplete cuts_handlePaymentPage cuts_handleAttemptInit cuts_handlePay)

lemma cuts_handleRequest: "cuts (handleRequest_prog E req) (handleRequest E req)"
  unfolding handleRequest_prog_def handleRequest_def
  by (intro cut_rules cuts_dispatch)

lemma handleRequest_alone: "alone (handleRequest_prog E req) = handleRequest E req"
  using cuts_handleRequest by (simp add: cuts_def)

end
