(* ===== verification/PaymentRace.thy ===== *)
theory PaymentRace
  imports PaymentThreads PayProps
begin

text \<open>
  The handlers under any schedule of the worker threads: the relation \<open>safe\<close> is the guarantee that
  every action of every handler keeps and the interference that every handler has to live with. It
  has the abstract steps of \<open>DbSteps\<close> and the invariant \<open>payments_true\<close>: an attempt is recorded as
  successful only if its order is paid.
\<close>

section \<open>The invariant\<close>

definition attempt_paid :: "lib \<Rightarrow> db \<Rightarrow> attempt_row \<Rightarrow> bool" where
  "attempt_paid L d t \<longleftrightarrow> (\<exists>r\<in>set (orders d). col_eq L (o_order_sn r) (t_order_sn t) \<and> o_status r = 1)"

definition payments_true :: "lib \<Rightarrow> db \<Rightarrow> bool" where
  "payments_true L d \<longleftrightarrow> (\<forall>t\<in>set (attempts d). t_result t = 1 \<longrightarrow> attempt_paid L d t)"

definition request_paid :: "lib \<Rightarrow> string \<Rightarrow> db \<Rightarrow> bool" where
  "request_paid L rid d \<longleftrightarrow> (\<exists>t\<in>set (attempts d). col_eq L (t_request_id t) rid \<and> attempt_paid L d t)"

definition ready :: "lib \<Rightarrow> mysql \<Rightarrow> bool" where
  "ready L w \<longleftrightarrow> m_txn w = None \<and> db_ok L (m_db w) \<and> payments_true L (m_db w)"

definition safe :: "lib \<Rightarrow> mysql \<Rightarrow> mysql \<Rightarrow> bool" where
  "safe L w w' \<longleftrightarrow> (ready L w \<longrightarrow> ready L w' \<and> db_steps L (m_db w) (m_db w'))"

text \<open>A paid order stays, an attempt keeps its request and its order.\<close>

lemma paid_order_stays:
  "db_step L d d' \<Longrightarrow> r \<in> set (orders d) \<Longrightarrow> o_status r = 1 \<Longrightarrow> r \<in> set (orders d')"
  using step_not_pay [of L d d'] by (auto simp: paid_def kept_row pay_order_where_def)

lemma updated_row:
  "t \<in> set rs \<Longrightarrow> (\<And>r. f (g r) = f r) \<Longrightarrow> (\<And>r. h (g r) = h r) \<Longrightarrow>
     \<exists>t'\<in>set (update_rows p g rs). f t' = f t \<and> h t' = h t"
  by (rule bexI [of _ "if p t then g t else t"]) (auto simp: in_update_rows)

lemma attempt_stays:
  assumes "db_step L d d'" and t: "t \<in> set (attempts d)"
  shows "\<exists>t'\<in>set (attempts d'). t_request_id t' = t_request_id t \<and> t_order_sn t' = t_order_sn t"
  using assms(1)
proof cases
  case (real_auth input n)
  with t show ?thesis using update_real_auth_effect [OF real_auth] by auto
next
  case (new_session now input)
  then show ?thesis by (rule insert_session_effect) (use t in auto)
next
  case (new_attempt now input)
  then show ?thesis by (rule insert_attempt_effect) (use t in auto)
next
  case (set_attempt now request_id result reason n)
  have "t_order_sn (set_result now result reason r) = t_order_sn r" for r by (simp add: set_result_def)
  with t show ?thesis
    using update_attempt_effect [OF set_attempt] by (simp add: updated_row)
next
  case (expire now n)
  with t show ?thesis using expire_sessions_effect [OF expire] by auto
next
  case (pay now i)
  have "t_order_sn (pay_attempt_set now r) = t_order_sn r" for r by (simp add: pay_attempt_set_def)
  with t pay show ?thesis by (simp add: paid_def updated_row)
qed

lemma attempt_paid_step: "db_step L d d' \<Longrightarrow> attempt_paid L d t \<Longrightarrow> t_order_sn t' = t_order_sn t \<Longrightarrow> attempt_paid L d' t'"
  using paid_order_stays [of L d d'] by (auto simp: attempt_paid_def)

lemma request_paid_step: "db_step L d d' \<Longrightarrow> request_paid L rid d \<Longrightarrow> request_paid L rid d'"
  using attempt_stays [of L d d'] attempt_paid_step [of L d d'] unfolding request_paid_def by metis

lemma request_paid_steps: "db_steps L d d' \<Longrightarrow> request_paid L rid d \<Longrightarrow> request_paid L rid d'"
  by (induction rule: rtranclp_induct) (auto intro: request_paid_step)

text \<open>Which statements keep the invariant: all but the recording of a success without a payment.\<close>

lemma true_if_no_success:
  assumes step: "db_step L d d'" and inv: "payments_true L d"
    and old: "\<And>t'. t' \<in> set (attempts d') \<Longrightarrow> t_result t' = 1 \<Longrightarrow>
      \<exists>t\<in>set (attempts d). t_result t = 1 \<and> t_order_sn t' = t_order_sn t"
  shows "payments_true L d'"
  unfolding payments_true_def
proof (intro ballI impI)
  fix t' assume "t' \<in> set (attempts d')" and "t_result t' = 1"
  then obtain t where t: "t \<in> set (attempts d)" "t_result t = 1" "t_order_sn t' = t_order_sn t"
    using old by blast
  with inv have "attempt_paid L d t" by (simp add: payments_true_def)
  with step t show "attempt_paid L d' t'" by (simp add: attempt_paid_step)
qed

lemma failed_keeps_true:
  assumes "update_attempt L now rid AttemptFailed reason d = Inr (n, d')" and "payments_true L d"
  shows "payments_true L d'"
proof (rule true_if_no_success [OF db_step.set_attempt [OF assms(1)] assms(2)])
  fix t' assume "t' \<in> set (attempts d')" and "t_result t' = 1"
  then show "\<exists>t\<in>set (attempts d). t_result t = 1 \<and> t_order_sn t' = t_order_sn t"
    using update_attempt_effect [OF assms(1)] by (auto simp: in_update_rows set_result_def split: if_splits)
qed

lemma success_keeps_true:
  assumes set: "update_attempt L now rid AttemptSuccess reason d = Inr (n, d')"
    and inv: "payments_true L d" and ok: "db_ok L d" and paid: "request_paid L rid d"
  shows "payments_true L d'"
  unfolding payments_true_def
proof (intro ballI impI)
  fix t' assume t': "t' \<in> set (attempts d')" and 1: "t_result t' = 1"
  have step: "db_step L d d'" using set by (rule db_step.set_attempt)
  obtain t where t: "t \<in> set (attempts d)" "t_order_sn t' = t_order_sn t"
    and new: "t' = t \<or> col_eq L (t_request_id t) rid"
    using t' update_attempt_effect [OF set] by (auto simp: in_update_rows set_result_def split: if_splits)
  obtain t0 where t0: "t0 \<in> set (attempts d)" "col_eq L (t_request_id t0) rid" "attempt_paid L d t0"
    using paid by (auto simp: request_paid_def)
  have "attempt_paid L d t"
  proof (cases "col_eq L (t_request_id t) rid")
    case True
    have "unique_key L t_request_id (attempts d)" using ok by (simp add: db_ok_def)
    then have "t = t0" using t(1) t0(1) True t0(2) by (rule unique_keyD)
    with t0 show ?thesis by simp
  next
    case False
    with new 1 t inv show ?thesis by (auto simp: payments_true_def)
  qed
  with step t show "attempt_paid L d' t'" by (simp add: attempt_paid_step)
qed

lemma paid_request:
  assumes "paid L now i d d'"
  shows "request_paid L (pf_request_id i) d'"
proof -
  obtain t r where t: "t \<in> set (attempts d)" "pay_attempt_where L i t" "t_order_sn t = pf_order_sn i"
    and r: "r \<in> set (orders d)" "pay_order_where L i r" and d': "d' = pay_db L now i d"
    using assms by (auto simp: paid_def can_pay_def)
  have "pay_attempt_set now t \<in> set (attempts d')" "pay_order_set now r \<in> set (orders d')"
    using t r by (auto simp: d' in_update_rows)
  moreover have "col_eq L (t_request_id (pay_attempt_set now t)) (pf_request_id i)"
    "t_order_sn (pay_attempt_set now t) = pf_order_sn i"
    using t by (simp_all add: pay_attempt_set_def pay_attempt_where_def)
  moreover have "col_eq L (o_order_sn (pay_order_set now r)) (pf_order_sn i)" "o_status (pay_order_set now r) = 1"
    using r by (simp_all add: pay_order_set_def pay_order_where_def)
  ultimately show ?thesis unfolding request_paid_def attempt_paid_def by metis
qed

lemma paid_keeps_true:
  assumes pay: "paid L now i d d'" and inv: "payments_true L d" and ok: "db_ok L d"
  shows "payments_true L d'"
  unfolding payments_true_def
proof (intro ballI impI)
  fix t' assume t': "t' \<in> set (attempts d')" and 1: "t_result t' = 1"
  have step: "db_step L d d'" using pay by (rule db_step.pay)
  from pay t' obtain t where t: "t \<in> set (attempts d)"
    "t' = (if pay_attempt_where L i t then pay_attempt_set now t else t)"
    by (auto simp: paid_def in_update_rows)
  show "attempt_paid L d' t'"
  proof (cases "pay_attempt_where L i t")
    case True
    have "db_ok L d'" using step ok by (rule db_step_ok)
    then have u: "unique_key L t_request_id (attempts d')" by (simp add: db_ok_def)
    obtain t1 where t1: "t1 \<in> set (attempts d')" "col_eq L (t_request_id t1) (pf_request_id i)"
      "attempt_paid L d' t1"
      using paid_request [OF pay] by (auto simp: request_paid_def)
    have "col_eq L (t_request_id t') (pf_request_id i)"
      using True t by (simp add: pay_attempt_set_def pay_attempt_where_def)
    then have "t' = t1" using unique_keyD [OF u t' t1(1)] t1(2) by blast
    with t1 show ?thesis by simp
  next
    case False
    with t 1 inv have "attempt_paid L d t" by (simp add: payments_true_def)
    with False t step show ?thesis by (simp add: attempt_paid_step)
  qed
qed

section \<open>Every operation is safe\<close>

interpretation safe: store_frame "safe L"
proof unfold_locales
  show "safe L w w" for w by (simp add: safe_def)
  show "safe L u w" if "safe L u v" "safe L v w" for u v w
    using that by (auto simp: safe_def)
  show "safe L w w'" if "same_store w w'" for w w'
    using that by (auto simp: safe_def ready_def same_store_def)
qed

lemma safe_step:
  assumes "m_txn w' = m_txn w"
    and "ready L w \<Longrightarrow> m_db w' = m_db w \<or> db_step L (m_db w) (m_db w') \<and> payments_true L (m_db w')"
  shows "safe L w w'"
  using assms db_step_ok [of L "m_db w" "m_db w'"] by (auto simp: safe_def ready_def)

lemma executeAffected_safe:
  assumes "\<And>d x d'. st d = Inr (x, d') \<Longrightarrow> db_step L d d'"
    and "\<And>d x d'. st d = Inr (x, d') \<Longrightarrow> payments_true L d \<Longrightarrow> payments_true L d'"
  shows "keeps (safe L) (executeAffected st)"
proof (rule keepsI)
  fix w r w' assume "executeAffected st w = (r, w')"
  from executeAffected_cases [OF this] have "m_txn w' = m_txn w"
    and "m_db w' = m_db w \<or> (\<exists>x. st (m_db w) = Inr (x, m_db w'))"
    by (auto split: sum.splits)
  then show "safe L w w'" using assms by (auto simp: ready_def intro!: safe_step)
qed

lemma execute_safe:
  "(\<And>d x d'. st d = Inr (x, d') \<Longrightarrow> db_step L d d') \<Longrightarrow>
   (\<And>d x d'. st d = Inr (x, d') \<Longrightarrow> payments_true L d \<Longrightarrow> payments_true L d') \<Longrightarrow>
   keeps (safe L) (execute st)"
  unfolding execute_def by (intro safe.keeps_rules executeAffected_safe)

text \<open>Attempts are not touched, or a new one is processing.\<close>

lemma untouched_true:
  "db_step L d d' \<Longrightarrow> attempts d' = attempts d \<Longrightarrow> payments_true L d \<Longrightarrow> payments_true L d'"
  by (rule true_if_no_success) auto

lemma real_auth_true:
  assumes "update_real_auth L ru d = Inr (n, d')" and "payments_true L d"
  shows "payments_true L d'"
  by (rule untouched_true [OF db_step.real_auth [OF assms(1)] _ assms(2)])
     (use update_real_auth_effect [OF assms(1)] in simp)

lemma new_session_true:
  assumes "insert_session L now cs d = Inr ((), d')" and "payments_true L d"
  shows "payments_true L d'"
  by (rule untouched_true [OF db_step.new_session [OF assms(1)] _ assms(2)])
     (rule insert_session_effect [OF assms(1)], simp)

lemma new_attempt_true:
  assumes new: "insert_attempt L now ca d = Inr (u, d')" and inv: "payments_true L d"
  shows "payments_true L d'"
proof (rule true_if_no_success [OF db_step.new_attempt inv])
  show "insert_attempt L now ca d = Inr ((), d')" using new by simp
  show "\<exists>t\<in>set (attempts d). t_result t = 1 \<and> t_order_sn t' = t_order_sn t"
    if "t' \<in> set (attempts d')" and "t_result t' = 1" for t'
    by (rule insert_attempt_effect [OF new]) (use that in auto)
qed

lemma operations_safe:
  "keeps (safe L) (updateUserRealAuthProfile L ru)"
  "keeps (safe L) (createPaymentSession L now cs)"
  "keeps (safe L) (createPaymentAttemptProcessing L now ca)"
  "keeps (safe L) (updatePaymentAttemptResult L now rid AttemptFailed reason)"
  unfolding operation_defs
  by (intro safe.store_rules execute_safe executeAffected_safe;
      auto intro: db_step.real_auth db_step.new_session db_step.new_attempt db_step.set_attempt
        real_auth_true new_session_true new_attempt_true failed_keeps_true)+

lemma marked_true: "marked L rid d d' \<Longrightarrow> payments_true L d \<Longrightarrow> payments_true L d'"
  by (auto simp: marked_def intro: failed_keeps_true)

lemma outcome_true:
  assumes "outcome L now i d lost r d'" and "payments_true L d" and "db_ok L d"
  shows "payments_true L d' \<and> (r = Inr True \<longrightarrow> request_paid L (pf_request_id i) d')"
proof -
  have "request_paid L (pf_request_id i) d" if "already_paid L i d"
    using that assms(2) by (auto simp: already_paid_def request_paid_def payments_true_def)
  then show ?thesis
    using assms paid_keeps_true [of L now i d] marked_true [of L "pf_request_id i"] paid_request [of L now i d]
    by (auto simp: outcome_def split: sum.splits bool.splits)
qed

lemma finalize_safe:
  assumes run: "finalizePaymentSuccess L now i w = (r, w')"
  shows "safe L w w' \<and> (ready L w \<and> r = Inr True \<longrightarrow> request_paid L (pf_request_id i) (m_db w'))"
proof (cases "ready L w")
  case True
  then have "m_txn w' = None \<and> outcome L now i (m_db w) (lossy w) r (m_db w')"
    using finalize_outcome [OF _ _ run] by (simp add: ready_def)
  with True outcome_true [of L now i "m_db w"] outcome_steps [of L now i "m_db w"] show ?thesis
    using db_steps_ok [of L "m_db w" "m_db w'"] by (auto simp: safe_def ready_def)
next
  case False
  then show ?thesis by (simp add: safe_def)
qed

lemma set_success_safe:
  assumes run: "updatePaymentAttemptResult L now rid AttemptSuccess reason w = (r, w')"
    and paid: "ready L w \<Longrightarrow> request_paid L rid (m_db w)"
  shows "safe L w w'"
  using set_attempt_cases [OF run] paid success_keeps_true [of L now rid reason "m_db w" _ "m_db w'"]
  by (intro safe_step) (auto simp: ready_def intro: db_step.set_attempt)

section \<open>Every handler is safe\<close>

interpretation race: mysql_frame "safe L"
  by unfold_locales

interpretation rg: interference "on_mysql (safe L)"
  by unfold_locales

text \<open>
  The answer 200 to a payment request under interference: the order of the attempt that the request
  names is paid.
\<close>

definition says_paid :: "lib \<Rightarrow> string \<Rightarrow> exn + HttpResponse \<Rightarrow> world \<Rightarrow> bool" where
  "says_paid L rid r w \<longleftrightarrow>
     (\<forall>resp. r = Inr resp \<and> http_status resp = 200 \<and> ready L (w_mysql w) \<longrightarrow>
        request_paid L rid (m_db (w_mysql w)))"

lemma paid_stays:
  "on_mysql (safe L) w w' \<Longrightarrow> ready L (w_mysql w) \<Longrightarrow> request_paid L rid (m_db (w_mysql w)) \<Longrightarrow>
   ready L (w_mysql w') \<and> request_paid L rid (m_db (w_mysql w'))"
  by (auto simp: on_mysql_def safe_def intro: request_paid_steps)

lemma safe_actions:
  "keeps (safe L) m \<Longrightarrow> rg.acts L (psql m)"
  "rg.acts L (predis n)" "rg.acts L (psubmit task)"
  "rg.acts L (preply status env)" "rg.acts L (pbody_str E body key)"
  "rg.acts L (act (makeRequestId E))" "rg.acts L (act (makePaymentSessionId E))"
  "rg.acts L (act makeLoginSessionId)" "rg.acts L (act (draw k))"
proof -
  show "keeps (safe L) m \<Longrightarrow> rg.acts L (psql m)"
    unfolding psql_def by (rule rg.acts_act) (rule race.sql_keeps)
  show "rg.acts L (predis n)" unfolding predis_def by (rule rg.acts_act) (rule race.redis_op_keeps)
  show "rg.acts L (psubmit task)" unfolding psubmit_def by (rule rg.acts_act) (rule race.submit_keeps)
  show "rg.acts L (preply status env)" unfolding preply_def by (rule rg.acts_end)
  show "rg.acts L (pbody_str E body key)" unfolding pbody_str_def by (rule rg.acts_end)
  show "rg.acts L (act (draw k))" by (rule rg.acts_act) (rule race.draw_keeps)
  show "rg.acts L (act (makeRequestId E))" unfolding makeRequestId_def randomHex_def
    by (rule rg.acts_act) (intro race.world.keeps_rules race.draw_keeps)
  show "rg.acts L (act (makePaymentSessionId E))" unfolding makePaymentSessionId_def randomHex_def
    by (rule rg.acts_act) (intro race.world.keeps_rules race.draw_keeps)
  show "rg.acts L (act makeLoginSessionId)" unfolding makeLoginSessionId_def randomHex_def
    by (rule rg.acts_act) (intro race.world.keeps_rules race.draw_keeps)
qed

lemmas safe_rules = safe_actions rg.acts_rules safe.reads_keep operations_safe

text \<open>The handlers that do not answer payments.\<close>

lemma login_safe: "e_lib E = L \<Longrightarrow> rg.acts L (handleLogin_prog E req)"
  unfolding handleLogin_prog_def by (simp only:) (intro safe_rules)

lemma logout_safe: "rg.acts L (handleLogout_prog E req)"
  unfolding handleLogout_prog_def by (intro safe_rules)

lemma get_order_safe: "e_lib E = L \<Longrightarrow> rg.acts L (handleGetOrder_prog E req)"
  unfolding handleGetOrder_prog_def by (simp only:) (intro safe_rules)

lemma confirm_safe: "e_lib E = L \<Longrightarrow> rg.acts L (handleConfirm_prog E req)"
  unfolding handleConfirm_prog_def confirm_session_prog_def by (simp only:) (intro safe_rules)

lemma real_auth_safe: "e_lib E = L \<Longrightarrow> rg.acts L (handleRealAuthComplete_prog E req)"
  unfolding handleRealAuthComplete_prog_def real_auth_update_prog_def by (simp only:) (intro safe_rules)

lemma payable_safe: "e_lib E = L \<Longrightarrow> rg.acts L (payable_session_prog E psid e1 e2)"
  unfolding payable_session_prog_def by (simp only:) (intro safe_rules)

lemma page_safe: "e_lib E = L \<Longrightarrow> rg.acts L (handlePaymentPage_prog E req)"
  unfolding handlePaymentPage_prog_def by (intro safe_rules payable_safe)

lemma init_safe: "e_lib E = L \<Longrightarrow> rg.acts L (handleAttemptInit_prog E req)"
  unfolding handleAttemptInit_prog_def by (intro safe_rules payable_safe; simp only:; intro safe_rules)

text \<open>The payment: what an action without a condition leaves, and the answers that are not 200.\<close>

abbreviation answers_true :: "lib \<Rightarrow> string \<Rightarrow> (world, HttpResponse) prog \<Rightarrow> world \<Rightarrow> bool" where
  "answers_true L rid p w \<equiv> holds (on_mysql (safe L)) (says_paid L rid) p w"

lemma says_paid_Inl [simp]: "says_paid L rid (Inl e) w"
  by (simp add: says_paid_def)

lemma after_acts:
  assumes "rg.acts L p" and "\<And>x w'. on_mysql (safe L) w w' \<Longrightarrow> answers_true L rid (f x) w'"
  shows "answers_true L rid (pbind p f) w"
  by (rule rg.holds_bind, rule rg.holds_mono [OF spec [OF assms(1)]]) (auto split: sum.split intro: assms(2))

lemma answer_other: "status \<noteq> 200 \<Longrightarrow> answers_true L rid (preply status env) w"
  by (simp add: preply_def says_paid_def respond_def)

lemma answer_200:
  assumes "ready L (w_mysql w) \<Longrightarrow> request_paid L rid (m_db (w_mysql w))" and "ready L (w_mysql w)"
  shows "answers_true L rid (preply 200 env) w"
  using assms paid_stays [of L w] by (auto simp: preply_def says_paid_def)

lemma pay_fail_safe:
  "e_lib E = L \<Longrightarrow> status \<noteq> 200 \<Longrightarrow> answers_true L rid (pay_fail_prog E k reason status err) w"
  unfolding pay_fail_prog_def by (rule after_acts) (simp_all add: safe_rules answer_other)

text \<open>The steps after the transaction keep the order of the request paid.\<close>

lemma pay_finalize_true:
  assumes E: "e_lib E = L" and w: "ready L (w_mysql w)"
  shows "answers_true L rid (pay_finalize_prog E rid s ord a) w"
proof -
  let ?G = "on_mysql (safe L)"
  let ?i = "fin_input rid s ord a"
  let ?fin = "sql (finalizePaymentSuccess (e_lib E) (e_now E) ?i)"
  have ready: "ready L (w_mysql w')" if "?G w w'" for w'
    using that w by (simp add: on_mysql_def safe_def)
  have "answers_true L rid (pbind (psql (updatePaymentAttemptResult (e_lib E) (e_now E) rid AttemptSuccess []))
      (\<lambda>_. pbind (psubmit (si_payment_session_id s, oi_order_sn ord)) (\<lambda>_. preply 200 (paid_json rid)))) v"
    if v: "ready L (w_mysql v)" and p: "request_paid L rid (m_db (w_mysql v))" for v
    unfolding psql_def
  proof (rule rg.holds_bind, rule rg.holds_act)
    fix w1 r w2
    assume G: "?G v w1" and run: "sql (updatePaymentAttemptResult (e_lib E) (e_now E) rid AttemptSuccess []) w1 = (r, w2)"
    note p1 = paid_stays [OF G v p]
    from run E have "safe L (w_mysql w1) (w_mysql w2)"
      using p1 by (auto simp: sql_def run_simps split: prod.splits intro: set_success_safe [where rid = rid])
    then show "?G w1 w2" by (simp add: on_mysql_def)
    with p1 paid_stays have p2: "ready L (w_mysql w2) \<and> request_paid L rid (m_db (w_mysql w2))" by blast
    fix w3 assume "?G w2 w3"
    with p2 paid_stays have p3: "ready L (w_mysql w3)" "request_paid L rid (m_db (w_mysql w3))" by blast+
    show "case r of Inl e \<Rightarrow> says_paid L rid (Inl e) w3
      | Inr x \<Rightarrow> answers_true L rid (pbind (psubmit (si_payment_session_id s, oi_order_sn ord))
          (\<lambda>_. preply 200 (paid_json rid))) w3"
      using p3 paid_stays [of L w3]
      by (auto split: sum.split intro!: after_acts answer_200 safe_rules)
  qed
  note success = this
  show ?thesis
    unfolding pay_finalize_prog_def fin_input_def [symmetric] psql_def [of "finalizePaymentSuccess _ _ _"]
  proof (rule rg.holds_bind, rule rg.holds_act)
    fix w1 r w2
    assume G: "?G w w1" and run: "?fin w1 = (r, w2)"
    obtain m where m: "finalizePaymentSuccess (e_lib E) (e_now E) ?i (w_mysql w1) = (r, m)" "w_mysql w2 = m"
      using run by (auto simp: sql_def run_simps split: prod.splits)
    note fin = finalize_safe [OF m(1)]
    from fin m(2) E show s: "?G w1 w2" by (simp add: on_mysql_def)
    fix w3 assume "?G w2 w3"
    with s ready [OF G] fin m(2) E have "ready L (w_mysql w3)"
      "r = Inr True \<Longrightarrow> request_paid L rid (m_db (w_mysql w3))"
      using paid_stays [of L w2 w3 rid] by (auto simp: on_mysql_def safe_def)
    with E show "case r of Inl e \<Rightarrow> says_paid L rid (Inl e) w3
      | Inr x \<Rightarrow> answers_true L rid (if \<not> x
          then pay_fail_prog E rid ''FINALIZE_TXN_FAILED'' 409 (makeErr 40904 M_pay_txn_failed)
          else pbind (psql (updatePaymentAttemptResult (e_lib E) (e_now E) rid AttemptSuccess [])) (\<lambda>_.
            pbind (psubmit (si_payment_session_id s, oi_order_sn ord)) (\<lambda>_. preply 200 (paid_json rid)))) w3"
      using success by (auto split: sum.split intro: pay_fail_safe)
  qed
qed

lemma after_read:
  assumes "ready L (w_mysql w)" and "rg.acts L p" and "\<And>x w'. ready L (w_mysql w') \<Longrightarrow> answers_true L rid (f x) w'"
  shows "answers_true L rid (pbind p f) w"
  using assms(1) by (intro after_acts assms(2,3)) (simp add: on_mysql_def safe_def)

lemma true_option:
  "answers_true L rid p w \<Longrightarrow> (\<And>x. answers_true L rid (f x) w) \<Longrightarrow>
   answers_true L rid (case c of None \<Rightarrow> p | Some x \<Rightarrow> f x) w"
  by (simp split: option.split)

lemma true_if:
  "(b \<Longrightarrow> answers_true L rid p w) \<Longrightarrow> (\<not> b \<Longrightarrow> answers_true L rid q w) \<Longrightarrow> answers_true L rid (if b then p else q) w"
  by simp

lemmas true_rules = after_read safe_actions safe.reads_keep rg.acts_end true_option true_if pay_fail_safe answer_other

lemma pay_authorize_true:
  "e_lib E = L \<Longrightarrow> ready L (w_mysql w) \<Longrightarrow> answers_true L rid (pay_authorize_prog E rid pw s ord a) w"
  unfolding pay_authorize_prog_def
  by (simp only:) (intro true_rules pay_finalize_true; simp)

lemma pay_check_true:
  "e_lib E = L \<Longrightarrow> ready L (w_mysql w) \<Longrightarrow> answers_true L rid (pay_check_prog E rid pw t psid) w"
  unfolding pay_check_prog_def
  by (simp only:) (intro true_rules pay_authorize_true; simp)

text \<open>An attempt that was found successful has its order paid.\<close>

lemma pay_known_true:
  assumes E: "e_lib E = L" and w: "ready L (w_mysql w)"
    and t: "ti_result t = 1 \<Longrightarrow> request_paid L rid (m_db (w_mysql w))"
  shows "answers_true L rid (pay_attempt_known_prog E rid token pw t) w"
  unfolding pay_attempt_known_prog_def Let_def
  by (intro true_rules answer_200 pay_check_true; use E w t in simp)

text \<open>The read that finds the attempt: what it says of the result stays true.\<close>

lemma attempt_read:
  assumes E: "e_lib E = L" and w: "ready L (w_mysql w)"
  shows "answers_true L rid (pbind (psql (getPaymentAttemptByRequestId (e_lib E) rid)) (\<lambda>attempt. case attempt of
      None \<Rightarrow> preply 404 (makeErr 40404 M_attempt_missing)
    | Some t \<Rightarrow> pay_attempt_known_prog E rid token pw t)) w"
  unfolding psql_def
proof (rule rg.holds_bind, rule rg.holds_act)
  let ?G = "on_mysql (safe L)"
  fix w1 r w2
  assume G: "?G w w1" and run: "sql (getPaymentAttemptByRequestId (e_lib E) rid) w1 = (r, w2)"
  then show s: "?G w1 w2"
    using race.sql_keeps [OF safe.reads_keep(8)] by (auto dest: keepsD)
  from run obtain m where m: "getPaymentAttemptByRequestId L rid (w_mysql w1) = (r, m)" "w_mysql w2 = m"
    by (auto simp: E sql_def run_simps split: prod.splits)
  have w1: "ready L (w_mysql w1)" using G w by (simp add: on_mysql_def safe_def)
  have w2: "ready L (w_mysql w2)" using s w1 by (simp add: on_mysql_def safe_def)
  fix w3 assume G3: "?G w2 w3"
  have w3: "ready L (w_mysql w3)" using G3 w2 by (simp add: on_mysql_def safe_def)
  have "answers_true L rid (pay_attempt_known_prog E rid token pw t) w3" if r: "r = Inr (Some t)" for t
  proof (rule pay_known_true [OF E w3])
    assume 1: "ti_result t = 1"
    have "found (\<lambda>x. col_eq L (t_request_id x) rid) (attempt_view L) (attempts (m_db (w_mysql w1))) (Some t)"
      using reads_find(7) [of L "w_mysql w1" rid "Some t"] w1 m(1) r by (simp add: ready_def)
    then obtain t0 where "t0 \<in> set (attempts (m_db (w_mysql w1)))" "col_eq L (t_request_id t0) rid" "t_result t0 = 1"
      using 1 by (auto simp: found_def attempt_view_def)
    then have "request_paid L rid (m_db (w_mysql w1))"
      using w1 by (auto simp: request_paid_def ready_def payments_true_def)
    then show "request_paid L rid (m_db (w_mysql w3))"
      using paid_stays [OF s w1] paid_stays [OF G3 w2] by blast
  qed
  then show "case r of Inl e \<Rightarrow> says_paid L rid (Inl e) w3
    | Inr x \<Rightarrow> answers_true L rid (case x of None \<Rightarrow> preply 404 (makeErr 40404 M_attempt_missing)
        | Some t \<Rightarrow> pay_attempt_known_prog E rid token pw t) w3"
    by (auto split: sum.split option.split intro: answer_other)
qed

lemma handlePay_true:
  assumes E: "e_lib E = L" and w: "ready L (w_mysql w)" and body: "parseJsonBody (e_lib E) req = Inr body"
    and rid: "json_value_str (e_lib E) body ''request_id'' [] = Inr rid"
  shows "answers_true L rid (handlePay_prog E req) w"
proof -
  have "answers_true L rid (pbind (pbody_str E body ''qr_token'') (\<lambda>qr_token.
      pbind (pbody_str E body ''login_password'') (\<lambda>login_password.
      if rid = [] \<or> qr_token = [] \<or> login_password = []
      then preply 400 (makeErr 40001 M_params_incomplete)
      else
      pbind (psql (getPaymentAttemptByRequestId (e_lib E) rid)) (\<lambda>attempt. case attempt of
        None \<Rightarrow> preply 404 (makeErr 40404 M_attempt_missing)
      | Some t \<Rightarrow> pay_attempt_known_prog E rid qr_token login_password t)))) w"
    by (intro after_read true_if answer_other safe_actions attempt_read E w; simp)
  then show ?thesis by (simp add: handlePay_prog_def pbody_str_def body rid)
qed

text \<open>The request id of a payment request that has one.\<close>

definition pay_request :: "env \<Rightarrow> HttpRequest \<Rightarrow> string option" where
  "pay_request E req =
     (if req_method req = ''POST'' \<and> req_path req = ''/api/payment/pay''
      then (case ebind (case parseJsonBody (e_lib E) req of Inl e \<Rightarrow> Inl (StdException e) | Inr body \<Rightarrow> Inr body)
              (\<lambda>body. json_value_str (e_lib E) body ''request_id'' []) of
          Inl _ \<Rightarrow> None | Inr rid \<Rightarrow> Some rid)
      else None)"

definition true_answer :: "env \<Rightarrow> HttpRequest \<Rightarrow> exn + HttpResponse \<Rightarrow> world \<Rightarrow> bool" where
  "true_answer E req r w \<longleftrightarrow> (case pay_request E req of None \<Rightarrow> True | Some rid \<Rightarrow> says_paid (e_lib E) rid r w)"

lemma dispatch_none:
  assumes "e_lib E = L" and "pay_request E req = None"
  shows "rg.acts L (dispatch_prog E req)"
proof (cases "req_method req = ''POST'' \<and> req_path req = ''/api/payment/pay''")
  case True
  with assms(2) have "parseJsonBody (e_lib E) req = Inr body \<Longrightarrow>
      \<exists>e. json_value_str (e_lib E) body ''request_id'' [] = Inl e" for body
    by (auto simp: pay_request_def split: sum.splits)
  note bad = this
  have "rg.acts L (handlePay_prog E req)"
  proof (cases "parseJsonBody (e_lib E) req")
    case (Inl e)
    then show ?thesis by (simp add: handlePay_prog_def safe_actions)
  next
    case (Inr body)
    with bad obtain e where
      "json_value_str (e_lib E) body ''request_id'' [] = Inl e" by blast
    with Inr show ?thesis by (simp add: handlePay_prog_def pbody_str_def)
  qed
  with True show ?thesis by (simp add: dispatch_prog_def is_prefix_def)
next
  case False
  show ?thesis unfolding dispatch_prog_def if_not_P [OF False]
    by (intro rg.acts_if login_safe logout_safe get_order_safe confirm_safe real_auth_safe page_safe init_safe
        safe_actions assms(1))
qed

lemma request_true:
  assumes E: "e_lib E = L" and w: "ready L (w_mysql w)"
  shows "holds (on_mysql (safe L)) (true_answer E req) (handleRequest_prog E req) w"
proof (cases "pay_request E req")
  case None
  then have "true_answer E req = (\<lambda>_ _. True)" by (simp add: fun_eq_iff true_answer_def)
  moreover have "rg.acts L (handleRequest_prog E req)"
    unfolding handleRequest_prog_def by (intro rg.acts_catch dispatch_none [OF E None] safe_actions)
  ultimately show ?thesis by simp
next
  case (Some rid)
  then obtain body where body: "parseJsonBody (e_lib E) req = Inr body"
      "json_value_str (e_lib E) body ''request_id'' [] = Inr rid"
      "req_method req = ''POST''" "req_path req = ''/api/payment/pay''"
    by (auto simp: pay_request_def split: sum.splits if_splits)
  then have "dispatch_prog E req = handlePay_prog E req" by (simp add: dispatch_prog_def is_prefix_def)
  with handlePay_true [OF E w body(1,2)] have "answers_true L rid (dispatch_prog E req) w" by simp
  then have "answers_true L rid (handleRequest_prog E req) w"
    unfolding handleRequest_prog_def
    by (intro rg.holds_catch, elim rg.holds_mono) (simp add: answer_other split: sum.split, blast)
  moreover have "true_answer E req = says_paid L rid" using Some E by (simp add: fun_eq_iff true_answer_def)
  ultimately show ?thesis by simp
qed

section \<open>Any schedule\<close>

text \<open>The workers of a process: each answers one request, in turns that the schedule decides.\<close>

definition workers :: "(env \<times> HttpRequest) list \<Rightarrow> (world, HttpResponse) prog list" where
  "workers reqs = map (\<lambda>(E, req). handleRequest_prog E req) reqs"

lemma schedule_safe:
  assumes E: "\<forall>(E, req)\<in>set reqs. e_lib E = L" and w: "ready L (w_mysql w)"
    and run: "interleave ks (workers reqs, w) = (ps, w')"
  shows "on_mysql (safe L) w w' \<and>
    list_all2 (\<lambda>Q p. holds (on_mysql (safe L)) Q p w') (map (\<lambda>(E, req). true_answer E req) reqs) ps"
proof (rule rg.interleave_holds [OF _ run])
  show "list_all2 (\<lambda>Q p. holds (on_mysql (safe L)) Q p w) (map (\<lambda>(E, req). true_answer E req) reqs) (workers reqs)"
    using E by (auto simp: workers_def list_all2_conv_all_nth split_beta intro!: request_true w dest: nth_mem)
qed


text \<open>
  C2: PAID is true under any schedule. If in the course of any interleaving a worker has answered 200
  to a payment request with request id \<open>rid\<close>, then from then on the order of the attempt \<open>rid\<close> is paid.
\<close>

theorem schedule_answers_true:
  assumes "interleave ks (workers reqs, w) = (ps, w')" and "\<forall>(E, req)\<in>set reqs. e_lib E = L"
    and "m_txn (w_mysql w) = None" and "db_ok L (m_db (w_mysql w))" and "payments_true L (m_db (w_mysql w))"
    and "k < length reqs" and "reqs ! k = (E, req)" and "pay_request E req = Some rid"
    and "ps ! k = Ended (Inr resp)" and "http_status resp = 200"
  shows "\<exists>t\<in>set (attempts (m_db (w_mysql w'))). \<exists>r\<in>set (orders (m_db (w_mysql w'))).
    col_eq L (t_request_id t) rid \<and> col_eq L (o_order_sn r) (t_order_sn t) \<and> o_status r = 1"
proof -
  have ready: "ready L (w_mysql w)" using assms(3-5) by (simp add: ready_def)
  note end_state = schedule_safe [OF assms(2) ready assms(1)]
  from ready end_state have ready': "ready L (w_mysql w')" by (simp add: on_mysql_def safe_def)
  have "holds (on_mysql (safe L)) (true_answer E req) (ps ! k) w'"
    using list_all2_nthD [OF end_state [THEN conjunct2], of k] assms(6,7) by simp
  then have "true_answer E req (Inr resp) w'"
    using rg.holds_end [of L "true_answer E req" "Inr resp" w'] by (simp only: assms(9))
  moreover have "(E, req) \<in> set reqs" using nth_mem [OF assms(6)] by (simp add: assms(7))
  from bspec [OF assms(2) this] have "e_lib E = L" by simp
  ultimately show ?thesis
    using assms(8,10) ready' by (auto simp: true_answer_def says_paid_def request_paid_def attempt_paid_def)
qed

end
