(* ===== verification/RaceWitnesses.thy ===== *)
theory RaceWitnesses
  imports PaymentRace Demo
begin

text \<open>
  Workers that answer the same payment request at the same time, on the database of \<open>Demo\<close>: the
  witnesses of \<open>PaymentRace\<close>, and the schedule in which a payment that was made is recorded as failed.
\<close>

section \<open>One worker up to the transaction\<close>

text \<open>One connection is enough here: every access gives it back.\<close>

definition race_mysql :: mysql where
  "race_mysql = (demo_mysql [])\<lparr>m_pool := demo_pool\<lparr>pl_idle := [0], pl_open := [0]\<rparr>\<rparr>"

definition race_world :: world where
  "race_world = (demo_world [])\<lparr>w_mysql := race_mysql\<rparr>"

lemma race_reads:
  "getPaymentAttemptByRequestId L0 ''REQ1'' race_mysql = (Inr (Some (attempt_view L0 demo_attempt)), race_mysql)"
  "getPaymentSessionById L0 ''PS1'' race_mysql = (Inr (Some (session_view L0 demo_session)), race_mysql)"
  "getOrderBySn L0 ''O1'' race_mysql = (Inr (Some (order_view L0 demo_order)), race_mysql)"
  "getAccountById L0 ''A1'' race_mysql = (Inr (Some (account_view L0 demo_account)), race_mysql)"
  "getUserByUserId L0 ''U1'' race_mysql = (Inr (Some (user_view L0 demo_user)), race_mysql)"
  by code_simp+

lemma turn_read:
  assumes "k < length ps" and "ps ! k = pcatch (pbind (psql m) f) h" and "m (w_mysql w) = (Inr x, w_mysql w)"
  shows "take_turn k (ps, w) = (ps[k := pcatch (f x) h], w)"
  using assms by (simp add: take_turn_def psql_def act_def sql_def mzoom_run)

lemma demo_env_simps:
  "e_lib demo_env = L0" "e_values demo_env = demo_values" "e_now demo_env = 1100"
  "json_value_str L0 = demo_value_str"
  by (simp_all add: demo_env_def demo_lib_def)

lemma demo_body:
  "parseJsonBody L0 demo_pay = Inr (JObject [(''login_password'', JString ''pw''), (''qr_token'', JString demo_token),
     (''request_id'', JString ''REQ1'')])"
  by (simp add: parseJsonBody_def demo_pay_def demo_lib_def demo_parse_def demo_table_def)

definition start :: "(world, HttpResponse) prog" where
  "start = pbind (psql (getPaymentAttemptByRequestId L0 ''REQ1'')) (\<lambda>attempt. case attempt of
     None \<Rightarrow> preply 404 (makeErr 40404 M_attempt_missing)
   | Some t \<Rightarrow> pay_attempt_known_prog demo_env ''REQ1'' demo_token ''pw'' t)"

abbreviation caught :: "(world, HttpResponse) prog \<Rightarrow> (world, HttpResponse) prog" where
  "caught p \<equiv> pcatch p (\<lambda>_. preply 500 (makeErr 50001 M_server_error))"

lemma demo_start: "handleRequest_prog demo_env demo_pay = caught start"
proof -
  have "demo_token \<noteq> []" by (simp add: demo_token_def)
  then have "handlePay_prog demo_env demo_pay = start"
    using demo_body by (simp add: handlePay_prog_def pbody_str_def start_def demo_env_simps)
  moreover have "dispatch_prog demo_env demo_pay = handlePay_prog demo_env demo_pay"
    by (simp add: dispatch_prog_def demo_pay_def is_prefix_def)
  ultimately show ?thesis by (simp add: handleRequest_prog_def)
qed

abbreviation about_to_pay :: "(world, HttpResponse) prog" where
  "about_to_pay \<equiv> pay_finalize_prog demo_env ''REQ1'' (session_view L0 demo_session) (order_view L0 demo_order)
     (account_view L0 demo_account)"

lemma demo_known:
  "pay_attempt_known_prog demo_env ''REQ1'' demo_token ''pw'' (attempt_view L0 demo_attempt) =
   pay_check_prog demo_env ''REQ1'' ''pw'' (attempt_view L0 demo_attempt) ''PS1''"
  using demo_service_config demo_token_verifies
  by (simp add: pay_attempt_known_prog_def attempt_view_def demo_attempt_def demo_env_simps demo_payload_def)

lemma demo_views:
  "si_status (session_view L0 demo_session) = 0" "si_payment_session_id (session_view L0 demo_session) = ''PS1''"
  "si_order_sn (session_view L0 demo_session) = ''O1''" "si_account_id (session_view L0 demo_session) = ''A1''"
  "si_buyer_id (session_view L0 demo_session) = ''U1''"
  "ti_payment_session_id (attempt_view L0 demo_attempt) = ''PS1''"
  "oi_status (order_view L0 demo_order) = 0" "accountPayable (ai_status (account_view L0 demo_account))"
  "isNormal (user_view L0 demo_user)"
  by code_simp+

lemma demo_password:
  "passwordHash demo_values = Inr \<lparr>pw_secret = ''p''\<rparr>"
  "verifyLoginPasswordWithHash L0 ''pw'' (ui_password_hash (user_view L0 demo_user)) ''p''"
  by code_simp+

lemma turn_again:
  assumes "k < length ps" and "w_mysql w = race_mysql" and "m race_mysql = (Inr x, race_mysql)"
  shows "take_turn k (ps[k := caught (pbind (psql m) f)], w) = (ps[k := caught (f x)], w)"
  using turn_read [of k "ps[k := caught (pbind (psql m) f)]" m f _ w x] assms by simp

lemma five_reads:
  assumes k: "k < length ps" "ps ! k = caught start" and w: "w_mysql w = race_mysql"
  shows "interleave (replicate 5 k) (ps, w) = (ps[k := caught about_to_pay], w)"
proof -
  note read = turn_again [OF k(1) w]
  have "ps = ps[k := caught start]" using k(2) by (metis list_update_id)
  then have "take_turn k (ps, w) = (ps[k := caught (pay_check_prog demo_env ''REQ1'' ''pw''
      (attempt_view L0 demo_attempt) ''PS1'')], w)"
    using read [where m = "getPaymentAttemptByRequestId L0 ''REQ1''", OF race_reads(1)] demo_known
    by (metis start_def option.case(2))
  then show ?thesis
    by (simp add: numeral_eq_Suc pay_check_prog_def pay_authorize_prog_def demo_env_simps demo_views demo_password
        read [where m = "getPaymentSessionById L0 ''PS1''", OF race_reads(2)]
        read [where m = "getOrderBySn L0 ''O1''", OF race_reads(3)]
        read [where m = "getAccountById L0 ''A1''", OF race_reads(4)]
        read [where m = "getUserByUserId L0 ''U1''", OF race_reads(5)])
qed

section \<open>Two at once\<close>

definition answer_status :: "(world, HttpResponse) prog \<Rightarrow> int option" where
  "answer_status p = (case p of Ended (Inr resp) \<Rightarrow> Some (http_status resp) | _ \<Rightarrow> None)"

text \<open>
  Workers 0 and 1 read while nothing is paid; 0 pays; the transaction of 1 finds the session paid and
  marks the attempt as failed; 0 records the success and submits the notification; 1 records the
  failure again. Worker 2 answers the same request later.
\<close>

definition thrice :: "(env \<times> HttpRequest) list" where
  "thrice = replicate 3 (demo_env, demo_pay)"

definition overlap :: "nat list" where
  "overlap = replicate 5 0 @ replicate 5 1 @ [0, 1, 0, 0, 1, 2]"

definition race_summary :: "(world, HttpResponse) prog list \<times> world \<Rightarrow> int option list \<times> int list \<times> int list" where
  "race_summary c = (case c of (ps, w) \<Rightarrow>
     (map answer_status ps, map o_status (orders (m_db (w_mysql w))), map t_result (attempts (m_db (w_mysql w)))))"

lemma race_end:
  "race_summary (interleave [0, 1, 0, 0, 1, 2] ([caught about_to_pay, caught about_to_pay, caught start], race_world)) =
     ([Some 200, Some 409, Some 409], [1], [2])"
  by code_simp

lemma interleave_append: "interleave (ks @ ks') c = interleave ks' (interleave ks c)"
  by (induction ks arbitrary: c) simp_all

lemma race_run: "race_summary (interleave overlap (workers thrice, race_world)) = ([Some 200, Some 409, Some 409], [1], [2])"
proof -
  have w: "w_mysql race_world = race_mysql" by (simp add: race_world_def)
  have "workers thrice = [caught start, caught start, caught start]"
    by (simp add: workers_def thrice_def demo_start numeral_eq_Suc)
  moreover have "interleave (replicate 5 0) ([caught start, caught start, caught start], race_world) =
      ([caught about_to_pay, caught start, caught start], race_world)"
    using five_reads [OF _ _ w, of 0 "[caught start, caught start, caught start]"] by simp
  moreover have "interleave (replicate 5 1) ([caught about_to_pay, caught start, caught start], race_world) =
      ([caught about_to_pay, caught about_to_pay, caught start], race_world)"
    using five_reads [OF _ _ w, of 1 "[caught about_to_pay, caught start, caught start]"] by simp
  ultimately show ?thesis using race_end by (simp only: overlap_def interleave_append)
qed


section \<open>Witnesses\<close>

lemma race_world_ready:
  "m_txn (w_mysql race_world) = None" "db_ok L0 (m_db (w_mysql race_world))"
  "payments_true L0 (m_db (w_mysql race_world))" "\<forall>(E, req)\<in>set thrice. e_lib E = L0"
proof -
  show "payments_true L0 (m_db (w_mysql race_world))" by code_simp
qed (use demo_db_ok in \<open>simp_all add: race_world_def race_mysql_def demo_mysql_def thrice_def demo_env_simps\<close>)


text \<open>Worker 0 has answered 200, so the order of \<open>REQ1\<close> is paid, whatever the attempt says.\<close>

theorem schedule_answers_true_witness:
  "\<exists>ps w'. interleave overlap (workers thrice, race_world) = (ps, w') \<and>
     (\<exists>r\<in>set (orders (m_db (w_mysql w'))). o_status r = 1)"
proof -
  obtain ps w' where run: "interleave overlap (workers thrice, race_world) = (ps, w')" by force
  with race_run have "map answer_status ps = [Some 200, Some 409, Some 409]" by (simp add: race_summary_def)
  then obtain p qs where "ps = p # qs" "answer_status p = Some 200" by auto
  then obtain resp where 0: "ps ! 0 = Ended (Inr resp)" "http_status resp = 200"
    by (auto simp: answer_status_def split: prog.splits sum.splits)
  have "pay_request demo_env demo_pay = Some ''REQ1''"
    using demo_body by (simp add: pay_request_def demo_env_simps) (simp add: demo_pay_def)
  from schedule_answers_true [OF run race_world_ready(4,1-3) _ _ this 0] run show ?thesis
    by (auto simp: thrice_def)
qed

end
