(* ===== verification/SqlText.thy ===== *)
theory SqlText
  imports MySqlPool
begin

text \<open>
  The texts of the SQL statements of backend/common/mysql_pool.hpp. \<open>MySqlPool\<close> gives each statement as
  its effect on the tables; here it is the text that is sent, a list of \<open>part\<close>s: what stands in the C++
  text literals, and the values that are put between quotation marks with \<open>escape\<close>. The server's
  reading of a text, up to the string literals, is \<open>scan\<close>. The result is that no value can change
  the statement: whatever bytes it has, the server finds the intended text and the value as one literal.
\<close>

section \<open>Escaping\<close>

abbreviation quote :: char where
  "quote \<equiv> CHR 0x27"

abbreviation backslash :: char where
  "backslash \<equiv> CHR 0x5C"

text \<open>
  \<open>escape\<close> over \<open>mysql_real_escape_string\<close>, which is \<open>esc\<close>: it writes its result and a zero byte into
  the buffer of \<open>2 * size + 1\<close> bytes and returns the length, to which the buffer is then cut.
\<close>

definition escape_buffer :: "string \<Rightarrow> string" where
  "escape_buffer v = replicate (2 * length v + 1) (CHR 0x00)"

definition escape :: "(string \<Rightarrow> string) \<Rightarrow> string \<Rightarrow> string" where
  "escape esc v =
     (let written = esc v @ [CHR 0x00];
          out = take (length (escape_buffer v)) (written @ drop (length written) (escape_buffer v))
      in take (length (esc v)) out)"

text \<open>
  The escape sequences of MySQL's string literals, and what is documented of
  \<open>mysql_real_escape_string\<close>: every byte is kept or written as an escape sequence for it, and the zero
  byte, line ends, Control-Z, backslash and both quotation marks are never kept.
\<close>

definition unescaped :: "char \<Rightarrow> string" where
  "unescaped c =
     (if c = CHR ''0'' then [CHR 0x00] else if c = CHR ''b'' then [CHR 0x08] else if c = CHR ''n'' then [CHR 0x0A]
      else if c = CHR ''r'' then [CHR 0x0D] else if c = CHR ''t'' then [CHR 0x09]
      else if c = CHR ''Z'' then [CHR 0x1A]
      else if c = CHR ''%'' \<or> c = CHR ''_'' then [backslash, c] else [c])"

definition special :: "char \<Rightarrow> bool" where
  "special c \<longleftrightarrow> c \<in> {CHR 0x00, CHR 0x0A, CHR 0x0D, CHR 0x1A, backslash, quote, CHR 0x22}"

definition escapes :: "char \<Rightarrow> string \<Rightarrow> bool" where
  "escapes c p \<longleftrightarrow> p = [c] \<and> \<not> special c \<or> (\<exists>e. p = [backslash, e] \<and> unescaped e = [c] \<and> e \<noteq> CHR 0x00)"

definition escape_documented :: "(string \<Rightarrow> string) \<Rightarrow> bool" where
  "escape_documented esc \<longleftrightarrow> (\<forall>v. \<exists>ps. esc v = concat ps \<and> list_all2 escapes v ps)"

lemma escapes_length: "list_all2 escapes v ps \<Longrightarrow> length (concat ps) \<le> 2 * length v"
  by (induction rule: list_all2_induct) (auto simp: escapes_def)

lemma escapes_no_zero: "list_all2 escapes v ps \<Longrightarrow> CHR 0x00 \<notin> set (concat ps)"
  by (induction rule: list_all2_induct) (auto simp: escapes_def special_def)

lemma escape_length: "escape_documented esc \<Longrightarrow> length (esc v) \<le> 2 * length v"
  unfolding escape_documented_def by (metis escapes_length)

lemma escape_is: "escape_documented esc \<Longrightarrow> escape esc v = esc v"
  using escape_length [of esc v] by (simp add: escape_def escape_buffer_def Let_def)

section \<open>How the server reads a text\<close>

text \<open>
  A token is a byte outside of string literals or a whole string literal. The scanner knows literals
  in single quotation marks with their escape sequences and doubled marks; a text with a byte that starts
  another kind of literal, a name in back-quotes, a comment, or a second statement is refused, as is an open literal.
  This is the default SQL mode, where a backslash escapes, and a connection in utf8mb4, as the program opens it.
\<close>

datatype token = Ch char | Lit string

datatype mode = Outside | Inside string | Escaped string | Closed string | Refused

definition code_char :: "char \<Rightarrow> bool" where
  "code_char c \<longleftrightarrow> c \<notin> {quote, backslash, CHR 0x00, CHR 0x22, CHR 0x60, CHR ''#'', CHR '';'', CHR ''/'', CHR ''*'', CHR ''-''}"

fun scan_step :: "mode \<times> token list \<Rightarrow> char \<Rightarrow> mode \<times> token list" where
  "scan_step (Outside, ts) c =
     (if c = quote then (Inside [], ts) else if code_char c then (Outside, ts @ [Ch c]) else (Refused, ts))"
| "scan_step (Inside v, ts) c =
     (if c = quote then (Closed v, ts) else if c = backslash then (Escaped v, ts) else (Inside (v @ [c]), ts))"
| "scan_step (Escaped v, ts) c = (Inside (v @ unescaped c), ts)"
| "scan_step (Closed v, ts) c =
     (if c = quote then (Inside (v @ [quote]), ts)
      else if code_char c then (Outside, ts @ [Lit v, Ch c]) else (Refused, ts))"
| "scan_step (Refused, ts) c = (Refused, ts)"

definition scan :: "string \<Rightarrow> token list option" where
  "scan s = (case foldl scan_step (Outside, []) s of
      (Outside, ts) \<Rightarrow> Some ts
    | (Closed v, ts) \<Rightarrow> Some (ts @ [Lit v])
    | _ \<Rightarrow> None)"

section \<open>Texts made of parts\<close>

text \<open>
  \<open>Raw\<close>: the text of a C++ literal; \<open>Fixed\<close>: a quoted constant in it; \<open>Num\<close>: \<open>std::to_string\<close>;
  \<open>Val v\<close>: the quotation mark that ends a C++ literal, \<open>escape(conn, v)\<close>, and the mark that starts the next.
\<close>

datatype part = Raw string | Fixed string | Num int | Val string

fun part_text :: "(string \<Rightarrow> string) \<Rightarrow> part \<Rightarrow> string" where
  "part_text esc (Raw s) = s"
| "part_text esc (Fixed s) = [quote] @ s @ [quote]"
| "part_text esc (Num n) = to_string n"
| "part_text esc (Val v) = [quote] @ escape esc v @ [quote]"

fun part_tokens :: "part \<Rightarrow> token list" where
  "part_tokens (Raw s) = map Ch s"
| "part_tokens (Fixed s) = [Lit s]"
| "part_tokens (Num n) = map Ch (to_string n)"
| "part_tokens (Val v) = [Lit v]"

definition sql_text :: "(string \<Rightarrow> string) \<Rightarrow> part list \<Rightarrow> string" where
  "sql_text esc ps = concat (map (part_text esc) ps)"

definition sql_tokens :: "part list \<Rightarrow> token list" where
  "sql_tokens ps = concat (map part_tokens ps)"

text \<open>Parts as the program writes them: between two literals stands some text.\<close>

fun part_ok :: "part \<Rightarrow> bool" where
  "part_ok (Raw s) \<longleftrightarrow> s \<noteq> [] \<and> list_all code_char s"
| "part_ok (Fixed s) \<longleftrightarrow> list_all (\<lambda>c. \<not> special c) s"
| "part_ok (Num n) \<longleftrightarrow> 0 \<le> n"
| "part_ok (Val v) \<longleftrightarrow> True"

fun quoted :: "part \<Rightarrow> bool" where
  "quoted (Fixed s) = True" | "quoted (Val v) = True" | "quoted _ = False"

fun parts_ok :: "part list \<Rightarrow> bool" where
  "parts_ok [] \<longleftrightarrow> True"
| "parts_ok [p] \<longleftrightarrow> part_ok p"
| "parts_ok (p # q # ps) \<longleftrightarrow> part_ok p \<and> (quoted p \<longrightarrow> \<not> quoted q) \<and> parts_ok (q # ps)"

section \<open>A text is read back\<close>

lemma code_char_not [simp]: "\<not> code_char quote" "\<not> code_char (CHR 0x00)"
  by (simp_all add: code_char_def)

lemma raw_run: "list_all code_char s \<Longrightarrow> foldl scan_step (Outside, ts) s = (Outside, ts @ map Ch s)"
  by (induction s arbitrary: ts) auto

lemma raw_after_literal:
  assumes "list_all code_char s" and "s \<noteq> []"
  shows "foldl scan_step (Closed v, ts) s = (Outside, ts @ Lit v # map Ch s)"
  using assms raw_run by (cases s) auto

lemma escapes_run:
  "list_all2 escapes v ps \<Longrightarrow> foldl scan_step (Inside u, ts) (concat ps) = (Inside (u @ v), ts)"
  by (induction arbitrary: u rule: list_all2_induct) (auto simp: escapes_def special_def)

lemma value_run:
  "escape_documented esc \<Longrightarrow> foldl scan_step (Inside [], ts) (escape esc v) = (Inside v, ts)"
  using escapes_run [of v _ "[]"] by (auto simp: escape_is) (metis append_Nil escape_documented_def)

lemma fixed_run:
  "list_all (\<lambda>c. \<not> special c) s \<Longrightarrow> foldl scan_step (Inside u, ts) s = (Inside (u @ s), ts)"
  by (induction s arbitrary: u) (auto simp: special_def)

lemma digit_code: "is_digit c \<Longrightarrow> code_char c"
  by (cases "code_char c") (auto simp: code_char_def, code_simp+)

lemma to_string_code: "0 \<le> n \<Longrightarrow> list_all code_char (to_string n) \<and> to_string n \<noteq> []"
  using nat_to_string_digits by (auto simp: to_string_def list_all_iff digit_code)

text \<open>The scanner between two parts: \<open>ts\<close> has been read, the last literal possibly just closed.\<close>

definition stands :: "mode \<times> token list \<Rightarrow> token list \<Rightarrow> bool" where
  "stands st ts \<longleftrightarrow> st = (Outside, ts) \<or> (\<exists>v ts0. st = (Closed v, ts0) \<and> ts = ts0 @ [Lit v])"

lemma part_run:
  assumes esc: "escape_documented esc" and ok: "part_ok p"
    and st: "stands st ts" and sep: "quoted p \<Longrightarrow> fst st = Outside"
  shows "stands (foldl scan_step st (part_text esc p)) (ts @ part_tokens p) \<and>
    (\<not> quoted p \<longrightarrow> fst (foldl scan_step st (part_text esc p)) = Outside)"
proof (cases p)
  case (Raw s)
  with ok st show ?thesis by (auto simp: stands_def raw_run raw_after_literal)
next
  case (Num n)
  with ok have "list_all code_char (to_string n)" "to_string n \<noteq> []" using to_string_code by auto
  with Num st show ?thesis by (auto simp: stands_def raw_run raw_after_literal)
next
  case (Fixed s)
  with ok st sep show ?thesis by (auto simp: stands_def fixed_run)
next
  case (Val v)
  with esc st sep show ?thesis by (auto simp: stands_def value_run)
qed

lemma parts_run:
  assumes "escape_documented esc" and "parts_ok ps" and "stands st ts"
    and "\<And>p qs. ps = p # qs \<Longrightarrow> quoted p \<Longrightarrow> fst st = Outside"
  shows "stands (foldl scan_step st (sql_text esc ps)) (ts @ sql_tokens ps)"
  using assms(2-4)
proof (induction ps arbitrary: st ts rule: parts_ok.induct)
  case 1
  then show ?case by (simp add: sql_text_def sql_tokens_def)
next
  case (2 p)
  then show ?case using part_run [OF assms(1)] by (simp add: sql_text_def sql_tokens_def)
next
  case (3 p q ps)
  let ?st = "foldl scan_step st (part_text esc p)"
  have "stands ?st (ts @ part_tokens p)" "\<not> quoted p \<longrightarrow> fst ?st = Outside"
    using part_run [OF assms(1), of p st ts] 3 by auto
  with 3 have "stands (foldl scan_step ?st (sql_text esc (q # ps))) ((ts @ part_tokens p) @ sql_tokens (q # ps))"
    by (intro "3.IH") auto
  then show ?case by (simp add: sql_text_def sql_tokens_def)
qed

lemma text_reads_back:
  assumes "escape_documented esc" and "parts_ok ps"
  shows "scan (sql_text esc ps) = Some (sql_tokens ps)"
  using parts_run [OF assms, of "(Outside, [])" "[]"] by (auto simp: stands_def scan_def)

text \<open>\<open>mysql_query\<close> is given \<open>sql.c_str()\<close>: no zero byte gets into a text, so it arrives whole.\<close>

lemma part_no_zero:
  assumes esc: "escape_documented esc" and "part_ok p"
  shows "CHR 0x00 \<notin> set (part_text esc p)"
proof (cases p)
  case (Raw s)
  with assms(2) show ?thesis by (auto simp: list_all_iff)
next
  case (Num n)
  with assms(2) to_string_code [of n] show ?thesis by (auto simp: list_all_iff)
next
  case (Fixed s)
  with assms(2) show ?thesis by (auto simp: list_all_iff special_def)
next
  case (Val v)
  obtain ps where "esc v = concat ps" "list_all2 escapes v ps" using esc by (auto simp: escape_documented_def)
  with Val escapes_no_zero show ?thesis by (auto simp: escape_is [OF esc])
qed

lemma parts_ok_all: "parts_ok ps \<Longrightarrow> p \<in> set ps \<Longrightarrow> part_ok p"
  by (induction ps rule: parts_ok.induct) auto

lemma text_whole:
  assumes "escape_documented esc" and "parts_ok ps"
  shows "c_str (sql_text esc ps) = sql_text esc ps"
proof -
  have "CHR 0x00 \<notin> set (sql_text esc ps)"
    using part_no_zero [OF assms(1)] parts_ok_all [OF assms(2)] by (auto simp: sql_text_def)
  then show ?thesis by simp
qed

section \<open>The statements of the program\<close>

text \<open>
  One definition per statement, named after the function that sends it; a statement of
  \<open>finalizePaymentSuccess\<close> is named after the definition of \<open>MySqlPool\<close> that has its effect.
\<close>

definition userSelectColumns_sql :: "part list" where
  "userSelectColumns_sql =
     [Raw ''SELECT id, user_id, username, password_hash, IFNULL(email_hash, '', Fixed [],
      Raw ''), IFNULL(email_masked, '', Fixed [], Raw ''), IFNULL(id_card_hash,'', Fixed [],
      Raw ''), IFNULL(id_card_masked,'', Fixed [],
      Raw ''), real_auth_completed, user_type, status, DATE_FORMAT(last_login_at, '',
      Fixed ''%Y-%m-%d %H:%i:%s'', Raw ''), DATE_FORMAT(created_at, '',
      Fixed ''%Y-%m-%d %H:%i:%s'', Raw '')'']"

definition orderSelectColumns_sql :: "part list" where
  "orderSelectColumns_sql =
     [Raw ''SELECT id, order_sn, account_id, buyer_id, price, buyer_email, buyer_id_card_hash, '',
      Raw ''buyer_id_card_masked, status, DATE_FORMAT(create_time, '',
      Fixed ''%Y-%m-%d %H:%i:%s'', Raw ''), IFNULL(DATE_FORMAT(paid_at, '',
      Fixed ''%Y-%m-%d %H:%i:%s'', Raw ''), '', Fixed [], Raw ''), DATE_FORMAT(update_time, '',
      Fixed ''%Y-%m-%d %H:%i:%s'', Raw '')'']"

definition accountSelectColumns_sql :: "part list" where
  "accountSelectColumns_sql =
     [Raw ''SELECT id, account_id, seller_id, game_name, server_area, price, account_level, '',
      Raw ''hero_count, skin_count, CAST(rare_items AS CHAR), status, version, '',
      Raw ''DATE_FORMAT(created_at, '', Fixed ''%Y-%m-%d %H:%i:%s'',
      Raw ''), DATE_FORMAT(updated_at, '', Fixed ''%Y-%m-%d %H:%i:%s'', Raw '')'']"

definition paymentSessionSelectColumns_sql :: "part list" where
  "paymentSessionSelectColumns_sql =
     [Raw ''SELECT id, payment_session_id, order_sn, account_id, buyer_id, buyer_email, status, '',
      Raw ''DATE_FORMAT(expire_at, '', Fixed ''%Y-%m-%d %H:%i:%s'',
      Raw ''), DATE_FORMAT(created_at, '', Fixed ''%Y-%m-%d %H:%i:%s'',
      Raw ''), DATE_FORMAT(updated_at, '', Fixed ''%Y-%m-%d %H:%i:%s'', Raw '')'']"

definition paymentAttemptSelectColumns_sql :: "part list" where
  "paymentAttemptSelectColumns_sql =
     [Raw ''SELECT id, request_id, payment_session_id, order_sn, account_id, buyer_id, result, '',
      Raw ''IFNULL(fail_reason,'', Fixed [], Raw ''), IFNULL(client_ip,'', Fixed [],
      Raw ''), IFNULL(user_agent,'', Fixed [], Raw ''), DATE_FORMAT(created_at, '',
      Fixed ''%Y-%m-%d %H:%i:%s'', Raw ''), DATE_FORMAT(updated_at, '',
      Fixed ''%Y-%m-%d %H:%i:%s'', Raw '')'']"

definition getUserByUserId_sql :: "string \<Rightarrow> part list" where
  "getUserByUserId_sql user_id =
     userSelectColumns_sql @
     [Raw '' FROM users WHERE user_id='', Val user_id, Raw '' LIMIT 1'']"

definition getUserByUsername_sql :: "string \<Rightarrow> part list" where
  "getUserByUsername_sql username =
     userSelectColumns_sql @
     [Raw '' FROM users WHERE username='', Val username, Raw '' LIMIT 1'']"

definition updateUserRealAuthProfile_sql :: "UserRealAuthUpdate \<Rightarrow> part list" where
  "updateUserRealAuthProfile_sql input =
     [Raw ''UPDATE users SET email_hash='', Val (ru_email_hash input), Raw '', email_masked='',
      Val (ru_email_masked input), Raw '', id_card_hash='', Val (ru_id_card_hash input),
      Raw '', id_card_masked='', Val (ru_id_card_masked input),
      Raw '', real_auth_completed=1 WHERE user_id='', Val (ru_user_id input)]"

definition getOrderBySn_sql :: "string \<Rightarrow> part list" where
  "getOrderBySn_sql order_sn =
     orderSelectColumns_sql @
     [Raw '' FROM orders WHERE order_sn='', Val order_sn, Raw '' LIMIT 1'']"

definition getAccountById_sql :: "string \<Rightarrow> part list" where
  "getAccountById_sql account_id =
     accountSelectColumns_sql @
     [Raw '' FROM accounts WHERE account_id='', Val account_id, Raw '' LIMIT 1'']"

definition getActivePaymentSessionByOrderSn_sql :: "string \<Rightarrow> part list" where
  "getActivePaymentSessionByOrderSn_sql order_sn =
     paymentSessionSelectColumns_sql @
     [Raw '' FROM payment_sessions WHERE order_sn='', Val order_sn, Raw '' AND status='',
      Num (session_code WaitingPay), Raw '' AND expire_at > NOW() LIMIT 1'']"

definition getPaymentSessionById_sql :: "string \<Rightarrow> part list" where
  "getPaymentSessionById_sql payment_session_id =
     paymentSessionSelectColumns_sql @
     [Raw '' FROM payment_sessions WHERE payment_session_id='', Val payment_session_id,
      Raw '' LIMIT 1'']"

definition createPaymentSession_sql :: "CreatePaymentSessionInput \<Rightarrow> part list" where
  "createPaymentSession_sql input =
     [Raw ''INSERT INTO payment_sessions (payment_session_id, order_sn, account_id, buyer_id, '',
      Raw ''buyer_email, status, expire_at, created_at, updated_at) VALUES ('',
      Val (cs_payment_session_id input), Raw '','', Val (cs_order_sn input), Raw '','',
      Val (cs_account_id input), Raw '','', Val (cs_buyer_id input), Raw '','',
      Val (cs_buyer_contact_masked input), Raw '','', Num (session_code WaitingPay),
      Raw '', DATE_ADD(NOW(), INTERVAL '', Num (cs_ttl_seconds input),
      Raw '' SECOND), NOW(), NOW())'']"

definition getPaymentAttemptByRequestId_sql :: "string \<Rightarrow> part list" where
  "getPaymentAttemptByRequestId_sql request_id =
     paymentAttemptSelectColumns_sql @
     [Raw '' FROM payment_attempts WHERE request_id='', Val request_id, Raw '' LIMIT 1'']"

definition createPaymentAttemptProcessing_sql :: "CreatePaymentAttemptInput \<Rightarrow> part list" where
  "createPaymentAttemptProcessing_sql input =
     [Raw ''INSERT INTO payment_attempts (request_id, payment_session_id, order_sn, account_id, '',
      Raw ''buyer_id, result, fail_reason, client_ip, user_agent, created_at, updated_at) '',
      Raw ''VALUES ('', Val (ca_request_id input), Raw '','', Val (ca_payment_session_id input),
      Raw '','', Val (ca_order_sn input), Raw '','', Val (ca_account_id input), Raw '','',
      Val (ca_buyer_id input), Raw '','', Num (attempt_code AttemptProcessing),
      Raw '', NULL, '', Val (ca_client_ip input), Raw '','', Val (ca_user_agent input),
      Raw '', NOW(), NOW())'']"

definition nullableString_sql :: "string \<Rightarrow> part" where
  "nullableString_sql v = (if v = [] then Raw ''NULL'' else Val v)"

definition updatePaymentAttemptResult_sql :: "string \<Rightarrow> PaymentAttemptResult \<Rightarrow> string \<Rightarrow> part list" where
  "updatePaymentAttemptResult_sql request_id res reason =
     [Raw ''UPDATE payment_attempts SET result='', Num (attempt_code res), Raw '', fail_reason='',
      nullableString_sql reason, Raw '', updated_at=NOW() WHERE request_id='', Val request_id]"

definition expireTimeoutPaymentSessions_sql :: "part list" where
  "expireTimeoutPaymentSessions_sql =
     [Raw ''UPDATE payment_sessions SET status='', Num (session_code SessionExpired),
      Raw '', updated_at=NOW() WHERE status='', Num (session_code WaitingPay),
      Raw '' AND expire_at <= NOW()'']"

definition begin_sql :: "part list" where
  "begin_sql =
     [Raw ''START TRANSACTION'']"

definition commit_sql :: "part list" where
  "commit_sql =
     [Raw ''COMMIT'']"

definition rollback_sql :: "part list" where
  "rollback_sql =
     [Raw ''ROLLBACK'']"

definition session_lock_sql :: "PaymentFinalizeInput \<Rightarrow> part list" where
  "session_lock_sql input =
     [Raw ''SELECT payment_session_id, order_sn, account_id, buyer_id, status, expire_at FROM '',
      Raw ''payment_sessions WHERE payment_session_id='', Val (pf_payment_session_id input),
      Raw '' FOR UPDATE'']"

definition order_lock_sql :: "PaymentFinalizeInput \<Rightarrow> part list" where
  "order_lock_sql input =
     [Raw ''SELECT status, account_id, buyer_id, price FROM orders WHERE order_sn='',
      Val (pf_order_sn input), Raw '' FOR UPDATE'']"

definition account_lock_sql :: "PaymentFinalizeInput \<Rightarrow> part list" where
  "account_lock_sql input =
     [Raw ''SELECT status, version FROM accounts WHERE account_id='', Val (pf_account_id input),
      Raw '' FOR UPDATE'']"

definition attempt_lock_sql :: "PaymentFinalizeInput \<Rightarrow> part list" where
  "attempt_lock_sql input =
     [Raw ''SELECT result, payment_session_id, order_sn, account_id, buyer_id FROM '',
      Raw ''payment_attempts WHERE request_id='', Val (pf_request_id input),
      Raw '' FOR UPDATE'']"

definition finalize_user_sql :: "PaymentFinalizeInput \<Rightarrow> part list" where
  "finalize_user_sql input =
     [Raw ''SELECT status, real_auth_completed, email_hash, IFNULL(id_card_hash,'', Fixed [],
      Raw '') FROM users WHERE user_id='', Val (pf_buyer_id input), Raw '' LIMIT 1'']"

definition pay_order_sql :: "PaymentFinalizeInput \<Rightarrow> part list" where
  "pay_order_sql input =
     [Raw ''UPDATE orders SET status=1, paid_at=NOW(), update_time=NOW() WHERE order_sn='',
      Val (pf_order_sn input), Raw '' AND status=0'']"

definition pay_account_sql :: "PaymentFinalizeInput \<Rightarrow> part list" where
  "pay_account_sql input =
     [Raw ''UPDATE accounts SET status=2, version=version+1, updated_at=NOW() WHERE account_id='',
      Val (pf_account_id input), Raw '' AND status IN (0,1)'']"

definition pay_session_sql :: "PaymentFinalizeInput \<Rightarrow> part list" where
  "pay_session_sql input =
     [Raw ''UPDATE payment_sessions SET status=1, updated_at=NOW() WHERE payment_session_id='',
      Val (pf_payment_session_id input), Raw '' AND status=0'']"

definition pay_attempt_sql :: "PaymentFinalizeInput \<Rightarrow> part list" where
  "pay_attempt_sql input =
     [Raw ''UPDATE payment_attempts SET result=1, fail_reason=NULL, updated_at=NOW() WHERE '',
      Raw ''request_id='', Val (pf_request_id input), Raw '' AND result=0'']"

datatype statement =
    UserById string
  | UserByName string
  | SetRealAuth UserRealAuthUpdate
  | OrderBySn string
  | AccountById string
  | ActiveSession string
  | SessionById string
  | NewSession CreatePaymentSessionInput
  | AttemptById string
  | NewAttempt CreatePaymentAttemptInput
  | SetAttempt string PaymentAttemptResult string
  | ExpireSessions
  | Begin
  | Commit
  | Rollback
  | LockSession PaymentFinalizeInput
  | LockOrder PaymentFinalizeInput
  | LockAccount PaymentFinalizeInput
  | LockAttempt PaymentFinalizeInput
  | PayUser PaymentFinalizeInput
  | PayOrder PaymentFinalizeInput
  | PayAccount PaymentFinalizeInput
  | PaySession PaymentFinalizeInput
  | PayAttempt PaymentFinalizeInput

fun statement_sql :: "statement \<Rightarrow> part list" where
  "statement_sql (UserById user_id) = getUserByUserId_sql user_id"
| "statement_sql (UserByName username) = getUserByUsername_sql username"
| "statement_sql (SetRealAuth input) = updateUserRealAuthProfile_sql input"
| "statement_sql (OrderBySn order_sn) = getOrderBySn_sql order_sn"
| "statement_sql (AccountById account_id) = getAccountById_sql account_id"
| "statement_sql (ActiveSession order_sn) = getActivePaymentSessionByOrderSn_sql order_sn"
| "statement_sql (SessionById payment_session_id) = getPaymentSessionById_sql payment_session_id"
| "statement_sql (NewSession input) = createPaymentSession_sql input"
| "statement_sql (AttemptById request_id) = getPaymentAttemptByRequestId_sql request_id"
| "statement_sql (NewAttempt input) = createPaymentAttemptProcessing_sql input"
| "statement_sql (SetAttempt request_id res reason) = updatePaymentAttemptResult_sql request_id res reason"
| "statement_sql ExpireSessions = expireTimeoutPaymentSessions_sql"
| "statement_sql Begin = begin_sql"
| "statement_sql Commit = commit_sql"
| "statement_sql Rollback = rollback_sql"
| "statement_sql (LockSession input) = session_lock_sql input"
| "statement_sql (LockOrder input) = order_lock_sql input"
| "statement_sql (LockAccount input) = account_lock_sql input"
| "statement_sql (LockAttempt input) = attempt_lock_sql input"
| "statement_sql (PayUser input) = finalize_user_sql input"
| "statement_sql (PayOrder input) = pay_order_sql input"
| "statement_sql (PayAccount input) = pay_account_sql input"
| "statement_sql (PaySession input) = pay_session_sql input"
| "statement_sql (PayAttempt input) = pay_attempt_sql input"

text \<open>\<open>createPaymentSession\<close> throws before it sends anything when the time to live is not positive.\<close>

fun sendable :: "statement \<Rightarrow> bool" where
  "sendable (NewSession input) \<longleftrightarrow> 0 < cs_ttl_seconds input"
| "sendable _ \<longleftrightarrow> True"

lemma parts_ok_append:
  "parts_ok ps \<Longrightarrow> parts_ok (Raw s # qs) \<Longrightarrow> parts_ok (ps @ Raw s # qs)"
  by (induction ps rule: parts_ok.induct) auto

lemma columns_ok:
  "parts_ok userSelectColumns_sql" "parts_ok orderSelectColumns_sql" "parts_ok accountSelectColumns_sql"
  "parts_ok paymentSessionSelectColumns_sql" "parts_ok paymentAttemptSelectColumns_sql"
  by code_simp+

lemmas sql_defs = getUserByUserId_sql_def getUserByUsername_sql_def
    updateUserRealAuthProfile_sql_def getOrderBySn_sql_def getAccountById_sql_def
    getActivePaymentSessionByOrderSn_sql_def getPaymentSessionById_sql_def
    createPaymentSession_sql_def getPaymentAttemptByRequestId_sql_def
    createPaymentAttemptProcessing_sql_def nullableString_sql_def updatePaymentAttemptResult_sql_def
    expireTimeoutPaymentSessions_sql_def begin_sql_def commit_sql_def rollback_sql_def
    session_lock_sql_def order_lock_sql_def account_lock_sql_def attempt_lock_sql_def
    finalize_user_sql_def pay_order_sql_def pay_account_sql_def pay_session_sql_def
    pay_attempt_sql_def

lemma attempt_code_nonneg: "0 \<le> attempt_code r"
  by (cases r) simp_all

lemma statement_ok: "sendable st \<Longrightarrow> parts_ok (statement_sql st)"
  by (cases st) (simp_all add: sql_defs parts_ok_append columns_ok code_char_def attempt_code_nonneg)

section \<open>No injection\<close>

text \<open>
  C18: a value cannot change a statement. Whatever bytes the values of a statement have, the text that
  reaches the server is not cut at a zero byte, and the server finds in it exactly the intended code, no
  comment and no second statement, and every value as one string literal that denotes the value.
\<close>

theorem no_sql_injection:
  assumes "escape_documented esc" and "sendable st"
  shows "scan (c_str (sql_text esc (statement_sql st))) = Some (sql_tokens (statement_sql st))"
  using text_whole [OF assms(1) statement_ok [OF assms(2)]]
    text_reads_back [OF assms(1) statement_ok [OF assms(2)]] by simp

text \<open>
  \<open>escape\<close> stays inside its buffer. What \<open>mysql_real_escape_string\<close> writes, with the zero byte at
  the end, fits into the \<open>2 * size + 1\<close> bytes, and the text that is returned is all of it.
\<close>

lemma escape_fits_buffer:
  assumes "escape_documented esc"
  shows "length (esc v @ [CHR 0x00]) \<le> length (escape_buffer v) \<and> escape esc v = esc v"
  using escape_length [OF assms, of v] escape_is [OF assms, of v] by (simp add: escape_buffer_def)

end
