(* ===== verification/LastConnection.thy ===== *)
theory LastConnection
  imports MySqlRefine
begin

text \<open>
  \<open>finalizePaymentSuccess\<close> holds one connection while \<open>markAttemptFailedNoThrow\<close> asks the pool for a
  second one. When the pool has no other, the marking gives up and the attempt stays as it was.
\<close>

text \<open>The attempts recorded as failed, now or after a rollback.\<close>

definition failed_attempts :: "mysql \<Rightarrow> attempt_row set" where
  "failed_attempts w = {t \<in> set (attempts (m_db w)). t_result t = 2} \<union>
     (case m_txn w of None \<Rightarrow> {} | Some d \<Rightarrow> {t \<in> set (attempts d). t_result t = 2})"

definition starved :: "mysql \<Rightarrow> mysql \<Rightarrow> bool" where
  "starved w w' \<longleftrightarrow> (pl_idle (m_pool w) = [] \<longrightarrow>
     m_pool w' = m_pool w \<and> failed_attempts w' \<subseteq> failed_attempts w)"

interpretation starved: frame starved
  by unfold_locales (auto simp: starved_def)

lemma starvedI:
  "m_pool w' = m_pool w \<Longrightarrow> failed_attempts w' \<subseteq> failed_attempts w \<Longrightarrow> starved w w'"
  by (simp add: starved_def)

lemma queryRows_starved: "keeps starved (queryRows q)"
proof (rule keepsI)
  fix w r w' assume run: "queryRows q w = (r, w')"
  obtain ev es where "next_event w = (Inr ev, w\<lparr>m_events := es\<rparr>)" by (rule next_event_run)
  with run have "w' = w\<lparr>m_events := es\<rparr>"
    by (auto simp: queryRows_def run_simps split: sql_event.splits)
  then show "starved w w'" by (intro starvedI) (simp_all add: failed_attempts_def)
qed

lemma executeAffected_starved:
  assumes "\<And>d x d' t. st d = Inr (x, d') \<Longrightarrow> t \<in> set (attempts d') \<Longrightarrow> t_result t = 2 \<Longrightarrow> t \<in> set (attempts d)"
  shows "keeps starved (executeAffected st)"
proof (rule keepsI)
  fix w r w' assume run: "executeAffected st w = (r, w')"
  obtain ev es where "next_event w = (Inr ev, w\<lparr>m_events := es\<rparr>)" by (rule next_event_run)
  with run have p: "m_pool w' = m_pool w"
    by (auto simp: executeAffected_def mbind_run split: sql_event.splits sum.splits)
  from executeAffected_cases [OF run] have "m_txn w' = m_txn w"
    and "m_db w' = m_db w \<or> (\<exists>x. st (m_db w) = Inr (x, m_db w'))" by (auto split: sum.splits)
  with assms have "failed_attempts w' \<subseteq> failed_attempts w" by (auto simp: failed_attempts_def)
  with p show "starved w w'" by (rule starvedI)
qed

lemma updates_starved:
  "keeps starved (executeAffected (pay_order L now i))" "keeps starved (executeAffected (pay_account L now i))"
  "keeps starved (executeAffected (pay_session L now i))" "keeps starved (executeAffected (pay_attempt L now i))"
  by (rule executeAffected_starved;
      auto simp: pay_order_def pay_account_def pay_session_def pay_attempt_def pay_attempt_set_def
        in_update_rows split: if_splits)+

lemma begin_starved: "keeps starved begin_txn"
proof (rule keepsI)
  fix w r w' assume run: "begin_txn w = (r, w')"
  obtain ev es where "next_event w = (Inr ev, w\<lparr>m_events := es\<rparr>)" by (rule next_event_run)
  with run show "starved w w'"
    by (auto simp: begin_txn_def run_simps failed_attempts_def intro!: starvedI split: sql_event.splits)
qed

lemma commit_starved: "keeps starved commit"
proof (rule keepsI)
  fix w r w' assume run: "commit w = (r, w')"
  obtain ev es where "next_event w = (Inr ev, w\<lparr>m_events := es\<rparr>)" by (rule next_event_run)
  with run show "starved w w'"
    by (auto simp: commit_def run_simps failed_attempts_def intro!: starvedI split: sql_event.splits)
qed

lemma rollback_starved: "keeps starved rollback"
proof (rule keepsI)
  fix w r w' assume run: "rollback w = (r, w')"
  obtain es where "rollback w = (Inr (), undo (w\<lparr>m_events := es\<rparr>))" by (rule rollback_run)
  with run show "starved w w'"
    by (auto simp: undo_def failed_attempts_def intro!: starvedI split: option.splits)
qed

lemma mark_starved: "keeps starved (markAttemptFailedNoThrow L now rid reason)"
proof (rule keepsI)
  fix w r w' assume run: "markAttemptFailedNoThrow L now rid reason w = (r, w')"
  show "starved w w'"
  proof (cases "pl_idle (m_pool w) = []")
    case True
    then have "\<exists>e. my_acquire w = (Inl e, w)" by (simp add: my_acquire_def run_simps)
    with run have "w' = w"
      by (auto simp: markAttemptFailedNoThrow_def updatePaymentAttemptResult_def with_guard_def run_simps)
    then show ?thesis by (simp add: starved.frame_refl)
  next
    case False
    then show ?thesis by (simp add: starved_def)
  qed
qed

lemma reject_starved: "keeps starved (finalize_reject L now i reason)"
  unfolding finalize_reject_def by (intro starved.keeps_rules rollback_starved mark_starved)

lemma body_starved:
  "keeps starved (mcatch (finalize_body L now i) (\<lambda>_. finalize_reject L now i reason))"
  unfolding finalize_body_def finalize_session_def finalize_order_def finalize_account_def
    finalize_attempt_def finalize_user_def finalize_update_def
  by (intro starved.keeps_rules queryRows_starved updates_starved begin_starved commit_starved
      rollback_starved reject_starved)


end
