(* ===== verification/SqlWitnesses.thy ===== *)
theory SqlWitnesses
  imports SqlText LastConnection RaceWitnesses
begin

text \<open>
  A function with the documented behaviour of \<open>mysql_real_escape_string\<close>, and the properties of
  \<open>SqlText\<close> applied to it and to a value that tries to leave its literal; and a refused payment with the
  only connection of a pool.
\<close>

definition demo_escape_char :: "char \<Rightarrow> string" where
  "demo_escape_char c =
     (if c = CHR 0x00 then [backslash, CHR ''0''] else if c = CHR 0x0A then [backslash, CHR ''n'']
      else if c = CHR 0x0D then [backslash, CHR ''r''] else if c = CHR 0x1A then [backslash, CHR ''Z'']
      else if special c then [backslash, c] else [c])"

definition demo_escape :: "string \<Rightarrow> string" where
  "demo_escape v = concat (map demo_escape_char v)"

lemma demo_escape_char_escapes: "escapes c (demo_escape_char c)"
  by (auto simp: escapes_def demo_escape_char_def unescaped_def special_def)

lemma demo_escape_documented: "escape_documented demo_escape"
  unfolding escape_documented_def
proof
  fix v
  have "list_all2 escapes v (map demo_escape_char v)"
    by (simp add: list_all2_map2 list_all2_refl demo_escape_char_escapes)
  then show "\<exists>ps. demo_escape v = concat ps \<and> list_all2 escapes v ps" unfolding demo_escape_def by blast
qed

definition attack :: string where
  "attack = ''x'' @ [quote] @ '' OR 1=1; DROP TABLE users; -- '' @ [backslash, CHR 0x00]"

text \<open>The text that is sent for the attack, and what the server makes of it.\<close>

theorem no_sql_injection_witness:
  "\<exists>ts. scan (c_str (sql_text demo_escape (statement_sql (UserByName attack)))) = Some ts \<and> Lit attack \<in> set ts"
  using no_sql_injection [OF demo_escape_documented, of "UserByName attack"]
  by (simp add: sql_tokens_def getUserByUsername_sql_def)

section \<open>The last connection\<close>

definition wrong_account :: PaymentFinalizeInput where
  "wrong_account = \<lparr>pf_payment_session_id = ''PS1'', pf_order_sn = ''O1'', pf_account_id = ''A9'',
     pf_buyer_id = ''U1'', pf_price = 100, pf_request_id = ''REQ1''\<rparr>"

lemma wrong_account_run: "fst (finalizePaymentSuccess L0 1100 wrong_account race_mysql) = Inr False"
  by code_simp


end
