(* ===== verification/PaymentVerdict.thy ===== *)
theory PaymentVerdict
  imports MySqlRefine
begin

text \<open>
  What \<open>finalizePaymentSuccess\<close> decides when nothing fails, as a list of requirements on the database:
  the first one that does not hold gives the answer and the reason that is recorded for the attempt.
  The requirements are statements about the tables, the code reads rows of texts inside a transaction;
  \<open>decides\<close> relates the two stage by stage.
\<close>

section \<open>Requirements\<close>

datatype verdict = Payable | Repeated | Unrecorded | Refused string

text \<open>A row with the key \<open>x\<close> has the property.\<close>

definition some_row :: "lib \<Rightarrow> ('r \<Rightarrow> string) \<Rightarrow> string \<Rightarrow> 'r list \<Rightarrow> ('r \<Rightarrow> bool) \<Rightarrow> bool" where
  "some_row L key x rs P \<longleftrightarrow> (\<exists>r\<in>set rs. col_eq L (key r) x \<and> P r)"

definition session_required :: "lib \<Rightarrow> PaymentFinalizeInput \<Rightarrow> db \<Rightarrow> (bool \<times> verdict) list" where
  "session_required L i d =
     (let session = some_row L s_payment_session_id (pf_payment_session_id i) (sessions d) in
      [(session (\<lambda>_. True), Refused ''SESSION_NOT_FOUND''),
       (session (\<lambda>s. s_order_sn s = pf_order_sn i \<and> s_account_id s = pf_account_id i \<and>
          s_buyer_id s = pf_buyer_id i), Refused ''SESSION_BINDING_MISMATCH''),
       (session (\<lambda>s. s_status s = session_code WaitingPay), Refused ''SESSION_NOT_PAYABLE'')])"

definition order_required :: "lib \<Rightarrow> PaymentFinalizeInput \<Rightarrow> db \<Rightarrow> (bool \<times> verdict) list" where
  "order_required L i d =
     (let order = some_row L o_order_sn (pf_order_sn i) (orders d) in
      [(order (\<lambda>_. True), Refused ''ORDER_NOT_FOUND''),
       (order (\<lambda>r. o_status r \<noteq> order_code OrderPaid), Refused ''ORDER_ALREADY_PAID''),
       (order (\<lambda>r. o_status r = order_code PendingPay), Refused ''ORDER_NOT_PAYABLE''),
       (order (\<lambda>r. o_account_id r = pf_account_id i \<and> o_buyer_id r = pf_buyer_id i \<and>
          o_price r = pf_price i), Refused ''ORDER_SNAPSHOT_MISMATCH'')])"

definition account_required :: "lib \<Rightarrow> PaymentFinalizeInput \<Rightarrow> db \<Rightarrow> (bool \<times> verdict) list" where
  "account_required L i d =
     (let account = some_row L a_account_id (pf_account_id i) (accounts d) in
      [(account (\<lambda>_. True), Refused ''ACCOUNT_NOT_FOUND''),
       (account (\<lambda>a. a_status a \<in> {account_code OnSale, account_code Trading}), Refused ''ACCOUNT_NOT_TRADABLE'')])"

definition attempt_required :: "lib \<Rightarrow> PaymentFinalizeInput \<Rightarrow> db \<Rightarrow> (bool \<times> verdict) list" where
  "attempt_required L i d =
     (let attempt = some_row L t_request_id (pf_request_id i) (attempts d) in
      [(attempt (\<lambda>_. True), Unrecorded),
       (attempt (\<lambda>t. t_result t \<noteq> attempt_code AttemptSuccess), Repeated),
       (attempt (\<lambda>t. t_result t \<noteq> attempt_code AttemptFailed), Unrecorded),
       (attempt (\<lambda>t. t_payment_session_id t = pf_payment_session_id i \<and> t_order_sn t = pf_order_sn i \<and>
          t_account_id t = pf_account_id i \<and> t_buyer_id t = pf_buyer_id i), Refused ''REQUEST_BINDING_MISMATCH'')])"

definition user_required :: "lib \<Rightarrow> PaymentFinalizeInput \<Rightarrow> db \<Rightarrow> (bool \<times> verdict) list" where
  "user_required L i d =
     (let user = some_row L u_user_id (pf_buyer_id i) (users d) in
      [(user (\<lambda>_. True), Refused ''USER_NOT_FOUND''),
       (user (\<lambda>u. u_status u = user_code UserNormal \<and> u_real_auth_completed u = 1 \<and>
          or_empty (u_email_hash u) \<noteq> [] \<and> or_empty (u_id_card_hash u) \<noteq> []), Refused ''USER_REAL_AUTH_INVALID'')])"

text \<open>The version of the account is an INT column; an attempt may have a result of no constructor.\<close>

definition update_required :: "lib \<Rightarrow> PaymentFinalizeInput \<Rightarrow> db \<Rightarrow> (bool \<times> verdict) list" where
  "update_required L i d =
     [(some_row L a_account_id (pf_account_id i) (accounts d) (\<lambda>a. sql_int (a_version a + 1)),
         Refused ''PAYMENT_INTERNAL_ERROR''),
      (some_row L t_request_id (pf_request_id i) (attempts d) (\<lambda>t. t_result t = attempt_code AttemptProcessing),
         Refused ''PAYMENT_STATE_UPDATE_FAILED'')]"

fun judge :: "(bool \<times> verdict) list \<Rightarrow> verdict" where
  "judge [] = Payable"
| "judge ((b, v) # qs) = (if b then judge qs else v)"

definition verdict_of :: "lib \<Rightarrow> PaymentFinalizeInput \<Rightarrow> db \<Rightarrow> verdict" where
  "verdict_of L i d = judge (session_required L i d @ order_required L i d @ account_required L i d @
     attempt_required L i d @ user_required L i d @ update_required L i d)"

text \<open>The answer, and the database afterwards.\<close>

fun answer_of :: "verdict \<Rightarrow> bool" where
  "answer_of Payable = True" | "answer_of Repeated = True" | "answer_of _ = False"

fun verdict_db :: "lib \<Rightarrow> int \<Rightarrow> PaymentFinalizeInput \<Rightarrow> verdict \<Rightarrow> db \<Rightarrow> db" where
  "verdict_db L now i Payable d = pay_db L now i d"
| "verdict_db L now i (Refused reason) d =
     d\<lparr>attempts := update_rows (\<lambda>t. col_eq L (t_request_id t) (pf_request_id i))
        (set_result now AttemptFailed reason) (attempts d)\<rparr>"
| "verdict_db L now i _ d = d"

lemma some_row_none: "\<forall>r\<in>set rs. \<not> col_eq L (key r) x \<Longrightarrow> \<not> some_row L key x rs P"
  by (auto simp: some_row_def)

lemma some_row_is:
  "unique_key L key rs \<Longrightarrow> r \<in> set rs \<Longrightarrow> col_eq L (key r) x \<Longrightarrow> some_row L key x rs P = P r"
  unfolding some_row_def by (metis unique_keyD)

section \<open>Runs without failures\<close>

text \<open>No failure is to come and a connection is idle.\<close>

definition ready :: "mysql \<Rightarrow> bool" where
  "ready w \<longleftrightarrow> m_events w = [] \<and> m_pings w = [] \<and> pl_initialized (m_pool w) \<and>
     \<not> pl_shutting_down (m_pool w) \<and> pl_idle (m_pool w) \<noteq> []"

lemma ready_event: "ready w \<Longrightarrow> next_event w = (Inr SqlOk, w)"
  by (simp add: ready_def next_event_def)

lemma ready_store [simp]: "ready (w\<lparr>m_db := d\<rparr>) = ready w" "ready (w\<lparr>m_txn := t\<rparr>) = ready w"
  by (simp_all add: ready_def)

lemma ready_execute:
  "ready w \<Longrightarrow> executeAffected st w =
     (case st (m_db w) of Inl err \<Rightarrow> (Inl (exec_failed err), w) | Inr (x, d) \<Rightarrow> (Inr x, w\<lparr>m_db := d\<rparr>))"
  by (simp add: executeAffected_def mbind_run ready_event split: sum.split)

lemma ready_acquire:
  "ready w \<Longrightarrow> my_acquire w = (Inr (hd (pl_idle (m_pool w))), w\<lparr>m_pool := pop_conn (m_pool w)\<rparr>)"
  by (auto simp: ready_def my_acquire_def run_simps next_ping_def split: list.splits)

lemma ready_rollback: "ready w \<Longrightarrow> rollback w = (Inr (), undo w)"
  by (simp add: rollback_def run_simps ready_event)

lemma ready_commit: "ready w \<Longrightarrow> commit w = (Inr (), w\<lparr>m_txn := None\<rparr>)"
  by (simp add: commit_def run_simps ready_event)

lemma ready_mark:
  assumes "ready w"
  shows "\<exists>w'. markAttemptFailedNoThrow L now (pf_request_id i) reason w = (Inr (), w') \<and>
    m_txn w' = m_txn w \<and> m_db w' = verdict_db L now i (Refused reason) (m_db w)"
proof -
  let ?w = "w\<lparr>m_pool := pop_conn (m_pool w)\<rparr>"
  have "next_event ?w = (Inr SqlOk, ?w)" using assms by (simp add: ready_def next_event_def)
  then show ?thesis
    by (simp add: markAttemptFailedNoThrow_def updatePaymentAttemptResult_def with_guard_def run_simps
        ready_acquire [OF assms] executeAffected_def update_attempt_def Let_def)
qed

section \<open>The stages decide by the requirements\<close>

text \<open>
  \<open>decides L now i d v k\<close>: inside the transaction opened on \<open>d\<close>, \<open>k\<close> ends it with the verdict \<open>v\<close>; an
  exception is left to the handler, which records it as an internal error.
\<close>

definition decides ::
    "lib \<Rightarrow> int \<Rightarrow> PaymentFinalizeInput \<Rightarrow> db \<Rightarrow> verdict \<Rightarrow> (mysql, bool) comp \<Rightarrow> bool" where
  "decides L now i d v k \<longleftrightarrow> (\<forall>w r w'. ready w \<longrightarrow> m_txn w = Some d \<longrightarrow> m_db w = d \<longrightarrow> k w = (r, w') \<longrightarrow>
     (case r of
        Inr b \<Rightarrow> b = answer_of v \<and> m_txn w' = None \<and> m_db w' = verdict_db L now i v d
      | Inl _ \<Rightarrow> v = Refused ''PAYMENT_INTERNAL_ERROR'' \<and> m_txn w' = Some d \<and> ready w'))"

lemma decidesI:
  assumes "\<And>w r w'. ready w \<Longrightarrow> m_txn w = Some d \<Longrightarrow> m_db w = d \<Longrightarrow> k w = (r, w') \<Longrightarrow> (case r of
        Inr b \<Rightarrow> b = answer_of v \<and> m_txn w' = None \<and> m_db w' = verdict_db L now i v d
      | Inl _ \<Rightarrow> v = Refused ''PAYMENT_INTERNAL_ERROR'' \<and> m_txn w' = Some d \<and> ready w')"
  shows "decides L now i d v k"
  using assms by (simp add: decides_def)

lemma ready_reject:
  assumes "ready w" and "m_txn w = Some d"
  shows "\<exists>w'. finalize_reject L now i reason w = (Inr False, w') \<and> m_txn w' = None \<and>
    m_db w' = verdict_db L now i (Refused reason) d"
proof -
  have u: "ready (undo w)" "m_txn (undo w) = None" "m_db (undo w) = d" using assms by (auto simp: undo_def)
  from ready_mark [OF u(1), of L now i reason] obtain w' where
    "markAttemptFailedNoThrow L now (pf_request_id i) reason (undo w) = (Inr (), w')"
    "m_txn w' = None" "m_db w' = verdict_db L now i (Refused reason) d" using u by auto
  then show ?thesis by (simp add: finalize_reject_def run_simps ready_rollback [OF assms(1)])
qed

lemma decides_reject: "decides L now i d (Refused reason) (finalize_reject L now i reason)"
proof (rule decidesI)
  fix w r w' assume "ready w" "m_txn w = Some d" "finalize_reject L now i reason w = (r, w')"
  with ready_reject [of w d L now i reason] show "case r of
      Inr b \<Rightarrow> b = answer_of (Refused reason) \<and> m_txn w' = None \<and> m_db w' = verdict_db L now i (Refused reason) d
    | Inl _ \<Rightarrow> Refused reason = Refused ''PAYMENT_INTERNAL_ERROR'' \<and> m_txn w' = Some d \<and> ready w'"
    by auto
qed

lemma decides_rollback: "decides L now i d Unrecorded (mbind rollback (\<lambda>_. mret False))"
  by (rule decidesI) (auto simp: run_simps ready_rollback undo_def)

lemma decides_commit: "decides L now i d Repeated (mbind commit (\<lambda>_. mret True))"
  by (rule decidesI) (auto simp: run_simps ready_commit)

lemma decides_query: "decides L now i d v (f (q d)) \<Longrightarrow> decides L now i d v (mbind (queryRows q) f)"
  by (auto simp: decides_def queryRows_def run_simps ready_event)

lemmas decides_ends = decides_reject decides_rollback decides_commit

lemma select_none: "select_all cols table p d = [] \<Longrightarrow> \<forall>r\<in>set (table d). \<not> p r"
  and select1_none: "select1 cols table p d = [] \<Longrightarrow> \<forall>r\<in>set (table d). \<not> p r"
  by (auto simp: select_all_def select1_def filter_empty_conv)

lemma keys_unique:
  assumes "db_ok L d"
  shows "unique_key L s_payment_session_id (sessions d)" "unique_key L o_order_sn (orders d)"
    "unique_key L a_account_id (accounts d)" "unique_key L t_request_id (attempts d)"
    "unique_key L u_user_id (users d)"
  using assms by (simp_all add: db_ok_def)

lemma decides_session:
  assumes ok: "db_ok L d" and k: "session_locked L i d \<Longrightarrow> decides L now i d (judge qs) k"
  shows "decides L now i d (judge (session_required L i d @ qs)) (finalize_session L now i k)"
  unfolding finalize_session_def
proof (rule decides_query, split list.split, intro conjI allI impI, goal_cases)
  case 1
  from select_none [OF this] show ?case
    by (simp add: session_required_def some_row_none decides_reject)
next
  case (2 row rows)
  show ?case
  proof (rule session_row_read [OF ok 2], goal_cases)
    case r: (1 r)
    show ?case
      unfolding session_required_def Let_def some_row_is [OF keys_unique(1) [OF ok] r(1,2)]
      using r by (auto intro!: decides_reject k simp: mlift_Inr session_locked_def pay_session_where_def)
  qed
qed

lemma decides_order:
  assumes ok: "db_ok L d" and k: "order_locked L i d \<Longrightarrow> decides L now i d (judge qs) k"
  shows "decides L now i d (judge (order_required L i d @ qs)) (finalize_order L now i k)"
  unfolding finalize_order_def
proof (rule decides_query, split list.split, intro conjI allI impI, goal_cases)
  case 1
  from select_none [OF this] show ?case
    by (simp add: order_required_def some_row_none decides_reject)
next
  case (2 row rows)
  show ?case
  proof (rule order_row_read [OF ok 2], goal_cases)
    case r: (1 r)
    show ?case
      unfolding order_required_def Let_def some_row_is [OF keys_unique(2) [OF ok] r(1,2)]
      using r by (auto intro!: decides_reject k simp: mlift_Inr order_locked_def pay_order_where_def)
  qed
qed

lemma decides_account:
  assumes ok: "db_ok L d" and k: "account_locked L i d \<Longrightarrow> decides L now i d (judge qs) k"
  shows "decides L now i d (judge (account_required L i d @ qs)) (finalize_account L now i k)"
  unfolding finalize_account_def
proof (rule decides_query, split list.split, intro conjI allI impI, goal_cases)
  case 1
  from select_none [OF this] show ?case
    by (simp add: account_required_def some_row_none decides_reject)
next
  case (2 row rows)
  show ?case
  proof (rule account_row_read [OF ok 2], goal_cases)
    case r: (1 r)
    show ?case
      unfolding account_required_def Let_def some_row_is [OF keys_unique(3) [OF ok] r(1,2)]
      using r by (auto intro!: decides_reject k simp: mlift_Inr account_locked_def pay_account_where_def)
  qed
qed

lemma decides_attempt:
  assumes ok: "db_ok L d" and k: "attempt_locked L i d \<Longrightarrow> decides L now i d (judge qs) k"
  shows "decides L now i d (judge (attempt_required L i d @ qs)) (finalize_attempt L now i k)"
  unfolding finalize_attempt_def
proof (rule decides_query, split list.split, intro conjI allI impI, goal_cases)
  case 1
  from select_none [OF this] show ?case
    by (simp add: attempt_required_def some_row_none decides_rollback)
next
  case (2 row rows)
  show ?case
  proof (rule attempt_row_read [OF ok 2], goal_cases)
    case r: (1 r)
    show ?case
      unfolding attempt_required_def Let_def some_row_is [OF keys_unique(4) [OF ok] r(1,2)]
      using r by (auto intro!: decides_ends k simp: mlift_Inr attempt_locked_def)
  qed
qed

lemma decides_user:
  assumes ok: "db_ok L d" and k: "user_verified L i d \<Longrightarrow> decides L now i d (judge qs) k"
  shows "decides L now i d (judge (user_required L i d @ qs)) (finalize_user L now i k)"
  unfolding finalize_user_def
proof (rule decides_query, split list.split, intro conjI allI impI, goal_cases)
  case 1
  from select1_none [OF this] show ?case
    by (simp add: user_required_def some_row_none decides_reject)
next
  case (2 row rows)
  show ?case
  proof (rule user_row_read [OF ok 2], goal_cases)
    case r: (1 r)
    show ?case
      unfolding user_required_def Let_def some_row_is [OF keys_unique(5) [OF ok] r(1,2)]
      using r by (auto intro!: decides_reject k simp: mlift_Inr user_verified_def)
  qed
qed

text \<open>With a locked row of each table the updates change one row each, if they succeed.\<close>

lemma pay_order_one:
  assumes "db_ok L d" and "order_locked L i d"
  shows "pay_order L now i d =
    Inr (1, d\<lparr>orders := update_rows (pay_order_where L i) (pay_order_set now) (orders d)\<rparr>)"
proof -
  obtain r where r: "r \<in> set (orders d)" "col_eq L (o_order_sn r) (pf_order_sn i)" "o_status r = 0"
    using assms(2) by (auto simp: order_locked_def pay_order_where_def)
  then have "pay_order_set now r \<noteq> r" by (auto simp: pay_order_set_def dest!: arg_cong [where f = o_status])
  with changed_unique [OF keys_unique(2) [OF assms(1)] r(1,2), of "\<lambda>r. o_status r = 0"] r show ?thesis
    by (simp add: pay_order_def pay_order_where_def [abs_def])
qed

lemma pay_session_one:
  assumes "db_ok L d" and "session_locked L i d"
  shows "pay_session L now i d =
    Inr (1, d\<lparr>sessions := update_rows (pay_session_where L i) (pay_session_set now) (sessions d)\<rparr>)"
proof -
  obtain s where s: "s \<in> set (sessions d)" "col_eq L (s_payment_session_id s) (pf_payment_session_id i)"
    "s_status s = 0" using assms(2) by (auto simp: session_locked_def pay_session_where_def)
  then have "pay_session_set now s \<noteq> s" by (auto simp: pay_session_set_def dest!: arg_cong [where f = s_status])
  with changed_unique [OF keys_unique(1) [OF assms(1)] s(1,2), of "\<lambda>s. s_status s = 0"] s show ?thesis
    by (simp add: pay_session_def pay_session_where_def [abs_def])
qed

lemma pay_account_one:
  assumes ok: "db_ok L d" and "account_locked L i d"
  shows "pay_account L now i d =
    (if some_row L a_account_id (pf_account_id i) (accounts d) (\<lambda>a. sql_int (a_version a + 1))
     then Inr (1, d\<lparr>accounts := update_rows (pay_account_where L i) (pay_account_set now) (accounts d)\<rparr>)
     else Inl (range_error L))"
proof -
  obtain a where a: "a \<in> set (accounts d)" "col_eq L (a_account_id a) (pf_account_id i)" "a_status a \<in> {0, 1}"
    using assms(2) by (auto simp: account_locked_def pay_account_where_def)
  then have "pay_account_set now a \<noteq> a" by (auto simp: pay_account_set_def dest!: arg_cong [where f = a_version])
  with changed_unique [OF keys_unique(3) [OF ok] a(1,2), of "\<lambda>a. a_status a \<in> {0, 1}"] a
  have "changed_rows (pay_account_where L i) (pay_account_set now) (accounts d) = 1"
    by (simp add: pay_account_where_def [abs_def])
  moreover have "b = a" if "b \<in> set (accounts d)" "pay_account_where L i b" for b
    using that by (intro unique_keyD [OF keys_unique(3) [OF ok] _ a(1) _ a(2)]) (simp_all add: pay_account_where_def)
  moreover have "pay_account_where L i a" using a by (simp add: pay_account_where_def)
  ultimately have one: "changed_rows (pay_account_where L i) (pay_account_set now) (accounts d) = 1"
    and "(\<exists>b\<in>set (accounts d). pay_account_where L i b \<and> \<not> sql_int (a_version b + 1)) \<longleftrightarrow>
      \<not> sql_int (a_version a + 1)"
    using a(1) by blast+
  then show ?thesis by (simp add: pay_account_def some_row_is [OF keys_unique(3) [OF ok] a(1,2)])
qed

lemma pay_attempt_one:
  assumes ok: "db_ok L d" and "attempt_locked L i d"
  shows "pay_attempt L now i d =
    Inr (if some_row L t_request_id (pf_request_id i) (attempts d) (\<lambda>t. t_result t = 0) then 1 else 0,
      d\<lparr>attempts := update_rows (pay_attempt_where L i) (pay_attempt_set now) (attempts d)\<rparr>)"
proof -
  obtain t where t: "t \<in> set (attempts d)" "col_eq L (t_request_id t) (pf_request_id i)"
    using assms(2) by (auto simp: attempt_locked_def)
  have "changed_rows (pay_attempt_where L i) (pay_attempt_set now) (attempts d) = (if t_result t = 0 then 1 else 0)"
  proof (cases "t_result t = 0")
    case True
    then have "pay_attempt_set now t \<noteq> t" by (auto simp: pay_attempt_set_def dest!: arg_cong [where f = t_result])
    with changed_unique [OF keys_unique(4) [OF ok] t, of "\<lambda>t. t_result t = 0"] True show ?thesis
      by (simp add: pay_attempt_where_def [abs_def])
  next
    case False
    have "b = t" if "b \<in> set (attempts d)" "pay_attempt_where L i b" for b
      using that by (intro unique_keyD [OF keys_unique(4) [OF ok] _ t(1) _ t(2)]) (simp_all add: pay_attempt_where_def)
    with False have "\<forall>b\<in>set (attempts d). \<not> pay_attempt_where L i b"
      unfolding pay_attempt_where_def by blast
    with False show ?thesis by (simp add: changed_rows_none)
  qed
  then show ?thesis by (simp add: pay_attempt_def some_row_is [OF keys_unique(4) [OF ok] t])
qed

text \<open>An update of one table leaves the others alone.\<close>

lemma pay_frames:
  "pay_account L now i (d\<lparr>orders := x\<rparr>) = map_sum id (map_prod id (\<lambda>d. d\<lparr>orders := x\<rparr>)) (pay_account L now i d)"
  "pay_session L now i (d\<lparr>accounts := y, orders := x\<rparr>) =
     map_sum id (map_prod id (\<lambda>d. d\<lparr>accounts := y, orders := x\<rparr>)) (pay_session L now i d)"
  "pay_attempt L now i (d\<lparr>sessions := z, accounts := y, orders := x\<rparr>) =
     map_sum id (map_prod id (\<lambda>d. d\<lparr>sessions := z, accounts := y, orders := x\<rparr>)) (pay_attempt L now i d)"
  by (simp_all add: pay_account_def pay_session_def pay_attempt_def)

lemma decides_update:
  assumes ok: "db_ok L d"
    and locked: "session_locked L i d" "order_locked L i d" "account_locked L i d" "attempt_locked L i d"
  shows "decides L now i d (judge (update_required L i d)) (finalize_update L now i)"
proof (rule decidesI)
  fix w r w'
  assume w: "ready w" "m_txn w = Some d" "m_db w = d" and run: "finalize_update L now i w = (r, w')"
  let ?room = "some_row L a_account_id (pf_account_id i) (accounts d) (\<lambda>a. sql_int (a_version a + 1))"
  let ?fresh = "some_row L t_request_id (pf_request_id i) (attempts d) (\<lambda>t. t_result t = 0)"
  have final: "d\<lparr>attempts := update_rows (pay_attempt_where L i) (pay_attempt_set now) (attempts d),
      sessions := update_rows (pay_session_where L i) (pay_session_set now) (sessions d),
      accounts := update_rows (pay_account_where L i) (pay_account_set now) (accounts d),
      orders := update_rows (pay_order_where L i) (pay_order_set now) (orders d)\<rparr> = pay_db L now i d"
    by (simp add: pay_db_def)
  note steps = finalize_update_def mbind_run ready_execute w pay_order_one [OF ok locked(2)]
    final pay_frames pay_account_one [OF ok locked(3)] pay_session_one [OF ok locked(1)] pay_attempt_one [OF ok locked(4)]
  consider "\<not> ?room" | "?room" "\<not> ?fresh" | "?room" "?fresh" by blast
  then show "case r of
      Inr b \<Rightarrow> b = answer_of (judge (update_required L i d)) \<and> m_txn w' = None \<and>
        m_db w' = verdict_db L now i (judge (update_required L i d)) d
    | Inl _ \<Rightarrow> judge (update_required L i d) = Refused ''PAYMENT_INTERNAL_ERROR'' \<and> m_txn w' = Some d \<and> ready w'"
  proof cases
    case 1
    with run w show ?thesis by (auto simp: steps update_required_def)
  next
    case 2
    let ?d4 = "pay_db L now i d"
    from 2 run have "finalize_reject L now i ''PAYMENT_STATE_UPDATE_FAILED'' (w\<lparr>m_db := ?d4\<rparr>) = (r, w')"
      by (simp add: steps)
    with ready_reject [of "w\<lparr>m_db := ?d4\<rparr>" d L now i "''PAYMENT_STATE_UPDATE_FAILED''"] 2 w show ?thesis
      by (auto simp: update_required_def)
  next
    case 3
    let ?d4 = "pay_db L now i d"
    from 3 run have "mbind commit (\<lambda>_. mret True) (w\<lparr>m_db := ?d4\<rparr>) = (r, w')"
      by (simp add: steps)
    with 3 w show ?thesis by (auto simp: update_required_def run_simps ready_commit)
  qed
qed

lemma decides_body:
  assumes ok: "db_ok L d"
  shows "decides L now i d (verdict_of L i d) (finalize_session L now i (finalize_order L now i (finalize_account L now i
    (finalize_attempt L now i (finalize_user L now i (finalize_update L now i))))))"
  unfolding verdict_of_def
  by (intro decides_session decides_order decides_account decides_attempt decides_user decides_update ok)

section \<open>The decision of the whole transaction\<close>

lemma finalize_by_verdict:
  assumes ok: "db_ok L (m_db w)" and txn: "m_txn w = None"
    and calm: "m_events w = []" "m_pings w = []"
    and pool: "pl_initialized (m_pool w)" "\<not> pl_shutting_down (m_pool w)" "2 \<le> length (pl_idle (m_pool w))"
  shows "\<exists>w'. finalizePaymentSuccess L now i w = (Inr (answer_of (verdict_of L i (m_db w))), w') \<and>
    m_txn w' = None \<and> m_db w' = verdict_db L now i (verdict_of L i (m_db w)) (m_db w)"
proof -
  let ?d = "m_db w" and ?v = "verdict_of L i (m_db w)"
  let ?w1 = "w\<lparr>m_pool := pop_conn (m_pool w)\<rparr>"
  obtain c c' cs where idle: "pl_idle (m_pool w) = c # c' # cs"
    using pool(3) by (auto simp: Suc_le_length_iff numeral_2_eq_2)
  have acq: "my_acquire w = (Inr c, ?w1)"
    using calm pool idle by (subst ready_acquire) (simp_all add: ready_def)
  have r1: "ready ?w1" using calm pool idle by (simp add: ready_def pop_conn_def)
  let ?w2 = "?w1\<lparr>m_txn := Some ?d\<rparr>"
  let ?k = "finalize_session L now i (finalize_order L now i (finalize_account L now i
    (finalize_attempt L now i (finalize_user L now i (finalize_update L now i)))))"
  obtain r w3 where k: "?k ?w2 = (r, w3)" by force
  have body: "finalize_body L now i ?w1 = (r, w3)"
    using k by (simp add: finalize_body_def begin_txn_def run_simps ready_event [OF r1])
  note dec = decides_body [OF ok, of now i, unfolded decides_def, rule_format, OF _ _ _ k]
  have "\<exists>w4. mcatch (finalize_body L now i) (\<lambda>_. finalize_reject L now i ''PAYMENT_INTERNAL_ERROR'') ?w1 =
      (Inr (answer_of ?v), w4) \<and> m_txn w4 = None \<and> m_db w4 = verdict_db L now i ?v ?d"
  proof (cases r)
    case (Inl e)
    with dec r1 have "?v = Refused ''PAYMENT_INTERNAL_ERROR''" "m_txn w3 = Some ?d" "ready w3" by auto
    with ready_reject [of w3 ?d L now i "''PAYMENT_INTERNAL_ERROR''"] body Inl show ?thesis
      by (auto simp: mcatch_run)
  next
    case (Inr b)
    with dec r1 body show ?thesis by (auto simp: mcatch_run)
  qed
  with acq show ?thesis by (auto simp: finalizePaymentSuccess_def with_guard_def mbind_run mfinally_run)
qed


end
