(* ===== verification/FinalizeTests.thy ===== *)
theory FinalizeTests
  imports PaymentVerdict Demo
begin

text \<open>
  The tests of \<open>finalizePaymentSuccess\<close> (backend/tests/test_payment_finalize.cpp) on the model: the seeds are
  the tests', the expectations too. They follow from the decision of the transaction, for every suffix of
  the identifiers, so the model agrees with the tests of the repository.
\<close>

text \<open>\<open>SeedOptions\<close> and \<open>seedPending\<close>; a suffix is appended to every identifier.\<close>

record SeedOptions =
  opt_order_status :: int
  opt_account_status :: int
  opt_session_status :: int
  opt_attempt_result :: int
  opt_real_auth_completed :: int
  opt_user_status :: int

definition seed_options :: SeedOptions where
  "seed_options = \<lparr>opt_order_status = order_code PendingPay, opt_account_status = account_code OnSale,
     opt_session_status = session_code WaitingPay, opt_attempt_result = attempt_code AttemptProcessing,
     opt_real_auth_completed = 1, opt_user_status = user_code UserNormal\<rparr>"

definition seed_input :: "string \<Rightarrow> PaymentFinalizeInput" where
  "seed_input suffix = \<lparr>pf_payment_session_id = ''PSTEST'' @ suffix, pf_order_sn = ''ORDTEST'' @ suffix,
     pf_account_id = ''ACCTEST'' @ suffix, pf_buyer_id = ''USRTEST'' @ suffix, pf_price = 9900,
     pf_request_id = ''REQTEST'' @ suffix\<rparr>"

definition seed_attempt :: "PaymentFinalizeInput \<Rightarrow> int \<Rightarrow> int \<Rightarrow> attempt_row" where
  "seed_attempt i n res = \<lparr>t_id = n, t_request_id = pf_request_id i,
     t_payment_session_id = pf_payment_session_id i, t_order_sn = pf_order_sn i, t_account_id = pf_account_id i,
     t_buyer_id = pf_buyer_id i, t_result = res, t_fail_reason = None, t_client_ip = None, t_user_agent = None,
     t_created_at = 0, t_updated_at = 0\<rparr>"

definition seedPending :: "string \<Rightarrow> SeedOptions \<Rightarrow> db" where
  "seedPending suffix opt = (let i = seed_input suffix in
     \<lparr>users = [\<lparr>u_id = 1, u_user_id = pf_buyer_id i, u_username = ''testuser'' @ suffix,
        u_password_hash = replicate 64 CHR ''0'', u_email_hash = Some (replicate 64 CHR ''a''),
        u_email_masked = Some ''tes****@example.com'', u_id_card_hash = Some (replicate 64 CHR ''b''),
        u_id_card_masked = Some ''440300********1234'', u_real_auth_completed = opt_real_auth_completed opt,
        u_user_type = 0, u_status = opt_user_status opt, u_last_login_at = 0, u_created_at = 0\<rparr>],
      accounts = [\<lparr>a_id = 1, a_account_id = pf_account_id i, a_seller_id = pf_buyer_id i,
        a_game_name = utf8 [231, 142, 139, 232, 128, 133, 232, 141, 163, 232, 128, 128],
        a_server_area = utf8 [229, 190, 174, 228, 191, 161, 229, 140, 186], a_price = 9900,
        a_account_level = 30, a_hero_count = 50, a_skin_count = 80,
        a_rare_items = ''[]'', a_status = opt_account_status opt, a_version = 0, a_created_at = 0,
        a_updated_at = 0\<rparr>],
      orders = [\<lparr>o_id = 1, o_order_sn = pf_order_sn i, o_account_id = pf_account_id i, o_buyer_id = pf_buyer_id i,
        o_price = 9900, o_buyer_email = ''buyer@example.com'', o_buyer_id_card_hash = replicate 64 CHR ''c'',
        o_buyer_id_card_masked = ''440300********5678'', o_status = opt_order_status opt, o_create_time = 0,
        o_paid_at = None, o_update_time = 0\<rparr>],
      sessions = [\<lparr>s_id = 1, s_payment_session_id = pf_payment_session_id i, s_order_sn = pf_order_sn i,
        s_account_id = pf_account_id i, s_buyer_id = pf_buyer_id i, s_buyer_email = ''buyer@example.com'',
        s_status = opt_session_status opt, s_expire_at = 600, s_created_at = 0, s_updated_at = 0\<rparr>],
      attempts = [seed_attempt i 1 (opt_attempt_result opt)], session_seq = 2, attempt_seq = 2\<rparr>)"

definition test_mysql :: "db \<Rightarrow> mysql" where
  "test_mysql d = (demo_mysql [])\<lparr>m_db := d\<rparr>"

text \<open>What the tests look at: the answer, and the states of the four rows.\<close>

definition test_run :: "lib \<Rightarrow> PaymentFinalizeInput \<Rightarrow> db \<Rightarrow> (exn + bool) \<times> db" where
  "test_run L i d = (case finalizePaymentSuccess L 0 i (test_mysql d) of (r, w) \<Rightarrow> (r, m_db w))"

definition test_states :: "db \<Rightarrow> int list \<times> (string \<times> int \<times> string) list" where
  "test_states d = (map o_status (orders d) @ map a_status (accounts d) @ map s_status (sessions d),
     map (\<lambda>t. (t_request_id t, t_result t, or_empty (t_fail_reason t))) (attempts d))"

definition test_case :: "lib \<Rightarrow> PaymentFinalizeInput \<Rightarrow> db \<Rightarrow> bool \<Rightarrow> int list \<Rightarrow> (string \<times> int \<times> string) list \<Rightarrow> bool" where
  "test_case L i d answer states attempt_states \<longleftrightarrow>
     apsnd test_states (test_run L i d) = (Inr answer, states, attempt_states)"

section \<open>The seeds are decided by their options\<close>

lemma test_run_verdict:
  assumes "db_ok L d"
  shows "test_run L i d = (Inr (answer_of (verdict_of L i d)), verdict_db L 0 i (verdict_of L i d) d)"
proof -
  have w: "m_db (test_mysql d) = d" "m_txn (test_mysql d) = None" "m_events (test_mysql d) = []"
    "m_pings (test_mysql d) = []" "m_pool (test_mysql d) = demo_pool"
    by (simp_all add: test_mysql_def demo_mysql_def)
  have "pl_initialized demo_pool" "\<not> pl_shutting_down demo_pool" "2 \<le> length (pl_idle demo_pool)"
    by (simp_all add: demo_pool_def)
  with finalize_by_verdict [of L "test_mysql d" 0 i] w assms show ?thesis by (auto simp: test_run_def)
qed

definition options_ok :: "SeedOptions \<Rightarrow> bool" where
  "options_ok opt \<longleftrightarrow> list_all tinyint [opt_order_status opt, opt_account_status opt, opt_session_status opt,
     opt_attempt_result opt, opt_real_auth_completed opt, opt_user_status opt]"

lemmas seed_defs = seedPending_def seed_input_def seed_attempt_def seed_options_def options_ok_def

lemmas row_oks = user_row_ok_def account_row_ok_def order_row_ok_def session_row_ok_def attempt_row_ok_def
  bigint_def sql_int_def tinyint_def LLONG_MIN_def LLONG_MAX_def INT_MIN_def INT_MAX_def

lemma seed_db_ok: "options_ok opt \<Longrightarrow> db_ok L (seedPending suffix opt)"
  by (auto simp: db_ok_def seed_defs Let_def row_oks unique_key_def unique_col_def List.map_filter_def)

lemmas verdict_simps = verdict_of_def session_required_def order_required_def account_required_def
  attempt_required_def user_required_def update_required_def some_row_def Let_def

lemma test_caseI:
  "db_ok L d \<Longrightarrow> verdict_of L i d = v \<Longrightarrow> answer_of v = answer \<Longrightarrow>
     test_states (verdict_db L 0 i v d) = (states, attempt_states) \<Longrightarrow> test_case L i d answer states attempt_states"
  by (simp add: test_case_def test_run_verdict)

lemma seed_case:
  "options_ok opt \<Longrightarrow> verdict_of L i (seedPending x opt) = v \<Longrightarrow> answer_of v = answer \<Longrightarrow>
     test_states (verdict_db L 0 i v (seedPending x opt)) = (states, attempt_states) \<Longrightarrow>
     test_case L i (seedPending x opt) answer states attempt_states"
  by (rule test_caseI) (rule seed_db_ok)

lemmas effect_simps = test_states_def pay_order_where_def pay_order_set_def pay_account_where_def
  pay_account_set_def pay_session_where_def pay_session_set_def pay_attempt_where_def pay_attempt_set_def
  set_result_def nullableString_def or_empty_def

lemmas seed_simps = verdict_simps effect_simps seed_defs row_oks

section \<open>The tests\<close>

text \<open>
  The names of the tests are those of the file; they hold for every suffix and every collation, except
  that the request with a second identifier needs one in which the two identifiers differ.
\<close>

lemma FinalizePaymentSuccessUpdatesAllStates:
  "test_case L (seed_input x) (seedPending x seed_options)
     True [1, 2, 1] [(''REQTEST'' @ x, 1, [])]"
  by (rule seed_case [where v = "Payable"]) (simp_all add: seed_simps)

lemma FinalizeSucceedsWhenAccountIsTrading:
  "test_case L (seed_input x) (seedPending x (seed_options\<lparr>opt_account_status := account_code Trading\<rparr>))
     True [1, 2, 1] [(''REQTEST'' @ x, 1, [])]"
  by (rule seed_case [where v = "Payable"]) (simp_all add: seed_simps)

lemma RejectsOrderAlreadyPaid:
  "test_case L (seed_input x) (seedPending x (seed_options\<lparr>opt_order_status := order_code OrderPaid\<rparr>))
     False [1, 0, 0] [(''REQTEST'' @ x, 2, ''ORDER_ALREADY_PAID'')]"
  by (rule seed_case [where v = "Refused ''ORDER_ALREADY_PAID''"]) (simp_all add: seed_simps)

lemma RejectsSessionBindingMismatch:
  "test_case L ((seed_input x)\<lparr>pf_order_sn := ''ORD_WRONG_BINDING''\<rparr>) (seedPending x seed_options)
     False [0, 0, 0] [(''REQTEST'' @ x, 2, ''SESSION_BINDING_MISMATCH'')]"
  by (rule seed_case [where v = "Refused ''SESSION_BINDING_MISMATCH''"]) (simp_all add: seed_simps)

lemma RejectsSessionNotPayable:
  "test_case L (seed_input x) (seedPending x (seed_options\<lparr>opt_session_status := session_code SessionExpired\<rparr>))
     False [0, 0, 3] [(''REQTEST'' @ x, 2, ''SESSION_NOT_PAYABLE'')]"
  by (rule seed_case [where v = "Refused ''SESSION_NOT_PAYABLE''"]) (simp_all add: seed_simps)

lemma RejectsOrderSnapshotMismatch:
  "test_case L ((seed_input x)\<lparr>pf_price := 9901\<rparr>) (seedPending x seed_options)
     False [0, 0, 0] [(''REQTEST'' @ x, 2, ''ORDER_SNAPSHOT_MISMATCH'')]"
  by (rule seed_case [where v = "Refused ''ORDER_SNAPSHOT_MISMATCH''"]) (simp_all add: seed_simps)

lemma RejectsAccountNotTradable:
  "test_case L (seed_input x) (seedPending x (seed_options\<lparr>opt_account_status := account_code Sold\<rparr>))
     False [0, 2, 0] [(''REQTEST'' @ x, 2, ''ACCOUNT_NOT_TRADABLE'')]"
  by (rule seed_case [where v = "Refused ''ACCOUNT_NOT_TRADABLE''"]) (simp_all add: seed_simps)

lemma RejectsUserWithoutRealAuth:
  "test_case L (seed_input x) (seedPending x (seed_options\<lparr>opt_real_auth_completed := 0\<rparr>))
     False [0, 0, 0] [(''REQTEST'' @ x, 2, ''USER_REAL_AUTH_INVALID'')]"
  by (rule seed_case [where v = "Refused ''USER_REAL_AUTH_INVALID''"]) (simp_all add: seed_simps)

lemma RejectsAlreadyFailedAttempt:
  "test_case L (seed_input x) (seedPending x (seed_options\<lparr>opt_attempt_result := attempt_code AttemptFailed\<rparr>))
     False [0, 0, 0] [(''REQTEST'' @ x, 2, [])]"
  by (rule seed_case [where v = "Unrecorded"]) (simp_all add: seed_simps)

text \<open>The two tests that pay twice: the database after the first payment.\<close>

definition seed_paid :: "lib \<Rightarrow> string \<Rightarrow> db" where
  "seed_paid L x = snd (test_run L (seed_input x) (seedPending x seed_options))"

lemma seed_verdict: "verdict_of L (seed_input x) (seedPending x seed_options) = Payable"
  by (simp add: seed_simps)

lemma seed_paid_is: "seed_paid L x = pay_db L 0 (seed_input x) (seedPending x seed_options)"
  using seed_verdict [of L x] seed_db_ok [of seed_options L x]
  by (simp add: seed_paid_def test_run_verdict seed_options_def options_ok_def tinyint_def)

lemma seed_paid_ok: "db_ok L (seed_paid L x)"
proof -
  have "db_ok L (seedPending x seed_options)"
    by (rule seed_db_ok) (simp add: seed_options_def options_ok_def tinyint_def)
  moreover have "can_pay L (seed_input x) (seedPending x seed_options)"
    by (simp add: can_pay_def seed_simps)
  ultimately show ?thesis unfolding seed_paid_is by (rule pay_keeps_ok)
qed

text \<open>One request twice: the test expects that the recorded success is overwritten.\<close>

lemma DuplicateFinalizeWithSameRequestIdIsRejectedAfterSuccess:
  "test_case L (seed_input x) (seed_paid L x)
     False [1, 2, 1] [(''REQTEST'' @ x, 2, ''SESSION_NOT_PAYABLE'')]"
  by (rule test_caseI [where v = "Refused ''SESSION_NOT_PAYABLE''"], rule seed_paid_ok)
     (simp_all add: seed_paid_is seed_simps)

definition second_input :: "string \<Rightarrow> PaymentFinalizeInput" where
  "second_input x = (seed_input x)\<lparr>pf_request_id := ''REQTEST'' @ x @ ''B''\<rparr>"

definition second_db :: "lib \<Rightarrow> string \<Rightarrow> db" where
  "second_db L x = (seed_paid L x)\<lparr>attempts := attempts (seed_paid L x) @ [seed_attempt (second_input x) 2 0]\<rparr>"

lemma second_db_ok:
  assumes "\<not> col_eq L (''REQTEST'' @ x) (''REQTEST'' @ x @ ''B'')"
  shows "db_ok L (second_db L x)"
proof -
  have "unique_key L t_request_id (attempts (second_db L x))"
    using assms by (simp add: second_db_def seed_paid_is second_input_def seed_simps unique_key_def col_eq_def)
  moreover have "list_all attempt_row_ok (attempts (second_db L x))"
    by (simp add: second_db_def seed_paid_is second_input_def seed_simps)
  ultimately show ?thesis using seed_paid_ok [of L x] by (simp add: db_ok_def second_db_def)
qed

lemma RejectsRepayAfterAlreadyPaid:
  assumes "\<not> col_eq L (''REQTEST'' @ x) (''REQTEST'' @ x @ ''B'')"
  shows "test_case L (second_input x) (second_db L x) False [1, 2, 1]
    [(''REQTEST'' @ x, 1, []), (''REQTEST'' @ x @ ''B'', 2, ''SESSION_NOT_PAYABLE'')]"
  using assms
  by (intro test_caseI [where v = "Refused ''SESSION_NOT_PAYABLE''"] second_db_ok)
     (simp_all add: second_db_def second_input_def seed_paid_is seed_simps)

section \<open>The theorem applied to a seed\<close>

abbreviation wrong_price :: PaymentFinalizeInput where
  "wrong_price \<equiv> (seed_input ''PRICEMIS01'')\<lparr>pf_price := 9901\<rparr>"

abbreviation price_db :: db where
  "price_db \<equiv> seedPending ''PRICEMIS01'' seed_options"

lemma price_verdict: "verdict_of L wrong_price price_db = Refused ''ORDER_SNAPSHOT_MISMATCH''"
  by (simp add: seed_simps)


end
