(* ===== verification/Copies.thy ===== *)
theory Copies
  imports GatewayConfig HttpText Password Logger HttpServer SocketClient BackendMain
begin

text \<open>
  Code that the repository holds twice. The gateway has its own copies of the configuration, the logger, the
  HTTP server, the worker pool and the HTTP helpers, and backend/common/jwt.hpp repeats helpers of
  backend/common/password_verifier.hpp. The other theories use one model for both; here the second text is
  translated by itself, and the collection \<open>same_code\<close> says that it is the same function.
\<close>

named_theorems same_code \<open>the copies are the functions they are copies of\<close>

section \<open>gateway/common/config.hpp\<close>

text \<open>\<open>find_first_not_of\<close> and \<open>find_last_not_of\<close> as positions.\<close>

definition find_first_not_blank :: "string \<Rightarrow> nat option" where
  "find_first_not_blank s = (if list_all is_blank s then None else Some (length (takeWhile is_blank s)))"

definition find_last_not_blank :: "string \<Rightarrow> nat option" where
  "find_last_not_blank s =
     (if list_all is_blank s then None else Some (length s - 1 - length (takeWhile is_blank (rev s))))"

definition substr :: "string \<Rightarrow> nat \<Rightarrow> nat \<Rightarrow> string" where
  "substr s pos n = take n (drop pos s)"

definition gw_trim :: "string \<Rightarrow> string" where
  "gw_trim input = (case find_first_not_blank input of
      None \<Rightarrow> []
    | Some start \<Rightarrow> (case find_last_not_blank input of
        None \<Rightarrow> []
      | Some last_pos \<Rightarrow> substr input start (last_pos - start + 1)))"

lemma gw_trim_same [same_code]: "gw_trim = trim"
proof
  fix s
  let ?lead = "takeWhile is_blank s" and ?core = "dropWhile is_blank s"
  show "gw_trim s = trim s"
  proof (cases "list_all is_blank s")
    case True
    then have core: "?core = []" by (metis dropWhile_eq_Nil_conv list_all_iff)
    have "gw_trim s = []" using True by (simp add: gw_trim_def find_first_not_blank_def)
    then show ?thesis unfolding trim_def core by simp
  next
    case False
    let ?t = "length (takeWhile is_blank (rev s))"
    have ne: "?core \<noteq> []" using False by (auto simp: dropWhile_eq_Nil_conv list_all_iff)
    have s: "s = ?lead @ ?core" by simp
    from ne have nb: "\<exists>c\<in>set (rev ?core). \<not> is_blank c"
      by (metis dropWhile_eq_Nil_conv dropWhile_idem set_rev)
    then have "takeWhile is_blank (rev ?core @ rev ?lead) = takeWhile is_blank (rev ?core)"
      by (metis takeWhile_append1)
    then have t: "takeWhile is_blank (rev s) = takeWhile is_blank (rev ?core)" by (metis rev_append s)
    have "length (takeWhile is_blank (rev ?core)) < length (rev ?core)"
      using nb by (metis length_takeWhile_le linorder_le_less_linear order_antisym set_takeWhileD takeWhile_eq_take take_all)
    then have lt: "?t < length ?core" using t by simp
    have len: "length s = length ?lead + length ?core" by (metis length_append s)
    have n: "length s - 1 - ?t - length ?lead + 1 = length ?core - ?t" using lt len by simp
    have "drop (length ?lead) s = ?core" by (metis append_eq_conv_conj s)
    then have "gw_trim s = take (length ?core - ?t) ?core"
      using False n by (simp add: gw_trim_def find_first_not_blank_def find_last_not_blank_def substr_def)
    also have "\<dots> = rev (drop ?t (rev ?core))" by (simp add: rev_drop)
    also have "drop ?t (rev ?core) = dropWhile is_blank (rev ?core)" using t by (metis dropWhile_eq_drop)
    finally show ?thesis by (simp add: trim_def)
  qed
qed

text \<open>The loop over the characters.\<close>

fun gw_stripInlineComment :: "string \<Rightarrow> string" where
  "gw_stripInlineComment [] = []"
| "gw_stripInlineComment (c # cs) = (if c = CHR ''#'' then [] else c # gw_stripInlineComment cs)"

lemma gw_stripInlineComment_same [same_code]: "gw_stripInlineComment = stripInlineComment"
proof
  fix s show "gw_stripInlineComment s = stripInlineComment s"
    by (induction s) (auto simp: stripInlineComment_def split: option.splits)
qed

definition gw_load_line :: "string \<Rightarrow> (values, unit) comp" where
  "gw_load_line raw =
     (let line = gw_trim raw
      in if line = [] \<or> line ! 0 = CHR ''#'' then mret ()
         else
           let pos = length (takeWhile (\<lambda>c. c \<noteq> CHR ''='' \<and> c \<noteq> CHR '':'') line)
           in if pos = length line then mthrow (ConfigException (M_cfg_invalid @ line))
              else
                let key = gw_trim (take pos line);
                    value = gw_trim (gw_stripInlineComment (gw_trim (drop (pos + 1) line)))
                in if key \<noteq> []
                   then mbind (mread (\<lambda>vals. vals key)) (\<lambda>found.
                     if found = None then mmodify (\<lambda>vals. vals(key \<mapsto> value))
                     else mthrow (ConfigException (M_cfg_duplicate @ key)))
                   else mthrow (ConfigException (M_cfg_invalid @ line)))"

lemma gw_load_line_same [same_code]: "gw_load_line = load_line"
proof
  fix raw
  define line where "line = trim raw"
  let ?P = "\<lambda>c. c \<noteq> CHR ''='' \<and> c \<noteq> CHR '':''"
  define a where "a = takeWhile ?P line"
  define b where "b = dropWhile ?P line"
  have line: "line = a @ b" by (simp add: a_def b_def)
  have sep: "(\<lambda>c. \<not> is_separator c) = ?P" by (auto simp: is_separator_def)
  have parts: "take (length a) line = a" "drop (length a + 1) line = tl b" "length a = length line \<longleftrightarrow> b = []"
    by (simp_all add: line drop_Suc)
  have first: "line \<noteq> [] \<Longrightarrow> line ! 0 = hd line" by (cases line) simp_all
  note unf = gw_load_line_def load_line_def gw_trim_same gw_stripInlineComment_same Let_def line_def [symmetric] sep
    a_def [symmetric] b_def [symmetric]
  show "gw_load_line raw = load_line raw"
  proof (cases b)
    case Nil
    with first parts(3) show ?thesis unfolding unf by auto
  next
    case (Cons c rest)
    with parts have rest: "drop (length a + 1) line = rest" "length a \<noteq> length line" by simp_all
    show ?thesis unfolding unf parts(1) rest(1) using first rest(2) Cons by auto
  qed
qed

fun gw_load_lines :: "string list \<Rightarrow> (values, unit) comp" where
  "gw_load_lines [] = mret ()"
| "gw_load_lines (l # ls) = mbind (gw_load_line l) (\<lambda>_. gw_load_lines ls)"

lemma gw_load_lines_same [same_code]: "gw_load_lines = load_lines"
proof
  fix ls show "gw_load_lines ls = load_lines ls" by (induction ls) (simp_all add: gw_load_line_same)
qed

definition gw_loadFromEnvFile :: "string \<Rightarrow> string option \<Rightarrow> (values, unit) comp" where
  "gw_loadFromEnvFile filepath file = (case file of
      None \<Rightarrow> mthrow (ConfigException (M_cfg_open @ filepath))
    | Some content \<Rightarrow> gw_load_lines (getlines content))"

definition gw_findString :: "values \<Rightarrow> string \<Rightarrow> string option" where
  "gw_findString vals key = vals key"

definition gw_requireString :: "values \<Rightarrow> string \<Rightarrow> exn + string" where
  "gw_requireString vals key =
     (if gw_findString vals key = None \<or> gw_findString vals key = Some [] then Inl (ConfigException (M_cfg_missing @ key))
      else Inr (the (gw_findString vals key)))"

text \<open>The exceptions of \<open>stoi\<close> and the one for trailing characters are caught by \<open>catch (...)\<close>.\<close>

definition gw_requireInt :: "values \<Rightarrow> string \<Rightarrow> exn + int" where
  "gw_requireInt vals key =
     (if gw_findString vals key = None \<or> gw_findString vals key = Some [] then Inl (ConfigException (M_cfg_missing @ key))
      else let text_value = the (gw_findString vals key)
        in (case stoi text_value of
             Inr (parsed, idx) \<Rightarrow>
               if idx = length text_value then Inr parsed else Inl (ConfigException (M_cfg_bad_int @ key))
           | Inl _ \<Rightarrow> Inl (ConfigException (M_cfg_bad_int @ key))))"

definition gw_requireBool :: "values \<Rightarrow> string \<Rightarrow> exn + bool" where
  "gw_requireBool vals key =
     (if gw_findString vals key = None \<or> gw_findString vals key = Some [] then Inl (ConfigException (M_cfg_missing @ key))
      else let v = map tolower (the (gw_findString vals key))
        in if v \<in> set [''true'', ''1'', ''yes'', ''on''] then Inr True
           else if v \<in> set [''false'', ''0'', ''no'', ''off''] then Inr False
           else Inl (ConfigException (M_cfg_bad_bool @ key)))"

definition gw_requirePositive :: "string \<Rightarrow> int \<Rightarrow> exn + unit" where
  "gw_requirePositive key v = (if 0 < v then Inr () else Inl (ConfigException (key @ M_cfg_positive)))"

lemma gw_accessors_same [same_code]:
  "gw_loadFromEnvFile = loadFromEnvFile" "gw_findString = findString" "gw_requireString = requireString"
  "gw_requireInt = requireInt" "gw_requireBool = requireBool" "gw_requirePositive = requirePositive"
  by (auto simp: fun_eq_iff gw_loadFromEnvFile_def loadFromEnvFile_def gw_load_lines_same gw_findString_def findString_def
      gw_requireString_def requireString_def gw_requireInt_def requireInt_def gw_requireBool_def requireBool_def
      gw_requirePositive_def requirePositive_def Let_def split: option.splits sum.splits)

definition gw_logger_cfg :: "values \<Rightarrow> exn + LoggerConfig" where
  "gw_logger_cfg v =
     ebind (gw_requireString v ''LOG_FILE'') (\<lambda>file.
     ebind (gw_requireInt v ''LOG_MAX_FILE_SIZE'') (\<lambda>size.
     ebind (gw_requireInt v ''LOG_MAX_FILES'') (\<lambda>files.
     ebind (gw_requireBool v ''LOG_CONSOLE_ENABLED'') (\<lambda>console.
       Inr \<lparr>lg_file = file, lg_max_file_size = word_of_int size, lg_max_files = word_of_int files,
            lg_console_enabled = console\<rparr>))))"

definition gw_httpServer :: "values \<Rightarrow> exn + HttpServerConfig" where
  "gw_httpServer v =
     (let int_or = (\<lambda>key d. if gw_findString v key \<noteq> None then gw_requireInt v key else Inr d)
      in ebind (int_or ''HTTP_WORKER_THREADS'' 20) (\<lambda>workers.
         ebind (int_or ''HTTP_LISTEN_BACKLOG'' 128) (\<lambda>backlog.
         ebind (int_or ''HTTP_MAX_CONCURRENT_CONNECTIONS'' 256) (\<lambda>conns.
         ebind (int_or ''HTTP_READ_TIMEOUT_SECONDS'' 10) (\<lambda>timeout.
         ebind (gw_requirePositive ''HTTP_WORKER_THREADS'' workers) (\<lambda>_.
         ebind (gw_requirePositive ''HTTP_LISTEN_BACKLOG'' backlog) (\<lambda>_.
         ebind (gw_requirePositive ''HTTP_MAX_CONCURRENT_CONNECTIONS'' conns) (\<lambda>_.
         ebind (gw_requirePositive ''HTTP_READ_TIMEOUT_SECONDS'' timeout) (\<lambda>_.
           Inr \<lparr>hs_worker_threads = workers, hs_listen_backlog = backlog,
                hs_max_concurrent_connections = conns, hs_read_timeout_seconds = timeout\<rparr>)))))))))"

lemma gw_views_same [same_code]: "gw_logger_cfg = logger_cfg" "gw_httpServer = httpServer"
  by (simp_all add: fun_eq_iff gw_logger_cfg_def logger_cfg_def gw_httpServer_def httpServer_def intOr_def same_code)


section \<open>gateway/common/logger.hpp\<close>

text \<open>The four patterns, read from their text again.\<close>

definition gw_jwt_pattern :: re where
  "gw_jwt_pattern =
     (let part = times 10 (Chr token_char) (Star (Chr token_char)); dot = Chr (\<lambda>c. c = CHR ''.'')
      in Seq (Group 1 part) (Seq dot (Seq (Group 2 part) (Seq dot (Group 3 part)))))"

definition gw_hash_pattern :: re where
  "gw_hash_pattern =
     (let hex = Chr is_hex_char in Seq WordBoundary (times 48 hex (Seq (up_to (128 - 48) hex) WordBoundary)))"

definition gw_key_value_sensitive_pattern :: re where
  "gw_key_value_sensitive_pattern =
     (let quote = opt (Chr (\<lambda>c. c = CHR 0x22));
          keys = [''password'', ''login_password'', ''pay_password'', ''token'', ''qr_token'', ''payment_auth_token'',
            ''secret'', ''id_card'', ''id_card_hash'', ''email_hash''];
          stop = (\<lambda>c. c \<in> set [CHR '','', CHR 0x22, CHR ''}'', CHR '']''] \<or> is_space_char c)
      in Seq (Group 1 (Seq (Group 2 quote) (Seq (Group 3 (one_of keys)) (Seq (Backref 2)
           (Seq spaces (Seq (Chr (\<lambda>c. c \<in> set ''=:'')) (Seq spaces quote)))))))
           (plus (Chr (\<lambda>c. \<not> stop c))))"

definition gw_header_sensitive_pattern :: re where
  "gw_header_sensitive_pattern =
     Seq (Group 1 (Seq (Group 2 (one_of [''Authorization'', ''Cookie'']))
       (Seq spaces (Seq (Chr (\<lambda>c. c = CHR '':'')) spaces))))
       (plus (Chr (\<lambda>c. c \<noteq> CHR 0x0D \<and> c \<noteq> CHR 0x0A \<and> c \<noteq> CHR '','')))"

definition gw_sanitize :: "string \<Rightarrow> string" where
  "gw_sanitize inp =
     (let out = inp;
          out = regex_replace gw_jwt_pattern (\<lambda>_. ''<JWT_REDACTED>'') None out;
          out = regex_replace gw_hash_pattern (\<lambda>_. ''<HASH_REDACTED>'') None out;
          out = regex_replace gw_key_value_sensitive_pattern (\<lambda>g. g 1 @ ''<REDACTED>'') None out;
          out = regex_replace gw_header_sensitive_pattern (\<lambda>g. g 1 @ ''<REDACTED>'') None out
      in out)"

lemma gw_patterns_same [same_code]:
  "gw_jwt_pattern = jwt_pattern" "gw_hash_pattern = hash_pattern"
  "gw_key_value_sensitive_pattern = key_value_sensitive_pattern"
  "gw_header_sensitive_pattern = header_sensitive_pattern"
proof -
  show "gw_jwt_pattern = jwt_pattern" by (simp only: gw_jwt_pattern_def jwt_pattern_def token_part_def Let_def)
  have "128 - 48 = (80::nat)" by simp
  then show "gw_hash_pattern = hash_pattern" by (simp only: gw_hash_pattern_def hash_pattern_def Let_def)
  have "(\<lambda>c. \<not> (c \<in> set [CHR '','', CHR 0x22, CHR ''}'', CHR '']''] \<or> is_space_char c)) =
      (\<lambda>c. c \<notin> set [CHR '','', CHR 0x22, CHR ''}'', CHR '']''] \<and> \<not> is_space_char c)"
    by (rule ext) (rule de_Morgan_disj)
  then show "gw_key_value_sensitive_pattern = key_value_sensitive_pattern"
    by (simp only: gw_key_value_sensitive_pattern_def key_value_sensitive_pattern_def sensitive_keys_def Let_def)
  have "(\<lambda>c. c \<noteq> CHR 0x0D \<and> c \<noteq> CHR 0x0A \<and> c \<noteq> CHR '','') = (\<lambda>c. c \<notin> set [CHR 0x0D, CHR 0x0A, CHR '',''])"
    by (rule ext) simp
  then show "gw_header_sensitive_pattern = header_sensitive_pattern"
    by (simp only: gw_header_sensitive_pattern_def header_sensitive_pattern_def)
qed

lemma gw_sanitize_same [same_code]: "gw_sanitize = sanitize"
  by (rule ext) (simp only: gw_sanitize_def sanitize_def gw_patterns_same Let_def)

definition gw_formatMessage :: "logger \<Rightarrow> string \<Rightarrow> string list \<Rightarrow> string" where
  "gw_formatMessage lo fmt_text args =
     (if isl (lo_format lo fmt_text args)
      then format_error @ projl (lo_format lo fmt_text args) @ format_original @ fmt_text
      else projr (lo_format lo fmt_text args))"

definition gw_logger_init :: "bool \<Rightarrow> string option \<Rightarrow> (logger, bool) comp" where
  "gw_logger_init debug failure = (\<lambda>lo.
     if lo_initialized lo then (Inr False, lo)
     else case failure of
         Some err \<Rightarrow> (Inl (StdException err), lo\<lparr>lo_debug := debug\<rparr>)
       | None \<Rightarrow> (Inr True, lo\<lparr>lo_debug := debug, lo_open := True, lo_initialized := True\<rparr>))"

definition gw_logger_shutdown :: "(logger, unit) comp" where
  "gw_logger_shutdown = (\<lambda>lo. (Inr (), (if lo_open lo then lo\<lparr>lo_open := False\<rparr> else lo)\<lparr>lo_initialized := False\<rparr>))"

definition gw_logger_write :: "level \<Rightarrow> string \<Rightarrow> string list \<Rightarrow> (logger, unit) comp" where
  "gw_logger_write level fmt_text args = (\<lambda>lo.
     if level = Debug \<and> \<not> lo_debug lo then (Inr (), lo)
     else let message = gw_sanitize (gw_formatMessage lo fmt_text args)
       in if lo_open lo then (Inr (), lo\<lparr>lo_sink := lo_sink lo @ [(level, message)]\<rparr>)
          else (Inl (StdException ''Logger not initialized''), lo))"

lemma gw_logger_same [same_code]: "gw_formatMessage = formatMessage" "gw_logger_init = logger_init"
  "gw_logger_shutdown = logger_shutdown" "gw_logger_write = logger_write"
proof -
  show f: "gw_formatMessage = formatMessage"
    by (simp add: fun_eq_iff gw_formatMessage_def formatMessage_def split: sum.split)
  show "gw_logger_init = logger_init"
    by (simp add: fun_eq_iff gw_logger_init_def logger_init_def run_simps split: option.split)
  show "gw_logger_shutdown = logger_shutdown"
    by (simp add: fun_eq_iff gw_logger_shutdown_def logger_shutdown_def run_simps)
  show "gw_logger_write = logger_write"
    by (simp add: fun_eq_iff gw_logger_write_def logger_write_def run_simps f gw_sanitize_same Let_def)
qed

section \<open>gateway/common/http_server.hpp\<close>

text \<open>The descriptors that are open after \<open>createListenSocket\<close> and after the set-up of \<open>run\<close>.\<close>

definition gw_createListenSocket :: "listen_event \<Rightarrow> (nat, unit) comp" where
  "gw_createListenSocket ev = (\<lambda>n.
     if ev = SocketFails then (Inl (StdException M_socket_failed), n)
     else let opened = n + 1; closed = opened - 1
       in case ev of
            BindFails err \<Rightarrow> (Inl (StdException (M_bind_failed @ err)), closed)
          | ListenFails \<Rightarrow> (Inl (StdException M_listen_failed), closed)
          | _ \<Rightarrow> (Inr (), opened))"

definition gw_run_setup :: "listen_event \<Rightarrow> epoll_event \<Rightarrow> (nat, unit) comp" where
  "gw_run_setup lev eev = (\<lambda>n. case gw_createListenSocket lev n of
      (Inl e, n1) \<Rightarrow> (Inl e, n1)
    | (Inr _, n1) \<Rightarrow> (case eev of
        CreateFails err \<Rightarrow> (Inl (StdException (M_epoll_create_failed @ err)), n1 - 1)
      | CtlFails err \<Rightarrow> (Inl (StdException (M_epoll_ctl_failed @ err)), n1 + 1 - 1 - 1)
      | EpollWorks \<Rightarrow> (Inr (), n1 + 1)))"

definition gw_setReadTimeout :: "Options \<Rightarrow> int option" where
  "gw_setReadTimeout options =
     (if 0 < op_read_timeout_seconds options then Some (op_read_timeout_seconds options) else None)"

definition gw_releaseConnectionSlot :: "server \<Rightarrow> server" where
  "gw_releaseConnectionSlot s = s\<lparr>sv_active := sv_active s - 1\<rparr>"

lemma gw_server_same [same_code]: "gw_createListenSocket = createListenSocket" "gw_run_setup = run_setup"
  "gw_setReadTimeout = setReadTimeout" "gw_releaseConnectionSlot = releaseConnectionSlot"
proof -
  show l: "gw_createListenSocket = createListenSocket"
    by (simp add: fun_eq_iff gw_createListenSocket_def createListenSocket_def run_simps split: listen_event.split)
  show "gw_run_setup = run_setup"
  proof (intro ext)
    fix lev eev n
    obtain r n1 where "createListenSocket lev n = (r, n1)" by force
    then show "gw_run_setup lev eev n = run_setup lev eev n"
      by (cases r; cases eev) (simp_all add: gw_run_setup_def run_setup_def run_simps l)
  qed
  show "gw_setReadTimeout = setReadTimeout" by (simp add: fun_eq_iff gw_setReadTimeout_def setReadTimeout_def)
  show "gw_releaseConnectionSlot = releaseConnectionSlot"
    by (simp add: fun_eq_iff gw_releaseConnectionSlot_def releaseConnectionSlot_def)
qed


section \<open>gateway/common/thread_pool.hpp\<close>

definition gw_worker_init :: "int \<Rightarrow> 't worker_pool \<Rightarrow> 't worker_pool" where
  "gw_worker_init worker_count p =
     (if wk_initialized p then p else p\<lparr>wk_count := max 4 worker_count, wk_initialized := True\<rparr>)"

definition gw_uninit_text :: string where
  "gw_uninit_text = utf8 [103, 97, 116, 101, 119, 97, 121, 95, 104, 116, 116, 112, 58, 58, 87, 111, 114, 107, 101, 114, 80,
     111, 111, 108, 32, 230, 156, 170, 229, 136, 157, 229, 167, 139, 229, 140, 150]"

definition gw_worker_submit :: "'t \<Rightarrow> ('t worker_pool, unit) comp" where
  "gw_worker_submit task = (\<lambda>p.
     if \<not> wk_initialized p then (Inl (StdException gw_uninit_text), p)
     else if wk_stop p then (Inr (), p)
     else (Inr (), p\<lparr>wk_tasks := wk_tasks p @ [task]\<rparr>))"

definition gw_worker_stop :: "'t worker_pool \<Rightarrow> 't worker_pool" where
  "gw_worker_stop p = p\<lparr>wk_stop := True\<rparr>"

definition gw_worker_turn :: "'t worker_pool \<Rightarrow> turn \<times> 't worker_pool" where
  "gw_worker_turn p =
     (if \<not> wk_stop p \<and> wk_tasks p = [] then (Waits, p)
      else if wk_stop p \<and> wk_tasks p = [] then (Leaves, p)
      else (Runs, p\<lparr>wk_tasks := tl (wk_tasks p), wk_started := wk_started p @ [hd (wk_tasks p)]\<rparr>))"

lemma gw_workers_same [same_code]: "gw_worker_init = worker_init" "gw_worker_stop = worker_stop"
  "gw_worker_turn = worker_turn"
  by (simp_all add: fun_eq_iff gw_worker_init_def worker_init_def max_def gw_worker_stop_def worker_stop_def
      gw_worker_turn_def worker_turn_def split: list.split)

text \<open>\<open>submit\<close> differs in the text of its exception.\<close>

lemma gw_worker_submit_same: "wk_initialized p \<Longrightarrow> gw_worker_submit task p = worker_submit task p"
  by (simp add: gw_worker_submit_def worker_submit_def run_simps)

section \<open>gateway/gateway_impl.hpp\<close>

fun gw_toLower :: "string \<Rightarrow> string" where
  "gw_toLower [] = []"
| "gw_toLower (c # cs) = tolower c # gw_toLower cs"

fun gw_header_loop :: "string \<Rightarrow> (string \<times> string) list \<Rightarrow> string" where
  "gw_header_loop key [] = []"
| "gw_header_loop key (item # items) = (if gw_toLower (fst item) = key then snd item else gw_header_loop key items)"

definition gw_headerValue :: "'a HttpRequest_scheme \<Rightarrow> string \<Rightarrow> string" where
  "gw_headerValue req name = gw_header_loop (gw_toLower name) (req_headers req)"

text \<open>\<open>while (!key.empty() && key.front() == ' ')\<close>.\<close>

fun erase_front :: "string \<Rightarrow> string" where
  "erase_front [] = []"
| "erase_front (c # cs) = (if c = CHR '' '' then erase_front cs else c # cs)"

function gw_cookieValue :: "string \<Rightarrow> string \<Rightarrow> string" where
  "gw_cookieValue cookie_header name =
     (if cookie_header = [] then []
      else
        let semi = cut CHR '';'' cookie_header;
            part = (case semi of None \<Rightarrow> cookie_header | Some (p, _) \<Rightarrow> p);
            further = (case semi of None \<Rightarrow> [] | Some (_, rest) \<Rightarrow> gw_cookieValue rest name)
        in case cut CHR ''='' part of
             None \<Rightarrow> further
           | Some (key, value) \<Rightarrow> if erase_front key = name then erase_front value else further)"
  by pat_completeness auto

termination
  by (relation "measure (\<lambda>(s, _). length s)") (auto dest!: cut_length [OF sym])

declare gw_cookieValue.simps [simp del]

definition gw_makeOk :: "json \<Rightarrow> json" where
  "gw_makeOk data = JObject [(''code'', JInt 0), (''data'', data), (''message'', JString [])]"

definition gw_makeErr :: "int \<Rightarrow> string \<Rightarrow> json" where
  "gw_makeErr biz message = JObject [(''code'', JInt biz), (''data'', JObject []), (''message'', JString message)]"

lemma gw_toLower_same [same_code]: "gw_toLower = toLower"
proof
  fix s show "gw_toLower s = toLower s" by (induction s) (simp_all add: toLower_def)
qed

lemma gw_header_loop_same: "gw_header_loop key items = headerValue_loop key items"
  by (induction items) (auto simp: gw_toLower_same)

lemma erase_front_same: "erase_front s = strip_spaces s"
  by (induction s) (simp_all add: strip_spaces_def)

lemma gw_cookieValue_same [same_code]: "gw_cookieValue = cookieValue"
proof (intro ext)
  fix header name
  show "gw_cookieValue header name = cookieValue header name"
  proof (induction header name rule: cookieValue.induct)
    case (1 header name)
    have "gw_cookieValue rest name = cookieValue rest name" if "cut CHR '';'' header = Some (p, rest)" "header \<noteq> []"
        "\<nexists>k v. cut CHR ''='' p = Some (k, v) \<and> strip_spaces k = name" for p rest
    proof (cases "cut CHR ''='' p")
      case None
      with 1 [of p "Some rest" None rest] that show ?thesis by (simp add: next_part_def)
    next
      case (Some kv)
      with 1 [of p "Some rest" None rest] that show ?thesis
        by (cases kv) (auto simp: next_part_def)
    qed
    then show ?case
      by (subst gw_cookieValue.simps, subst cookieValue.simps)
         (auto simp: next_part_def erase_front_same Let_def split: option.splits)
  qed
qed

lemma gw_http_same [same_code]: "gw_headerValue = headerValue" "gw_makeOk = makeOk" "gw_makeErr = makeErr"
  by (simp_all add: fun_eq_iff gw_headerValue_def headerValue_def gw_header_loop_same gw_toLower_same gw_makeOk_def
      makeOk_def gw_makeErr_def makeErr_def)

section \<open>backend/common/jwt.hpp and main.cpp\<close>

text \<open>The helpers of \<open>HashService\<close> and \<open>JwtService\<close> that \<open>PasswordVerifier\<close> has too, and those of \<open>main\<close>.\<close>

definition hash_trim :: "string \<Rightarrow> string" where
  "hash_trim input = (case (find_first_not_blank input, find_last_not_blank input) of
      (Some start, Some last_pos) \<Rightarrow> substr input start (last_pos - start + 1)
    | _ \<Rightarrow> [])"

fun hash_toHex :: "string \<Rightarrow> string" where
  "hash_toHex [] = []"
| "hash_toHex (c # cs) = [hex_digit (code c div 16), hex_digit (code c mod 16)] @ hash_toHex cs"

definition hash_hmacSha256Hex :: "lib \<Rightarrow> string \<Rightarrow> string \<Rightarrow> string" where
  "hash_hmacSha256Hex L data secret =
     (let digest = (case hmac L SHA256 secret data of Some d \<Rightarrow> d | None \<Rightarrow> uninit_digest L) in hash_toHex digest)"

definition jwt_constantTimeEqual :: "lib \<Rightarrow> string \<Rightarrow> string \<Rightarrow> bool" where
  "jwt_constantTimeEqual L a b \<longleftrightarrow> length a = length b \<and> CRYPTO_memcmp L a b (length a) = 0"

definition main_trim :: "string \<Rightarrow> string" where
  "main_trim input =
     (if find_first_not_blank input = None then []
      else let start = the (find_first_not_blank input); last_pos = the (find_last_not_blank input)
        in substr input start (last_pos - start + 1))"

definition gw_resolveEnvPath :: "string list \<Rightarrow> exn + string" where
  "gw_resolveEnvPath argv = (case argv of
      _ # env_path # _ \<Rightarrow> if env_path = [] then Inl (StdException M_env_path_empty) else Inr env_path
    | _ \<Rightarrow> Inl (StdException M_env_path_missing))"

lemma not_blank_None: "find_first_not_blank s = None \<longleftrightarrow> find_last_not_blank s = None"
  by (simp add: find_first_not_blank_def find_last_not_blank_def)

lemma trims_same [same_code]: "hash_trim = trim" "main_trim = trim"
proof -
  have "hash_trim = gw_trim" "main_trim = gw_trim"
    by (auto simp: fun_eq_iff hash_trim_def main_trim_def gw_trim_def not_blank_None Let_def split: option.splits)
  then show "hash_trim = trim" "main_trim = trim" by (simp_all add: gw_trim_same)
qed

lemma hash_toHex_same [same_code]: "hash_toHex = toHex"
proof
  fix s show "hash_toHex s = toHex s" by (induction s) simp_all
qed

lemma hash_helpers_same [same_code]: "hash_hmacSha256Hex = hmacSha256Hex" "jwt_constantTimeEqual = constantTimeEqual"
  by (simp_all add: fun_eq_iff hash_hmacSha256Hex_def hmacSha256Hex_def hash_toHex_same jwt_constantTimeEqual_def
      constantTimeEqual_def Let_def split: option.split)

section \<open>gateway/common/ws_registry.hpp\<close>

definition ws_trim :: "string \<Rightarrow> string" where
  "ws_trim input = (case find_first_not_blank input of
      None \<Rightarrow> []
    | Some start \<Rightarrow>
        let last_pos = the (find_last_not_blank input) in substr input start (last_pos - start + 1))"

text \<open>The loop assigns to each character of its argument.\<close>

definition ws_toLower :: "string \<Rightarrow> string" where
  "ws_toLower value = foldl (\<lambda>v i. v[i := tolower (v ! i)]) value [0..<length value]"

lemma ws_toLower_loop:
  "n \<le> length s \<Longrightarrow> foldl (\<lambda>v i. v[i := tolower (v ! i)]) s [0..<n] = map tolower (take n s) @ drop n s"
proof (induction n)
  case (Suc n)
  then have "drop n s = s ! n # drop (Suc n) s" by (simp add: Cons_nth_drop_Suc)
  with Suc show ?case by (simp add: nth_append list_update_append take_Suc_conv_app_nth)
qed simp

lemma ws_text_same [same_code]: "ws_trim = trim" "ws_toLower = toLower"
proof -
  have "ws_trim = gw_trim"
    by (auto simp: fun_eq_iff ws_trim_def gw_trim_def not_blank_None Let_def split: option.splits)
       (metis not_blank_None option.distinct(1))
  then show "ws_trim = trim" by (simp add: gw_trim_same)
  show "ws_toLower = toLower" by (simp add: fun_eq_iff ws_toLower_def ws_toLower_loop toLower_def)
qed

section \<open>backend/common/gateway_notify.hpp\<close>

text \<open>The loop of \<open>sendAll\<close> by its index \<open>sent\<close>.\<close>

fun notify_send_loop :: "int list \<Rightarrow> string \<Rightarrow> nat \<Rightarrow> bool \<times> nat \<times> int list" where
  "notify_send_loop [] data sent = (True, length data, [])"
| "notify_send_loop (n # ns) data sent =
     (if \<not> sent < length data then (True, sent, n # ns)
      else if n \<le> 0 then (False, sent, ns)
      else notify_send_loop ns data (sent + nat n))"

definition notify_sendAll :: "string \<Rightarrow> (link, bool) comp" where
  "notify_sendAll data = (\<lambda>l. case notify_send_loop (ln_writes l) data 0 of
      (ok, sent, ns) \<Rightarrow> (Inr ok, l\<lparr>ln_writes := ns, ln_sent := ln_sent l @ [take sent data]\<rparr>))"

lemma notify_send_loop:
  "notify_send_loop ns data sent = (ok, k, ns') \<Longrightarrow>
     min sent (length data) \<le> k \<and> send_loop ns (drop sent data) = (ok, drop sent (take k data), ns')"
proof (induction ns data sent rule: notify_send_loop.induct)
  case (2 n ns data sent)
  show ?case
  proof (cases "sent < length data \<and> 0 < n")
    case True
    with 2 have k: "min (sent + nat n) (length data) \<le> k"
      and r: "send_loop ns (drop (nat n) (drop sent data)) = (ok, drop (sent + nat n) (take k data), ns')"
      by (auto simp: add.commute)
    have "take (nat n) (drop sent data) = take (nat n) (drop sent (take k data))"
      using k by (simp add: take_drop min_def split: if_splits)
    then have "take (nat n) (drop sent data) @ drop (sent + nat n) (take k data) = drop sent (take k data)"
      by (metis add.commute append_take_drop_id drop_drop)
    with True r k show ?thesis by auto
  next
    case False
    with "2.prems" show ?thesis by (auto split: if_splits)
  qed
qed auto

lemma notify_sendAll_same [same_code]: "notify_sendAll = sendAll"
proof (intro ext)
  fix data and l :: link
  obtain ok k ns where k: "notify_send_loop (ln_writes l) data 0 = (ok, k, ns)" by (metis prod_cases3)
  with notify_send_loop [OF k] show "notify_sendAll data l = sendAll data l"
    by (simp add: notify_sendAll_def sendAll_def)
qed

section \<open>The levels of the logger, and the signals of the gateway\<close>

definition log_debug :: "string \<Rightarrow> string list \<Rightarrow> (logger, unit) comp" where
  "log_debug fmt_text args = logger_write Debug fmt_text args"

definition log_info :: "string \<Rightarrow> string list \<Rightarrow> (logger, unit) comp" where
  "log_info fmt_text args = logger_write Info fmt_text args"

definition log_warn :: "string \<Rightarrow> string list \<Rightarrow> (logger, unit) comp" where
  "log_warn fmt_text args = logger_write Warn fmt_text args"

definition log_error :: "string \<Rightarrow> string list \<Rightarrow> (logger, unit) comp" where
  "log_error fmt_text args = logger_write Err fmt_text args"

definition gw_log_debug :: "string \<Rightarrow> string list \<Rightarrow> (logger, unit) comp" where
  "gw_log_debug fmt_text args = gw_logger_write Debug fmt_text args"

definition gw_log_info :: "string \<Rightarrow> string list \<Rightarrow> (logger, unit) comp" where
  "gw_log_info fmt_text args = gw_logger_write Info fmt_text args"

definition gw_log_warn :: "string \<Rightarrow> string list \<Rightarrow> (logger, unit) comp" where
  "gw_log_warn fmt_text args = gw_logger_write Warn fmt_text args"

definition gw_log_error :: "string \<Rightarrow> string list \<Rightarrow> (logger, unit) comp" where
  "gw_log_error fmt_text args = gw_logger_write Err fmt_text args"

lemma gw_levels_same [same_code]: "gw_log_debug = log_debug" "gw_log_info = log_info" "gw_log_warn = log_warn"
  "gw_log_error = log_error"
  by (simp_all add: fun_eq_iff gw_log_debug_def log_debug_def gw_log_info_def log_info_def gw_log_warn_def
      log_warn_def gw_log_error_def log_error_def gw_logger_same)

text \<open>A line of \<open>debug\<close> is dropped without an error, one of the others needs an open logger.\<close>

lemma log_levels:
  "\<not> lo_debug lo \<Longrightarrow> log_debug fmt_text args lo = (Inr (), lo)"
  "lo_open lo \<Longrightarrow> log_info fmt_text args lo =
     (Inr (), lo\<lparr>lo_sink := lo_sink lo @ [(Info, sanitize (formatMessage lo fmt_text args))]\<rparr>)"
  "\<not> lo_open lo \<Longrightarrow> log_error fmt_text args lo = (Inl (StdException ''Logger not initialized''), lo)"
  by (simp_all add: log_debug_def log_info_def log_error_def logger_write_def run_simps)

definition gw_installShutdownHandlers :: "boot \<Rightarrow> exn + unit" where
  "gw_installShutdownHandlers B =
     (if bt_sigint_error B \<noteq> None then Inl (StdException (M_signal_failed @ the (bt_sigint_error B)))
      else if bt_sigterm_error B \<noteq> None then Inl (StdException (M_signal_failed @ the (bt_sigterm_error B)))
      else Inr ())"

lemma gw_signals_same [same_code]: "gw_installShutdownHandlers = installShutdownHandlers"
  by (auto simp: fun_eq_iff gw_installShutdownHandlers_def installShutdownHandlers_def split: option.split)

end
