(* ===== verification/Spec2Isabelle.thy ===== *)
theory Spec2Isabelle
  imports Witnesses GatewayWitnesses StartWitnesses EndWitnesses RaceWitnesses SqlWitnesses FinalizeTests Copies
begin

text \<open>
  A verification library of the paid-account service: a C++ payment backend (src/backend) and the
  gateway in front of it (src/gateway).

  \<^bold>\<open>The program.\<close> A browser confirms an order (page A) and gets a QR code, a signed token that names a
  payment session, and a WebSocket address. A phone opens the token (page B), starts an attempt and
  pays with the buyer's login password. All requests go to the gateway, which looks the login session up
  in Redis and forwards the request to the backend under the identity of that session. The backend answers
  from worker threads; it keeps users, orders, accounts, payment sessions and attempts in MySQL, and login
  sessions in Redis, through two pools of connections. The payment itself is one MySQL transaction over
  four tables. After it a task in the worker pool sends the result to the gateway, which pushes it to the
  WebSocket that the session is bound to.

  \<^bold>\<open>The theories and the code they model: what both processes share.\<close>
  \<^item> \<open>Prelude\<close>, \<open>Text\<close>, \<open>Numbers\<close>: computations with exceptions on a state, \<open>std::string\<close>, and numbers as
    text (\<open>stoi\<close> and its kin, with their ranges and exceptions).
  \<^item> \<open>Messages\<close>: the Chinese message texts of the code as UTF-8 bytes. \<open>Library\<close>: the third-party functions
    (nlohmann::json, OpenSSL, MySQL's formatting and collation) as a record of unknown functions, with
    predicates that state their documented behaviour.
  \<^item> \<open>Config\<close>, \<open>GatewayConfig\<close>: common/config.hpp of both. \<open>Logger\<close>: common/logger.hpp with the regular
    expressions of its redaction.
  \<^item> \<open>Pool\<close>: what the connection pools have in common, the queue, the borrowed connections and the guard
    that returns a connection on every path; the interfaces \<open>conn_pool\<close> and \<open>tight_pool\<close>. \<open>PoolInit\<close>: their
    filling at start-up, the interface \<open>pool_filling\<close>. \<open>PoolThreads\<close>: the three pools under threads, section
    by section, with the mutex, the condition variable and the guards as objects that are moved; the interface
    \<open>acquire_sections\<close> says that the operations of the other theories are runs of these sections.
  \<^item> \<open>ThreadPool\<close>: the worker pools. \<open>HttpServer\<close>: common/http_server.hpp, the accepting thread and the workers
    as interleaved steps. \<open>Shutdown\<close>: the same threads from the signal to the end of the process, with the
    destruction of the static objects. \<open>HttpWire\<close>: reading a request from the blocks of a socket and writing an answer
    (main.cpp of both).
  \<^item> \<open>Copies\<close>: the code that is in the repository twice, translated a second time and proved equal; so one model
    stands for both everywhere else.

  \<^bold>\<open>The backend.\<close>
  \<^item> \<open>Password\<close>: backend/common/password_verifier.hpp. \<open>Jwt\<close>: backend/common/jwt.hpp. \<open>HttpText\<close>: the HTTP
    helpers of backend/payment_impl.hpp.
  \<^item> \<open>Tables\<close>: the rows of the schema documents, the SELECT lists and the row parsers of
    backend/common/mysql_pool.hpp. \<open>MySqlPool\<close>: its pool, its statements and its operations, with
    \<open>finalizePaymentSuccess\<close>. \<open>SqlText\<close>: the text of every statement, its escaping, and how a server reads
    string literals.
  \<^item> \<open>RedisServer\<close>, \<open>RedisPool\<close>: backend/common/redis_pool.hpp, over commands that may be served, refused or
    lost; the interfaces \<open>session_reader\<close> and \<open>session_service\<close>.
  \<^item> \<open>PaymentImpl\<close>: the handlers and the dispatch of backend/payment_impl.hpp, on a \<open>world\<close> of the two
    pools, the worker pool and the random generator. \<open>BackendServer\<close>: one connection of backend/main.cpp.
    \<open>GatewayNotify\<close>: backend/common/gateway_notify.hpp. \<open>BackendMain\<close>: \<open>main\<close>.

  \<^bold>\<open>The gateway.\<close>
  \<^item> \<open>SessionStore\<close>: gateway/common/session_store.hpp. \<open>SocketClient\<close>, \<open>Forwarder\<close>:
    gateway/common/http_forwarder.hpp. \<open>Gateway\<close>: gateway/gateway_impl.hpp and one connection of
    gateway/main.cpp, on a \<open>gworld\<close> of the Redis pool, the registry and the connections to the backend.
  \<^item> \<open>WsHelpers\<close>: gateway/common/ws_registry.hpp. \<open>WsServer\<close>: the WebSocket server of gateway/main.cpp, its
    accepting loop and its threads as interleaved steps. \<open>GatewayMain\<close>: \<open>main\<close>.

  \<^bold>\<open>Both processes.\<close> \<open>System\<close>: a request through the gateway to the backend and back, and a login that the
  gateway recognises. \<open>PushPath\<close>: the way of a payment result to the browser. \<open>Cluster\<close>: the two worker pools
  that wait for each other.

  \<^bold>\<open>The lemmas.\<close>
  \<^item> \<open>MySqlProps\<close>: every operation borrows and returns connections correctly.
  \<^item> \<open>DbSteps\<close>: an abstract machine whose steps are the statements of the program and a whole payment
    (\<open>can_pay\<close>, \<open>pay_db\<close>), its invariant \<open>db_ok\<close> (ranges and UNIQUE keys), and that it sells an account
    once. \<open>MySqlRefine\<close>: every operation of \<open>MySqlPool\<close> makes steps of that machine, whatever fails; for
    the transaction, the stages of its body are followed up to \<open>finalize_outcome\<close>.
  \<^item> \<open>PaymentVerdict\<close>: what the transaction decides when nothing fails, as a list of requirements on the tables
    (\<open>verdict_of\<close>). \<open>FinalizeTests\<close>: the tests of backend/tests/test_payment_finalize.cpp follow from it.
    \<open>LastConnection\<close>: what it cannot record when the pool has no second connection.
  \<^item> \<open>PaymentProps\<close>: the locales \<open>mysql_frame\<close> and \<open>handler_frame\<close> lift a relation that all operations keep
    to the handlers and to sequences of requests (\<open>serve\<close>); they are interpreted with the ownership of
    connections and with the abstract machine. \<open>PayProps\<close>: what the answers of \<open>handlePay\<close> mean.
  \<^item> \<open>Interleaving\<close>: programs cut into actions, schedules, and the rely-guarantee rules as the locale
    \<open>interference\<close>. \<open>PaymentThreads\<close>: the handlers as such programs, each equal to the handler of
    \<open>PaymentImpl\<close> when it is not interrupted. \<open>PaymentRace\<close>: the interpretation with \<open>safe\<close>, the steps of the
    abstract machine that record no success without a payment, and what holds under every schedule.
  \<^item> \<open>HttpWire\<close> and \<open>Forwarder\<close> prove that a message is read back from any blocks it is cut into
    (\<open>read_message\<close>, \<open>read_forwarded\<close>, \<open>read_response\<close>), and that whatever is read from a prefix of a
    message is that message (\<open>read_message_sound\<close>); \<open>GatewayProps\<close> uses them for what the backend sees.
  \<^item> \<open>HttpServer\<close>, \<open>WsServer\<close>, \<open>Cluster\<close>, \<open>PoolThreads\<close>, \<open>Shutdown\<close>: an invariant over all interleavings each, and
    a measure of the steps left where there is one. \<open>Logger\<close>: the locale \<open>redaction\<close>, interpreted with the four patterns.
  \<^item> \<open>JwtProps\<close>, \<open>WsProps\<close>: round trips of tokens, Base64 and frames, and the registry of WebSockets.
  \<^item> \<open>Demo\<close>, \<open>Witnesses\<close>, \<open>GatewayWitnesses\<close>, \<open>StartWitnesses\<close>, \<open>EndWitnesses\<close>, \<open>RaceWitnesses\<close>, \<open>SqlWitnesses\<close>:
    a concrete library, configuration, database and network, and every property with hypotheses applied to it.

  \<^bold>\<open>Choices and bounds.\<close> SQL statements and Redis commands are program text and are given their meaning on
  tables and on the key space. That a statement means its effect on the tables is a translation by hand; that a
  value in it cannot change the statement is proved of its text (\<open>SqlText\<close>). Failures of the network
  and the servers are lists of events in the state, consumed in order and harmless once empty, so a
  theorem about all states covers every failure pattern; a peer is a function from what was sent to the
  blocks that are read. One operation of \<open>MySqlPool\<close> runs between two changes by others (\<open>PaymentThreads\<close>
  says why); \<open>PaymentRace\<close> lets requests overlap at these points, the other properties of the handlers speak of
  one request or of requests one after another. The clock is an argument and stands
  still during one request. Every loop is a structural recursion or a \<open>function\<close> with a termination proof;
  no fuel is used. Machine integers are unbounded integers with their range checks written out, and words
  where a conversion wraps around (\<open>Config\<close>, the ports). Log statements of the modelled code are left out
  of it; the logger is modelled for itself.

  \<^bold>\<open>Not modelled.\<close> The waiting in epoll and poll; the WebSocket threads of the gateway during a shutdown, which
  are detached; spdlog; the front end and the scripts; of the tests, those that drive servers and services. \<open>HttpServer\<close> and \<open>Shutdown\<close> count the tasks of
  connections only: the notifications, which share the backend's worker pool with them, are in \<open>Cluster\<close>.
\<close>

end
